(* ===== verification/Go_Prelude.thy ===== *)
theory Go_Prelude
  imports Complex_Main "HOL-Library.Char_ord" "HOL-Library.List_Lexorder" "HOL-Library.Sublist"
begin

text \<open>
  Shared vocabulary of the development. A Go \<open>string\<close> is a byte sequence and is modelled by
  \<^typ>\<open>string\<close> (a list of 8-bit characters); the helpers of the package \<open>strings\<close> that the
  sources call are defined here with Go's names. Case mapping and white space are Go's rules on
  ASCII text: a byte above 127 is never a letter and never a space.

  A Go \<open>error\<close> result is \<^typ>\<open>'e option\<close> (\<open>None\<close> is \<open>nil\<close>), a pair \<open>(value, error)\<close> is the sum
  \<^typ>\<open>'e + 'a\<close>, a Go map that the code only looks keys up in is \<^typ>\<open>'k \<rightharpoonup> 'v\<close>, and a Go map that
  the code ranges over is an association list read by \<^const>\<open>map_of\<close>, whose order stands for one
  of the iteration orders Go may choose.

  The collections \<open>go_simps\<close> (evaluation of string helpers) and \<open>err_simps\<close> (error plumbing) carry
  the component proofs.
\<close>

named_theorems go_simps
named_theorems err_simps

section \<open>Bytes and case mapping\<close>

abbreviation byte :: "char \<Rightarrow> nat" where
  "byte c \<equiv> of_char c"

definition is_upper :: "char \<Rightarrow> bool" where
  "is_upper c \<longleftrightarrow> 65 \<le> byte c \<and> byte c \<le> 90"

definition is_lower :: "char \<Rightarrow> bool" where
  "is_lower c \<longleftrightarrow> 97 \<le> byte c \<and> byte c \<le> 122"

definition is_digit :: "char \<Rightarrow> bool" where
  "is_digit c \<longleftrightarrow> 48 \<le> byte c \<and> byte c \<le> 57"

definition lower_char :: "char \<Rightarrow> char" where
  "lower_char c = (if is_upper c then char_of (byte c + 32) else c)"

definition upper_char :: "char \<Rightarrow> char" where
  "upper_char c = (if is_lower c then char_of (byte c - 32) else c)"

definition ToLower :: "string \<Rightarrow> string" where
  "ToLower s = map lower_char s"

definition ToUpper :: "string \<Rightarrow> string" where
  "ToUpper s = map upper_char s"

definition EqualFold :: "string \<Rightarrow> string \<Rightarrow> bool" where
  "EqualFold s t \<longleftrightarrow> ToLower s = ToLower t"

lemma byte_less_256: "byte c < 256"
  using of_char_mod_256 [of c, where ?'a = nat] by (metis mod_less_divisor zero_less_numeral)

lemma byte_lower_char: "byte (lower_char c) = (if is_upper c then byte c + 32 else byte c)"
  by (auto simp: lower_char_def is_upper_def take_bit_eq_mod)

lemma byte_upper_char: "byte (upper_char c) = (if is_lower c then byte c - 32 else byte c)"
  using byte_less_256 [of c] by (auto simp: upper_char_def is_lower_def take_bit_eq_mod)

lemma byte_inject: "byte c = byte d \<longleftrightarrow> c = d"
  by (metis char_of_char)

lemma lower_char_idem [simp]: "lower_char (lower_char c) = lower_char c"
  unfolding byte_inject [symmetric] byte_lower_char is_upper_def by auto

lemma upper_char_idem [simp]: "upper_char (upper_char c) = upper_char c"
  unfolding byte_inject [symmetric] byte_upper_char is_lower_def by auto

lemma ToLower_idem [simp]: "ToLower (ToLower s) = ToLower s"
  by (simp add: ToLower_def)

lemma ToUpper_idem [simp]: "ToUpper (ToUpper s) = ToUpper s"
  by (simp add: ToUpper_def)

lemma ToLower_append [simp]: "ToLower (s @ t) = ToLower s @ ToLower t"
  by (simp add: ToLower_def)

lemma length_ToLower [simp]: "length (ToLower s) = length s"
  by (simp add: ToLower_def)

lemma ToLower_eq_Nil [simp]: "ToLower s = [] \<longleftrightarrow> s = []"
  by (simp add: ToLower_def)

lemma EqualFold_refl [simp]: "EqualFold s s"
  by (simp add: EqualFold_def)

lemma EqualFold_sym: "EqualFold s t \<longleftrightarrow> EqualFold t s"
  by (auto simp: EqualFold_def)

lemma EqualFold_trans: "EqualFold s t \<Longrightarrow> EqualFold t u \<Longrightarrow> EqualFold s u"
  by (simp add: EqualFold_def)

section \<open>White space, trimming and fields\<close>

definition is_space :: "char \<Rightarrow> bool" where
  "is_space c \<longleftrightarrow> byte c \<in> {9, 10, 11, 12, 13, 32}"

definition TrimLeftFunc :: "(char \<Rightarrow> bool) \<Rightarrow> string \<Rightarrow> string" where
  "TrimLeftFunc p s = dropWhile p s"

definition TrimRightFunc :: "(char \<Rightarrow> bool) \<Rightarrow> string \<Rightarrow> string" where
  "TrimRightFunc p s = rev (dropWhile p (rev s))"

definition TrimSpace :: "string \<Rightarrow> string" where
  "TrimSpace s = TrimRightFunc is_space (TrimLeftFunc is_space s)"

definition TrimRight :: "string \<Rightarrow> string \<Rightarrow> string" where
  "TrimRight s cutset = TrimRightFunc (\<lambda>c. c \<in> set cutset) s"

fun fields_aux :: "string \<Rightarrow> string \<Rightarrow> string list" where
  "fields_aux [] acc = (if acc = [] then [] else [rev acc])"
| "fields_aux (c # s) acc =
     (if is_space c then (if acc = [] then fields_aux s [] else rev acc # fields_aux s [])
      else fields_aux s (c # acc))"

definition Fields :: "string \<Rightarrow> string list" where
  "Fields s = fields_aux s []"

lemma TrimRightFunc_prefix: "\<exists>t. s = TrimRightFunc p s @ t \<and> list_all p t"
proof -
  have "rev s = takeWhile p (rev s) @ dropWhile p (rev s)" by simp
  then have "s = TrimRightFunc p s @ rev (takeWhile p (rev s))"
    unfolding TrimRightFunc_def by (metis rev_append rev_rev_ident)
  moreover have "list_all p (rev (takeWhile p (rev s)))"
    by (auto simp: list_all_iff dest: set_takeWhileD)
  ultimately show ?thesis by blast
qed

lemma TrimRightFunc_append_last:
  "\<not> p c \<Longrightarrow> TrimRightFunc p (s @ c # t) = s @ TrimRightFunc p (c # t)"
  by (simp add: TrimRightFunc_def dropWhile_append3)

lemma TrimRightFunc_snoc [simp]:
  "TrimRightFunc p (s @ [c]) = (if p c then TrimRightFunc p s else s @ [c])"
  by (simp add: TrimRightFunc_def)

lemma TrimRightFunc_idem [simp]: "TrimRightFunc p (TrimRightFunc p s) = TrimRightFunc p s"
  by (induction s rule: rev_induct) (auto simp: TrimRightFunc_def)

lemma TrimRightFunc_eq_Nil: "TrimRightFunc p s = [] \<longleftrightarrow> list_all p s"
  by (auto simp: TrimRightFunc_def list_all_iff)

lemma TrimSpace_eq_Nil [simp]: "TrimSpace s = [] \<longleftrightarrow> list_all is_space s"
proof -
  have "list_all is_space (dropWhile is_space s) \<longleftrightarrow> list_all is_space s"
    by (induction s) auto
  then show ?thesis by (simp add: TrimSpace_def TrimLeftFunc_def TrimRightFunc_eq_Nil)
qed

lemma TrimSpace_Nil [simp]: "TrimSpace [] = []"
  by (simp add: TrimSpace_def TrimLeftFunc_def TrimRightFunc_def)

lemma set_TrimSpace: "set (TrimSpace s) \<subseteq> set s"
  by (fastforce simp: TrimSpace_def TrimLeftFunc_def TrimRightFunc_def dest: set_dropWhileD)

section \<open>Searching, splitting and joining\<close>

definition HasPrefix :: "string \<Rightarrow> string \<Rightarrow> bool" where
  "HasPrefix s p \<longleftrightarrow> prefix p s"

definition TrimPrefix :: "string \<Rightarrow> string \<Rightarrow> string" where
  "TrimPrefix s p = (if prefix p s then drop (length p) s else s)"

fun Contains :: "string \<Rightarrow> string \<Rightarrow> bool" where
  "Contains [] p \<longleftrightarrow> p = []"
| "Contains (c # s) p \<longleftrightarrow> prefix p (c # s) \<or> Contains s p"

fun IndexByte :: "string \<Rightarrow> char \<Rightarrow> nat option" where
  "IndexByte [] b = None"
| "IndexByte (c # s) b = (if c = b then Some 0 else map_option Suc (IndexByte s b))"

fun split_aux :: "char \<Rightarrow> string \<Rightarrow> string \<Rightarrow> string list" where
  "split_aux d [] acc = [rev acc]"
| "split_aux d (c # s) acc =
     (if c = d then rev acc # split_aux d s [] else split_aux d s (c # acc))"

definition Split :: "string \<Rightarrow> char \<Rightarrow> string list" where
  "Split s d = split_aux d s []"

fun Join :: "string list \<Rightarrow> string \<Rightarrow> string" where
  "Join [] sep = []"
| "Join [x] sep = x"
| "Join (x # y # xs) sep = x @ sep @ Join (y # xs) sep"

lemma Contains_iff: "Contains s p \<longleftrightarrow> (\<exists>u v. s = u @ p @ v)"
proof (induction s)
  case Nil
  then show ?case by auto
next
  case (Cons c s)
  have "(\<exists>u v. c # s = u @ p @ v) \<longleftrightarrow> prefix p (c # s) \<or> (\<exists>u v. s = u @ p @ v)"
    (is "?L \<longleftrightarrow> ?R")
  proof
    assume ?L
    then obtain u v where "c # s = u @ p @ v" by blast
    then show ?R by (cases u) (auto simp: prefix_def)
  next
    assume ?R
    then show ?L
    proof
      assume "prefix p (c # s)"
      then show ?L by (auto simp: prefix_def intro: exI [of _ "[]"])
    next
      assume "\<exists>u v. s = u @ p @ v"
      then obtain u v where "c # s = (c # u) @ p @ v" by auto
      then show ?L by blast
    qed
  qed
  with Cons.IH show ?case by simp
qed

lemma Contains_char: "Contains s [c] \<longleftrightarrow> c \<in> set s"
  by (induction s) auto

lemma IndexByte_None: "IndexByte s b = None \<longleftrightarrow> b \<notin> set s"
  by (induction s) auto

lemma IndexByte_Some:
  "IndexByte s b = Some i \<Longrightarrow> i < length s \<and> s ! i = b \<and> b \<notin> set (take i s)"
  by (induction s arbitrary: i) (auto split: if_splits)

lemma split_aux_append:
  "d \<notin> set s \<Longrightarrow> split_aux d (s @ t) acc = split_aux d t (rev s @ acc)"
  by (induction s arbitrary: acc) auto

lemma Split_nodelim: "d \<notin> set s \<Longrightarrow> Split s d = [s]"
  using split_aux_append [of d s "[]" "[]"] by (simp add: Split_def)

lemma Split_append_delim: "d \<notin> set s \<Longrightarrow> Split (s @ d # t) d = s # Split t d"
  using split_aux_append [of d s "d # t" "[]"] by (simp add: Split_def)

lemma length_split_aux: "length (split_aux d s acc) \<le> length s + 1"
  by (induction d s acc rule: split_aux.induct) auto

lemma length_Split: "length (Split s d) \<le> length s + 1"
  using length_split_aux [of d s "[]"] by (simp add: Split_def)

lemma split_aux_ne [simp]: "split_aux d s acc \<noteq> []"
  by (induction d s acc rule: split_aux.induct) auto

lemma Split_ne [simp]: "Split s d \<noteq> []"
  by (simp add: Split_def)

lemma find_append: "find P (xs @ ys) = (case find P xs of None \<Rightarrow> find P ys | Some x \<Rightarrow> Some x)"
  by (induction xs) auto

lemma find_Some: "find P xs = Some x \<Longrightarrow> P x \<and> x \<in> set xs"
  by (induction xs) (auto split: if_splits)

section \<open>Loops that stop at the first error, and loops that collect without duplicates\<close>

fun first_err :: "('a \<Rightarrow> 'e option) \<Rightarrow> 'a list \<Rightarrow> 'e option" where
  "first_err f [] = None"
| "first_err f (x # xs) = (case f x of Some e \<Rightarrow> Some e | None \<Rightarrow> first_err f xs)"

lemma first_err_None [err_simps]: "first_err f xs = None \<longleftrightarrow> (\<forall>x\<in>set xs. f x = None)"
  by (induction xs) (auto split: option.splits)

lemma first_err_Some:
  "first_err f xs = Some e \<Longrightarrow> \<exists>ys x zs. xs = ys @ x # zs \<and> f x = Some e \<and> (\<forall>y\<in>set ys. f y = None)"
proof (induction xs)
  case Nil
  then show ?case by simp
next
  case (Cons a xs)
  show ?case
  proof (cases "f a")
    case None
    with Cons obtain ys x zs where "xs = ys @ x # zs" "f x = Some e" "\<forall>y\<in>set ys. f y = None"
      by auto
    with None have "a # xs = (a # ys) @ x # zs \<and> f x = Some e \<and> (\<forall>y\<in>set (a # ys). f y = None)"
      by auto
    then show ?thesis by blast
  next
    case (Some e')
    with Cons.prems have "a # xs = [] @ a # xs \<and> f a = Some e \<and> (\<forall>y\<in>set []. f y = None)"
      by simp
    then show ?thesis by blast
  qed
qed

definition append_new :: "'a list \<Rightarrow> 'a \<Rightarrow> 'a list" where
  "append_new xs x = (if x \<in> set xs then xs else xs @ [x])"

definition collect_new :: "'a list \<Rightarrow> 'a list \<Rightarrow> 'a list" where
  "collect_new acc xs = foldl append_new acc xs"

lemma set_append_new [simp]: "set (append_new xs x) = insert x (set xs)"
  by (auto simp: append_new_def)

lemma distinct_append_new [simp]: "distinct (append_new xs x) = distinct xs"
  by (auto simp: append_new_def)

lemma append_new_prefix: "prefix xs (append_new xs x)"
  by (simp add: append_new_def)

lemma collect_new_Nil [simp]: "collect_new acc [] = acc"
  by (simp add: collect_new_def)

lemma collect_new_Cons [simp]: "collect_new acc (x # xs) = collect_new (append_new acc x) xs"
  by (simp add: collect_new_def)

lemma collect_new_append [simp]: "collect_new acc (xs @ ys) = collect_new (collect_new acc xs) ys"
  by (simp add: collect_new_def)

lemma set_collect_new [simp]: "set (collect_new acc xs) = set acc \<union> set xs"
  by (induction xs arbitrary: acc) auto

lemma distinct_collect_new [simp]: "distinct (collect_new acc xs) = distinct acc"
  by (induction xs arbitrary: acc) auto

lemma collect_new_prefix: "prefix acc (collect_new acc xs)"
proof (induction xs arbitrary: acc)
  case Nil
  then show ?case by simp
next
  case (Cons x xs)
  then show ?case using append_new_prefix [of acc x] by (auto intro: prefix_order.trans)
qed

lemma collect_new_absorb: "set xs \<subseteq> set acc \<Longrightarrow> collect_new acc xs = acc"
  by (induction xs arbitrary: acc) (auto simp: append_new_def)

section \<open>Quoting by doubling\<close>

text \<open>\<open>escape q b\<close> doubles every \<open>q\<close> in \<open>b\<close>; \<open>readDelimited q\<close> reads such a text back up to its
  closing \<open>q\<close>, as a SQL lexer does after the opening quote.\<close>

definition escape :: "char \<Rightarrow> string \<Rightarrow> string" where
  "escape q b = concat (map (\<lambda>c. if c = q then [q, q] else [c]) b)"

definition starts :: "string \<Rightarrow> char \<Rightarrow> bool" where
  "starts s c \<longleftrightarrow> s \<noteq> [] \<and> hd s = c"

fun readDelimited :: "char \<Rightarrow> string \<Rightarrow> (string \<times> string) option" where
  "readDelimited q [] = None"
| "readDelimited q [c] = (if c = q then Some ([], []) else None)"
| "readDelimited q (c # d # s) =
     (if c \<noteq> q then map_option (apfst (Cons c)) (readDelimited q (d # s))
      else if d = q then map_option (apfst (Cons q)) (readDelimited q s)
      else Some ([], d # s))"

lemma starts_simps [simp]: "starts [] c = False" "starts (d # s) c = (d = c)"
  by (auto simp: starts_def)

lemma starts_append: "starts (s @ t) c = (if s = [] then starts t c else starts s c)"
  by (cases s) auto

lemma escape_simps [simp]:
  "escape q [] = []" "escape q (c # b) = (if c = q then [q, q] else [c]) @ escape q b"
  by (simp_all add: escape_def)

lemma readDelimited_escape:
  "\<not> starts rest q \<Longrightarrow> readDelimited q (escape q b @ q # rest) = Some (b, rest)"
proof (induction b)
  case Nil
  then show ?case by (cases rest) auto
next
  case (Cons c b)
  have "readDelimited q (c # escape q b @ q # rest) =
      map_option (apfst (Cons c)) (readDelimited q (escape q b @ q # rest))" if "c \<noteq> q"
    using that by (cases "escape q b @ q # rest") auto
  with Cons show ?case by auto
qed

section \<open>Decimal numerals\<close>

fun nat_digits :: "nat \<Rightarrow> string" where
  "nat_digits n = (if n < 10 then [char_of (48 + n)] else nat_digits (n div 10) @ [char_of (48 + n mod 10)])"

declare nat_digits.simps [simp del]

definition Itoa :: "int \<Rightarrow> string" where
  "Itoa i = (if i < 0 then CHR ''-'' # nat_digits (nat (- i)) else nat_digits (nat i))"

fun digits_value :: "nat \<Rightarrow> string \<Rightarrow> nat" where
  "digits_value a [] = a"
| "digits_value a (c # s) = digits_value (10 * a + (byte c - 48)) s"

lemma byte_digit: "d < 10 \<Longrightarrow> byte (char_of (48 + d)) = 48 + d"
  by (simp add: take_bit_eq_mod)

lemma digits_value_append: "digits_value a (s @ t) = digits_value (digits_value a s) t"
  by (induction s arbitrary: a) auto

lemma digits_value_nat_digits: "digits_value 0 (nat_digits n) = n"
proof (induction n rule: nat_digits.induct)
  case (1 n)
  show ?case
  proof (cases "n < 10")
    case True
    then show ?thesis by (simp add: nat_digits.simps [of n] byte_digit)
  next
    case False
    with 1 show ?thesis
      by (simp add: nat_digits.simps [of n] digits_value_append byte_digit)
  qed
qed

lemma nat_digits_inject [simp]: "nat_digits m = nat_digits n \<longleftrightarrow> m = n"
  by (metis digits_value_nat_digits)

lemma nat_digits_ne [simp]: "nat_digits n \<noteq> []"
  by (subst nat_digits.simps) simp

lemma nat_digits_is_digit: "c \<in> set (nat_digits n) \<Longrightarrow> is_digit c"
proof (induction n rule: nat_digits.induct)
  case (1 n)
  have d: "is_digit (char_of (48 + d))" if "d < 10" for d :: nat
    using that byte_digit [of d] by (simp add: is_digit_def)
  show ?case
  proof (cases "n < 10")
    case True
    with "1.prems" d show ?thesis by (simp add: nat_digits.simps [of n])
  next
    case False
    with "1.prems" have "c \<in> set (nat_digits (n div 10)) \<or> c = char_of (48 + n mod 10)"
      by (auto simp: nat_digits.simps [of n])
    with "1.IH" False d [of "n mod 10"] show ?thesis by auto
  qed
qed

lemma Itoa_inject_nonneg: "0 \<le> i \<Longrightarrow> 0 \<le> j \<Longrightarrow> Itoa i = Itoa j \<longleftrightarrow> i = j"
  by (auto simp: Itoa_def)

section \<open>Quoted text\<close>

text \<open>\<open>strconv.Quote\<close> and the verb \<open>%q\<close>. Bytes above 127 are taken to be part of printable runes.\<close>

definition hexDigit :: "nat \<Rightarrow> char" where
  "hexDigit n = char_of (if n < 10 then 48 + n else 87 + n)"

definition quoteByte :: "char \<Rightarrow> string" where
  "quoteByte c =
     (let b = byte c; esc = (\<lambda>d. [CHR 0x5C, d]) in
      if b = 34 \<or> b = 92 then esc c
      else if b = 7 then esc CHR ''a'' else if b = 8 then esc CHR ''b'' else if b = 9 then esc CHR ''t''
      else if b = 10 then esc CHR ''n'' else if b = 11 then esc CHR ''v'' else if b = 12 then esc CHR ''f''
      else if b = 13 then esc CHR ''r''
      else if b < 32 \<or> b = 127 then esc CHR ''x'' @ [hexDigit (b div 16), hexDigit (b mod 16)]
      else [c])"

definition Quote :: "string \<Rightarrow> string" where
  "Quote s = [CHR 0x22] @ concat (map quoteByte s) @ [CHR 0x22]"

section \<open>Dynamic values\<close>

text \<open>The values a Go \<open>any\<close> carries in this code base: what JSON decoding yields, and integers.\<close>

datatype go_any =
    ANil
  | ABool bool
  | AInt int
  | AFloat rat
  | AStr string
  | AList "go_any list"

lemmas string_defs = HasPrefix_def TrimPrefix_def TrimSpace_def TrimLeftFunc_def TrimRightFunc_def
  TrimRight_def ToLower_def ToUpper_def Fields_def Split_def EqualFold_def

lemmas char_defs = lower_char_def upper_char_def is_upper_def is_lower_def is_digit_def is_space_def

declare string_defs [go_simps] char_defs [go_simps]

end
