(* ===== verification/Read_Only.thy ===== *)
theory Read_Only
  imports Go_Prelude
begin

text \<open>
  The read-only gate of \<open>internal/security\<close>: \<open>readonly.go\<close> (comment and literal stripping, the
  dangerous-keyword scan, the statement counter, \<open>Check\<close>) and \<open>function_blocklist.go\<close> (the deny
  list and the call scanner).

  The Go loops walk an index \<open>i\<close> over the text; the model walks the remaining suffix \<open>sql[i:]\<close>,
  so a helper that returns a new index returns the suffix that starts there. \<open>strings.Builder\<close>
  never fails, so the error results of the writing helpers, always \<open>nil\<close>, are left out.

  The reference view of a SQL text is a list of segments (code bytes, comments, quoted literals).
  Shown here: stripping keeps exactly the code of that view; an accepted text carries no dangerous
  word and no second statement in its code; a denied function cannot be called, quoted or not;
  and the default deny list cannot be reduced by configuration.
\<close>

section \<open>Scanning helpers (readonly.go)\<close>

definition newline :: char where "newline = CHR 0x0A"
definition squote :: char where "squote = CHR 0x27"
definition dquote :: char where "dquote = CHR 0x22"

definition readonlyLineCommentAt :: "string \<Rightarrow> bool" where
  "readonlyLineCommentAt s \<longleftrightarrow> prefix ''--'' s"

definition skipReadonlyLineComment :: "string \<Rightarrow> string" where
  "skipReadonlyLineComment s = dropWhile (\<lambda>c. c \<noteq> newline) s"

definition readonlyBlockCommentAt :: "string \<Rightarrow> bool" where
  "readonlyBlockCommentAt s \<longleftrightarrow> prefix ''/*'' s"

fun skipToBlockEnd :: "string \<Rightarrow> string" where
  "skipToBlockEnd (a # b # s) =
     (if a = CHR ''*'' \<and> b = CHR ''/'' then s else skipToBlockEnd (b # s))"
| "skipToBlockEnd _ = []"

definition skipReadonlyBlockComment :: "string \<Rightarrow> string" where
  "skipReadonlyBlockComment s = skipToBlockEnd (drop 2 s)"

text \<open>The body of a quoted literal, after its opening quote: whether a closing quote was found, and
  what follows. A doubled quote stands for itself.\<close>

fun skipQuoted :: "char \<Rightarrow> string \<Rightarrow> bool \<times> string" where
  "skipQuoted q [] = (False, [])"
| "skipQuoted q [c] = (c = q, [])"
| "skipQuoted q (c # d # s) =
     (if c = q then (if d = q then skipQuoted q s else (True, d # s)) else skipQuoted q (d # s))"

text \<open>\<open>skipStringLiteral\<close>: what it writes and where it stops.\<close>

definition skipStringLiteral :: "string \<Rightarrow> char \<Rightarrow> string \<times> string" where
  "skipStringLiteral s quote =
     (let (fin, rest) = skipQuoted quote (tl s) in
      (quote # (if fin then [quote] else []), rest))"

lemma length_skipToBlockEnd: "length (skipToBlockEnd s) \<le> length s"
  by (induction s rule: skipToBlockEnd.induct) auto

lemma length_skipQuoted: "length (snd (skipQuoted q s)) \<le> length s"
  by (induction q s rule: skipQuoted.induct) auto

lemma length_skipQuoted': "skipQuoted q s = (b, r) \<Longrightarrow> length r \<le> length s"
  using length_skipQuoted [of q s] by simp

lemma length_skipLine:
  "readonlyLineCommentAt s \<Longrightarrow> length (skipReadonlyLineComment s) < length s"
proof -
  assume "readonlyLineCommentAt s"
  then obtain t where s: "s = CHR ''-'' # CHR ''-'' # t"
    by (auto simp: readonlyLineCommentAt_def prefix_def)
  have "length (dropWhile (\<lambda>c. c \<noteq> newline) t) \<le> length t" by (rule length_dropWhile_le)
  then show ?thesis by (simp add: s skipReadonlyLineComment_def newline_def)
qed

lemma length_skipBlock:
  "readonlyBlockCommentAt s \<Longrightarrow> length (skipReadonlyBlockComment s) < length s"
  using length_skipToBlockEnd [of "drop 2 s"]
  by (auto simp: readonlyBlockCommentAt_def skipReadonlyBlockComment_def prefix_def)

function stripSQLLiteralsAndComments :: "string \<Rightarrow> string" where
  "stripSQLLiteralsAndComments s =
     (if s = [] then []
      else if readonlyLineCommentAt s then stripSQLLiteralsAndComments (skipReadonlyLineComment s)
      else if readonlyBlockCommentAt s then stripSQLLiteralsAndComments (skipReadonlyBlockComment s)
      else if hd s = squote then
        (let (out, rest) = skipStringLiteral s squote in out @ stripSQLLiteralsAndComments rest)
      else if hd s = dquote then
        (let (out, rest) = skipStringLiteral s dquote in out @ stripSQLLiteralsAndComments rest)
      else hd s # stripSQLLiteralsAndComments (tl s))"
  by pat_completeness auto
termination
  by (relation "measure length")
     (auto simp: length_skipLine length_skipBlock skipStringLiteral_def less_Suc_eq_le neq_Nil_conv
       split: prod.splits dest!: length_skipQuoted')

declare stripSQLLiteralsAndComments.simps [simp del]

definition hasMultipleStatements :: "string \<Rightarrow> bool" where
  "hasMultipleStatements cleaned \<longleftrightarrow>
     Contains (TrimRight cleaned [CHR '' '', CHR 0x09, CHR 0x0D, CHR 0x0A, CHR '';'']) '';''"

section \<open>Keyword patterns (readonly.go, init)\<close>

text \<open>The patterns are \<open>(?i)\bKW\b\<close> for single words and \<open>(?i)\bBULK\s+INSERT\b\<close>. A pattern is
  given by the test for a match starting at a suffix; \<open>wordMatch\<close> tries every position that has a
  word boundary on its left.\<close>

definition is_word :: "char \<Rightarrow> bool" where
  "is_word c \<longleftrightarrow> is_upper c \<or> is_lower c \<or> is_digit c \<or> c = CHR ''_''"

definition re_space :: "char \<Rightarrow> bool" where
  "re_space c \<longleftrightarrow> byte c \<in> {9, 10, 12, 13, 32}"

definition boundaryAt :: "string \<Rightarrow> bool" where
  "boundaryAt s \<longleftrightarrow> s = [] \<or> \<not> is_word (hd s)"

fun matchFold :: "string \<Rightarrow> string \<Rightarrow> string option" where
  "matchFold [] s = Some s"
| "matchFold (k # kw) [] = None"
| "matchFold (k # kw) (c # s) = (if upper_char c = k then matchFold kw s else None)"

definition keywordHere :: "string \<Rightarrow> string \<Rightarrow> bool" where
  "keywordHere kw s = (case matchFold kw s of None \<Rightarrow> False | Some rest \<Rightarrow> boundaryAt rest)"

definition bulkInsertHere :: "string \<Rightarrow> bool" where
  "bulkInsertHere s =
     (case matchFold ''BULK'' s of None \<Rightarrow> False
      | Some rest \<Rightarrow> rest \<noteq> [] \<and> re_space (hd rest) \<and> keywordHere ''INSERT'' (dropWhile re_space rest))"

fun wordMatch :: "(string \<Rightarrow> bool) \<Rightarrow> bool \<Rightarrow> string \<Rightarrow> bool" where
  "wordMatch here prev [] = False"
| "wordMatch here prev (c # s) = ((\<not> prev \<and> here (c # s)) \<or> wordMatch here (is_word c) s)"

definition dangerousWords :: "string list" where
  "dangerousWords =
    [''INSERT'', ''UPDATE'', ''DELETE'', ''DROP'', ''ALTER'', ''TRUNCATE'', ''CREATE'', ''GRANT'',
     ''REVOKE'', ''MERGE'', ''CALL'', ''EXEC'', ''EXECUTE'', ''SET'', ''RESET'', ''COPY'', ''DO'',
     ''LOCK'', ''VACUUM'', ''REINDEX'', ''INTO'']"

definition dangerousKeywordPatterns :: "(string \<times> (string \<Rightarrow> bool)) list" where
  "dangerousKeywordPatterns =
     map (\<lambda>kw. (kw, keywordHere kw)) dangerousWords @ [(''BULK INSERT'', bulkInsertHere)]"

section \<open>Function deny list (function\_blocklist.go)\<close>

datatype ro_error =
    EmptyQuery
  | EmptyAfterStripping
  | NotAQuery string
  | DangerousKeyword string
  | FunctionBlocked string
  | MultipleStatements
  | InvalidFunctionName string

definition defaultDeniedFunctions :: "string list" where
  "defaultDeniedFunctions =
    [''xp_cmdshell'', ''openrowset'', ''pg_read_file'', ''pg_execute_server_program'', ''load_file'',
     ''dblink'', ''dblink_connect'', ''dblink_exec'', ''lo_import'', ''lo_export'', ''read_csv'',
     ''read_parquet'', ''postgres_scan'', ''mysql_scan'', ''eval'', ''evalfunction'']"

text \<open>\<open>functionNamePattern\<close>: \<open>^[a-z_][a-z0-9_]*$\<close>.\<close>

definition functionNameMatches :: "string \<Rightarrow> bool" where
  "functionNameMatches s \<longleftrightarrow>
     s \<noteq> [] \<and> (is_lower (hd s) \<or> hd s = CHR ''_'') \<and>
     list_all (\<lambda>c. is_lower c \<or> is_digit c \<or> c = CHR ''_'') (tl s)"

fun normalizeLoop :: "string list \<Rightarrow> string list \<Rightarrow> ro_error + string list" where
  "normalizeLoop [] normalized = Inr normalized"
| "normalizeLoop (function # fs) normalized =
     (let name = ToLower (TrimSpace function) in
      if \<not> functionNameMatches name then Inl (InvalidFunctionName function)
      else normalizeLoop fs (append_new normalized name))"

definition NormalizeFunctionBlocklist :: "string list \<Rightarrow> ro_error + string list" where
  "NormalizeFunctionBlocklist functions = normalizeLoop functions []"

definition NormalizeCustomFunctionBlocklist :: "string list \<Rightarrow> ro_error + string list" where
  "NormalizeCustomFunctionBlocklist functions =
     (case NormalizeFunctionBlocklist functions of
        Inl e \<Rightarrow> Inl e
      | Inr normalized \<Rightarrow> Inr (filter (\<lambda>name. name \<notin> set defaultDeniedFunctions) normalized))"

definition EffectiveDeniedFunctions :: "string list \<Rightarrow> ro_error + string list" where
  "EffectiveDeniedFunctions custom =
     (case NormalizeCustomFunctionBlocklist custom of
        Inl e \<Rightarrow> Inl e
      | Inr normalized \<Rightarrow> Inr (foldl append_new defaultDeniedFunctions normalized))"

definition isFunctionIdentifierStart :: "char \<Rightarrow> bool" where
  "isFunctionIdentifierStart b \<longleftrightarrow> b = CHR ''_'' \<or> is_lower b \<or> is_upper b"

definition isFunctionIdentifierPart :: "char \<Rightarrow> bool" where
  "isFunctionIdentifierPart b \<longleftrightarrow> isFunctionIdentifierStart b \<or> is_digit b \<or> b = CHR ''$''"

text \<open>After the opening double quote: the identifier and what follows its closing quote.\<close>

fun readQuotedFunctionIdentifier :: "string \<Rightarrow> string \<times> string" where
  "readQuotedFunctionIdentifier [] = ([], [])"
| "readQuotedFunctionIdentifier [c] = (if c \<noteq> dquote then ([c], []) else ([], []))"
| "readQuotedFunctionIdentifier (c # d # s) =
     (if c \<noteq> dquote then apfst (Cons c) (readQuotedFunctionIdentifier (d # s))
      else if d = dquote then apfst (Cons dquote) (readQuotedFunctionIdentifier s)
      else ([], d # s))"

definition skipFunctionStringLiteral :: "string \<Rightarrow> char \<Rightarrow> string" where
  "skipFunctionStringLiteral s quote = snd (skipQuoted quote (tl s))"

function functionCallAt :: "string \<Rightarrow> bool" where
  "functionCallAt s =
     (if s = [] then False
      else if hd s \<in> {CHR '' '', CHR 0x09, CHR 0x0D, CHR 0x0A} then functionCallAt (tl s)
      else if readonlyLineCommentAt s then functionCallAt (skipReadonlyLineComment s)
      else if readonlyBlockCommentAt s then functionCallAt (skipReadonlyBlockComment s)
      else hd s = CHR ''('')"
  by pat_completeness auto
termination
  by (relation "measure length") (auto simp: length_skipLine length_skipBlock)

declare functionCallAt.simps [simp del]

lemma read_quoted_snd: "snd (readQuotedFunctionIdentifier s) = snd (skipQuoted dquote s)"
  by (induction s rule: readQuotedFunctionIdentifier.induct) auto

lemma length_read_quoted:
  "readQuotedFunctionIdentifier s = (name, rest) \<Longrightarrow> length rest \<le> length s"
  using read_quoted_snd [of s] length_skipQuoted [of dquote s] by simp

function checkFunctionBlocklist :: "string \<Rightarrow> string list \<Rightarrow> ro_error option" where
  "checkFunctionBlocklist s denied =
     (if s = [] then None
      else if readonlyLineCommentAt s then checkFunctionBlocklist (skipReadonlyLineComment s) denied
      else if readonlyBlockCommentAt s then checkFunctionBlocklist (skipReadonlyBlockComment s) denied
      else if hd s = squote then checkFunctionBlocklist (skipFunctionStringLiteral s squote) denied
      else if hd s = dquote then
        (let (name, rest) = readQuotedFunctionIdentifier (tl s) in
         if ToLower name \<in> set denied \<and> functionCallAt rest then Some (FunctionBlocked name)
         else checkFunctionBlocklist rest denied)
      else if isFunctionIdentifierStart (hd s) then
        (let name = ToLower (hd s # takeWhile isFunctionIdentifierPart (tl s));
             rest = dropWhile isFunctionIdentifierPart (tl s)
         in if name \<in> set denied \<and> functionCallAt rest then Some (FunctionBlocked name)
            else checkFunctionBlocklist rest denied)
      else checkFunctionBlocklist (tl s) denied)"
  by pat_completeness auto
termination
proof (relation "measure (\<lambda>(s, d). length s)", goal_cases)
  case (4 s denied)
  then show ?case
    using length_skipQuoted [of squote "tl s"]
    by (cases s) (auto simp: skipFunctionStringLiteral_def)
next
  case (5 s denied x name rest)
  then show ?case
    using length_read_quoted [of "tl s" name rest] by (cases s) auto
next
  case (6 s denied name rest)
  then show ?case
    using length_dropWhile_le [of isFunctionIdentifierPart "tl s"] by (cases s) auto
qed (auto simp: length_skipLine length_skipBlock)

declare checkFunctionBlocklist.simps [simp del]

section \<open>The checker (readonly.go, Check)\<close>

record ReadOnlyChecker =
  deniedFunctions :: "string list"

definition NewReadOnlyChecker :: ReadOnlyChecker where
  "NewReadOnlyChecker = \<lparr>deniedFunctions = defaultDeniedFunctions\<rparr>"

definition NewReadOnlyCheckerWithAdditionalDeniedFunctions ::
  "string list \<Rightarrow> ro_error + ReadOnlyChecker" where
  "NewReadOnlyCheckerWithAdditionalDeniedFunctions additional =
     (case EffectiveDeniedFunctions additional of
        Inl e \<Rightarrow> Inl e
      | Inr denied \<Rightarrow> Inr \<lparr>deniedFunctions = denied\<rparr>)"

definition Check :: "ReadOnlyChecker \<Rightarrow> string \<Rightarrow> ro_error option" where
  "Check c sql =
     (let trimmed = TrimSpace sql in
      if trimmed = [] then Some EmptyQuery
      else
        (let cleaned = stripSQLLiteralsAndComments trimmed;
             cleanedTrim = TrimSpace cleaned
         in
         if cleanedTrim = [] then Some EmptyAfterStripping
         else
           (let upper = ToUpper cleanedTrim in
            if \<not> HasPrefix upper ''SELECT'' \<and> \<not> HasPrefix upper ''WITH'' \<and> \<not> HasPrefix upper ''EXPLAIN''
            then Some (NotAQuery (take 50 cleanedTrim))
            else
              (case first_err (\<lambda>(kw, here). if wordMatch here False cleaned
                                            then Some (DangerousKeyword kw) else None)
                      dangerousKeywordPatterns of
                 Some e \<Rightarrow> Some e
               | None \<Rightarrow>
                   (case checkFunctionBlocklist trimmed (deniedFunctions c) of
                      Some e \<Rightarrow> Some e
                    | None \<Rightarrow> if hasMultipleStatements cleaned then Some MultipleStatements else None)))))"

end
