(* ===== verification/Read_Only_Spec.thy ===== *)
theory Read_Only_Spec
  imports Read_Only
begin

text \<open>
  The reference view of a SQL text behind the read-only gate: a list of segments. Every text is the
  rendering of a well-formed segment list, and stripping a rendering keeps the code bytes and the
  quotes, nothing else. The properties of the gate are stated over this view.
\<close>

section \<open>Segments\<close>

datatype seg =
    Code char
  | LineComment string
  | BlockComment string
  | Quoted char string
  | OpenBlock string
  | OpenQuoted char string

fun renderSeg :: "seg \<Rightarrow> string" where
  "renderSeg (Code c) = [c]"
| "renderSeg (LineComment b) = ''--'' @ b"
| "renderSeg (BlockComment b) = ''/*'' @ b @ ''*/''"
| "renderSeg (Quoted q b) = q # escape q b @ [q]"
| "renderSeg (OpenBlock b) = ''/*'' @ b"
| "renderSeg (OpenQuoted q b) = q # escape q b"

definition render :: "seg list \<Rightarrow> string" where
  "render xs = concat (map renderSeg xs)"

fun visibleSeg :: "seg \<Rightarrow> string" where
  "visibleSeg (Code c) = [c]"
| "visibleSeg (Quoted q b) = [q, q]"
| "visibleSeg (OpenQuoted q b) = [q]"
| "visibleSeg _ = []"

definition visible :: "seg list \<Rightarrow> string" where
  "visible xs = concat (map visibleSeg xs)"

fun wf_segs :: "seg list \<Rightarrow> bool" where
  "wf_segs [] = True"
| "wf_segs (Code c # xs) =
     (c \<noteq> squote \<and> c \<noteq> dquote \<and> \<not> (c = CHR ''-'' \<and> starts (render xs) CHR ''-'') \<and>
      \<not> (c = CHR ''/'' \<and> starts (render xs) CHR ''*'') \<and> wf_segs xs)"
| "wf_segs (LineComment b # xs) =
     (newline \<notin> set b \<and> (xs = [] \<or> starts (render xs) newline) \<and> wf_segs xs)"
| "wf_segs (BlockComment b # xs) = (\<not> Contains (b @ ''*'') ''*/'' \<and> wf_segs xs)"
| "wf_segs (Quoted q b # xs) =
     ((q = squote \<or> q = dquote) \<and> \<not> starts (render xs) q \<and> wf_segs xs)"
| "wf_segs (OpenBlock b # xs) = (xs = [] \<and> \<not> Contains b ''*/'')"
| "wf_segs (OpenQuoted q b # xs) = (xs = [] \<and> (q = squote \<or> q = dquote))"

lemma render_Nil [simp]: "render [] = []"
  by (simp add: render_def)

lemma render_Cons [simp]: "render (x # xs) = renderSeg x @ render xs"
  by (simp add: render_def)

lemma render_append [simp]: "render (xs @ ys) = render xs @ render ys"
  by (simp add: render_def)

lemma renderSeg_ne [simp]: "renderSeg x \<noteq> []"
  by (cases x) auto

lemma render_eq_Nil [simp]: "render xs = [] \<longleftrightarrow> xs = []"
  by (cases xs) auto

lemma visible_Nil [simp]: "visible [] = []"
  by (simp add: visible_def)

lemma visible_Cons [simp]: "visible (x # xs) = visibleSeg x @ visible xs"
  by (simp add: visible_def)

lemma visible_append [simp]: "visible (xs @ ys) = visible xs @ visible ys"
  by (simp add: visible_def)

lemma wf_segs_append: "wf_segs (xs @ ys) \<Longrightarrow> wf_segs ys"
  by (induction xs rule: wf_segs.induct) (auto split: if_splits)

section \<open>The scanners on rendered segments\<close>

lemma skipToBlockEnd_end:
  "\<not> Contains (b @ ''*'') ''*/'' \<Longrightarrow> skipToBlockEnd (b @ CHR ''*'' # CHR ''/'' # t) = t"
proof (induction b)
  case Nil
  then show ?case by simp
next
  case (Cons c b)
  then have "\<not> Contains (b @ ''*'') ''*/''" by simp
  with Cons.IH have IH: "skipToBlockEnd (b @ CHR ''*'' # CHR ''/'' # t) = t" .
  show ?case
  proof (cases b)
    case Nil
    with IH show ?thesis by simp
  next
    case (Cons d b')
    with \<open>\<not> Contains ((c # b) @ ''*'') ''*/''\<close> have "\<not> (c = CHR ''*'' \<and> d = CHR ''/'')" by auto
    with IH Cons show ?thesis by auto
  qed
qed

lemma skipToBlockEnd_open: "\<not> Contains b ''*/'' \<Longrightarrow> skipToBlockEnd b = []"
  by (induction b rule: skipToBlockEnd.induct) auto

lemma skipQuoted_other: "c \<noteq> q \<Longrightarrow> skipQuoted q (c # s) = skipQuoted q s"
  by (cases s) auto

lemma skipQuoted_close: "\<not> starts t q \<Longrightarrow> skipQuoted q (q # t) = (True, t)"
  by (cases t) auto

lemma skipQuoted_escape:
  "\<not> starts t q \<Longrightarrow> skipQuoted q (escape q b @ q # t) = (True, t)"
  by (induction b) (auto simp: skipQuoted_other skipQuoted_close)

lemma skipQuoted_open: "skipQuoted q (escape q b) = (False, [])"
  by (induction b) (auto simp: skipQuoted_other)

lemma readQuoted_other:
  "c \<noteq> dquote \<Longrightarrow> readQuotedFunctionIdentifier (c # s) = apfst (Cons c) (readQuotedFunctionIdentifier s)"
  by (cases s) auto

lemma readQuoted_escape:
  "\<not> starts t dquote \<Longrightarrow> readQuotedFunctionIdentifier (escape dquote b @ dquote # t) = (b, t)"
proof (induction b)
  case Nil
  then show ?case by (cases t) auto
next
  case (Cons c b)
  then show ?case by (simp add: readQuoted_other)
qed

lemma readQuoted_open:
  "\<exists>n. readQuotedFunctionIdentifier (escape dquote b) = (n, [])"
  using read_quoted_snd [of "escape dquote b"] skipQuoted_open [of dquote b] by (metis prod.collapse snd_conv)

lemma dropWhile_line:
  "newline \<notin> set b \<Longrightarrow> t = [] \<or> starts t newline \<Longrightarrow>
   dropWhile (\<lambda>c. c \<noteq> newline) (b @ t) = t"
  by (induction b) (auto simp: starts_def neq_Nil_conv)

lemma lineComment_render [simp]:
  "newline \<notin> set b \<Longrightarrow> t = [] \<or> starts t newline \<Longrightarrow>
   skipReadonlyLineComment (CHR ''-'' # CHR ''-'' # b @ t) = t"
  by (simp add: skipReadonlyLineComment_def dropWhile_line) (simp add: newline_def)

text \<open>At a code byte neither comment opener matches; at a quote neither does.\<close>

lemma no_comment_at_code:
  "wf_segs (Code c # xs) \<Longrightarrow>
   \<not> readonlyLineCommentAt (c # render xs) \<and> \<not> readonlyBlockCommentAt (c # render xs)"
  by (cases "render xs") (auto simp: readonlyLineCommentAt_def readonlyBlockCommentAt_def)

lemma no_comment_at_quote:
  "q = squote \<or> q = dquote \<Longrightarrow> \<not> readonlyLineCommentAt (q # s) \<and> \<not> readonlyBlockCommentAt (q # s)"
  by (auto simp: readonlyLineCommentAt_def readonlyBlockCommentAt_def squote_def dquote_def)

lemma comment_at [simp]:
  "readonlyLineCommentAt (CHR ''-'' # CHR ''-'' # s)"
  "readonlyBlockCommentAt (CHR ''/'' # CHR ''*'' # s)"
  "\<not> readonlyLineCommentAt (CHR ''/'' # s)"
  by (auto simp: readonlyLineCommentAt_def readonlyBlockCommentAt_def)

lemma blockComment_render [simp]:
  "\<not> Contains (b @ ''*'') ''*/'' \<Longrightarrow>
   skipReadonlyBlockComment (CHR ''/'' # CHR ''*'' # b @ CHR ''*'' # CHR ''/'' # t) = t"
  "\<not> Contains b ''*/'' \<Longrightarrow> skipReadonlyBlockComment (CHR ''/'' # CHR ''*'' # b) = []"
  by (simp_all add: skipReadonlyBlockComment_def skipToBlockEnd_end skipToBlockEnd_open)

lemma quote_facts [simp]: "squote \<noteq> dquote" "dquote \<noteq> squote"
  by (simp_all add: squote_def dquote_def)

section \<open>Stripping keeps exactly the visible part\<close>

lemma strip_render: "wf_segs xs \<Longrightarrow> stripSQLLiteralsAndComments (render xs) = visible xs"
proof (induction xs rule: wf_segs.induct)
  case 1
  then show ?case by (simp add: stripSQLLiteralsAndComments.simps)
next
  case (2 c xs)
  then show ?case
    using no_comment_at_code [OF 2(2)]
    by (simp add: stripSQLLiteralsAndComments.simps [of "c # render xs"])
next
  case (3 b xs)
  then have skip: "skipReadonlyLineComment (CHR ''-'' # CHR ''-'' # b @ render xs) = render xs"
    by (intro lineComment_render) auto
  from 3 show ?case
    by (simp add: stripSQLLiteralsAndComments.simps [of "CHR ''-'' # CHR ''-'' # b @ render xs"] skip)
next
  case (4 b xs)
  then show ?case
    by (simp add: stripSQLLiteralsAndComments.simps [of "CHR ''/'' # CHR ''*'' # b @ CHR ''*'' # CHR ''/'' # render xs"])
next
  case (5 q b xs)
  have "skipQuoted q (escape q b @ q # render xs) = (True, render xs)"
    using 5(2) by (intro skipQuoted_escape) simp
  with 5 no_comment_at_quote [of q] show ?case
    by (auto simp: stripSQLLiteralsAndComments.simps [of "q # escape q b @ q # render xs"]
        skipStringLiteral_def)
next
  case (6 b xs)
  then show ?case
    by (simp add: stripSQLLiteralsAndComments.simps [of "CHR ''/'' # CHR ''*'' # b"]
        stripSQLLiteralsAndComments.simps [of "[]"])
next
  case (7 q b xs)
  with no_comment_at_quote [of q] show ?case
    by (auto simp: stripSQLLiteralsAndComments.simps [of "q # escape q b"] skipStringLiteral_def
        skipQuoted_open stripSQLLiteralsAndComments.simps [of "[]"])
qed

section \<open>Every text is a rendering\<close>

lemma block_decompose:
  "(\<exists>b. t = b @ CHR ''*'' # CHR ''/'' # skipToBlockEnd t \<and> \<not> Contains (b @ ''*'') ''*/'') \<or>
   (skipToBlockEnd t = [] \<and> \<not> Contains t ''*/'')"
proof (induction t rule: skipToBlockEnd.induct)
  case (1 x y t)
  show ?case
  proof (cases "x = CHR ''*'' \<and> y = CHR ''/''")
    case True
    then have "x # y # t = [] @ CHR ''*'' # CHR ''/'' # skipToBlockEnd (x # y # t) \<and>
        \<not> Contains ([] @ ''*'') ''*/''" by simp
    then show ?thesis by blast
  next
    case False
    then have sk: "skipToBlockEnd (x # y # t) = skipToBlockEnd (y # t)" by auto
    from "1.IH" [OF False] show ?thesis
    proof (elim disjE exE conjE)
      fix b assume b: "y # t = b @ CHR ''*'' # CHR ''/'' # skipToBlockEnd (y # t)"
        "\<not> Contains (b @ ''*'') ''*/''"
      then have "\<not> Contains ((x # b) @ ''*'') ''*/''" using False by (cases b) auto
      moreover have "x # y # t = (x # b) @ CHR ''*'' # CHR ''/'' # skipToBlockEnd (x # y # t)"
        using b(1) sk by simp
      ultimately show ?thesis by blast
    next
      assume "skipToBlockEnd (y # t) = []" "\<not> Contains (y # t) ''*/''"
      with False sk show ?thesis by auto
    qed
  qed
qed auto

lemma quoted_decompose:
  "(case skipQuoted q t of (fin, r) \<Rightarrow>
     if fin then \<not> starts r q \<and> (\<exists>b. t = escape q b @ q # r)
     else r = [] \<and> (\<exists>b. t = escape q b))"
proof (induction q t rule: skipQuoted.induct)
  case (1 q)
  then show ?case by (auto intro: exI [of _ "[]"])
next
  case (2 q c)
  show ?case
  proof (cases "c = q")
    case True
    then show ?thesis by (auto intro: exI [of _ "[]"])
  next
    case False
    then show ?thesis by (auto intro: exI [of _ "[c]"])
  qed
next
  case (3 q c d s)
  consider "c = q" "d = q" | "c = q" "d \<noteq> q" | "c \<noteq> q" by blast
  then show ?case
  proof cases
    case 1
    have "\<exists>b'. q # q # escape q b @ r = escape q b' @ r" for b r
      by (rule exI [of _ "q # b"]) simp
    moreover from this [of _ "[]"] have "\<exists>b'. q # q # escape q b = escape q b'" for b by simp
    ultimately show ?thesis
      using "3.IH"(1) [OF 1] 1 by (auto split: prod.splits if_splits)
  next
    case 2
    then have "c # d # s = escape q [] @ q # d # s" by simp
    with 2 show ?thesis by (auto intro: exI [of _ "[]"])
  next
    case 3
    have "\<exists>b'. c # escape q b @ r = escape q b' @ r" for b r
      by (rule exI [of _ "c # b"]) (simp add: 3)
    moreover from this [of _ "[]"] have "\<exists>b'. c # escape q b = escape q b'" for b by simp
    ultimately show ?thesis
      using "3.IH"(2) [OF 3] 3 by (auto split: prod.splits if_splits)
  qed
qed

lemma every_text_is_segments: "\<exists>xs. wf_segs xs \<and> render xs = s"
proof (induction s rule: measure_induct_rule [where f = length])
  case (less s)
  consider (nil) "s = []" | (line) "readonlyLineCommentAt s" | (block) "readonlyBlockCommentAt s"
    | (quote) "s \<noteq> []" "hd s = squote \<or> hd s = dquote"
    | (code) "s \<noteq> []" "\<not> readonlyLineCommentAt s" "\<not> readonlyBlockCommentAt s"
        "hd s \<noteq> squote" "hd s \<noteq> dquote"
    by blast
  then show ?case
  proof cases
    case nil
    then show ?thesis by (intro exI [of _ "[]"]) simp
  next
    case line
    then obtain t where s: "s = CHR ''-'' # CHR ''-'' # t"
      by (auto simp: readonlyLineCommentAt_def prefix_def)
    let ?b = "takeWhile (\<lambda>c. c \<noteq> newline) t" and ?r = "dropWhile (\<lambda>c. c \<noteq> newline) t"
    have "length ?r < length s" using length_dropWhile_le [of "\<lambda>c. c \<noteq> newline" t] by (simp add: s)
    from less [OF this] obtain xs where xs: "wf_segs xs" "render xs = ?r" by blast
    have "?r = [] \<or> starts ?r newline"
      using hd_dropWhile [of "\<lambda>c. c \<noteq> newline" t] by (auto simp: starts_def)
    with xs have "xs = [] \<or> starts (render xs) newline" by (metis render_eq_Nil)
    moreover have "newline \<notin> set ?b" by (auto dest: set_takeWhileD)
    ultimately have "wf_segs (LineComment ?b # xs) \<and> render (LineComment ?b # xs) = s"
      using xs by (auto simp: s)
    then show ?thesis by blast
  next
    case block
    then obtain t where s: "s = CHR ''/'' # CHR ''*'' # t"
      by (auto simp: readonlyBlockCommentAt_def prefix_def)
    have "length (skipToBlockEnd t) < length s" using length_skipToBlockEnd [of t] by (simp add: s)
    from less [OF this] obtain xs where xs: "wf_segs xs" "render xs = skipToBlockEnd t" by blast
    from block_decompose [of t] show ?thesis
    proof (elim disjE exE conjE)
      fix b assume "t = b @ CHR ''*'' # CHR ''/'' # skipToBlockEnd t" "\<not> Contains (b @ ''*'') ''*/''"
      with xs have "wf_segs (BlockComment b # xs) \<and> render (BlockComment b # xs) = s"
        by (simp add: s)
      then show ?thesis by blast
    next
      assume "\<not> Contains t ''*/''"
      then have "wf_segs [OpenBlock t] \<and> render [OpenBlock t] = s" by (simp add: s)
      then show ?thesis by blast
    qed
  next
    case quote
    then obtain t where s: "s = hd s # t" by (metis list.collapse)
    let ?q = "hd s"
    obtain fin r where sk: "skipQuoted ?q t = (fin, r)" by fastforce
    have "length r < length s"
      using length_skipQuoted' [OF sk] s by (metis le_imp_less_Suc length_Cons)
    from less [OF this] obtain xs where xs: "wf_segs xs" "render xs = r" by blast
    show ?thesis
    proof (cases fin)
      case True
      with quoted_decompose [of ?q t] sk obtain b where b: "t = escape ?q b @ ?q # r" "\<not> starts r ?q"
        by auto
      then have "wf_segs (Quoted ?q b # xs)" "render (Quoted ?q b # xs) = hd s # t"
        using xs quote by auto
      with s show ?thesis by metis
    next
      case False
      with quoted_decompose [of ?q t] sk obtain b where b: "t = escape ?q b" by auto
      then have "wf_segs [OpenQuoted ?q b]" "render [OpenQuoted ?q b] = hd s # t"
        using quote by auto
      with s show ?thesis by metis
    qed
  next
    case code
    then obtain t where s: "s = hd s # t" by (metis list.collapse)
    then have "length t < length s" by (metis length_Cons lessI)
    from less [OF this] obtain xs where xs: "wf_segs xs" "render xs = t" by blast
    have "wf_segs (Code (hd s) # xs)"
      using code(2-5) xs s
      by (auto simp: readonlyLineCommentAt_def readonlyBlockCommentAt_def prefix_def starts_def neq_Nil_conv)
    moreover have "render (Code (hd s) # xs) = s" using xs s by simp
    ultimately show ?thesis by blast
  qed
qed

section \<open>Keywords and statement separators\<close>

definition hasWord :: "string \<Rightarrow> string \<Rightarrow> bool" where
  "hasWord kw s \<longleftrightarrow>
     (\<exists>u w r. s = u @ w @ r \<and> ToUpper w = kw \<and> (u = [] \<or> \<not> is_word (last u)) \<and> boundaryAt r)"

lemma matchFold_iff: "matchFold kw s = Some r \<longleftrightarrow> (\<exists>w. s = w @ r \<and> ToUpper w = kw)"
proof (induction kw s rule: matchFold.induct)
  case (3 k kw c s)
  have "(\<exists>w. c # s = w @ r \<and> ToUpper w = k # kw) \<longleftrightarrow>
      upper_char c = k \<and> (\<exists>w. s = w @ r \<and> ToUpper w = kw)" (is "?L \<longleftrightarrow> ?R")
  proof
    assume ?L
    then obtain w where "c # s = w @ r" "ToUpper w = k # kw" by blast
    then show ?R by (cases w) (auto simp: ToUpper_def)
  next
    assume ?R
    then obtain w where "c # s = (c # w) @ r" "ToUpper (c # w) = k # kw" by (auto simp: ToUpper_def)
    then show ?L by blast
  qed
  with 3 show ?case by simp
qed (auto simp: ToUpper_def)

lemma keywordHere_iff: "keywordHere kw v \<longleftrightarrow> (\<exists>w r. v = w @ r \<and> ToUpper w = kw \<and> boundaryAt r)"
  unfolding keywordHere_def by (auto simp: matchFold_iff split: option.splits) (metis matchFold_iff option.distinct(1), metis matchFold_iff option.inject)

lemma wordMatch_iff:
  "wordMatch here prev s \<longleftrightarrow>
     (\<exists>u v. s = u @ v \<and> v \<noteq> [] \<and> here v \<and> (if u = [] then \<not> prev else \<not> is_word (last u)))"
proof (induction here prev s rule: wordMatch.induct)
  case (1 here prev)
  then show ?case by auto
next
  case (2 here prev c s)
  let ?Q = "\<lambda>prev s u v. s = u @ v \<and> v \<noteq> [] \<and> here v \<and> (if u = [] then \<not> prev else \<not> is_word (last u))"
  have "(\<exists>u v. ?Q prev (c # s) u v) \<longleftrightarrow> (\<not> prev \<and> here (c # s)) \<or> (\<exists>u v. ?Q (is_word c) s u v)"
    (is "?L \<longleftrightarrow> ?R")
  proof
    assume ?L
    then obtain u v where uv: "?Q prev (c # s) u v" by blast
    show ?R
    proof (cases u)
      case Nil
      with uv show ?thesis by auto
    next
      case (Cons d u')
      with uv have "?Q (is_word c) s u' v" by (auto split: if_splits)
      then show ?thesis by blast
    qed
  next
    assume ?R
    then show ?L
    proof
      assume "\<not> prev \<and> here (c # s)"
      then have "?Q prev (c # s) [] (c # s)" by simp
      then show ?L by blast
    next
      assume "\<exists>u v. ?Q (is_word c) s u v"
      then obtain u v where uv: "?Q (is_word c) s u v" by blast
      then have "?Q prev (c # s) (c # u) v" by (auto split: if_splits)
      then show ?L by blast
    qed
  qed
  with 2 show ?case by simp
qed

lemma wordMatch_keyword:
  "kw \<noteq> [] \<Longrightarrow> wordMatch (keywordHere kw) False s \<longleftrightarrow> hasWord kw s"
proof -
  assume kw: "kw \<noteq> []"
  have ne: "w @ r \<noteq> []" if "ToUpper w = kw" for w r :: string
    using that kw by (auto simp: ToUpper_def)
  show ?thesis
  proof
    assume "wordMatch (keywordHere kw) False s"
    then obtain u v w r where "s = u @ v" "v = w @ r" "ToUpper w = kw" "boundaryAt r"
      "u = [] \<or> \<not> is_word (last u)"
      unfolding wordMatch_iff keywordHere_iff by (metis (mono_tags, lifting))
    then show "hasWord kw s" unfolding hasWord_def by blast
  next
    assume "hasWord kw s"
    then obtain u w r where "s = u @ (w @ r)" "ToUpper w = kw" "u = [] \<or> \<not> is_word (last u)" "boundaryAt r"
      unfolding hasWord_def by auto
    then show "wordMatch (keywordHere kw) False s"
      unfolding wordMatch_iff keywordHere_iff using ne by (metis (mono_tags, lifting))
  qed
qed

definition trailing :: "char set" where
  "trailing = {CHR '' '', CHR 0x09, CHR 0x0D, CHR 0x0A, CHR '';''}"

lemma hasMultipleStatements_iff:
  "hasMultipleStatements s \<longleftrightarrow> (\<exists>u r. s = u @ CHR '';'' # r \<and> \<not> set r \<subseteq> trailing)"
proof -
  let ?p = "\<lambda>c. c \<in> set [CHR '' '', CHR 0x09, CHR 0x0D, CHR 0x0A, CHR '';'']"
  let ?T = "TrimRightFunc ?p s"
  have p: "?p c \<longleftrightarrow> c \<in> trailing" for c by (simp add: trailing_def)
  obtain t where t: "s = ?T @ t" using TrimRightFunc_prefix [of s ?p] by blast
  have "CHR '';'' \<in> set ?T \<longleftrightarrow> (\<exists>u r. s = u @ CHR '';'' # r \<and> \<not> set r \<subseteq> trailing)" (is "?L \<longleftrightarrow> ?R")
  proof
    assume ?L
    then obtain u r where ur: "?T = u @ CHR '';'' # r" by (meson split_list)
    have "r \<noteq> []"
    proof
      assume "r = []"
      with ur have "TrimRightFunc ?p ?T = TrimRightFunc ?p u" by simp
      then have "?T = TrimRightFunc ?p u" by simp
      moreover obtain z where "u = TrimRightFunc ?p u @ z" using TrimRightFunc_prefix [of u ?p] by blast
      ultimately have "length ?T \<le> length u" by (metis length_append le_add1)
      with ur show False by simp
    qed
    then obtain r' c where r: "r = r' @ [c]" by (metis rev_exhaust)
    have "\<not> ?p c"
    proof
      assume "?p c"
      with ur r have "TrimRightFunc ?p ?T = TrimRightFunc ?p (u @ CHR '';'' # r')"
        using TrimRightFunc_snoc [of ?p "u @ CHR '';'' # r'" c] by simp
      then have eq: "?T = TrimRightFunc ?p (u @ CHR '';'' # r')" by simp
      obtain z where "u @ CHR '';'' # r' = TrimRightFunc ?p (u @ CHR '';'' # r') @ z"
        using TrimRightFunc_prefix by blast
      then have "length ?T \<le> length (u @ CHR '';'' # r')" unfolding eq by (metis length_append le_add1)
      then show False using ur r by simp
    qed
    then have "\<not> set (r @ t) \<subseteq> trailing" using r p by auto
    moreover have "s = u @ CHR '';'' # (r @ t)" using t ur by simp
    ultimately show ?R by blast
  next
    assume ?R
    then obtain u r c where s: "s = u @ CHR '';'' # r" and "c \<in> set r" "\<not> ?p c" using p by blast
    then obtain r1 r2 where "r = r1 @ c # r2" by (meson split_list)
    with s have "s = (u @ CHR '';'' # r1) @ c # r2" by simp
    with \<open>\<not> ?p c\<close> have "?T = (u @ CHR '';'' # r1) @ TrimRightFunc ?p (c # r2)"
      by (metis TrimRightFunc_append_last)
    then show ?L by simp
  qed
  then show ?thesis by (simp add: hasMultipleStatements_def TrimRight_def Contains_char)
qed

section \<open>The call scanner on rendered segments\<close>

definition codePart :: "seg \<Rightarrow> bool" where
  "codePart x = (case x of Code c \<Rightarrow> isFunctionIdentifierPart c | _ \<Rightarrow> False)"

lemma not_part_chars [simp]:
  "\<not> isFunctionIdentifierPart CHR ''-''" "\<not> isFunctionIdentifierPart CHR ''/''"
  "\<not> isFunctionIdentifierPart squote" "\<not> isFunctionIdentifierPart dquote"
  by (simp_all add: isFunctionIdentifierPart_def isFunctionIdentifierStart_def char_defs squote_def dquote_def)

lemma start_is_part: "isFunctionIdentifierStart c \<Longrightarrow> isFunctionIdentifierPart c"
  by (simp add: isFunctionIdentifierPart_def)

lemma start_not_special:
  "isFunctionIdentifierStart c \<Longrightarrow> c \<noteq> squote \<and> c \<noteq> dquote \<and> c \<noteq> CHR ''-'' \<and> c \<noteq> CHR ''/''"
  using not_part_chars start_is_part by blast

lemma hd_render_part:
  "wf_segs (x # xs) \<Longrightarrow> isFunctionIdentifierPart (hd (render (x # xs))) = codePart x"
  by (cases x) (auto simp: codePart_def)

lemma dropWhile_part_render:
  "wf_segs (run @ rest) \<Longrightarrow> \<forall>x\<in>set run. codePart x \<Longrightarrow> rest = [] \<or> \<not> codePart (hd rest) \<Longrightarrow>
   dropWhile isFunctionIdentifierPart (render (run @ rest)) = render rest"
proof (induction run)
  case Nil
  show ?case
  proof (cases rest)
    case Nil
    then show ?thesis by simp
  next
    case (Cons y ys)
    then have "\<not> isFunctionIdentifierPart (hd (render rest))"
      using Nil hd_render_part [of y ys] by simp
    then show ?thesis
      using Cons by (metis append_Nil dropWhile_eq_self_iff)
  qed
next
  case (Cons x run)
  then obtain c where x: "x = Code c" "isFunctionIdentifierPart c"
    by (auto simp: codePart_def split: seg.splits)
  with Cons show ?case by simp
qed

text \<open>The scanner's equation at a code byte, with both comment tests resolved.\<close>

lemma check_code:
  assumes "wf_segs (Code c # xs)"
  shows "checkFunctionBlocklist (render (Code c # xs)) denied =
    (if isFunctionIdentifierStart c then
       (let rest = dropWhile isFunctionIdentifierPart (render xs);
            name = ToLower (c # takeWhile isFunctionIdentifierPart (render xs)) in
        if name \<in> set denied \<and> functionCallAt rest then Some (FunctionBlocked name)
        else checkFunctionBlocklist rest denied)
     else checkFunctionBlocklist (render xs) denied)"
  using no_comment_at_code [OF assms] assms
  by (simp add: checkFunctionBlocklist.simps [of "c # render xs"] Let_def)

lemma check_noncode:
  "wf_segs (LineComment b # xs) \<Longrightarrow>
     checkFunctionBlocklist (render (LineComment b # xs)) denied = checkFunctionBlocklist (render xs) denied"
  "wf_segs (BlockComment b # xs) \<Longrightarrow>
     checkFunctionBlocklist (render (BlockComment b # xs)) denied = checkFunctionBlocklist (render xs) denied"
  "wf_segs (Quoted squote b # xs) \<Longrightarrow>
     checkFunctionBlocklist (render (Quoted squote b # xs)) denied = checkFunctionBlocklist (render xs) denied"
  "wf_segs (Quoted dquote b # xs) \<Longrightarrow>
     checkFunctionBlocklist (render (Quoted dquote b # xs)) denied =
       (if ToLower b \<in> set denied \<and> functionCallAt (render xs) then Some (FunctionBlocked b)
        else checkFunctionBlocklist (render xs) denied)"
proof -
  assume wf: "wf_segs (LineComment b # xs)"
  then have "skipReadonlyLineComment (CHR ''-'' # CHR ''-'' # b @ render xs) = render xs"
    by (intro lineComment_render) auto
  then show "checkFunctionBlocklist (render (LineComment b # xs)) denied = checkFunctionBlocklist (render xs) denied"
    by (simp add: checkFunctionBlocklist.simps [of "CHR ''-'' # CHR ''-'' # b @ render xs"])
next
  assume "wf_segs (BlockComment b # xs)"
  then show "checkFunctionBlocklist (render (BlockComment b # xs)) denied = checkFunctionBlocklist (render xs) denied"
    by (simp add: checkFunctionBlocklist.simps [of "CHR ''/'' # CHR ''*'' # b @ CHR ''*'' # CHR ''/'' # render xs"])
next
  assume "wf_segs (Quoted squote b # xs)"
  then show "checkFunctionBlocklist (render (Quoted squote b # xs)) denied = checkFunctionBlocklist (render xs) denied"
    using no_comment_at_quote [of squote "escape squote b @ squote # render xs"]
    by (simp add: checkFunctionBlocklist.simps [of "squote # escape squote b @ squote # render xs"]
        skipFunctionStringLiteral_def skipQuoted_escape)
next
  assume "wf_segs (Quoted dquote b # xs)"
  then show "checkFunctionBlocklist (render (Quoted dquote b # xs)) denied =
       (if ToLower b \<in> set denied \<and> functionCallAt (render xs) then Some (FunctionBlocked b)
        else checkFunctionBlocklist (render xs) denied)"
    using no_comment_at_quote [of dquote "escape dquote b @ dquote # render xs"]
    by (simp add: checkFunctionBlocklist.simps [of "dquote # escape dquote b @ dquote # render xs"]
        readQuoted_escape)
qed

text \<open>A rejected tail stays rejected behind any segments that do not merge into its first
  identifier.\<close>

lemma check_behind_prefix:
  assumes "wf_segs (pre @ tgt)" "tgt \<noteq> []"
    and "checkFunctionBlocklist (render tgt) denied \<noteq> None"
    and "pre = [] \<or> \<not> codePart (last pre) \<or> \<not> codePart (hd tgt)"
  shows "checkFunctionBlocklist (render (pre @ tgt)) denied \<noteq> None"
  using assms
proof (induction pre rule: measure_induct_rule [where f = length])
  case (less pre)
  show ?case
  proof (cases pre)
    case Nil
    with less.prems show ?thesis by simp
  next
    case (Cons x pre')
    have wf: "wf_segs (x # pre' @ tgt)" and wf': "wf_segs (pre' @ tgt)"
      using less.prems(1) wf_segs_append [of "[x]" "pre' @ tgt"] by (auto simp: Cons)
    have bd: "zs = [] \<or> \<not> codePart (last zs) \<or> \<not> codePart (hd tgt)" if "pre' = ys @ zs" for ys zs
      using less.prems(4) that by (auto simp: Cons split: if_splits)
    have IH: "checkFunctionBlocklist (render (zs @ tgt)) denied \<noteq> None" if "pre' = ys @ zs" for ys zs
      using less.IH [of zs] less.prems bd [OF that] wf_segs_append [of "x # ys" "zs @ tgt"] that
      by (simp add: Cons)
    note IH0 = IH [of "[]" pre', simplified]
    show ?thesis
    proof (cases x)
      case (Code c)
      show ?thesis
      proof (cases "isFunctionIdentifierStart c")
        case False
        with Code wf IH0 show ?thesis by (simp add: Cons check_code del: render_Cons)
      next
        case True
        let ?run = "takeWhile codePart pre'" and ?zs = "dropWhile codePart pre'"
        have split: "pre' = ?run @ ?zs" by simp
        have "\<not> codePart (hd (?zs @ tgt))"
        proof (cases "?zs = []")
          case True
          then have "\<forall>y\<in>set pre'. codePart y" by (simp add: dropWhile_eq_Nil_conv)
          then have "codePart (last pre)"
            using Code \<open>isFunctionIdentifierStart c\<close> start_is_part by (auto simp: Cons codePart_def)
          with less.prems(4) have "\<not> codePart (hd tgt)" by (simp add: Cons)
          then show ?thesis unfolding True by simp
        next
          case False
          then show ?thesis using hd_dropWhile [of codePart pre'] by simp
        qed
        moreover have "wf_segs (?run @ ?zs @ tgt)"
          using wf' by (metis append_assoc takeWhile_dropWhile_id)
        ultimately have "dropWhile isFunctionIdentifierPart (render (?run @ ?zs @ tgt)) = render (?zs @ tgt)"
          by (intro dropWhile_part_render) (auto dest: set_takeWhileD)
        then have rest: "dropWhile isFunctionIdentifierPart (render (pre' @ tgt)) = render (?zs @ tgt)"
          by (simp only: append_assoc [symmetric] takeWhile_dropWhile_id)
        have "checkFunctionBlocklist (render (Code c # pre' @ tgt)) denied \<noteq> None"
          using IH [OF split] wf True unfolding Code
          by (subst check_code) (auto simp: Let_def rest simp del: render_Cons render_append)
        then show ?thesis by (simp add: Cons Code)
      qed
    next
      case (LineComment b)
      with wf IH0 show ?thesis by (simp add: Cons check_noncode(1) del: render_Cons)
    next
      case (BlockComment b)
      with wf IH0 show ?thesis by (simp add: Cons check_noncode(2) del: render_Cons)
    next
      case (Quoted q b)
      with wf have "q = squote \<or> q = dquote" by simp
      with Quoted wf IH0 show ?thesis by (auto simp: Cons check_noncode(3,4) simp del: render_Cons)
    next
      case (OpenBlock b)
      with wf less.prems(2) show ?thesis by simp
    next
      case (OpenQuoted q b)
      with wf less.prems(2) show ?thesis by simp
    qed
  qed
qed

lemma render_map_Code [simp]: "render (map Code s) = s"
  by (induction s) auto

definition isIdentifier :: "string \<Rightarrow> bool" where
  "isIdentifier s \<longleftrightarrow> s \<noteq> [] \<and> isFunctionIdentifierStart (hd s) \<and> list_all isFunctionIdentifierPart s"

lemma check_call:
  assumes "wf_segs (map Code name @ post)" "isIdentifier name"
    and "post = [] \<or> \<not> codePart (hd post)"
    and "ToLower name \<in> set denied" "functionCallAt (render post)"
  shows "checkFunctionBlocklist (render (map Code name @ post)) denied = Some (FunctionBlocked (ToLower name))"
proof -
  from assms(2) obtain c cs where name: "name = c # cs" "isFunctionIdentifierStart c"
    "\<forall>d\<in>set cs. isFunctionIdentifierPart d"
    by (cases name) (auto simp: isIdentifier_def list_all_iff)
  have wf: "wf_segs (Code c # map Code cs @ post)" using assms(1) by (simp add: name)
  then have wf': "wf_segs (map Code cs @ post)" using wf_segs_append [of "[Code c]"] by simp
  have drop: "dropWhile isFunctionIdentifierPart (cs @ render post) = render post"
    using dropWhile_part_render [OF wf'] name(3) assms(3) by (auto simp: codePart_def)
  have take: "takeWhile isFunctionIdentifierPart (cs @ render post) = cs"
    using takeWhile_dropWhile_id [of isFunctionIdentifierPart "cs @ render post"] drop by simp
  show ?thesis
    using check_code [OF wf] assms(4,5) name drop take by simp
qed

section \<open>The deny list\<close>

lemma normalizeLoop_Inr:
  "normalizeLoop fs acc = Inr ns \<Longrightarrow>
     (\<forall>f\<in>set fs. functionNameMatches (ToLower (TrimSpace f))) \<and>
     ns = collect_new acc (map (\<lambda>f. ToLower (TrimSpace f)) fs)"
  by (induction fs arbitrary: acc) (auto simp: Let_def split: if_splits)

lemma normalizeLoop_Inl:
  "normalizeLoop fs acc = Inl e \<Longrightarrow>
     \<exists>f\<in>set fs. e = InvalidFunctionName f \<and> \<not> functionNameMatches (ToLower (TrimSpace f))"
  by (induction fs arbitrary: acc) (auto simp: Let_def split: if_splits)

lemma distinct_default: "distinct defaultDeniedFunctions"
  by code_simp

lemma EffectiveDeniedFunctions_Inr:
  assumes "EffectiveDeniedFunctions custom = Inr eff"
  shows "set eff = set defaultDeniedFunctions \<union> (\<lambda>f. ToLower (TrimSpace f)) ` set custom"
    and "distinct eff"
proof -
  from assms obtain ns where ns: "normalizeLoop custom [] = Inr ns"
    and eff: "eff = collect_new defaultDeniedFunctions (filter (\<lambda>n. n \<notin> set defaultDeniedFunctions) ns)"
    by (auto simp: EffectiveDeniedFunctions_def NormalizeCustomFunctionBlocklist_def
        NormalizeFunctionBlocklist_def collect_new_def split: sum.splits)
  from normalizeLoop_Inr [OF ns] have "set ns = (\<lambda>f. ToLower (TrimSpace f)) ` set custom" by simp
  then show "set eff = set defaultDeniedFunctions \<union> (\<lambda>f. ToLower (TrimSpace f)) ` set custom"
    by (auto simp: eff)
  show "distinct eff" by (simp add: eff distinct_default)
qed

lemma Check_None:
  assumes "Check c sql = None"
  defines "code \<equiv> stripSQLLiteralsAndComments (TrimSpace sql)"
  shows "\<exists>p\<in>{''SELECT'', ''WITH'', ''EXPLAIN''}. HasPrefix (ToUpper (TrimSpace code)) p"
    and "\<forall>kw\<in>set dangerousWords. \<not> wordMatch (keywordHere kw) False code"
    and "\<not> wordMatch bulkInsertHere False code"
    and "checkFunctionBlocklist (TrimSpace sql) (deniedFunctions c) = None"
    and "\<not> hasMultipleStatements code"
proof -
  have loop: "first_err (\<lambda>(kw, here). if wordMatch here False code then Some (DangerousKeyword kw) else None)
      dangerousKeywordPatterns = None"
    using assms(1) unfolding Check_def code_def [symmetric] Let_def by (auto split: if_splits option.splits)
  then show "\<forall>kw\<in>set dangerousWords. \<not> wordMatch (keywordHere kw) False code"
    and "\<not> wordMatch bulkInsertHere False code"
    by (auto simp: err_simps dangerousKeywordPatterns_def)
  show "\<exists>p\<in>{''SELECT'', ''WITH'', ''EXPLAIN''}. HasPrefix (ToUpper (TrimSpace code)) p"
    and "checkFunctionBlocklist (TrimSpace sql) (deniedFunctions c) = None"
    and "\<not> hasMultipleStatements code"
    using assms(1) unfolding Check_def code_def [symmetric] Let_def by (auto split: if_splits option.splits)
qed

section \<open>Properties\<close>

definition example_sql :: string where
  "example_sql = ''SELECT name /* drop; */ FROM t WHERE note = '' @ [squote] @ ''a; delete'' @ [squote] @ '';''"

definition example_segs :: "seg list" where
  "example_segs = map Code ''SELECT name '' @ [BlockComment '' drop; ''] @ map Code '' FROM t WHERE note = '' @
     [Quoted squote ''a; delete''] @ map Code '';''"

text \<open>C38. Stripping is exact: every SQL text is a sequence of code bytes, comments and quoted
  literals, and the stripped text consists of the code bytes of that sequence and the bare quotes
  of its literals, in order, with all comment text and all literal content gone.\<close>

theorem strip_exact:
  "(\<exists>xs. wf_segs xs \<and> render xs = sql) \<and>
   (\<forall>xs. wf_segs xs \<and> render xs = sql \<longrightarrow> stripSQLLiteralsAndComments sql = visible xs)"
  using every_text_is_segments strip_render by blast

theorem strip_exact_witness:
  "wf_segs example_segs \<and> render example_segs = example_sql \<and>
   stripSQLLiteralsAndComments example_sql = ''SELECT name  FROM t WHERE note = '' @ [squote, squote] @ '';''"
proof -
  have wf: "wf_segs example_segs \<and> render example_segs = example_sql" by code_simp
  have vis: "visible example_segs = ''SELECT name  FROM t WHERE note = '' @ [squote, squote] @ '';''" by code_simp
  show ?thesis using wf vis strip_exact [of example_sql] by metis
qed

text \<open>C1. What the read-only checker accepts is read-only in its code: outside comments and
  literals there is no whole word, in any case, of the dangerous list, nothing but blanks and
  semicolons follows the first semicolon, and the text starts with SELECT, WITH or EXPLAIN.\<close>

theorem Check_accepts_only_reads:
  assumes "Check c sql = None" and "wf_segs xs" and "render xs = TrimSpace sql"
  shows "(\<forall>kw\<in>set dangerousWords. \<not> hasWord kw (visible xs)) \<and>
         (\<forall>u r. visible xs = u @ CHR '';'' # r \<longrightarrow> set r \<subseteq> trailing) \<and>
         (\<exists>p\<in>{''SELECT'', ''WITH'', ''EXPLAIN''}. HasPrefix (ToUpper (TrimSpace (visible xs))) p)"
proof -
  have code: "stripSQLLiteralsAndComments (TrimSpace sql) = visible xs"
    using strip_render [OF assms(2)] assms(3) by simp
  note facts = Check_None [OF assms(1), unfolded code]
  have "kw \<noteq> []" if "kw \<in> set dangerousWords" for kw
    using that by (auto simp: dangerousWords_def)
  with facts(2) have "\<forall>kw\<in>set dangerousWords. \<not> hasWord kw (visible xs)"
    by (auto simp: wordMatch_keyword)
  moreover have "\<forall>u r. visible xs = u @ CHR '';'' # r \<longrightarrow> set r \<subseteq> trailing"
    using facts(5) by (auto simp: hasMultipleStatements_iff)
  ultimately show ?thesis using facts(1) by blast
qed

theorem Check_accepts_only_reads_witness:
  "Check NewReadOnlyChecker example_sql = None \<and> \<not> hasWord ''DROP'' (visible example_segs) \<and>
   Check NewReadOnlyChecker ''SELECT 1; DROP TABLE t'' = Some (DangerousKeyword ''DROP'')"
proof -
  have ok: "Check NewReadOnlyChecker example_sql = None" by code_simp
  have wf: "wf_segs example_segs" by code_simp
  have r: "render example_segs = TrimSpace example_sql" by code_simp
  have bad: "Check NewReadOnlyChecker ''SELECT 1; DROP TABLE t'' = Some (DangerousKeyword ''DROP'')"
    by code_simp
  have "''DROP'' \<in> set dangerousWords" by (simp add: dangerousWords_def)
  with Check_accepts_only_reads [OF ok wf r] ok bad show ?thesis by blast
qed

text \<open>A denied function cannot be called: if the code of the text contains an identifier whose
  lower-case form is on the checker's deny list, followed (after blanks and comments) by an opening
  parenthesis, or a double-quoted identifier of that kind, the checker rejects the text.\<close>

theorem Check_rejects_denied_call:
  assumes "wf_segs (pre @ call @ post)" and "render (pre @ call @ post) = TrimSpace sql"
    and "(call = map Code name \<and> isIdentifier name \<and> (pre = [] \<or> \<not> codePart (last pre)) \<and>
          (post = [] \<or> \<not> codePart (hd post))) \<or> call = [Quoted dquote name]"
    and "ToLower name \<in> set (deniedFunctions c)" and "functionCallAt (render post)"
  shows "Check c sql \<noteq> None"
proof -
  have wf: "wf_segs (call @ post)" using assms(1) by (rule wf_segs_append)
  have ne: "call \<noteq> []" using assms(3) by (auto simp: isIdentifier_def)
  have hit: "checkFunctionBlocklist (render (call @ post)) (deniedFunctions c) \<noteq> None"
    using assms(3)
  proof
    assume "call = map Code name \<and> isIdentifier name \<and> (pre = [] \<or> \<not> codePart (last pre)) \<and>
          (post = [] \<or> \<not> codePart (hd post))"
    with check_call [of name post "deniedFunctions c"] wf assms(4,5) show ?thesis by simp
  next
    assume "call = [Quoted dquote name]"
    with wf assms(4,5) check_noncode(4) [of name post "deniedFunctions c"] show ?thesis
      by (simp del: render_Cons)
  qed
  have bd: "pre = [] \<or> \<not> codePart (last pre) \<or> \<not> codePart (hd (call @ post))"
    using assms(3) by (auto simp: codePart_def)
  have "checkFunctionBlocklist (render (pre @ call @ post)) (deniedFunctions c) \<noteq> None"
    by (rule check_behind_prefix [OF assms(1) _ hit bd]) (simp add: ne)
  then have "checkFunctionBlocklist (TrimSpace sql) (deniedFunctions c) \<noteq> None"
    unfolding assms(2) .
  then show ?thesis using Check_None(4) [of c sql] by (cases "Check c sql") simp_all
qed

theorem Check_rejects_denied_call_witness:
  "Check NewReadOnlyChecker ''SELECT Load_File /* x */ (1)'' \<noteq> None"
proof -
  let ?pre = "map Code ''SELECT ''" and ?call = "map Code ''Load_File''"
  let ?post = "map Code '' '' @ [BlockComment '' x ''] @ map Code '' (1)''"
  have wf: "wf_segs (?pre @ ?call @ ?post)" by code_simp
  have r: "render (?pre @ ?call @ ?post) = TrimSpace ''SELECT Load_File /* x */ (1)''" by code_simp
  have id: "isIdentifier ''Load_File''" by code_simp
  have b1: "\<not> codePart (last ?pre)" by code_simp
  have b2: "\<not> codePart (hd ?post)" by code_simp
  have den: "ToLower ''Load_File'' \<in> set (deniedFunctions NewReadOnlyChecker)" by code_simp
  have fc: "functionCallAt (render ?post)" by code_simp
  show ?thesis
    by (rule Check_rejects_denied_call [OF wf r _ den fc], rule disjI1, intro conjI,
        rule refl, rule id, rule disjI2, rule b1, rule disjI2, rule b2)
qed

text \<open>Datasource configuration can only extend the deny list: when the additions are accepted,
  the effective list holds every default entry and the lower-cased additions, each once; and the
  additions are refused exactly when one of them is not a plain function name.\<close>

theorem EffectiveDeniedFunctions_extends:
  "case EffectiveDeniedFunctions custom of
     Inr eff \<Rightarrow> distinct eff \<and>
       set eff = set defaultDeniedFunctions \<union> (\<lambda>f. ToLower (TrimSpace f)) ` set custom \<and>
       (\<forall>f\<in>set custom. functionNameMatches (ToLower (TrimSpace f)))
   | Inl e \<Rightarrow> (\<exists>f\<in>set custom. e = InvalidFunctionName f \<and> \<not> functionNameMatches (ToLower (TrimSpace f)))"
proof (cases "EffectiveDeniedFunctions custom")
  case (Inl e)
  then have "normalizeLoop custom [] = Inl e"
    by (auto simp: EffectiveDeniedFunctions_def NormalizeCustomFunctionBlocklist_def
        NormalizeFunctionBlocklist_def split: sum.splits)
  from normalizeLoop_Inl [OF this] Inl show ?thesis by simp
next
  case (Inr eff)
  then obtain ns where "normalizeLoop custom [] = Inr ns"
    by (auto simp: EffectiveDeniedFunctions_def NormalizeCustomFunctionBlocklist_def
        NormalizeFunctionBlocklist_def split: sum.splits)
  from normalizeLoop_Inr [OF this] EffectiveDeniedFunctions_Inr [OF Inr] Inr show ?thesis by simp
qed

theorem EffectiveDeniedFunctions_extends_witness:
  "\<exists>eff. EffectiveDeniedFunctions ['' Sleep '', ''DBLINK''] = Inr eff \<and> ''sleep'' \<in> set eff \<and>
     ''dblink'' \<in> set eff \<and> distinct eff"
proof -
  have run: "EffectiveDeniedFunctions ['' Sleep '', ''DBLINK''] = Inr (defaultDeniedFunctions @ [''sleep''])"
    by code_simp
  have mem: "''sleep'' \<in> set (defaultDeniedFunctions @ [''sleep''])" "''dblink'' \<in> set (defaultDeniedFunctions @ [''sleep''])"
    by (simp_all add: defaultDeniedFunctions_def)
  have "distinct (defaultDeniedFunctions @ [''sleep''])"
    using EffectiveDeniedFunctions_extends [of "['' Sleep '', ''DBLINK'']"] unfolding run by simp
  with run mem show ?thesis by blast
qed

end
