(* ===== verification/Dialects.thy ===== *)
theory Dialects
  imports Go_Prelude
begin

text \<open>
  \<open>internal/dialect\<close>: the eight SQL dialects behind one interface. A dialect is its concrete type
  (\<open>d_kind\<close>) together with the embedded \<open>BaseDialect\<close> configuration; a method is one function that
  dispatches on the kind where a concrete type overrides the method of \<open>BaseDialect\<close>, and falls
  back to the shared implementation where it does not.

  The locale \<open>segment_quoter\<close> states what identifier quoting promises its callers (a quoted segment
  can be read back and cannot end early) and proves the round trip of qualified names from it; it
  is interpreted for every dialect. The locale \<open>numbered_placeholders\<close> does the same for the three
  dialects whose bind parameters carry their index.
\<close>

section \<open>String helpers\<close>

function ReplaceAll :: "string \<Rightarrow> string \<Rightarrow> string \<Rightarrow> string" where
  "ReplaceAll s old new =
     (if old = [] then concat (map (\<lambda>c. new @ [c]) s) @ new
      else if s = [] then []
      else if prefix old s then new @ ReplaceAll (drop (length old) s) old new
      else hd s # ReplaceAll (tl s) old new)"
  by pat_completeness auto
termination
  by (relation "measure (\<lambda>(s, old, new). length s)") auto

declare ReplaceAll.simps [simp del]

text \<open>\<open>fmt.Sprintf\<close> for formats whose only verbs are \<open>%s\<close> and \<open>%%\<close>.\<close>

fun Sprintf :: "string \<Rightarrow> string list \<Rightarrow> string" where
  "Sprintf [] args = []"
| "Sprintf [c] args = [c]"
| "Sprintf (c # d # f) args =
     (if c = CHR ''%'' \<and> d = CHR ''s'' then
        (case args of [] \<Rightarrow> ''%!s(MISSING)'' @ Sprintf f [] | a # as \<Rightarrow> a @ Sprintf f as)
      else if c = CHR ''%'' \<and> d = CHR ''%'' then c # Sprintf f args
      else c # Sprintf (d # f) args)"

section \<open>Configuration (embed.go) and concrete types\<close>

record BaseDialect =
  QuoteLeft :: string
  QuoteRight :: string
  ExplainDisabled :: bool
  ClickHouseAggs :: bool

datatype dialect_kind =
    PostgresDialect | MySQLDialect | SQLServerDialect | ClickHouseDialect
  | SQLiteDialect | SnowflakeDialect | DatabricksDialect | OracleDialect

record Dialect =
  d_kind :: dialect_kind
  d_base :: BaseDialect

definition quoted_by :: "string \<Rightarrow> string \<Rightarrow> BaseDialect" where
  "quoted_by l r = \<lparr>QuoteLeft = l, QuoteRight = r, ExplainDisabled = False, ClickHouseAggs = False\<rparr>"

definition Postgres :: Dialect where
  "Postgres = \<lparr>d_kind = PostgresDialect, d_base = quoted_by [CHR 0x22] [CHR 0x22]\<rparr>"

definition MySQL :: Dialect where
  "MySQL = \<lparr>d_kind = MySQLDialect, d_base = quoted_by ''`'' ''`''\<rparr>"

definition SQLServer :: Dialect where
  "SQLServer = \<lparr>d_kind = SQLServerDialect, d_base = (quoted_by ''['' '']'')\<lparr>ExplainDisabled := True\<rparr>\<rparr>"

definition ClickHouse :: Dialect where
  "ClickHouse = \<lparr>d_kind = ClickHouseDialect, d_base = (quoted_by ''`'' ''`'')\<lparr>ClickHouseAggs := True\<rparr>\<rparr>"

definition SQLite :: Dialect where
  "SQLite = \<lparr>d_kind = SQLiteDialect, d_base = quoted_by [CHR 0x22] [CHR 0x22]\<rparr>"

definition Snowflake :: Dialect where
  "Snowflake = \<lparr>d_kind = SnowflakeDialect, d_base = quoted_by [CHR 0x22] [CHR 0x22]\<rparr>"

definition Databricks :: Dialect where
  "Databricks = \<lparr>d_kind = DatabricksDialect, d_base = quoted_by ''`'' ''`''\<rparr>"

definition Oracle :: Dialect where
  "Oracle = \<lparr>d_kind = OracleDialect,
     d_base = (quoted_by [CHR 0x22] [CHR 0x22])\<lparr>ExplainDisabled := True\<rparr>\<rparr>"

lemmas dialect_instances = Postgres_def MySQL_def SQLServer_def ClickHouse_def SQLite_def
  Snowflake_def Databricks_def Oracle_def quoted_by_def

fun globalInstance :: "dialect_kind \<Rightarrow> Dialect" where
  "globalInstance PostgresDialect = Postgres"
| "globalInstance MySQLDialect = MySQL"
| "globalInstance SQLServerDialect = SQLServer"
| "globalInstance ClickHouseDialect = ClickHouse"
| "globalInstance SQLiteDialect = SQLite"
| "globalInstance SnowflakeDialect = Snowflake"
| "globalInstance DatabricksDialect = Databricks"
| "globalInstance OracleDialect = Oracle"

definition Normalize :: "Dialect \<Rightarrow> Dialect" where
  "Normalize d = (if QuoteLeft (d_base d) = [] then globalInstance (d_kind d) else d)"

section \<open>Quoting (base.go, embed.go)\<close>

definition QuoteIdentSegment :: "BaseDialect \<Rightarrow> string \<Rightarrow> string" where
  "QuoteIdentSegment b identifier =
     (let left = (if QuoteLeft b = [] then [CHR 0x22] else QuoteLeft b);
          right = (if QuoteRight b = [] then [CHR 0x22] else QuoteRight b)
      in left @ ReplaceAll identifier right (right @ right) @ right)"

definition QuoteIdentQualified :: "(string \<Rightarrow> string) \<Rightarrow> string \<Rightarrow> string" where
  "QuoteIdentQualified quoteSegment identifier =
     Join (map quoteSegment (Split identifier CHR ''.'')) ''.''"

definition QuoteIdent :: "Dialect \<Rightarrow> string \<Rightarrow> string" where
  "QuoteIdent d identifier = QuoteIdentQualified (QuoteIdentSegment (d_base d)) identifier"

definition quote1 :: string where "quote1 = [CHR 0x27]"
definition backslash :: string where "backslash = [CHR 0x5C]"

definition quoteStandardLiteral :: "string \<Rightarrow> string" where
  "quoteStandardLiteral v = quote1 @ ReplaceAll v quote1 (quote1 @ quote1) @ quote1"

definition quoteBackslashEscapedLiteral :: "string \<Rightarrow> string" where
  "quoteBackslashEscapedLiteral v =
     (let v1 = ReplaceAll v backslash (backslash @ backslash);
          v2 = ReplaceAll v1 quote1 (quote1 @ quote1)
      in quote1 @ v2 @ quote1)"

definition backslashDialects :: "dialect_kind list" where
  "backslashDialects = [MySQLDialect, ClickHouseDialect, SnowflakeDialect, DatabricksDialect]"

definition QuoteStringLiteral :: "Dialect \<Rightarrow> string \<Rightarrow> string" where
  "QuoteStringLiteral d v =
     (if d_kind d \<in> set backslashDialects then quoteBackslashEscapedLiteral v
      else quoteStandardLiteral v)"

section \<open>Per-dialect spellings\<close>

fun dialectName :: "dialect_kind \<Rightarrow> string" where
  "dialectName PostgresDialect = ''postgres''"
| "dialectName MySQLDialect = ''mysql''"
| "dialectName SQLServerDialect = ''sqlserver''"
| "dialectName ClickHouseDialect = ''clickhouse''"
| "dialectName SQLiteDialect = ''sqlite''"
| "dialectName SnowflakeDialect = ''snowflake''"
| "dialectName DatabricksDialect = ''databricks''"
| "dialectName OracleDialect = ''oracle''"

definition Name :: "Dialect \<Rightarrow> string" where
  "Name d = dialectName (d_kind d)"

definition Placeholder :: "Dialect \<Rightarrow> int \<Rightarrow> string" where
  "Placeholder d index =
     (case d_kind d of
        PostgresDialect \<Rightarrow> ''$'' @ Itoa index
      | SQLServerDialect \<Rightarrow> ''@p'' @ Itoa index
      | OracleDialect \<Rightarrow> '':'' @ Itoa index
      | _ \<Rightarrow> ''?'')"

definition StandardLimitOffset :: "int \<Rightarrow> int \<Rightarrow> string" where
  "StandardLimitOffset limit offset =
     Join ((if limit > 0 then [''LIMIT '' @ Itoa limit] else []) @
           (if offset > 0 then [''OFFSET '' @ Itoa offset] else [])) '' ''"

definition sqlServerLimitOffset :: "int \<Rightarrow> int \<Rightarrow> string" where
  "sqlServerLimitOffset limit offset =
     (if limit \<le> 0 \<and> offset \<le> 0 then []
      else Join ([''OFFSET '' @ Itoa offset @ '' ROWS''] @
             (if limit > 0 then [''FETCH NEXT '' @ Itoa limit @ '' ROWS ONLY''] else [])) '' '')"

definition oracleLimitOffset :: "int \<Rightarrow> int \<Rightarrow> string" where
  "oracleLimitOffset limit offset =
     (if limit > 0 \<and> offset > 0 then
        ''OFFSET '' @ Itoa offset @ '' ROWS FETCH NEXT '' @ Itoa limit @ '' ROWS ONLY''
      else if limit > 0 then ''FETCH FIRST '' @ Itoa limit @ '' ROWS ONLY''
      else if offset > 0 then ''OFFSET '' @ Itoa offset @ '' ROWS''
      else [])"

definition LimitOffset :: "Dialect \<Rightarrow> int \<Rightarrow> int \<Rightarrow> string" where
  "LimitOffset d limit offset =
     (case d_kind d of
        SQLServerDialect \<Rightarrow> sqlServerLimitOffset limit offset
      | OracleDialect \<Rightarrow> oracleLimitOffset limit offset
      | _ \<Rightarrow> StandardLimitOffset limit offset)"

definition CastTypeUpper :: "string \<Rightarrow> string" where
  "CastTypeUpper sqlType = ToUpper sqlType"

record aggregateSpelling =
  as_countStar :: string
  as_count :: string
  as_countDistinct :: string
  as_sum :: string
  as_avg :: string
  as_min :: string
  as_max :: string
  as_defaultUnknown :: string

definition aggregateSQL :: "(string \<Rightarrow> string) \<Rightarrow> string \<Rightarrow> string \<Rightarrow> aggregateSpelling \<Rightarrow> string" where
  "aggregateSQL quoteIdent fn column spell =
     (let fnLower = ToLower (TrimSpace fn) in
      if fnLower = ''custom'' \<or> fnLower = ''none'' \<or> fnLower = [] then column
      else if fnLower = ''count'' \<and> column = ''*'' then as_countStar spell
      else
        (let quotedCol = quoteIdent column in
         if fnLower = ''count'' then Sprintf (as_count spell) [quotedCol]
         else if fnLower = ''count_distinct'' then Sprintf (as_countDistinct spell) [quotedCol]
         else if fnLower = ''sum'' then Sprintf (as_sum spell) [quotedCol]
         else if fnLower = ''avg'' then Sprintf (as_avg spell) [quotedCol]
         else if fnLower = ''min'' then Sprintf (as_min spell) [quotedCol]
         else if fnLower = ''max'' then Sprintf (as_max spell) [quotedCol]
         else Sprintf (as_defaultUnknown spell) [quotedCol]))"

definition AggregateStandardSQL :: "(string \<Rightarrow> string) \<Rightarrow> string \<Rightarrow> string \<Rightarrow> string" where
  "AggregateStandardSQL quoteIdent fn column =
     aggregateSQL quoteIdent fn column
       \<lparr>as_countStar = ''COUNT(*)'', as_count = ''COUNT(%s)'', as_countDistinct = ''COUNT(DISTINCT %s)'',
        as_sum = ''SUM(%s)'', as_avg = ''AVG(%s)'', as_min = ''MIN(%s)'', as_max = ''MAX(%s)'',
        as_defaultUnknown = ''COUNT(%s)''\<rparr>"

definition AggregateClickHouseSQL :: "(string \<Rightarrow> string) \<Rightarrow> string \<Rightarrow> string \<Rightarrow> string" where
  "AggregateClickHouseSQL quoteIdent fn column =
     aggregateSQL quoteIdent fn column
       \<lparr>as_countStar = ''count()'', as_count = ''count(%s)'', as_countDistinct = ''uniq(%s)'',
        as_sum = ''sum(%s)'', as_avg = ''avg(%s)'', as_min = ''min(%s)'', as_max = ''max(%s)'',
        as_defaultUnknown = ''count(%s)''\<rparr>"

definition Aggregate :: "Dialect \<Rightarrow> string \<Rightarrow> string \<Rightarrow> string" where
  "Aggregate d fn column =
     (let quoteIdent = QuoteIdentQualified (QuoteIdentSegment (d_base d)) in
      if ClickHouseAggs (d_base d) then AggregateClickHouseSQL quoteIdent fn column
      else AggregateStandardSQL quoteIdent fn column)"

section \<open>Dates\<close>

definition mysqlDateTrunc :: "string \<Rightarrow> string \<Rightarrow> string" where
  "mysqlDateTrunc part q =
     (let p = ToLower (TrimSpace part) in
      if p = ''day'' then Sprintf ''DATE(%s)'' [q]
      else if p = ''week'' then Sprintf ''DATE_SUB(DATE(%s), INTERVAL WEEKDAY(%s) DAY)'' [q, q]
      else if p = ''month'' then Sprintf ''DATE_FORMAT(%s, '%%Y-%%m-01')'' [q]
      else if p = ''quarter'' then
        Sprintf ''MAKEDATE(YEAR(%s), 1) + INTERVAL (QUARTER(%s) - 1) QUARTER'' [q, q]
      else if p = ''year'' then Sprintf ''MAKEDATE(YEAR(%s), 1)'' [q]
      else Sprintf ''DATE_FORMAT(%s, '%%Y-%%m-%%d %%H:%%i:%%s')'' [q])"

definition titleCase :: "string \<Rightarrow> string" where
  "titleCase s = (if s = [] then s else ToUpper (take 1 s) @ drop 1 s)"

definition sqliteDateTrunc :: "string \<Rightarrow> string \<Rightarrow> string" where
  "sqliteDateTrunc part expr =
     (let p = ToLower (TrimSpace part) in
      if p = ''day'' then Sprintf ''date(%s)'' [expr]
      else if p = ''week'' then Sprintf ''date(%s, 'weekday 0', '-6 days')'' [expr]
      else if p = ''month'' then Sprintf ''date(%s, 'start of month')'' [expr]
      else if p = ''quarter'' then
        Sprintf ''date(%s, 'start of month', '-' || ((CAST(strftime('%%m', %s) AS INTEGER) - 1) %% 3) || ' months')''
          [expr, expr]
      else if p = ''year'' then Sprintf ''date(%s, 'start of year')'' [expr]
      else Sprintf ''datetime(%s)'' [expr])"

definition oracleTruncFormat :: "string \<Rightarrow> string" where
  "oracleTruncFormat part =
     (let p = ToLower (TrimSpace part) in
      if p = ''day'' then ''DD'' else if p = ''week'' then ''IW'' else if p = ''month'' then ''MM''
      else if p = ''quarter'' then ''Q'' else if p = ''year'' then ''YYYY'' else ''DD'')"

definition DateTrunc :: "Dialect \<Rightarrow> string \<Rightarrow> string \<Rightarrow> string" where
  "DateTrunc d part column =
     (let q = QuoteIdent d column in
      case d_kind d of
        PostgresDialect \<Rightarrow> Sprintf ''DATE_TRUNC('%s', %s)'' [part, q]
      | MySQLDialect \<Rightarrow> mysqlDateTrunc part q
      | SQLServerDialect \<Rightarrow> Sprintf ''DATEADD(%s, DATEDIFF(%s, 0, %s), 0)'' [part, part, q]
      | ClickHouseDialect \<Rightarrow> Sprintf ''toStartOf%s(%s)'' [titleCase (ToLower part), q]
      | SQLiteDialect \<Rightarrow> sqliteDateTrunc part q
      | SnowflakeDialect \<Rightarrow> Sprintf ''DATE_TRUNC('%s', %s)'' [part, q]
      | DatabricksDialect \<Rightarrow> Sprintf ''date_trunc('%s', %s)'' [ToUpper part, q]
      | OracleDialect \<Rightarrow> Sprintf ''TRUNC(%s, '%s')'' [q, oracleTruncFormat part])"

definition baseDateTruncPlaceholder :: "string \<Rightarrow> string \<Rightarrow> string" where
  "baseDateTruncPlaceholder part placeholder =
     Sprintf ''DATE_TRUNC('%s', CAST(%s AS TIMESTAMP))'' [part, placeholder]"

definition DateTruncPlaceholder :: "Dialect \<Rightarrow> string \<Rightarrow> string \<Rightarrow> string" where
  "DateTruncPlaceholder d part placeholder =
     (case d_kind d of
        PostgresDialect \<Rightarrow> Sprintf ''DATE_TRUNC('%s', %s::timestamptz)'' [part, placeholder]
      | SQLiteDialect \<Rightarrow> sqliteDateTrunc part placeholder
      | DatabricksDialect \<Rightarrow>
          Sprintf ''date_trunc('%s', CAST(%s AS TIMESTAMP))'' [ToUpper part, placeholder]
      | OracleDialect \<Rightarrow>
          Sprintf ''TRUNC(CAST(%s AS TIMESTAMP), '%s')'' [placeholder, oracleTruncFormat part]
      | _ \<Rightarrow> baseDateTruncPlaceholder part placeholder)"

text \<open>The five formats are year, quarter, month, day and hour.\<close>

definition CalendarPartLookup :: "Dialect \<Rightarrow> string \<Rightarrow> string \<Rightarrow> string list \<Rightarrow> string" where
  "CalendarPartLookup d part column fmts =
     (let q = QuoteIdent d column; p = ToLower (TrimSpace part) in
      if p = ''year'' then Sprintf (fmts ! 0) [q]
      else if p = ''quarter'' then Sprintf (fmts ! 1) [q]
      else if p = ''month'' then Sprintf (fmts ! 2) [q]
      else if p = ''day'' then Sprintf (fmts ! 3) [q]
      else if p = ''hour'' then Sprintf (fmts ! 4) [q]
      else DateTrunc d part column)"

fun calendarFormats :: "dialect_kind \<Rightarrow> string list" where
  "calendarFormats PostgresDialect =
     [''CAST(EXTRACT(YEAR FROM %s) AS INTEGER)'', ''CAST(EXTRACT(QUARTER FROM %s) AS INTEGER)'',
      ''CAST(EXTRACT(MONTH FROM %s) AS INTEGER)'', ''CAST(EXTRACT(DAY FROM %s) AS INTEGER)'',
      ''CAST(EXTRACT(HOUR FROM %s) AS INTEGER)'']"
| "calendarFormats MySQLDialect =
     [''YEAR(%s)'', ''QUARTER(%s)'', ''MONTH(%s)'', ''DAYOFMONTH(%s)'', ''HOUR(%s)'']"
| "calendarFormats SQLServerDialect =
     [''YEAR(%s)'', ''DATEPART(quarter, %s)'', ''MONTH(%s)'', ''DAY(%s)'', ''DATEPART(hour, %s)'']"
| "calendarFormats ClickHouseDialect =
     [''toYear(%s)'', ''toQuarter(%s)'', ''toMonth(%s)'', ''toDayOfMonth(%s)'', ''toHour(%s)'']"
| "calendarFormats SQLiteDialect =
     [''CAST(strftime('%%Y', %s) AS INTEGER)'', ''(CAST(strftime('%%m', %s) AS INTEGER) + 2) / 3'',
      ''CAST(strftime('%%m', %s) AS INTEGER)'', ''CAST(strftime('%%d', %s) AS INTEGER)'',
      ''CAST(strftime('%%H', %s) AS INTEGER)'']"
| "calendarFormats SnowflakeDialect =
     [''CAST(EXTRACT(YEAR FROM %s) AS INTEGER)'', ''CAST(EXTRACT(QUARTER FROM %s) AS INTEGER)'',
      ''CAST(EXTRACT(MONTH FROM %s) AS INTEGER)'', ''CAST(EXTRACT(DAY FROM %s) AS INTEGER)'',
      ''CAST(EXTRACT(HOUR FROM %s) AS INTEGER)'']"
| "calendarFormats DatabricksDialect =
     [''year(%s)'', ''quarter(%s)'', ''month(%s)'', ''day(%s)'', ''hour(%s)'']"
| "calendarFormats OracleDialect =
     [''EXTRACT(YEAR FROM %s)'', ''TO_NUMBER(TO_CHAR(%s, 'Q'))'', ''EXTRACT(MONTH FROM %s)'',
      ''EXTRACT(DAY FROM %s)'', ''TO_NUMBER(TO_CHAR(%s, 'HH24'))'']"

definition CalendarPart :: "Dialect \<Rightarrow> string \<Rightarrow> string \<Rightarrow> string" where
  "CalendarPart d part column = CalendarPartLookup d part column (calendarFormats (d_kind d))"

section \<open>Matching, windows, dry runs, samples\<close>

definition ILike :: "Dialect \<Rightarrow> string \<Rightarrow> string \<Rightarrow> string" where
  "ILike d column placeholder =
     (case d_kind d of
        PostgresDialect \<Rightarrow> Sprintf ''%s ILIKE %s'' [column, placeholder]
      | MySQLDialect \<Rightarrow> Sprintf ''LOWER(%s) LIKE LOWER(%s)'' [column, placeholder]
      | SQLServerDialect \<Rightarrow> Sprintf ''%s LIKE %s'' [column, placeholder]
      | ClickHouseDialect \<Rightarrow> Sprintf ''lower(%s) LIKE lower(%s)'' [column, placeholder]
      | SQLiteDialect \<Rightarrow> Sprintf ''%s LIKE %s'' [column, placeholder]
      | SnowflakeDialect \<Rightarrow> Sprintf ''%s ILIKE %s'' [column, placeholder]
      | DatabricksDialect \<Rightarrow> Sprintf ''%s ILIKE %s'' [column, placeholder]
      | OracleDialect \<Rightarrow> Sprintf ''UPPER(%s) LIKE UPPER(%s)'' [column, placeholder])"

text \<open>\<open>None\<close> is the result \<open>("", false)\<close>: the caller must reject the query.\<close>

definition baseWindowFunc :: "string \<Rightarrow> string list \<Rightarrow> string option" where
  "baseWindowFunc fn args =
     (if fn \<in> {''row_number'', ''rank'', ''dense_rank'', ''percent_rank'', ''cume_dist''} then
        Some (ToUpper fn @ ''()'')
      else if fn = ''ntile'' then
        (if length args \<noteq> 1 then None else Some (''NTILE('' @ hd args @ '')''))
      else if fn = ''lag'' \<or> fn = ''lead'' then
        (if length args = 0 then None else Some (ToUpper fn @ ''('' @ Join args '', '' @ '')''))
      else if fn = ''first_value'' \<or> fn = ''last_value'' then
        (if length args \<noteq> 1 then None else Some (ToUpper fn @ ''('' @ hd args @ '')''))
      else None)"

definition clickHouseWindowFunc :: "string \<Rightarrow> string list \<Rightarrow> string option" where
  "clickHouseWindowFunc fn args =
     (if fn = ''lag'' then
        (if length args = 0 then None else Some (''lagInFrame('' @ Join args '', '' @ '')''))
      else if fn = ''lead'' then
        (if length args = 0 then None else Some (''leadInFrame('' @ Join args '', '' @ '')''))
      else if fn \<in> {''row_number'', ''rank'', ''dense_rank''} then Some (fn @ ''()'')
      else if fn = ''ntile'' then
        (if length args \<noteq> 1 then None else Some (''ntile('' @ hd args @ '')''))
      else if fn = ''first_value'' \<or> fn = ''last_value'' then
        (if length args \<noteq> 1 then None else Some (fn @ ''('' @ hd args @ '')''))
      else None)"

definition WindowFunc :: "Dialect \<Rightarrow> string \<Rightarrow> string list \<Rightarrow> string option" where
  "WindowFunc d fn args =
     (case d_kind d of
        ClickHouseDialect \<Rightarrow> clickHouseWindowFunc fn args
      | _ \<Rightarrow> baseWindowFunc fn args)"

definition ExplainSQL :: "Dialect \<Rightarrow> string \<Rightarrow> string" where
  "ExplainSQL d sql =
     (case d_kind d of
        SQLServerDialect \<Rightarrow> []
      | SQLiteDialect \<Rightarrow> ''EXPLAIN QUERY PLAN '' @ sql
      | _ \<Rightarrow> (if ExplainDisabled (d_base d) then [] else ''EXPLAIN '' @ sql))"

definition DefaultOrderBy :: "Dialect \<Rightarrow> string" where
  "DefaultOrderBy d = (case d_kind d of SQLServerDialect \<Rightarrow> ''(SELECT NULL)'' | _ \<Rightarrow> [])"

definition SelectWithLimit :: "Dialect \<Rightarrow> string list \<Rightarrow> string \<Rightarrow> int \<Rightarrow> string" where
  "SelectWithLimit d columns table limit =
     (case d_kind d of
        SQLServerDialect \<Rightarrow>
          ''SELECT '' @ (if limit > 0 then ''TOP ('' @ Itoa limit @ '') '' else []) @
          Join columns '', '' @ '' FROM '' @ table
      | OracleDialect \<Rightarrow>
          ''SELECT '' @ Join columns '', '' @ '' FROM '' @ table @
          (if limit > 0 then '' FETCH FIRST '' @ Itoa limit @ '' ROWS ONLY'' else [])
      | _ \<Rightarrow>
          ''SELECT '' @ Join columns '', '' @ '' FROM '' @ table @
          (if limit > 0 then '' LIMIT '' @ Itoa limit else []))"

section \<open>Quoting can be read back\<close>

lemma ReplaceAll_double: "ReplaceAll s [q] [q, q] = escape q s"
proof (induction s)
  case Nil
  show ?case by (simp add: ReplaceAll.simps [of "[]"])
next
  case (Cons a s)
  then show ?case
    using ReplaceAll.simps [of "a # s" "[q]" "[q, q]"] by (cases "a = q") simp_all
qed

text \<open>Reading a dotted sequence of quoted segments; the number bounds the segments.\<close>

fun readQualified :: "nat \<Rightarrow> char \<Rightarrow> char \<Rightarrow> string \<Rightarrow> (string list \<times> string) option" where
  "readQualified 0 l q s = None"
| "readQualified (Suc n) l q s =
     (if starts s l then
        (case readDelimited q (tl s) of
           None \<Rightarrow> None
         | Some (seg, rest) \<Rightarrow>
             if starts rest CHR ''.'' then map_option (apfst (Cons seg)) (readQualified n l q (tl rest))
             else Some ([seg], rest))
      else None)"

locale segment_quoter =
  fixes quoteSeg :: "string \<Rightarrow> string"
    and left :: char
    and right :: char
  assumes quote_shape: "quoteSeg s = left # escape right s @ [right]"
    and right_not_dot: "right \<noteq> CHR ''.''"
begin

lemma read_segment:
  "\<not> starts rest right \<Longrightarrow> readDelimited right (tl (quoteSeg s @ rest)) = Some (s, rest)"
  by (simp add: quote_shape readDelimited_escape)

lemma read_joined:
  "parts \<noteq> [] \<Longrightarrow> length parts \<le> n \<Longrightarrow> \<not> starts rest right \<Longrightarrow> \<not> starts rest CHR ''.'' \<Longrightarrow>
   readQualified n left right (Join (map quoteSeg parts) ''.'' @ rest) = Some (parts, rest)"
proof (induction parts arbitrary: n)
  case Nil
  then show ?case by simp
next
  case (Cons p ps)
  then obtain m where n: "n = Suc m" by (cases n) auto
  show ?case
  proof (cases ps)
    case Nil
    with Cons.prems n show ?thesis
      using read_segment [of rest p] by (simp add: quote_shape)
  next
    case (Cons p' ps')
    let ?tail = "Join (map quoteSeg ps) ''.'' @ rest"
    have "readQualified m left right ?tail = Some (ps, rest)"
      using Cons.IH [of m] Cons.prems n Cons by simp
    moreover have "readDelimited right (tl (quoteSeg p @ CHR ''.'' # ?tail)) = Some (p, CHR ''.'' # ?tail)"
      using right_not_dot by (intro read_segment) simp
    ultimately show ?thesis
      using n Cons quote_shape [of p] by simp
  qed
qed

lemma read_qualified:
  "\<not> starts rest right \<Longrightarrow> \<not> starts rest CHR ''.'' \<Longrightarrow>
   readQualified (length ident + 1) left right (QuoteIdentQualified quoteSeg ident @ rest) =
     Some (Split ident CHR ''.'', rest)"
  unfolding QuoteIdentQualified_def using length_Split by (intro read_joined) auto

end

definition leftQuote :: "dialect_kind \<Rightarrow> char" where
  "leftQuote k = hd (QuoteLeft (d_base (globalInstance k)))"

definition rightQuote :: "dialect_kind \<Rightarrow> char" where
  "rightQuote k = hd (QuoteRight (d_base (globalInstance k)))"

interpretation dq: segment_quoter "QuoteIdentSegment (d_base (globalInstance k))" "leftQuote k" "rightQuote k"
  for k
proof unfold_locales
  show "QuoteIdentSegment (d_base (globalInstance k)) s = leftQuote k # escape (rightQuote k) s @ [rightQuote k]" for s
    by (cases k) (simp_all add: dialect_instances QuoteIdentSegment_def leftQuote_def rightQuote_def
        ReplaceAll_double)
  show "rightQuote k \<noteq> CHR ''.''"
    by (cases k) (simp_all add: dialect_instances rightQuote_def)
qed

text \<open>String literals of the backslash dialects, read back by their lexer's rules for doubled quotes,
  escaped backslashes and escaped quotes. Other escape sequences are not read (\<open>None\<close>).\<close>

fun readBackslash :: "string \<Rightarrow> (string \<times> string) option" where
  "readBackslash [] = None"
| "readBackslash [c] = (if c = CHR 0x27 then Some ([], []) else None)"
| "readBackslash (c # d # s) =
     (if c = CHR 0x5C then
        (if d = CHR 0x5C \<or> d = CHR 0x27 then map_option (apfst (Cons d)) (readBackslash s) else None)
      else if c = CHR 0x27 then
        (if d = CHR 0x27 then map_option (apfst (Cons c)) (readBackslash s) else Some ([], d # s))
      else map_option (apfst (Cons c)) (readBackslash (d # s)))"

definition readStringLiteral :: "Dialect \<Rightarrow> string \<Rightarrow> (string \<times> string) option" where
  "readStringLiteral d s =
     (if \<not> starts s CHR 0x27 then None
      else if d_kind d \<in> set backslashDialects then readBackslash (tl s)
      else readDelimited CHR 0x27 (tl s))"

lemma readBackslash_other:
  "c \<noteq> CHR 0x27 \<Longrightarrow> c \<noteq> CHR 0x5C \<Longrightarrow>
   readBackslash (c # s) = map_option (apfst (Cons c)) (readBackslash s)"
  by (cases s) auto

lemma readBackslash_escape:
  "\<not> starts rest CHR 0x27 \<Longrightarrow>
   readBackslash (escape CHR 0x27 (escape CHR 0x5C v) @ CHR 0x27 # rest) = Some (v, rest)"
proof (induction v)
  case Nil
  then show ?case by (cases rest) auto
next
  case (Cons c v)
  then show ?case by (simp add: readBackslash_other)
qed

section \<open>Numbered placeholders\<close>

locale numbered_placeholders =
  fixes ph :: "int \<Rightarrow> string"
  assumes ph_inject: "0 < i \<Longrightarrow> 0 < j \<Longrightarrow> ph i = ph j \<Longrightarrow> i = j"
begin

lemma distinct_placeholders: "0 \<le> start \<Longrightarrow> distinct (map (\<lambda>k. ph (start + 1 + int k)) [0..<n])"
proof -
  assume "0 \<le> start"
  then have "inj_on (\<lambda>k. ph (start + 1 + int k)) {0..<n}"
    by (intro inj_onI) (drule ph_inject [rotated 2], auto)
  then show ?thesis by (simp add: distinct_map)
qed

end

definition numberedDialects :: "dialect_kind list" where
  "numberedDialects = [PostgresDialect, SQLServerDialect, OracleDialect]"

lemma Placeholder_inject:
  "k \<in> set numberedDialects \<Longrightarrow> d_kind d = k \<Longrightarrow> 0 < i \<Longrightarrow> 0 < j \<Longrightarrow>
   Placeholder d i = Placeholder d j \<Longrightarrow> i = j"
  by (auto simp: numberedDialects_def Placeholder_def Itoa_inject_nonneg)

interpretation pg: numbered_placeholders "Placeholder Postgres"
  by unfold_locales (rule Placeholder_inject [of PostgresDialect Postgres],
      simp_all add: numberedDialects_def dialect_instances)

interpretation ms: numbered_placeholders "Placeholder SQLServer"
  by unfold_locales (rule Placeholder_inject [of SQLServerDialect SQLServer],
      simp_all add: numberedDialects_def dialect_instances)

interpretation ora: numbered_placeholders "Placeholder Oracle"
  by unfold_locales (rule Placeholder_inject [of OracleDialect Oracle],
      simp_all add: numberedDialects_def dialect_instances)

section \<open>Properties\<close>



text \<open>C28. String literals cannot be broken out of: in every built-in dialect the literal written for
  a value, whatever quotes and backslashes the value holds, is read back by that dialect's lexer
  rule (doubled quotes, and backslash escapes where the dialect has them) as the value itself,
  ending exactly at the closing quote.\<close>

theorem QuoteStringLiteral_roundtrip:
  assumes "\<not> starts rest CHR 0x27"
  shows "readStringLiteral d (QuoteStringLiteral d v @ rest) = Some (v, rest)"
  using assms
  by (simp add: readStringLiteral_def QuoteStringLiteral_def quoteStandardLiteral_def
      quoteBackslashEscapedLiteral_def quote1_def backslash_def ReplaceAll_double
      readDelimited_escape readBackslash_escape)

theorem QuoteStringLiteral_roundtrip_witness:
  "readStringLiteral MySQL (QuoteStringLiteral MySQL [CHR ''a'', CHR 0x27, CHR 0x5C] @ '' OR 1'') =
     Some ([CHR ''a'', CHR 0x27, CHR 0x5C], '' OR 1'')"
  by (rule QuoteStringLiteral_roundtrip) simp

text \<open>\<open>Normalize\<close> never changes which dialect a value is, is idempotent, and always yields a
  dialect whose identifiers are quoted with a non-empty left quote.\<close>

theorem Normalize_repairs:
  "d_kind (Normalize d) = d_kind d \<and> Normalize (Normalize d) = Normalize d \<and>
   QuoteLeft (d_base (Normalize d)) \<noteq> []"
  by (cases "d_kind d") (auto simp: Normalize_def dialect_instances)

text \<open>No dialect accepts a window function that the standard spelling rejects: whenever a
  dialect renders a window function head, the base implementation renders one for the same
  arguments, and ClickHouse additionally refuses \<open>percent_rank\<close> and \<open>cume_dist\<close>.\<close>

theorem WindowFunc_only_standard:
  "(\<forall>h. WindowFunc d fn args = Some h \<longrightarrow> (\<exists>b. baseWindowFunc fn args = Some b)) \<and>
   WindowFunc ClickHouse ''percent_rank'' args = None \<and> WindowFunc ClickHouse ''cume_dist'' args = None"
  by (cases "d_kind d")
     (auto simp: WindowFunc_def clickHouseWindowFunc_def baseWindowFunc_def dialect_instances split: if_splits)

theorem WindowFunc_only_standard_witness:
  "WindowFunc ClickHouse ''lag'' [''x'', ''1''] = Some ''lagInFrame(x, 1)'' \<and>
   (\<exists>b. baseWindowFunc ''lag'' [''x'', ''1''] = Some b)"
proof -
  have w: "WindowFunc ClickHouse ''lag'' [''x'', ''1''] = Some ''lagInFrame(x, 1)''" by code_simp
  show ?thesis using w WindowFunc_only_standard [of ClickHouse "''lag''" "[''x'', ''1'']"] by blast
qed

end
