(* ===== verification/PII.thy ===== *)
theory PII
  imports Dialects
begin

text \<open>Personally identifiable information: the value matchers and checksums of
  \<open>internal/security/pii/patterns.go\<close>, the name heuristics of \<open>name_heuristics.go\<close>, the role policy
  of \<open>policy.go\<close> and the masking expressions of \<open>masking.go\<close>. The regular expressions the matchers
  compile are written as the functions that recognise the same texts. Columns are the record of
  \<open>pkg/metadata/types.go\<close> restricted to the fields this package reads.\<close>

section \<open>Types, access levels and strategies\<close>

definition TypeEmail :: string where "TypeEmail = ''email''"
definition TypePhone :: string where "TypePhone = ''phone''"
definition TypeIBAN :: string where "TypeIBAN = ''iban''"
definition TypeTCKimlikNo :: string where "TypeTCKimlikNo = ''tc_kimlik_no''"
definition TypeAddress :: string where "TypeAddress = ''address''"
definition TypeIPAddress :: string where "TypeIPAddress = ''ip_address''"
definition TypeCreditCardLike :: string where "TypeCreditCardLike = ''credit_card_like''"

lemmas pii_types = TypeEmail_def TypePhone_def TypeIBAN_def TypeTCKimlikNo_def TypeAddress_def
  TypeIPAddress_def TypeCreditCardLike_def

definition AllTypes :: "string list" where
  "AllTypes = [TypeEmail, TypeTCKimlikNo, TypeIBAN, TypeCreditCardLike, TypeIPAddress, TypePhone,
     TypeAddress]"

definition IsValidType :: "string \<Rightarrow> bool" where
  "IsValidType t = (t \<in> set AllTypes)"

definition AccessRaw :: string where "AccessRaw = ''raw''"
definition AccessMasked :: string where "AccessMasked = ''masked''"
definition AccessHidden :: string where "AccessHidden = ''hidden''"
definition MaskingStrategyPartial :: string where "MaskingStrategyPartial = ''partial''"
definition MaskingStrategyFull :: string where "MaskingStrategyFull = ''full''"

lemmas access_defs = AccessRaw_def AccessMasked_def AccessHidden_def
lemmas strategy_defs = MaskingStrategyPartial_def MaskingStrategyFull_def

section \<open>Checksums\<close>

text \<open>\<open>luhnValid\<close> walks the text from its last byte; the loop takes the reversed text, the running
  sum and the doubling flag, and is \<open>None\<close> where the code returns false on a byte that is no digit.\<close>

definition digit_val :: "char \<Rightarrow> int" where
  "digit_val c = int (byte c) - 48"

definition luhnTerm :: "bool \<Rightarrow> char \<Rightarrow> int" where
  "luhnTerm double c =
     (if double then (if digit_val c * 2 > 9 then digit_val c * 2 - 9 else digit_val c * 2)
      else digit_val c)"

fun luhnLoop :: "string \<Rightarrow> int \<Rightarrow> bool \<Rightarrow> int option" where
  "luhnLoop [] acc double = Some acc"
| "luhnLoop (c # cs) acc double =
     (if \<not> is_digit c then None else luhnLoop cs (acc + luhnTerm double c) (\<not> double))"

definition luhnValid :: "string \<Rightarrow> bool" where
  "luhnValid s = (case luhnLoop (rev s) 0 False of None \<Rightarrow> False | Some acc \<Rightarrow> acc mod 10 = 0)"

text \<open>Go's \<open>%\<close> truncates towards zero, so the code repairs a negative remainder.\<close>

definition go_mod :: "int \<Rightarrow> int \<Rightarrow> int" where
  "go_mod a b = (if a < 0 then - ((- a) mod b) else a mod b)"

definition validTCKN :: "string \<Rightarrow> bool" where
  "validTCKN s =
     (if length s \<noteq> 11 then False
      else if \<not> list_all is_digit s then False
      else
        (let d = map digit_val s in
         if d ! 0 = 0 then False
         else
           (let oddSum = d ! 0 + d ! 2 + d ! 4 + d ! 6 + d ! 8;
                evenSum = d ! 1 + d ! 3 + d ! 5 + d ! 7;
                c = go_mod (oddSum * 7 - evenSum) 10;
                check10 = (if c < 0 then c + 10 else c)
            in if d ! 9 \<noteq> check10 then False
               else d ! 10 = go_mod (sum_list (take 10 d)) 10)))"

section \<open>Value matchers\<close>

definition compactNumeric :: "string \<Rightarrow> string" where
  "compactNumeric v = filter (\<lambda>r. r \<notin> set '' -().'') (TrimSpace v)"

definition is_letter :: "char \<Rightarrow> bool" where
  "is_letter c = (is_upper c \<or> is_lower c)"

definition emailLocalChar :: "char \<Rightarrow> bool" where
  "emailLocalChar c = (is_letter c \<or> is_digit c \<or> c \<in> set ''._%+-'')"

definition emailDomainChar :: "char \<Rightarrow> bool" where
  "emailDomainChar c = (is_letter c \<or> is_digit c \<or> c \<in> set ''.-'')"

text \<open>\<open>^[a-zA-Z0-9._%+\-]+@[a-zA-Z0-9.\-]+\.[a-zA-Z]{2,}$\<close>: no class but the domain's holds a dot
  and none holds an at sign, so the split at the only at sign and at the last dot is forced.\<close>

definition emailRe :: "string \<Rightarrow> bool" where
  "emailRe s =
     (case Split s CHR ''@'' of
        [localPart, domain] \<Rightarrow>
          localPart \<noteq> [] \<and> list_all emailLocalChar localPart \<and>
          (let labels = Split domain CHR ''.'';
               tld = last labels;
               host = Join (butlast labels) ''.''
           in host \<noteq> [] \<and> list_all emailDomainChar host \<and> 2 \<le> length tld \<and> list_all is_letter tld)
      | _ \<Rightarrow> False)"

text \<open>\<open>^(\+90|0)?[0-9]{10}$\<close>.\<close>

definition trPhoneRe :: "string \<Rightarrow> bool" where
  "trPhoneRe s =
     (list_ex (\<lambda>p. HasPrefix s p \<and> length s = length p + 10 \<and> list_all is_digit (drop (length p) s))
        [''+90'', ''0'', []])"

text \<open>\<open>^\+[1-9][0-9]{6,14}$\<close>.\<close>

definition intlPhoneRe :: "string \<Rightarrow> bool" where
  "intlPhoneRe s =
     (case s of
        p # d # ds \<Rightarrow> p = CHR ''+'' \<and> is_digit d \<and> d \<noteq> CHR ''0'' \<and> list_all is_digit ds \<and>
                       6 \<le> length ds \<and> length ds \<le> 14
      | _ \<Rightarrow> False)"

text \<open>\<open>^TR[0-9]{24}$\<close> and \<open>^[A-Z]{2}[0-9]{2}[A-Z0-9]{11,30}$\<close>.\<close>

definition trIBANRe :: "string \<Rightarrow> bool" where
  "trIBANRe s = (HasPrefix s ''TR'' \<and> length s = 26 \<and> list_all is_digit (drop 2 s))"

definition genericIBANRe :: "string \<Rightarrow> bool" where
  "genericIBANRe s =
     (15 \<le> length s \<and> length s \<le> 34 \<and> list_all is_upper (take 2 s) \<and>
      list_all is_digit (take 2 (drop 2 s)) \<and> list_all (\<lambda>c. is_upper c \<or> is_digit c) (drop 4 s))"

text \<open>\<open>^[1-9][0-9]{10}$\<close> and \<open>^[0-9]{13,19}$\<close>.\<close>

definition tcknRe :: "string \<Rightarrow> bool" where
  "tcknRe s = (length s = 11 \<and> list_all is_digit s \<and> hd s \<noteq> CHR ''0'')"

definition cardDigitsRe :: "string \<Rightarrow> bool" where
  "cardDigitsRe s = (13 \<le> length s \<and> length s \<le> 19 \<and> list_all is_digit s)"

definition matchEmail :: "string \<Rightarrow> bool" where
  "matchEmail v = emailRe (TrimSpace v)"

definition matchPhone :: "string \<Rightarrow> bool" where
  "matchPhone v = (let c = compactNumeric v in trPhoneRe c \<or> intlPhoneRe c)"

definition matchIBAN :: "string \<Rightarrow> bool" where
  "matchIBAN v =
     (let c = ToUpper (ReplaceAll (TrimSpace v) '' '' []) in trIBANRe c \<or> genericIBANRe c)"

definition matchTCKN :: "string \<Rightarrow> bool" where
  "matchTCKN v = (let c = TrimSpace v in tcknRe c \<and> validTCKN c)"

definition matchCreditCard :: "string \<Rightarrow> bool" where
  "matchCreditCard v = (let c = compactNumeric v in cardDigitsRe c \<and> luhnValid c)"

definition matchAddressText :: "string \<Rightarrow> bool" where
  "matchAddressText v = (length (TrimSpace v) > 20)"

section \<open>Name heuristics\<close>

text \<open>The loop of \<open>normalizeName\<close> ranges over runes: here a column name is its sequence of runes.\<close>

definition nameKeywords :: "(string \<times> string list) list" where
  "nameKeywords =
     [(TypeEmail, [''email'', ''e_mail'', ''e_posta'', ''eposta'', ''mail'']),
      (TypeTCKimlikNo, [''tckn'', ''tc_kimlik'', ''tc_kimlik_no'', ''tc'', ''identity'', ''national_id'', ''kimlik'']),
      (TypeIBAN, [''iban'', ''bank_account'']),
      (TypeCreditCardLike, [''card_number'', ''cc_number'', ''credit_card'', ''pan'', ''kart_no'']),
      (TypeIPAddress, [''ip_address'', ''ip_addr'', ''ip'']),
      (TypePhone, [''phone'', ''tel'', ''telephone'', ''telefon'', ''gsm'', ''mobile'', ''cep'']),
      (TypeAddress, [''address'', ''adres'', ''addr''])]"

fun nameLoop :: "string \<Rightarrow> bool \<Rightarrow> string" where
  "nameLoop [] prevLower = []"
| "nameLoop (r # rs) prevLower =
     (if is_upper r then
        (if prevLower then [CHR ''_''] else []) @ lower_char r # nameLoop rs False
      else if is_lower r \<or> is_digit r then r # nameLoop rs (is_lower r)
      else CHR ''_'' # nameLoop rs False)"

definition trimUnderscore :: "string \<Rightarrow> string" where
  "trimUnderscore s = TrimRightFunc (\<lambda>c. c = CHR ''_'') (TrimLeftFunc (\<lambda>c. c = CHR ''_'') s)"

definition normalizeName :: "string \<Rightarrow> string" where
  "normalizeName name = trimUnderscore (nameLoop name False)"

definition detectTypeFromName :: "string \<Rightarrow> string" where
  "detectTypeFromName columnName =
     (let norm = normalizeName columnName in
      if norm = [] then []
      else
        (let padded = ''_'' @ norm @ ''_'' in
         case find (\<lambda>(t, kws). list_ex (\<lambda>kw. Contains padded (''_'' @ kw @ ''_'')) kws) nameKeywords of
           None \<Rightarrow> []
         | Some (t, kws) \<Rightarrow> t))"

section \<open>Role policy\<close>

definition sensitiveTypes :: "string \<Rightarrow> bool" where
  "sensitiveTypes t = (t \<in> {TypeTCKimlikNo, TypeCreditCardLike, TypeIBAN})"

definition normRole :: "string \<Rightarrow> string" where
  "normRole r = ToLower (TrimSpace r)"

definition DefaultPIIPolicy :: "string \<Rightarrow> string \<Rightarrow> string" where
  "DefaultPIIPolicy role piiType =
     (let r = normRole role in
      if r = ''admin'' \<or> r = ''super_admin'' then AccessRaw
      else if r = ''analyst'' then AccessMasked
      else if sensitiveTypes piiType then AccessHidden
      else AccessMasked)"

definition ResolveColumnAccess :: "string \<Rightarrow> string \<Rightarrow> string \<Rightarrow> string" where
  "ResolveColumnAccess role piiType override =
     (if override = AccessRaw \<or> override = AccessMasked \<or> override = AccessHidden then override
      else if override = [] then DefaultPIIPolicy role piiType
      else AccessHidden)"

definition roleRank :: "string \<Rightarrow> int" where
  "roleRank r =
     (let n = normRole r in
      if n = ''admin'' \<or> n = ''super_admin'' then 3
      else if n = ''analyst'' then 2
      else if n = ''viewer'' then 1
      else 0)"

fun primaryLoop :: "string \<Rightarrow> string list \<Rightarrow> string" where
  "primaryLoop best [] = best"
| "primaryLoop best (r # rs) = primaryLoop (if roleRank r > roleRank best then normRole r else best) rs"

definition PrimaryRole :: "string list \<Rightarrow> string" where
  "PrimaryRole roles = primaryLoop [] roles"

record Column =
  SchemaName :: string
  TableName :: string
  ColumnName :: string
  PIIType :: "string option"
  PIIMaskingStrategy :: "string option"

definition qualifiedName :: "Column \<Rightarrow> string" where
  "qualifiedName col = SchemaName col @ ''.'' @ TableName col @ ''.'' @ ColumnName col"

definition shortName :: "Column \<Rightarrow> string" where
  "shortName col = TableName col @ ''.'' @ ColumnName col"

text \<open>Reading a key that a Go map does not hold yields the empty string.\<close>

definition mget :: "(string \<rightharpoonup> string) \<Rightarrow> string \<Rightarrow> string" where
  "mget m k = (case m k of None \<Rightarrow> [] | Some v \<Rightarrow> v)"

definition columnOverride :: "(string \<rightharpoonup> string) \<Rightarrow> Column \<Rightarrow> string" where
  "columnOverride overrides col =
     (if mget overrides (qualifiedName col) = [] then mget overrides (shortName col)
      else mget overrides (qualifiedName col))"

fun accessLoop ::
  "string \<Rightarrow> (string \<rightharpoonup> string) \<Rightarrow> Column list \<Rightarrow> (string \<rightharpoonup> string) \<Rightarrow> (string \<rightharpoonup> string) \<Rightarrow>
   (string \<rightharpoonup> string) \<times> (string \<rightharpoonup> string)" where
  "accessLoop role overrides [] access types = (access, types)"
| "accessLoop role overrides (col # cols) access types =
     (if PIIType col = None \<or> PIIType col = Some [] then accessLoop role overrides cols access types
      else
        (let piiType = the (PIIType col);
             level = ResolveColumnAccess role piiType (columnOverride overrides col)
         in accessLoop role overrides cols
              (access(qualifiedName col \<mapsto> level, shortName col \<mapsto> level))
              (types(qualifiedName col \<mapsto> piiType, shortName col \<mapsto> piiType))))"

definition BuildColumnAccessMaps ::
  "string \<Rightarrow> Column list \<Rightarrow> (string \<rightharpoonup> string) \<Rightarrow> (string \<rightharpoonup> string) \<times> (string \<rightharpoonup> string)" where
  "BuildColumnAccessMaps role columns overrides =
     accessLoop role overrides columns (\<lambda>_. None) (\<lambda>_. None)"

section \<open>Masking\<close>

definition HiddenLiteral :: string where
  "HiddenLiteral = [CHR 0x27] @ ''***'' @ [CHR 0x27]"

definition NormalizeMaskingStrategy :: "string \<Rightarrow> string" where
  "NormalizeMaskingStrategy strategy =
     (let s = ToLower (TrimSpace strategy) in
      if s = [] \<or> s = MaskingStrategyPartial then MaskingStrategyPartial
      else if s = MaskingStrategyFull then MaskingStrategyFull
      else MaskingStrategyFull)"

fun strategyLoop :: "Column list \<Rightarrow> (string \<rightharpoonup> string) \<Rightarrow> (string \<rightharpoonup> string)" where
  "strategyLoop [] strategies = strategies"
| "strategyLoop (col # cols) strategies =
     (if PIIType col = None \<or> PIIType col = Some [] \<or> PIIMaskingStrategy col = None \<or>
         PIIMaskingStrategy col = Some [] then strategyLoop cols strategies
      else
        (let strategy = NormalizeMaskingStrategy (the (PIIMaskingStrategy col))
         in strategyLoop cols (strategies(qualifiedName col \<mapsto> strategy, shortName col \<mapsto> strategy))))"

definition BuildColumnMaskingStrategyMaps :: "Column list \<Rightarrow> (string \<rightharpoonup> string)" where
  "BuildColumnMaskingStrategyMaps columns = strategyLoop columns (\<lambda>_. None)"

definition EffectiveColumnAccess :: "string \<Rightarrow> string \<Rightarrow> string" where
  "EffectiveColumnAccess access strategy =
     (if access = AccessRaw then AccessRaw
      else if access = AccessMasked then
        (if NormalizeMaskingStrategy strategy = MaskingStrategyFull then AccessHidden else AccessMasked)
      else AccessHidden)"

definition castText :: "string \<Rightarrow> Dialect \<Rightarrow> string" where
  "castText col d =
     (let n = Name d in
      if n = ''mysql'' then ''CAST('' @ col @ '' AS CHAR)''
      else if n = ''sqlserver'' then ''CAST('' @ col @ '' AS NVARCHAR(256))''
      else if n = ''clickhouse'' then ''toString('' @ col @ '')''
      else if n = ''oracle'' then ''CAST('' @ col @ '' AS VARCHAR2(256))''
      else if n = ''databricks'' then ''CAST('' @ col @ '' AS STRING)''
      else ''CAST('' @ col @ '' AS TEXT)'')"

definition sqlConcat :: "Dialect \<Rightarrow> string list \<Rightarrow> string" where
  "sqlConcat d parts =
     (let n = Name d in
      if n = ''mysql'' then ''CONCAT('' @ Join parts '', '' @ '')''
      else if n = ''clickhouse'' then ''concat('' @ Join parts '', '' @ '')''
      else if n = ''sqlserver'' then ''CONCAT('' @ Join parts '', '' @ '')''
      else ''('' @ Join parts '' || '' @ '')'')"

definition sqlLeft :: "Dialect \<Rightarrow> string \<Rightarrow> int \<Rightarrow> string" where
  "sqlLeft d expr n =
     (if Name d = ''clickhouse'' then ''substring('' @ expr @ '', 1, '' @ Itoa n @ '')''
      else if Name d \<in> {''oracle'', ''sqlite''} then ''SUBSTR('' @ expr @ '', 1, '' @ Itoa n @ '')''
      else ''LEFT('' @ expr @ '', '' @ Itoa n @ '')'')"

definition sqlRight :: "Dialect \<Rightarrow> string \<Rightarrow> int \<Rightarrow> string" where
  "sqlRight d expr n =
     (if Name d = ''clickhouse'' then
        ''substring('' @ expr @ '', length('' @ expr @ '') - '' @ Itoa (n - 1) @ '', '' @ Itoa n @ '')''
      else if Name d \<in> {''oracle'', ''sqlite''} then
        ''SUBSTR('' @ expr @ '', -'' @ Itoa n @ '', '' @ Itoa n @ '')''
      else ''RIGHT('' @ expr @ '', '' @ Itoa n @ '')'')"

definition fromChar :: "Dialect \<Rightarrow> string \<Rightarrow> string \<Rightarrow> string" where
  "fromChar d expr marker =
     (let lit = [CHR 0x27] @ marker @ [CHR 0x27];
          n = Name d in
      if n = ''mysql'' then ''SUBSTRING('' @ expr @ '', LOCATE('' @ lit @ '', '' @ expr @ ''))''
      else if n = ''sqlserver'' then
        ''SUBSTRING('' @ expr @ '', CHARINDEX('' @ lit @ '', '' @ expr @ ''), LEN('' @ expr @ ''))''
      else if n = ''clickhouse'' then ''substring('' @ expr @ '', position('' @ expr @ '', '' @ lit @ ''))''
      else if n = ''sqlite'' \<or> n = ''oracle'' then ''SUBSTR('' @ expr @ '', INSTR('' @ expr @ '', '' @ lit @ ''))''
      else if n = ''snowflake'' then ''SUBSTR('' @ expr @ '', POSITION('' @ lit @ '', '' @ expr @ ''))''
      else if n = ''databricks'' then ''substring('' @ expr @ '', instr('' @ expr @ '', '' @ lit @ ''))''
      else ''SUBSTRING('' @ expr @ '' FROM POSITION('' @ lit @ '' IN '' @ expr @ ''))'')"

definition maskIPExpr :: "Dialect \<Rightarrow> string \<Rightarrow> string" where
  "maskIPExpr d expr =
     (let pattern = [CHR 0x27] @ ''[0-9a-fA-F]+'' @ [CHR 0x27];
          star = [CHR 0x27] @ ''*'' @ [CHR 0x27];
          n = Name d in
      if n = ''postgres'' then
        ''REGEXP_REPLACE('' @ expr @ '', '' @ pattern @ '', '' @ star @ '', '' @ [CHR 0x27] @ ''g'' @ [CHR 0x27] @ '')''
      else if n = ''mysql'' \<or> n = ''snowflake'' \<or> n = ''databricks'' \<or> n = ''oracle'' then
        ''REGEXP_REPLACE('' @ expr @ '', '' @ pattern @ '', '' @ star @ '')''
      else if n = ''clickhouse'' then
        ''replaceRegexpAll('' @ expr @ '', '' @ pattern @ '', '' @ star @ '')''
      else HiddenLiteral)"

definition sqlText :: "string \<Rightarrow> string" where
  "sqlText s = [CHR 0x27] @ s @ [CHR 0x27]"

definition MaskExpression :: "string \<Rightarrow> string \<Rightarrow> Dialect \<Rightarrow> string" where
  "MaskExpression columnRef piiType d =
     (let col = castText columnRef d in
      if piiType = TypeEmail then
        sqlConcat d [sqlLeft d col 2, sqlText ''***'', fromChar d col ''@'']
      else if piiType = TypePhone then
        sqlConcat d [sqlLeft d col 3, sqlText ''****'', sqlRight d col 2]
      else if piiType = TypeIBAN then
        sqlConcat d [sqlLeft d col 4, sqlText ''****'', sqlRight d col 2]
      else if piiType = TypeTCKimlikNo then sqlConcat d [sqlLeft d col 3, sqlText ''*****'']
      else if piiType = TypeAddress then sqlConcat d [sqlLeft d col 10, sqlText ''...'']
      else if piiType = TypeIPAddress then maskIPExpr d col
      else if piiType = TypeCreditCardLike then
        sqlConcat d [sqlLeft d col 4, sqlText '' **** **** '', sqlRight d col 4]
      else HiddenLiteral)"

section \<open>Lemmas: checksums\<close>

lemma digit_val_inject: "digit_val a = digit_val b \<longleftrightarrow> a = b"
  by (simp add: digit_val_def byte_inject)

lemma digit_val_range: "is_digit c \<Longrightarrow> 0 \<le> digit_val c \<and> digit_val c \<le> 9"
  by (auto simp: digit_val_def is_digit_def)

lemma luhnTerm_range: "is_digit c \<Longrightarrow> 0 \<le> luhnTerm b c \<and> luhnTerm b c \<le> 9"
  using digit_val_range [of c] by (auto simp: luhnTerm_def)

lemma luhnTerm_inject: "is_digit a \<Longrightarrow> is_digit b \<Longrightarrow> luhnTerm t a = luhnTerm t b \<Longrightarrow> a = b"
  using digit_val_range [of a] digit_val_range [of b] digit_val_inject [of a b]
  unfolding luhnTerm_def by (auto split: if_splits; presburger)

fun luhnSum :: "string \<Rightarrow> bool \<Rightarrow> int" where
  "luhnSum [] double = 0"
| "luhnSum (c # cs) double = luhnTerm double c + luhnSum cs (\<not> double)"

lemma luhnLoop_eq:
  "luhnLoop s acc double = (if list_all is_digit s then Some (acc + luhnSum s double) else None)"
  by (induction s acc double rule: luhnLoop.induct) auto

lemma luhnValid_iff: "luhnValid s \<longleftrightarrow> list_all is_digit s \<and> 10 dvd luhnSum (rev s) False"
  by (auto simp: luhnValid_def luhnLoop_eq dvd_eq_mod_eq_0)

lemma luhnSum_append:
  "luhnSum (xs @ ys) double = luhnSum xs double + luhnSum ys (double \<noteq> odd (length xs))"
  by (induction xs double rule: luhnSum.induct) auto

lemma dvd_10_small: "10 dvd (x :: int) \<Longrightarrow> - 10 < x \<Longrightarrow> x < 10 \<Longrightarrow> x = 0"
  by presburger

lemma luhnValid_substitution:
  assumes "luhnValid (xs @ a # ys)" and "luhnValid (xs @ b # ys)"
  shows "a = b"
proof -
  let ?t = "odd (length ys)"
  have d: "is_digit a" "is_digit b" using assms by (simp_all add: luhnValid_iff)
  have "10 dvd luhnSum (rev (xs @ a # ys)) False - luhnSum (rev (xs @ b # ys)) False"
    using assms by (intro dvd_diff) (simp_all only: luhnValid_iff)
  then have "10 dvd luhnTerm ?t a - luhnTerm ?t b"
    by (simp add: luhnSum_append)
  then have "luhnTerm ?t a - luhnTerm ?t b = 0"
    using luhnTerm_range [OF d(1), of ?t] luhnTerm_range [OF d(2), of ?t] by (intro dvd_10_small) auto
  then show ?thesis using luhnTerm_inject [OF d] by simp
qed

definition luhnDigit :: "bool \<Rightarrow> int \<Rightarrow> int" where
  "luhnDigit double n = (if double then (if n * 2 > 9 then n * 2 - 9 else n * 2) else n)"

lemma luhnTerm_digit: "luhnTerm t c = luhnDigit t (digit_val c)"
  by (simp add: luhnTerm_def luhnDigit_def)

text \<open>The table of digit pairs, checked by evaluation.\<close>

lemma luhn_pairs_table:
  "list_all (\<lambda>t. list_all (\<lambda>x. list_all (\<lambda>y.
      (luhnDigit t x + luhnDigit (\<not> t) y - (luhnDigit t y + luhnDigit (\<not> t) x)) mod 10 = 0 \<longrightarrow>
        x = y \<or> x = 0 \<and> y = 9 \<or> x = 9 \<and> y = 0) [0..9]) [0..9]) [True, False]"
  by code_simp

lemma luhn_pair:
  assumes "is_digit a" "is_digit b"
    and "10 dvd (luhnTerm t a + luhnTerm (\<not> t) b) - (luhnTerm t b + luhnTerm (\<not> t) a)"
  shows "a = b \<or> {a, b} = {CHR ''0'', CHR ''9''}"
proof -
  have v: "digit_val CHR ''0'' = 0" "digit_val CHR ''9'' = 9"
    by (simp_all add: digit_val_def)
  have "digit_val a = digit_val b \<or> digit_val a = 0 \<and> digit_val b = 9 \<or> digit_val a = 9 \<and> digit_val b = 0"
    using luhn_pairs_table assms digit_val_range [of a] digit_val_range [of b]
    unfolding luhnTerm_digit dvd_eq_mod_eq_0 list_all_iff by (cases t) auto
  then show ?thesis
    using digit_val_inject [of a "CHR ''0''"] digit_val_inject [of a "CHR ''9''"]
      digit_val_inject [of b "CHR ''0''"] digit_val_inject [of b "CHR ''9''"] digit_val_inject [of a b]
    unfolding v by auto
qed

lemma luhnValid_transposition:
  assumes "luhnValid (xs @ a # b # ys)" and "luhnValid (xs @ b # a # ys)"
  shows "a = b \<or> {a, b} = {CHR ''0'', CHR ''9''}"
proof -
  let ?t = "odd (length ys)"
  have d: "is_digit b" "is_digit a" using assms by (simp_all add: luhnValid_iff)
  have "10 dvd luhnSum (rev (xs @ a # b # ys)) False - luhnSum (rev (xs @ b # a # ys)) False"
    using assms by (intro dvd_diff) (simp_all only: luhnValid_iff)
  then have "10 dvd (luhnTerm ?t b + luhnTerm (\<not> ?t) a) - (luhnTerm ?t a + luhnTerm (\<not> ?t) b)"
    by (simp add: luhnSum_append algebra_simps)
  from luhn_pair [OF d this] show ?thesis by auto
qed

text \<open>The repaired remainder of the Turkish identity number is the mathematical one.\<close>

lemma go_mod_repair: "(if go_mod x 10 < 0 then go_mod x 10 + 10 else go_mod x 10) = x mod 10"
proof (cases "x < 0")
  case True
  then show ?thesis unfolding go_mod_def by presburger
next
  case False
  then have "go_mod x 10 = x mod 10" by (simp add: go_mod_def)
  then show ?thesis by (simp add: not_less)
qed

lemma go_mod_nonneg: "0 \<le> x \<Longrightarrow> go_mod x 10 = x mod 10"
  by (simp add: go_mod_def)

definition tckn_check :: "int list \<Rightarrow> int" where
  "tckn_check d = (d ! 0 + d ! 2 + d ! 4 + d ! 6 + d ! 8) * 7 - (d ! 1 + d ! 3 + d ! 5 + d ! 7)"

lemma sum_digits_nonneg: "list_all is_digit s \<Longrightarrow> 0 \<le> sum_list (take n (map digit_val s))"
proof (rule sum_list_nonneg)
  fix x
  assume "list_all is_digit s" "x \<in> set (take n (map digit_val s))"
  then have "\<forall>c\<in>set s. 0 \<le> digit_val c" "x \<in> digit_val ` set s"
    using digit_val_range by (auto simp: list_all_iff dest: in_set_takeD)
  then show "0 \<le> x" by auto
qed

lemma validTCKN_iff:
  "validTCKN s \<longleftrightarrow> length s = 11 \<and> list_all is_digit s \<and> digit_val (s ! 0) \<noteq> 0 \<and>
     digit_val (s ! 9) = tckn_check (map digit_val s) mod 10 \<and>
     digit_val (s ! 10) = sum_list (take 10 (map digit_val s)) mod 10"
  using sum_digits_nonneg [of s 10]
  by (auto simp: validTCKN_def Let_def go_mod_repair go_mod_nonneg tckn_check_def)

lemma tckn_check_update:
  assumes "length d = 11" "i < 9"
  shows "tckn_check (d[i := y]) - tckn_check d = (if even i then 7 else - 1) * (y - d ! i)"
proof -
  have "i \<in> {0, 1, 2, 3, 4, 5, 6, 7, 8}" using assms(2) by auto
  then show ?thesis using assms(1) by (auto simp: tckn_check_def algebra_simps)
qed

lemma validTCKN_update:
  assumes v: "validTCKN s" "validTCKN (s[i := b])" and i: "i < 11"
  shows "s ! i = b"
proof -
  let ?d = "map digit_val s"
  have len: "length s = 11" using v(1) by (simp add: validTCKN_iff)
  have "b \<in> set (s[i := b])" using i len by (simp add: set_update_memI)
  then have digits: "is_digit (s ! i)" "is_digit b"
    using v i len by (auto simp: validTCKN_iff list_all_iff)
  have r: "- 10 < digit_val b - digit_val (s ! i)" "digit_val b - digit_val (s ! i) < 10"
    using digit_val_range [OF digits(1)] digit_val_range [OF digits(2)] by auto
  consider "i < 9" | "i = 9" | "i = 10" using i by linarith
  then have "digit_val b - digit_val (s ! i) = 0"
  proof cases
    case 1
    have "tckn_check (?d[i := digit_val b]) mod 10 = tckn_check ?d mod 10"
      using v 1 len unfolding validTCKN_iff by (simp add: map_update)
    then have "10 dvd tckn_check (?d[i := digit_val b]) - tckn_check ?d" by (simp add: mod_eq_dvd_iff)
    then have "10 dvd (if even i then 7 else - 1) * (digit_val b - digit_val (s ! i))"
      using tckn_check_update [of ?d i "digit_val b"] 1 len by simp
    then have "10 dvd digit_val b - digit_val (s ! i)"
      by (cases "even i") (simp, presburger, simp add: dvd_diff_commute)
    then show ?thesis using r by (rule dvd_10_small)
  next
    case 2
    then show ?thesis using v len by (auto simp: validTCKN_iff tckn_check_def)
  next
    case 3
    then show ?thesis using v len by (auto simp: validTCKN_iff map_update take_update_cancel)
  qed
  then show ?thesis using digit_val_inject [of b "s ! i"] by simp
qed

section \<open>Lemmas: roles and access maps\<close>

lemma roleRank_normRole: "0 < roleRank r \<Longrightarrow> roleRank (normRole r) = roleRank r"
proof -
  assume "0 < roleRank r"
  then have "normRole r \<in> {''admin'', ''super_admin'', ''analyst'', ''viewer''}"
    by (auto simp: roleRank_def Let_def split: if_splits)
  moreover have "normRole ''admin'' = ''admin''" "normRole ''super_admin'' = ''super_admin''"
    "normRole ''analyst'' = ''analyst''" "normRole ''viewer'' = ''viewer''"
    by code_simp+
  ultimately show ?thesis by (auto simp: roleRank_def)
qed

lemma roleRank_nonneg [simp]: "0 \<le> roleRank r"
  by (simp add: roleRank_def Let_def)

lemma roleRank_Nil [simp]: "roleRank [] = 0"
  by code_simp

lemma primaryLoop_rank: "roleRank (primaryLoop best rs) = Max (insert (roleRank best) (roleRank ` set rs))"
proof (induction rs arbitrary: best)
  case (Cons r rs)
  let ?next = "if roleRank r > roleRank best then normRole r else best"
  have "roleRank ?next = max (roleRank r) (roleRank best)"
    using roleRank_normRole [of r] roleRank_nonneg [of best] by (auto simp: max_def simp del: roleRank_nonneg)
  with Cons.IH [of ?next] show ?case by (cases "rs = []") (auto simp: Max_insert max.left_commute max.commute)
qed simp

lemma primaryLoop_member: "primaryLoop best rs \<in> insert best (normRole ` set rs)"
proof (induction rs arbitrary: best)
  case (Cons r rs)
  then show ?case using Cons.IH [of best] Cons.IH [of "normRole r"] by auto
qed simp

definition hasPII :: "Column \<Rightarrow> bool" where
  "hasPII col = (PIIType col \<noteq> None \<and> PIIType col \<noteq> Some [])"

text \<open>The column that decides a key: the last annotated column registered under it.\<close>

definition lastColumn :: "string \<Rightarrow> Column list \<Rightarrow> Column option" where
  "lastColumn key cols = find (\<lambda>c. key = qualifiedName c \<or> key = shortName c) (rev (filter hasPII cols))"

lemma lastColumn_Cons:
  "lastColumn key (c # cols) =
     (case lastColumn key cols of
        None \<Rightarrow> if hasPII c \<and> (key = qualifiedName c \<or> key = shortName c) then Some c else None
      | Some x \<Rightarrow> Some x)"
  by (auto simp: lastColumn_def find_append split: option.splits)

lemma accessLoop_eq:
  "accessLoop role ov cols access types =
     ((\<lambda>key. case lastColumn key cols of
               None \<Rightarrow> access key
             | Some c \<Rightarrow> Some (ResolveColumnAccess role (the (PIIType c)) (columnOverride ov c))),
      (\<lambda>key. case lastColumn key cols of None \<Rightarrow> types key | Some c \<Rightarrow> PIIType c))"
proof (induction cols arbitrary: access types)
  case Nil
  show ?case by (simp add: lastColumn_def)
next
  case (Cons c cols)
  then show ?case
    by (auto simp: lastColumn_Cons hasPII_def Let_def fun_eq_iff split: option.splits)
qed

lemma lastColumn_known:
  assumes "c \<in> set cols" "hasPII c" "key = qualifiedName c \<or> key = shortName c"
  shows "\<exists>c'. lastColumn key cols = Some c' \<and> c' \<in> set cols \<and> hasPII c' \<and>
           (key = qualifiedName c' \<or> key = shortName c')"
proof -
  let ?P = "\<lambda>c. key = qualifiedName c \<or> key = shortName c"
  have "c \<in> set (rev (filter hasPII cols))" using assms(1,2) by simp
  then obtain c' where c': "find ?P (rev (filter hasPII cols)) = Some c'"
    using assms(3) by (cases "find ?P (rev (filter hasPII cols))") (auto simp: find_None_iff)
  then have "?P c'" "c' \<in> set (rev (filter hasPII cols))"
    by (auto dest: find_Some)
  with c' show ?thesis by (auto simp: lastColumn_def)
qed

section \<open>Properties\<close>

text \<open>The payment card checksum does its job: two accepted numbers that differ only in one
  position are equal, and exchanging two adjacent digits of an accepted number is noticed, except for
  the pair 0 and 9, for which the Luhn sum does not change.\<close>

theorem luhnValid_detects_errors:
  "(luhnValid (xs @ a # ys) \<and> luhnValid (xs @ b # ys) \<longrightarrow> a = b) \<and>
   (luhnValid (xs @ a # b # ys) \<and> luhnValid (xs @ b # a # ys) \<longrightarrow>
      a = b \<or> {a, b} = {CHR ''0'', CHR ''9''})"
  using luhnValid_substitution luhnValid_transposition by blast

theorem luhnValid_detects_errors_witness:
  "luhnValid ''4111111111111111'' \<and> \<not> luhnValid ''4121111111111111'' \<and> \<not> luhnValid ''1411111111111111''"
proof -
  have v: "luhnValid ''4111111111111111''" by code_simp
  then show ?thesis
    using luhnValid_detects_errors [of "''41''" "CHR ''1''" "''1111111111111''" "CHR ''2''"]
      luhnValid_detects_errors [of "[]" "CHR ''4''" "''11111111111111''" "CHR ''1''"]
    by (auto simp: doubleton_eq_iff)
qed

text \<open>The Turkish identity number check detects every single-digit error: replacing one digit of
  an accepted number by another leaves an accepted number only when nothing changed.\<close>

theorem validTCKN_detects_errors:
  assumes "validTCKN s" and "validTCKN (s[i := b])" and "i < 11"
  shows "s ! i = b"
  using assms by (rule validTCKN_update)

theorem validTCKN_detects_errors_witness:
  "validTCKN ''10000000146'' \<and> \<not> validTCKN (''10000000146''[8 := CHR ''2''])"
proof -
  have v: "validTCKN ''10000000146''" by code_simp
  then show ?thesis using validTCKN_detects_errors [of "''10000000146''" 8 "CHR ''2''"] by auto
qed

text \<open>What a role sees of a PII column: the effective access level is always one of raw, masked
  and hidden; it is raw exactly for an explicit raw override or an administrator without override; it
  is masked exactly when an override or a role default says masked and the column's strategy is
  partial. Everything else, malformed overrides and strategies included, is hidden.\<close>

theorem effective_access_exact:
  "let level = EffectiveColumnAccess (ResolveColumnAccess role piiType override) strategy;
       admin = (normRole role \<in> {''admin'', ''super_admin''});
       partial = (ToLower (TrimSpace strategy) \<in> {[], ''partial''})
   in level \<in> {AccessRaw, AccessMasked, AccessHidden} \<and>
      (level = AccessRaw \<longleftrightarrow> override = AccessRaw \<or> override = [] \<and> admin) \<and>
      (level = AccessMasked \<longleftrightarrow>
         partial \<and> (override = AccessMasked \<or>
           override = [] \<and> \<not> admin \<and> (normRole role = ''analyst'' \<or> \<not> sensitiveTypes piiType)))"
  unfolding EffectiveColumnAccess_def ResolveColumnAccess_def DefaultPIIPolicy_def Let_def
    NormalizeMaskingStrategy_def access_defs strategy_defs
  by (cases "normRole role = ''analyst''"; cases "override = []") simp_all

theorem effective_access_exact_witness:
  "EffectiveColumnAccess (ResolveColumnAccess '' Analyst'' TypeIBAN []) ''PARTIAL'' = AccessMasked \<and>
   EffectiveColumnAccess (ResolveColumnAccess ''viewer'' TypeEmail ''bogus'') ''partial'' = AccessHidden"
proof -
  have facts: "normRole '' Analyst'' = ''analyst''" "ToLower (TrimSpace ''PARTIAL'') = ''partial''"
    "ToLower (TrimSpace ''partial'') = ''partial''" "normRole ''viewer'' = ''viewer''" by code_simp+
  show ?thesis
    using effective_access_exact [of "'' Analyst''" TypeIBAN "[]" "''PARTIAL''"]
      effective_access_exact [of "''viewer''" TypeEmail "''bogus''" "''partial''"]
    by (simp add: facts Let_def access_defs) blast
qed

text \<open>The access maps handed to the compiler are exact: a key is bound in both maps exactly when
  it is the qualified or the short name of an annotated column, and then it carries the type and the
  resolved access of the last such column, with the override of its qualified name taking precedence
  over the override of its short name.\<close>

theorem BuildColumnAccessMaps_exact:
  "BuildColumnAccessMaps role cols ov =
     ((\<lambda>key. map_option (\<lambda>c. ResolveColumnAccess role (the (PIIType c)) (columnOverride ov c))
               (lastColumn key cols)),
      (\<lambda>key. Option.bind (lastColumn key cols) PIIType)) \<and>
   (\<forall>key. lastColumn key cols \<noteq> None \<longleftrightarrow>
      (\<exists>c\<in>set cols. hasPII c \<and> (key = qualifiedName c \<or> key = shortName c)))"
proof (intro conjI allI)
  show "BuildColumnAccessMaps role cols ov =
     ((\<lambda>key. map_option (\<lambda>c. ResolveColumnAccess role (the (PIIType c)) (columnOverride ov c))
               (lastColumn key cols)),
      (\<lambda>key. Option.bind (lastColumn key cols) PIIType))"
    by (auto simp: BuildColumnAccessMaps_def accessLoop_eq fun_eq_iff split: option.splits)
  show "lastColumn key cols \<noteq> None \<longleftrightarrow>
      (\<exists>c\<in>set cols. hasPII c \<and> (key = qualifiedName c \<or> key = shortName c))" for key
    using lastColumn_known [of _ cols key]
    by (auto simp: lastColumn_def find_None_iff)
qed

text \<open>The role used for a user with several roles is a most privileged one: its rank is the
  maximum over the list, and it is the normalised form of a role of the list, or empty.\<close>

theorem PrimaryRole_max:
  "roleRank (PrimaryRole roles) = Max (insert 0 (roleRank ` set roles)) \<and>
   PrimaryRole roles \<in> insert [] (normRole ` set roles)"
  using primaryLoop_rank [of "[]" roles] primaryLoop_member [of "[]" roles]
  by (simp add: PrimaryRole_def)

text \<open>Masking is fail-closed: for a type that is not recognised, and for network addresses in a
  dialect with no regular expression support, the masked expression is the constant hidden literal
  and does not mention the column at all.\<close>

theorem MaskExpression_fail_closed:
  "(\<not> IsValidType t \<longrightarrow> MaskExpression col t d = HiddenLiteral) \<and>
   MaskExpression col TypeIPAddress SQLServer = HiddenLiteral \<and>
   MaskExpression col TypeIPAddress SQLite = HiddenLiteral"
  by (simp add: MaskExpression_def IsValidType_def AllTypes_def maskIPExpr_def Name_def dialect_instances
      pii_types)

theorem MaskExpression_fail_closed_witness:
  "\<not> IsValidType ''passport'' \<and> MaskExpression ''t.c'' ''passport'' Postgres = HiddenLiteral"
proof -
  have "\<not> IsValidType ''passport''" by code_simp
  then show ?thesis using MaskExpression_fail_closed by blast
qed

end
