(* ===== verification/Expr_AST.thy ===== *)
theory Expr_AST
  imports Go_Prelude
begin

text \<open>
  The semantic expression language of \<open>pkg/semantic\<close>: the sealed interface \<open>ExprNode\<close> and its
  eight node kinds (\<open>expr.go\<close>), the function whitelists, the strict validator
  (\<open>expr_validation.go\<close>) and the dependency collector (\<open>expr_lineage.go\<close>).

  The Go interface value \<open>nil\<close>, which every child position can hold, is the constructor
  \<open>NilExpr\<close>. Operators stay strings, as in Go, because decoding never restricts them.

  Shown here: the recursive, fail-fast validator accepts exactly the trees all of whose nodes pass
  a local check within the nesting limit; an accepted tree only depends on allowed columns, metrics
  and dimensions; the collector returns the references in order of first occurrence, each once.
\<close>

section \<open>Syntax trees (expr.go)\<close>

datatype ExprNode =
    NilExpr
  | LiteralExpr go_any
  | ColumnRefExpr string string
  | MetricRefExpr string
  | DimensionRefExpr string
  | BinaryExpr string ExprNode ExprNode
  | UnaryExpr string ExprNode
  | FunctionCallExpr string "ExprNode list"
  | CaseExpr "(ExprNode \<times> ExprNode) list" ExprNode

definition AllowedFunctions :: "(string \<times> int) list" where
  "AllowedFunctions =
    [(''COALESCE'', -1), (''CONCAT'', -1), (''UPPER'', 1), (''LOWER'', 1), (''ROUND'', 2),
     (''LENGTH'', 1), (''TRIM'', 1), (''ABS'', 1), (''CEIL'', 1), (''FLOOR'', 1), (''CAST'', 2),
     (''EXTRACT'', 2), (''DATE_TRUNC'', 2), (''NULLIF'', 2), (''IFNULL'', 2), (''ISNULL'', 1),
     (''SUBSTRING'', 3), (''REPLACE'', 3), (''LEFT'', 2), (''RIGHT'', 2)]"

definition AllowedAggregateFunctions :: "(string \<times> int) list" where
  "AllowedAggregateFunctions =
    [(''SUM'', 1), (''AVG'', 1), (''MIN'', 1), (''MAX'', 1), (''COUNT'', -1), (''COUNT_DISTINCT'', 1)]"

definition IsAggregateFunction :: "string \<Rightarrow> bool" where
  "IsAggregateFunction name \<longleftrightarrow>
     map_of AllowedAggregateFunctions (ToUpper (TrimSpace name)) \<noteq> None"

definition FunctionAllowed :: "string \<Rightarrow> bool \<Rightarrow> bool" where
  "FunctionAllowed name allowAggregates =
     (let upper = ToUpper (TrimSpace name) in
      if map_of AllowedFunctions upper \<noteq> None then True
      else allowAggregates \<and> IsAggregateFunction upper)"

section \<open>Strict validation (expr\_validation.go)\<close>

text \<open>One constructor per error the validator returns, wrapped errors included.\<close>

datatype expr_error =
    DepthExceeded
  | MetricNotAllowed string
  | UnknownMetricRef string
  | UnknownDimensionRef string
  | UnknownColumnRef string
  | AggregateNotAllowed string
  | DisallowedFunction string
  | WrongArity string nat
  | InvalidWhen nat expr_error
  | InvalidThen nat expr_error
  | InvalidElse expr_error

text \<open>A \<open>map[string]bool\<close>; the validator both indexes it and ranges over its keys.\<close>

type_synonym boolmap = "(string \<times> bool) list"

definition bget :: "boolmap \<Rightarrow> string \<Rightarrow> bool" where
  "bget m k = (map_of m k = Some True)"

definition unqualifiedColumnAllowed :: "string \<Rightarrow> boolmap \<Rightarrow> bool" where
  "unqualifiedColumnAllowed column allowedColumns \<longleftrightarrow>
     list_ex (\<lambda>col. let parts = Split col CHR ''.'' in
                length parts = 2 \<and> parts ! 1 = column) (map fst allowedColumns)"

definition columnKey :: "string \<Rightarrow> string \<Rightarrow> string" where
  "columnKey table column =
     (if table \<noteq> [] then ToLower (table @ ''.'' @ column) else ToLower column)"

definition validateColumnRefExpr :: "string \<Rightarrow> string \<Rightarrow> boolmap \<Rightarrow> expr_error option" where
  "validateColumnRefExpr table column allowedColumns =
     (let key = columnKey table column in
      if bget allowedColumns key then None
      else if table = [] \<and> unqualifiedColumnAllowed key allowedColumns then None
      else Some (UnknownColumnRef key))"

text \<open>The name and arity checks at the head of \<open>validateFunctionCallExpr\<close>.\<close>

definition functionHeadError :: "string \<Rightarrow> nat \<Rightarrow> bool \<Rightarrow> expr_error option" where
  "functionHeadError name nargs allowMetrics =
     (let funcName = ToUpper name in
      if \<not> FunctionAllowed funcName allowMetrics then
        (if IsAggregateFunction funcName then Some (AggregateNotAllowed name)
         else Some (DisallowedFunction name))
      else
        (case (case map_of AllowedFunctions funcName of
                 Some a \<Rightarrow> Some a
               | None \<Rightarrow> map_of AllowedAggregateFunctions funcName) of
           None \<Rightarrow> Some (DisallowedFunction name)
         | Some arity \<Rightarrow>
             if funcName = ''ROUND'' then
               (if nargs \<noteq> 1 \<and> nargs \<noteq> 2 then Some (WrongArity name nargs) else None)
             else if funcName = ''COUNT'' then
               (if nargs > 1 then Some (WrongArity name nargs) else None)
             else if arity = -1 then
               (if nargs < 1 then Some (WrongArity name nargs) else None)
             else (if int nargs \<noteq> arity then Some (WrongArity name nargs) else None)))"

lemma first_err_cong [fundef_cong]:
  "xs = ys \<Longrightarrow> (\<And>x. x \<in> set ys \<Longrightarrow> f x = g x) \<Longrightarrow> first_err f xs = first_err g ys"
  by (induction xs arbitrary: ys) (auto split: option.splits)

fun caseErr :: "nat \<times> expr_error option \<times> expr_error option \<Rightarrow> expr_error option" where
  "caseErr (i, w, t) =
     (case w of Some e \<Rightarrow> Some (InvalidWhen i e)
      | None \<Rightarrow> (case t of Some e \<Rightarrow> Some (InvalidThen i e) | None \<Rightarrow> None))"

fun ValidateExprStrict ::
  "ExprNode \<Rightarrow> boolmap \<Rightarrow> boolmap \<Rightarrow> boolmap \<Rightarrow> bool \<Rightarrow> int \<Rightarrow> expr_error option" where
  "ValidateExprStrict node cols mets dims allowMetrics depth =
     (if node = NilExpr then None
      else if depth > 10 then Some DepthExceeded
      else
       (case node of
          NilExpr \<Rightarrow> None
        | LiteralExpr v \<Rightarrow> None
        | ColumnRefExpr t c \<Rightarrow> validateColumnRefExpr t c cols
        | MetricRefExpr name \<Rightarrow>
            if \<not> allowMetrics then Some (MetricNotAllowed name)
            else if \<not> bget mets (ToLower name) then Some (UnknownMetricRef name) else None
        | DimensionRefExpr name \<Rightarrow>
            if \<not> bget dims (ToLower name) then Some (UnknownDimensionRef name) else None
        | BinaryExpr op l r \<Rightarrow>
            (case ValidateExprStrict l cols mets dims allowMetrics (depth + 1) of
               Some e \<Rightarrow> Some e
             | None \<Rightarrow> ValidateExprStrict r cols mets dims allowMetrics (depth + 1))
        | UnaryExpr op x \<Rightarrow> ValidateExprStrict x cols mets dims allowMetrics (depth + 1)
        | FunctionCallExpr name args \<Rightarrow>
            (case functionHeadError name (length args) allowMetrics of
               Some e \<Rightarrow> Some e
             | None \<Rightarrow>
                 first_err (\<lambda>arg. ValidateExprStrict arg cols mets dims allowMetrics (depth + 1)) args)
        | CaseExpr conds els \<Rightarrow>
            (case first_err caseErr (enumerate 0 (map (\<lambda>(w, t).
                     (ValidateExprStrict w cols mets dims allowMetrics (depth + 1),
                      ValidateExprStrict t cols mets dims allowMetrics (depth + 1))) conds)) of
               Some e \<Rightarrow> Some e
             | None \<Rightarrow>
                 (if els = NilExpr then None
                  else map_option InvalidElse
                         (ValidateExprStrict els cols mets dims allowMetrics (depth + 1))))))"

declare ValidateExprStrict.simps [simp del]

section \<open>Dependencies (expr\_lineage.go)\<close>

type_synonym deps = "(string \<times> string) list \<times> string list \<times> string list"

fun collectDeps :: "ExprNode \<Rightarrow> deps \<Rightarrow> deps" where
  "collectDeps NilExpr acc = acc"
| "collectDeps (LiteralExpr v) acc = acc"
| "collectDeps (ColumnRefExpr t c) (cols, mets, dims) = (append_new cols (t, c), mets, dims)"
| "collectDeps (MetricRefExpr n) (cols, mets, dims) = (cols, append_new mets n, dims)"
| "collectDeps (DimensionRefExpr n) (cols, mets, dims) = (cols, mets, append_new dims n)"
| "collectDeps (BinaryExpr op l r) acc = collectDeps r (collectDeps l acc)"
| "collectDeps (UnaryExpr op e) acc = collectDeps e acc"
| "collectDeps (FunctionCallExpr name args) acc = foldl (\<lambda>a e. collectDeps e a) acc args"
| "collectDeps (CaseExpr conds els) acc =
     collectDeps els (foldl (\<lambda>a (w, t). collectDeps t (collectDeps w a)) acc conds)"

definition ExprDependencies :: "ExprNode \<Rightarrow> deps" where
  "ExprDependencies node = collectDeps node ([], [], [])"

section \<open>The abstract view: the nodes of a tree and their nesting depth\<close>

fun children :: "ExprNode \<Rightarrow> ExprNode list" where
  "children (BinaryExpr op l r) = [l, r]"
| "children (UnaryExpr op e) = [e]"
| "children (FunctionCallExpr name args) = args"
| "children (CaseExpr conds els) = concat (map (\<lambda>(w, t). [w, t]) conds) @ [els]"
| "children _ = []"

lemma size_child: "c \<in> set (children n) \<Longrightarrow> size c < size n"
proof (cases n)
  case (FunctionCallExpr name args)
  assume "c \<in> set (children n)"
  then have "c \<in> set args" by (simp add: FunctionCallExpr)
  then have "size c < size_list size args + 1"
    by (simp add: size_list_estimation' less_Suc_eq_le)
  then show ?thesis by (simp add: FunctionCallExpr)
next
  case (CaseExpr conds els)
  have "size c < size_list (size_prod size size) conds + 1"
    if "(w, t) \<in> set conds" "c = w \<or> c = t" for w t
    using that by (auto intro: size_list_estimation' [of "(w, t)"] simp: less_Suc_eq_le)
  moreover assume "c \<in> set (children n)"
  ultimately show ?thesis by (fastforce simp: CaseExpr)
qed auto

function subnodes :: "ExprNode \<Rightarrow> (nat \<times> ExprNode) list" where
  "subnodes n =
     (if n = NilExpr then []
      else (0, n) # map (apfst Suc) (concat (map subnodes (children n))))"
  by pat_completeness auto
termination
  by (relation "measure size") (auto simp: size_child)

declare subnodes.simps [simp del]

lemma subnodes_Nil [simp]: "subnodes NilExpr = []"
  by (simp add: subnodes.simps)

definition node_ok :: "boolmap \<Rightarrow> boolmap \<Rightarrow> boolmap \<Rightarrow> bool \<Rightarrow> ExprNode \<Rightarrow> bool" where
  "node_ok cols mets dims allowMetrics n =
     (case n of
        ColumnRefExpr t c \<Rightarrow> validateColumnRefExpr t c cols = None
      | MetricRefExpr name \<Rightarrow> allowMetrics \<and> bget mets (ToLower name)
      | DimensionRefExpr name \<Rightarrow> bget dims (ToLower name)
      | FunctionCallExpr name args \<Rightarrow> functionHeadError name (length args) allowMetrics = None
      | _ \<Rightarrow> True)"

lemma caseErr_None [err_simps]: "caseErr (i, w, t) = None \<longleftrightarrow> w = None \<and> t = None"
  by (auto split: option.splits)

lemma case_loop_None:
  "first_err caseErr (enumerate i ps) = None \<longleftrightarrow> (\<forall>(w, t)\<in>set ps. w = None \<and> t = None)"
  by (induction ps arbitrary: i) (auto split: option.splits)

text \<open>The validator's equation, once per node kind: these rewrite without looping.\<close>

lemmas validate_eqs =
  ValidateExprStrict.simps [of NilExpr, simplified]
  ValidateExprStrict.simps [of "LiteralExpr v" for v, simplified]
  ValidateExprStrict.simps [of "ColumnRefExpr t c" for t c, simplified]
  ValidateExprStrict.simps [of "MetricRefExpr m" for m, simplified]
  ValidateExprStrict.simps [of "DimensionRefExpr m" for m, simplified]
  ValidateExprStrict.simps [of "BinaryExpr op l r" for op l r, simplified]
  ValidateExprStrict.simps [of "UnaryExpr op x" for op x, simplified]
  ValidateExprStrict.simps [of "FunctionCallExpr f args" for f args, simplified]
  ValidateExprStrict.simps [of "CaseExpr conds els" for conds els, simplified]

lemma validate_unfold:
  "ValidateExprStrict n cols mets dims am d = None \<longleftrightarrow>
     n = NilExpr \<or>
     (d \<le> 10 \<and> node_ok cols mets dims am n \<and>
      (\<forall>c\<in>set (children n). ValidateExprStrict c cols mets dims am (d + 1) = None))"
proof (cases n)
  case (CaseExpr conds els)
  let ?V = "\<lambda>x. ValidateExprStrict x cols mets dims am (d + 1)"
  have nil: "?V NilExpr = None" by (simp add: validate_eqs)
  have loop: "first_err caseErr (enumerate 0 (map (\<lambda>(w, t). (?V w, ?V t)) conds)) = None \<longleftrightarrow>
      (\<forall>(w, t)\<in>set conds. ?V w = None \<and> ?V t = None)"
    by (auto simp: case_loop_None)
  have kids: "(\<forall>c\<in>set (children n). ?V c = None) \<longleftrightarrow>
      (\<forall>(w, t)\<in>set conds. ?V w = None \<and> ?V t = None) \<and> ?V els = None"
    unfolding CaseExpr by fastforce
  show ?thesis
    unfolding kids unfolding loop [symmetric] unfolding CaseExpr
    by (simp add: validate_eqs(9) nil node_ok_def split: option.split)
qed (simp_all add: validate_eqs(1-8) err_simps node_ok_def split: option.split)

lemma set_subnodes:
  "n \<noteq> NilExpr \<Longrightarrow>
   set (subnodes n) = insert (0, n) (\<Union>c\<in>set (children n). apfst Suc ` set (subnodes c))"
  by (subst subnodes.simps) auto

lemma validate_iff_nodes:
  "ValidateExprStrict n cols mets dims am d = None \<longleftrightarrow>
     (\<forall>(k, m)\<in>set (subnodes n). d + int k \<le> 10 \<and> node_ok cols mets dims am m)"
proof (induction n arbitrary: d rule: measure_induct_rule [where f = size])
  case (less n)
  show ?case
  proof (cases "n = NilExpr")
    case True
    then show ?thesis by (simp add: validate_eqs(1))
  next
    case False
    have IH: "ValidateExprStrict c cols mets dims am (d + 1) = None \<longleftrightarrow>
        (\<forall>(k, m)\<in>set (subnodes c). d + 1 + int k \<le> 10 \<and> node_ok cols mets dims am m)"
      if "c \<in> set (children n)" for c
      using less.IH [OF size_child [OF that]] .
    have step: "(\<forall>c\<in>set (children n). ValidateExprStrict c cols mets dims am (d + 1) = None) \<longleftrightarrow>
        (\<forall>c\<in>set (children n). \<forall>(k, m)\<in>apfst Suc ` set (subnodes c).
           d + int k \<le> 10 \<and> node_ok cols mets dims am m)"
      by (rule ball_cong [OF refl], subst IH) (simp_all add: split_beta algebra_simps)
    show ?thesis
      unfolding validate_unfold [of n] set_subnodes [OF False] step
      by (simp add: False)
  qed
qed

section \<open>References of a tree in traversal order\<close>

fun as_column :: "ExprNode \<Rightarrow> (string \<times> string) option" where
  "as_column (ColumnRefExpr t c) = Some (t, c)"
| "as_column _ = None"

fun as_metric :: "ExprNode \<Rightarrow> string option" where
  "as_metric (MetricRefExpr n) = Some n"
| "as_metric _ = None"

fun as_dimension :: "ExprNode \<Rightarrow> string option" where
  "as_dimension (DimensionRefExpr n) = Some n"
| "as_dimension _ = None"

definition refs :: "(ExprNode \<Rightarrow> 'a option) \<Rightarrow> ExprNode \<Rightarrow> 'a list" where
  "refs as e = List.map_filter as (map snd (subnodes e))"

lemma refs_Nil [simp]: "refs as NilExpr = []"
  by (simp add: refs_def List.map_filter_def)

lemma map_filter_append: "List.map_filter f (xs @ ys) = List.map_filter f xs @ List.map_filter f ys"
  by (simp add: List.map_filter_def)

lemma map_filter_concat:
  "List.map_filter f (concat xss) = concat (map (List.map_filter f) xss)"
  by (induction xss) (simp_all add: map_filter_append List.map_filter_def)

lemma refs_unfold:
  "n \<noteq> NilExpr \<Longrightarrow>
   refs as n = (case as n of None \<Rightarrow> [] | Some x \<Rightarrow> [x]) @ concat (map (refs as) (children n))"
proof -
  assume n: "n \<noteq> NilExpr"
  have "map snd (subnodes n) = n # concat (map (\<lambda>c. map snd (subnodes c)) (children n))"
    using n by (subst subnodes.simps) (simp add: map_concat comp_def)
  then have "refs as n = List.map_filter as (n # concat (map (\<lambda>c. map snd (subnodes c)) (children n)))"
    by (simp only: refs_def)
  also have "\<dots> = (case as n of None \<Rightarrow> [] | Some x \<Rightarrow> [x]) @
      List.map_filter as (concat (map (\<lambda>c. map snd (subnodes c)) (children n)))"
    by (simp add: List.map_filter_def split: option.splits)
  also have "List.map_filter as (concat (map (\<lambda>c. map snd (subnodes c)) (children n))) =
      concat (map (refs as) (children n))"
    by (simp add: map_filter_concat comp_def refs_def [abs_def])
  finally show ?thesis .
qed

definition add_refs :: "ExprNode list \<Rightarrow> deps \<Rightarrow> deps" where
  "add_refs es = (\<lambda>(cols, mets, dims).
     (collect_new cols (concat (map (refs as_column) es)),
      collect_new mets (concat (map (refs as_metric) es)),
      collect_new dims (concat (map (refs as_dimension) es))))"

lemma add_refs_Nil [simp]: "add_refs [] acc = acc"
  by (simp add: add_refs_def split_beta)

lemma add_refs_append: "add_refs (xs @ ys) acc = add_refs ys (add_refs xs acc)"
  by (simp add: add_refs_def split_beta)

lemma add_refs_Cons: "add_refs (x # xs) acc = add_refs xs (add_refs [x] acc)"
  using add_refs_append [of "[x]" xs acc] by simp

lemma collectDeps_add_refs: "collectDeps e acc = add_refs [e] acc"
proof (induction e arbitrary: acc rule: measure_induct_rule [where f = size])
  case (less e)
  have fold: "foldl (\<lambda>a x. collectDeps x a) acc xs = add_refs xs acc"
    if "\<forall>x\<in>set xs. size x < size e" for xs acc
    using that
  proof (induction xs arbitrary: acc)
    case Nil
    then show ?case by simp
  next
    case (Cons x xs)
    then show ?case using less.IH by (simp add: add_refs_Cons [of x xs])
  qed
  have kids: "foldl (\<lambda>a x. collectDeps x a) acc (children e) = add_refs (children e) acc" for acc
    by (rule fold) (simp add: size_child)
  have pairs: "foldl (\<lambda>a (w, t). collectDeps t (collectDeps w a)) acc conds =
      foldl (\<lambda>a x. collectDeps x a) acc (concat (map (\<lambda>(w, t). [w, t]) conds))" for conds acc
    by (induction conds arbitrary: acc) auto
  have leafless: "add_refs [e] acc = add_refs (children e) acc"
    if "as_column e = None" "as_metric e = None" "as_dimension e = None" "e \<noteq> NilExpr"
    using that by (simp add: add_refs_def refs_unfold)
  show ?case
  proof (cases e)
    case NilExpr
    then show ?thesis by (cases acc) (simp add: add_refs_def)
  qed (cases acc, use kids [of acc] leafless in
       \<open>auto simp: refs_unfold add_refs_def pairs simp del: refs_Nil\<close>)+
qed

lemma ExprDependencies_refs:
  "ExprDependencies e =
     (collect_new [] (refs as_column e), collect_new [] (refs as_metric e),
      collect_new [] (refs as_dimension e))"
  by (simp add: ExprDependencies_def collectDeps_add_refs add_refs_def)

lemma in_refs: "x \<in> set (refs as e) \<longleftrightarrow> (\<exists>(k, n)\<in>set (subnodes e). as n = Some x)"
  by (force simp: refs_def List.map_filter_def)

lemma as_column_iff [simp]: "as_column n = Some x \<longleftrightarrow> n = ColumnRefExpr (fst x) (snd x)"
  by (cases n; cases x) auto

lemma as_metric_iff [simp]: "as_metric n = Some m \<longleftrightarrow> n = MetricRefExpr m"
  by (cases n) auto

lemma as_dimension_iff [simp]: "as_dimension n = Some d \<longleftrightarrow> n = DimensionRefExpr d"
  by (cases n) auto

lemma is_space_upper_char [simp]: "is_space (upper_char c) = is_space c"
  unfolding is_space_def byte_upper_char is_lower_def by auto

lemma TrimSpace_ToUpper: "TrimSpace (ToUpper s) = ToUpper (TrimSpace s)"
  by (simp add: string_defs dropWhile_map comp_def rev_map)

lemma aggregates_not_scalar:
  "map_of AllowedFunctions f \<noteq> None \<Longrightarrow> map_of AllowedAggregateFunctions f = None"
proof -
  assume "map_of AllowedFunctions f \<noteq> None"
  then have "f \<in> set (map fst AllowedFunctions)" by (simp add: map_of_eq_None_iff)
  moreover have "set (map fst AllowedFunctions) \<inter> set (map fst AllowedAggregateFunctions) = {}"
    by code_simp
  ultimately show ?thesis by (auto simp: map_of_eq_None_iff)
qed

lemma functionHead_scalar_only:
  "functionHeadError f n False = None \<Longrightarrow> \<not> IsAggregateFunction f"
proof -
  assume "functionHeadError f n False = None"
  then have "FunctionAllowed (ToUpper f) False"
    by (auto simp: functionHeadError_def Let_def split: if_splits)
  then have "map_of AllowedFunctions (ToUpper (TrimSpace f)) \<noteq> None"
    by (auto simp: FunctionAllowed_def Let_def TrimSpace_ToUpper split: if_splits)
  from aggregates_not_scalar [OF this] show ?thesis by (simp add: IsAggregateFunction_def)
qed

section \<open>Properties\<close>

text \<open>An expression and the maps it is validated against, for the witnesses.\<close>

definition example_expr :: ExprNode where
  "example_expr =
     CaseExpr [(BinaryExpr ''gt'' (ColumnRefExpr ''orders'' ''total'') (LiteralExpr (AInt 5)),
                FunctionCallExpr ''round'' [DimensionRefExpr ''Price''])]
       (FunctionCallExpr ''COALESCE'' [ColumnRefExpr [] ''total'', ColumnRefExpr ''orders'' ''total''])"

definition example_cols :: boolmap where
  "example_cols = [(''orders.total'', True)]"

definition example_dims :: boolmap where
  "example_dims = [(''price'', True)]"

text \<open>The strict expression validator accepts a tree exactly when every node of the tree, at
  whatever position, is nested at most ten levels deep and passes its own local check: a known
  column, a permitted and known metric, a known dimension, a whitelisted function with the right
  number of arguments.\<close>

theorem ValidateExprStrict_accepts_iff:
  "ValidateExprStrict e cols mets dims allowMetrics 0 = None \<longleftrightarrow>
     (\<forall>(k, n)\<in>set (subnodes e). k \<le> 10 \<and> node_ok cols mets dims allowMetrics n)"
  by (simp add: validate_iff_nodes)

theorem ValidateExprStrict_accepts_iff_witness:
  "ValidateExprStrict example_expr example_cols [] example_dims False 0 = None \<and>
   list_all (\<lambda>(k, n). k \<le> 10 \<and> node_ok example_cols [] example_dims False n) (subnodes example_expr)"
proof -
  have ok: "ValidateExprStrict example_expr example_cols [] example_dims False 0 = None"
    by code_simp
  show ?thesis unfolding list_all_iff using ok ValidateExprStrict_accepts_iff [THEN iffD1, OF ok] by blast
qed

text \<open>Everything a validated expression depends on was allowed: each column, metric and
  dimension that the lineage collector reports for it passes the corresponding whitelist.\<close>

theorem validated_dependencies_allowed:
  assumes "ValidateExprStrict e cols mets dims allowMetrics depth = None"
    and "ExprDependencies e = (cs, ms, ds)"
  shows "(\<forall>(t, c)\<in>set cs. validateColumnRefExpr t c cols = None) \<and>
         (\<forall>m\<in>set ms. allowMetrics \<and> bget mets (ToLower m)) \<and>
         (\<forall>d\<in>set ds. bget dims (ToLower d))"
proof -
  have ok: "node_ok cols mets dims allowMetrics n" if "(k, n) \<in> set (subnodes e)" for k n
    using assms(1) that by (auto simp: validate_iff_nodes)
  have "set cs = set (refs as_column e)" "set ms = set (refs as_metric e)"
    "set ds = set (refs as_dimension e)"
    using assms(2) by (auto simp: ExprDependencies_refs)
  then show ?thesis
    using ok [of _ "ColumnRefExpr t c" for t c] ok [of _ "MetricRefExpr m" for m]
      ok [of _ "DimensionRefExpr d" for d]
    by (simp add: node_ok_def split_beta) (force simp: in_refs)
qed

theorem validated_dependencies_allowed_witness:
  "ExprDependencies example_expr = ([(''orders'', ''total''), ([], ''total'')], [], [''Price'']) \<and>
   validateColumnRefExpr ''orders'' ''total'' example_cols = None \<and>
   validateColumnRefExpr [] ''total'' example_cols = None \<and> bget example_dims (ToLower ''Price'')"
proof -
  have ok: "ValidateExprStrict example_expr example_cols [] example_dims False 0 = None"
    by code_simp
  have deps: "ExprDependencies example_expr = ([(''orders'', ''total''), ([], ''total'')], [], [''Price''])"
    by code_simp
  show ?thesis using deps validated_dependencies_allowed [OF ok deps] by simp
qed

text \<open>Outside a metric context (\<open>allowMetrics\<close> false) a validated expression contains, at
  no depth, a metric reference or a call to an aggregate function in any spelling.\<close>

theorem validated_dimension_has_no_aggregate:
  assumes "ValidateExprStrict e cols mets dims False depth = None"
    and "(k, n) \<in> set (subnodes e)"
  shows "(\<forall>m. n \<noteq> MetricRefExpr m) \<and>
         (\<forall>f args. n = FunctionCallExpr f args \<longrightarrow> \<not> IsAggregateFunction f)"
proof -
  have "node_ok cols mets dims False n"
    using assms by (auto simp: validate_iff_nodes)
  then show ?thesis by (auto simp: node_ok_def dest: functionHead_scalar_only)
qed

theorem validated_dimension_has_no_aggregate_witness:
  "ValidateExprStrict example_expr example_cols [] example_dims False 0 = None \<and>
   (2, DimensionRefExpr ''Price'') \<in> set (subnodes example_expr) \<and>
   DimensionRefExpr ''Price'' \<noteq> MetricRefExpr ''Price'' \<and>
   ValidateExprStrict (FunctionCallExpr ''sum'' [ColumnRefExpr ''orders'' ''total''])
     example_cols [] example_dims False 0 = Some (AggregateNotAllowed ''sum'')"
proof -
  have ok: "ValidateExprStrict example_expr example_cols [] example_dims False 0 = None"
    by code_simp
  have mem: "(2, DimensionRefExpr ''Price'') \<in> set (subnodes example_expr)"
    by code_simp
  have bad: "ValidateExprStrict (FunctionCallExpr ''sum'' [ColumnRefExpr ''orders'' ''total''])
     example_cols [] example_dims False 0 = Some (AggregateNotAllowed ''sum'')"
    by code_simp
  show ?thesis using ok mem bad validated_dimension_has_no_aggregate [OF ok mem] by blast
qed

text \<open>The lineage collector reports every column, metric and dimension the tree mentions,
  each exactly once.\<close>

theorem ExprDependencies_exact:
  "case ExprDependencies e of (cs, ms, ds) \<Rightarrow>
     distinct cs \<and> set cs = {(t, c) | t c k. (k, ColumnRefExpr t c) \<in> set (subnodes e)} \<and>
     distinct ms \<and> set ms = {m | m k. (k, MetricRefExpr m) \<in> set (subnodes e)} \<and>
     distinct ds \<and> set ds = {d | d k. (k, DimensionRefExpr d) \<in> set (subnodes e)}"
  by (force simp: ExprDependencies_refs set_eq_iff in_refs)

end
