(* ===== verification/Semantic_Model.thy ===== *)
theory Semantic_Model
  imports Expr_AST
begin

text \<open>
  The data of the semantic layer: \<open>pkg/semantic/types.go\<close> and \<open>pkg/semantic/composite.go\<close>, field
  for field. A Go pointer to a scalar is an option, a \<open>time.Time\<close> the integer number of
  nanoseconds since the epoch. Record fields carry a prefix for the struct they belong to, because
  record selectors are global names.
\<close>

type_synonym time = int

section \<open>Models, dimensions, metrics, joins (types.go)\<close>

record EnumMapping =
  em_ID :: string
  em_DimensionID :: string
  em_RawValue :: string
  em_Label :: string
  em_Description :: "string option"
  em_SortOrder :: int

record Dimension =
  dim_ID :: string
  dim_ModelID :: string
  dim_Name :: string
  dim_Label :: "string option"
  dim_ColumnRef :: string
  dim_Type :: string
  dim_Synonyms :: "string list"
  dim_Description :: "string option"
  dim_IsActive :: bool
  dim_CreatedAt :: time
  dim_TimeGrain :: string
  dim_IsDisplay :: bool
  dim_CalculatedExpression :: string
  dim_CalculatedExpr :: ExprNode
  dim_EnumValues :: "EnumMapping list"

record Metric =
  met_ID :: string
  met_ModelID :: string
  met_Name :: string
  met_Label :: "string option"
  met_Expression :: string
  met_Expr :: ExprNode
  met_Aggregation :: string
  met_Format :: "string option"
  met_Synonyms :: "string list"
  met_Description :: "string option"
  met_IsActive :: bool
  met_CreatedAt :: time
  met_RateBehavior :: string

record Join =
  join_ID :: string
  join_ModelID :: string
  join_Name :: string
  join_FromSchema :: string
  join_FromTable :: string
  join_FromColumn :: string
  join_ToSchema :: string
  join_ToTable :: string
  join_ToColumn :: string
  join_JoinType :: string
  join_Relationship :: string
  join_Description :: string
  join_IsActive :: bool
  join_CreatedAt :: time

record SemanticModel =
  sm_ID :: string
  sm_DatasourceID :: string
  sm_Name :: string
  sm_Label :: "string option"
  sm_Description :: "string option"
  sm_BaseSchema :: string
  sm_BaseTable :: string
  sm_Synonyms :: "string list"
  sm_ExcludedSchemas :: "string list"
  sm_IsActive :: bool
  sm_Status :: string
  sm_Version :: int
  sm_PublishedAt :: "time option"
  sm_PublishedBy :: "string option"
  sm_DraftUpdatedAt :: time
  sm_CreatedBy :: "string option"
  sm_Dimensions :: "Dimension list"
  sm_Metrics :: "Metric list"
  sm_Joins :: "Join list"
  sm_CreatedAt :: time
  sm_UpdatedAt :: time

definition IsValidRateBehavior :: "string \<Rightarrow> bool" where
  "IsValidRateBehavior s \<longleftrightarrow>
     s \<in> {[], ''ratio_of_sums'', ''average_of_customer_rates'', ''weighted_average'', ''latest_value''}"

definition RelationshipManyToOne :: string where "RelationshipManyToOne = ''many_to_one''"
definition RelationshipOneToMany :: string where "RelationshipOneToMany = ''one_to_many''"
definition RelationshipOneToOne :: string where "RelationshipOneToOne = ''one_to_one''"
definition RelationshipManyToMany :: string where "RelationshipManyToMany = ''many_to_many''"

lemmas relationship_defs = RelationshipManyToOne_def RelationshipOneToMany_def
  RelationshipOneToOne_def RelationshipManyToMany_def

section \<open>Composite models (composite.go)\<close>

record ComponentModelRef =
  cmr_ID :: string
  cmr_CompositeID :: string
  cmr_ModelID :: string
  cmr_Alias :: string
  cmr_Role :: string
  cmr_CreatedAt :: time

record CrossModelJoin =
  cmj_ID :: string
  cmj_CompositeID :: string
  cmj_Name :: string
  cmj_FromModel :: string
  cmj_FromDimension :: string
  cmj_ToModel :: string
  cmj_ToDimension :: string
  cmj_JoinType :: string
  cmj_Relationship :: string
  cmj_IsActive :: bool
  cmj_CreatedAt :: time

record CanonicalDateRef =
  cdr_ModelAlias :: string
  cdr_DimensionName :: string

record DimensionConflictResolution =
  dcr_ID :: string
  dcr_CompositeID :: string
  dcr_DimensionName :: string
  dcr_Resolution :: string
  dcr_SourceAlias :: string
  dcr_TargetAlias :: string

record CompositeModel =
  cm_ID :: string
  cm_DatasourceID :: string
  cm_Name :: string
  cm_Label :: "string option"
  cm_Description :: "string option"
  cm_Components :: "ComponentModelRef list"
  cm_CrossModelJoins :: "CrossModelJoin list"
  cm_CanonicalDate :: "CanonicalDateRef option"
  cm_ConflictResolutions :: "DimensionConflictResolution list"
  cm_IsActive :: bool
  cm_Status :: string
  cm_Version :: int
  cm_PublishedAt :: "time option"
  cm_PublishedBy :: "string option"
  cm_DraftUpdatedAt :: time
  cm_CreatedBy :: "string option"
  cm_CreatedAt :: time
  cm_UpdatedAt :: time

section \<open>Example values shared by the witnesses\<close>

definition example_dim :: "string \<Rightarrow> string \<Rightarrow> Dimension" where
  "example_dim name ref =
     \<lparr>dim_ID = name, dim_ModelID = ''m1'', dim_Name = name, dim_Label = None, dim_ColumnRef = ref,
      dim_Type = ''text'', dim_Synonyms = [], dim_Description = None, dim_IsActive = True,
      dim_CreatedAt = 0, dim_TimeGrain = [], dim_IsDisplay = False, dim_CalculatedExpression = [],
      dim_CalculatedExpr = NilExpr, dim_EnumValues = []\<rparr>"

definition example_metric :: "string \<Rightarrow> string \<Rightarrow> Metric" where
  "example_metric name expr =
     \<lparr>met_ID = name, met_ModelID = ''m1'', met_Name = name, met_Label = None, met_Expression = expr,
      met_Expr = NilExpr, met_Aggregation = ''sum'', met_Format = None, met_Synonyms = [],
      met_Description = None, met_IsActive = True, met_CreatedAt = 0, met_RateBehavior = []\<rparr>"

definition example_join :: "string \<Rightarrow> string \<Rightarrow> string \<Rightarrow> string \<Rightarrow> string \<Rightarrow> string \<Rightarrow> Join" where
  "example_join name ft fc tt tc rel =
     \<lparr>join_ID = name, join_ModelID = ''m1'', join_Name = name, join_FromSchema = [],
      join_FromTable = ft, join_FromColumn = fc, join_ToSchema = [], join_ToTable = tt,
      join_ToColumn = tc, join_JoinType = ''LEFT'', join_Relationship = rel, join_Description = [],
      join_IsActive = True, join_CreatedAt = 0\<rparr>"

definition example_model :: SemanticModel where
  "example_model =
     \<lparr>sm_ID = ''m1'', sm_DatasourceID = ''ds1'', sm_Name = ''orders'', sm_Label = None,
      sm_Description = None, sm_BaseSchema = ''public'', sm_BaseTable = ''orders'', sm_Synonyms = [],
      sm_ExcludedSchemas = [], sm_IsActive = True, sm_Status = ''published'', sm_Version = 1,
      sm_PublishedAt = None, sm_PublishedBy = None, sm_DraftUpdatedAt = 0, sm_CreatedBy = None,
      sm_Dimensions = [example_dim ''status'' ''orders.status'', example_dim ''country'' ''customers.country''],
      sm_Metrics = [example_metric ''revenue'' ''orders.total'', example_metric ''orders_n'' ''orders.id''],
      sm_Joins = [example_join ''oc'' ''orders'' ''customer_id'' ''customers'' ''id'' ''many_to_one'',
                  example_join ''ps'' ''products'' ''supplier_id'' ''suppliers'' ''id'' ''many_to_one''],
      sm_CreatedAt = 0, sm_UpdatedAt = 0\<rparr>"

definition example_composite :: CompositeModel where
  "example_composite =
     \<lparr>cm_ID = ''c1'', cm_DatasourceID = ''ds1'', cm_Name = ''sales'', cm_Label = None,
      cm_Description = None, cm_Components = [], cm_CrossModelJoins = [], cm_CanonicalDate = None,
      cm_ConflictResolutions = [], cm_IsActive = True, cm_Status = ''draft'', cm_Version = 1,
      cm_PublishedAt = None, cm_PublishedBy = None, cm_DraftUpdatedAt = 0, cm_CreatedBy = None,
      cm_CreatedAt = 0, cm_UpdatedAt = 0\<rparr>"

end
