(* ===== verification/Logical_Query.thy ===== *)
theory Logical_Query
  imports Semantic_Model
begin

text \<open>
  \<open>pkg/logicalquery/types.go\<close>: the database-independent query the language model produces. The
  structs from \<open>Filter\<close> to \<open>CaseBranch\<close> refer to each other (a filter may embed a subquery,
  whose select items carry filters again), so they are one mutual datatype whose selectors are the
  struct fields; \<open>LogicalQuery\<close> itself and the flat structs are records.

  Shown here: \<open>EnsureGroupBySelected\<close> makes every grouped dimension part of the projection, once,
  before the first metric, and changes nothing else; running it again changes nothing.
\<close>

section \<open>Types\<close>

record OrderBy =
  ob_Field :: string
  ob_Direction :: string

record GroupBy =
  gb_Field :: string
  gb_TimeGrain :: string

record WindowSpec =
  ws_Aggregation :: string
  ws_Expression :: string
  ws_Expr :: ExprNode
  ws_Metric :: string
  ws_PartitionBy :: "string list"
  ws_OrderBy :: "OrderBy list"
  ws_Offset :: int
  ws_Frame :: string

record CaseThen =
  ct_Type :: string
  ct_Dimension :: string
  ct_Literal :: go_any

datatype Filter =
    Filter (f_Field: string) (f_Operator: string) (f_Value: go_any) (f_CaseSensitive: bool)
      (f_Subquery: "SubqueryFilter option")
and SubqueryFilter =
    SubqueryFilter (sf_Body: SubqueryBody) (sf_ResultField: string)
and SubqueryBody =
    SubqueryBody (sb_Select: "SelectItem list") (sb_Filters: "Filter list") (sb_GroupBy: "GroupBy list")
      (sb_Having: "Filter list") (sb_OrderBy: "OrderBy list") (sb_Limit: int) (sb_Offset: int)
and SelectItem =
    SelectItem (si_Type: string) (si_Name: string) (si_Alias: string) (si_Filters: "Filter list")
      (si_Case: "QueryCaseExpr option") (si_Formula: "FormulaSpec option")
      (si_Window: "WindowSpec option")
and QueryCaseExpr =
    QueryCaseExpr (qc_Branches: "CaseBranch list") (qc_Else: "CaseThen option")
and CaseBranch =
    CaseBranch (cb_When: "Filter list") (cb_Then: CaseThen)
and FormulaSpec =
    FormulaSpec (fs_Op: string) (fs_Left: MeasureRef) (fs_Right: MeasureRef)
and MeasureRef =
    MeasureRef (mr_Metric: string) (mr_Filters: "Filter list")

record CTE =
  cte_Name :: string
  cte_Select :: "SelectItem list"
  cte_Filters :: "Filter list"
  cte_GroupBy :: "GroupBy list"
  cte_Having :: "Filter list"
  cte_OrderBy :: "OrderBy list"
  cte_Limit :: int
  cte_Offset :: int

record LogicalQuery =
  lq_Version :: string
  lq_DatasourceID :: string
  lq_ModelID :: string
  lq_CompositeID :: string
  lq_Select :: "SelectItem list"
  lq_Filters :: "Filter list"
  lq_GroupBy :: "GroupBy list"
  lq_Having :: "Filter list"
  lq_OrderBy :: "OrderBy list"
  lq_Limit :: int
  lq_Offset :: int
  lq_CTEs :: "CTE list"
  lq_FromSubquery :: "SubqueryBody option"
  lq_FromCTE :: string
  lq_FromAlias :: string
  lq_DefaultSchema :: string
  lq_TableSchemas :: "string \<rightharpoonup> string"

definition SelectTypeDimension :: string where "SelectTypeDimension = ''dimension''"
definition SelectTypeMetric :: string where "SelectTypeMetric = ''metric''"

lemmas select_type_defs = SelectTypeDimension_def SelectTypeMetric_def

definition CurrentLogicalQueryVersion :: string where
  "CurrentLogicalQueryVersion = ''v1''"

section \<open>Operations\<close>

definition IsValidTimeGrain :: "string \<Rightarrow> bool" where
  "IsValidTimeGrain grain \<longleftrightarrow>
     grain \<in> {[], ''hour'', ''day'', ''week'', ''month'', ''quarter'', ''year''}"

definition IsValidFormulaOp :: "string \<Rightarrow> bool" where
  "IsValidFormulaOp op \<longleftrightarrow>
     op \<in> {''add'', ''subtract'', ''divide'', ''percent_of'', ''percent_change''}"

definition Subquery :: "CTE \<Rightarrow> SubqueryBody" where
  "Subquery c = SubqueryBody (cte_Select c) (cte_Filters c) (cte_GroupBy c) (cte_Having c)
     (cte_OrderBy c) (cte_Limit c) (cte_Offset c)"

text \<open>The receivers are pointers: \<open>None\<close> is the nil receiver, which both methods leave alone.\<close>

definition EnsureVersion :: "LogicalQuery option \<Rightarrow> LogicalQuery option" where
  "EnsureVersion lq =
     (case lq of None \<Rightarrow> None
      | Some q \<Rightarrow> Some (if lq_Version q = [] then q\<lparr>lq_Version := CurrentLogicalQueryVersion\<rparr> else q))"

text \<open>The first loop: the selected dimension names and the index of the first metric (the length
  of the projection if there is none).\<close>

definition selectedDims :: "SelectItem list \<Rightarrow> string list" where
  "selectedDims sel = map si_Name (filter (\<lambda>it. si_Type it = SelectTypeDimension) sel)"

definition firstMetric :: "SelectItem list \<Rightarrow> nat" where
  "firstMetric sel = length (takeWhile (\<lambda>it. si_Type it \<noteq> SelectTypeMetric) sel)"

definition dimensionItem :: "string \<Rightarrow> SelectItem" where
  "dimensionItem name = SelectItem SelectTypeDimension name [] [] None None None"

fun missingDims :: "GroupBy list \<Rightarrow> string list \<Rightarrow> SelectItem list" where
  "missingDims [] sel = []"
| "missingDims (gb # gbs) sel =
     (if gb_Field gb \<in> set sel then missingDims gbs sel
      else dimensionItem (gb_Field gb) # missingDims gbs (gb_Field gb # sel))"

definition EnsureGroupBySelected :: "LogicalQuery option \<Rightarrow> LogicalQuery option" where
  "EnsureGroupBySelected lq =
     (case lq of None \<Rightarrow> None
      | Some q \<Rightarrow>
          if lq_GroupBy q = [] then Some q
          else
            (let sel = lq_Select q;
                 k = firstMetric sel;
                 missing = missingDims (lq_GroupBy q) (selectedDims sel)
             in if missing = [] then Some q
                else Some (q\<lparr>lq_Select := take k sel @ missing @ drop k sel\<rparr>)))"

section \<open>Lemmas\<close>

lemma dimensionItem_sel [simp]:
  "si_Type (dimensionItem n) = SelectTypeDimension" "si_Name (dimensionItem n) = n"
  by (simp_all add: dimensionItem_def)

lemma missing_type: "it \<in> set (missingDims gbs sel) \<Longrightarrow> si_Type it = SelectTypeDimension"
  by (induction gbs sel rule: missingDims.induct) (auto split: if_splits)

lemma missing_names:
  "si_Name ` set (missingDims gbs sel) = gb_Field ` set gbs - set sel"
  by (induction gbs sel rule: missingDims.induct) auto

lemma missing_distinct: "distinct (map si_Name (missingDims gbs sel))"
proof (induction gbs sel rule: missingDims.induct)
  case (2 gb gbs sel)
  have "gb_Field gb \<notin> si_Name ` set (missingDims gbs (gb_Field gb # sel))"
    by (simp add: missing_names)
  with 2 show ?case by simp
qed simp

lemma missing_none: "gb_Field ` set gbs \<subseteq> set sel \<Longrightarrow> missingDims gbs sel = []"
  by (induction gbs sel rule: missingDims.induct) auto

lemma set_selectedDims:
  "set (selectedDims sel) = {si_Name it | it. it \<in> set sel \<and> si_Type it = SelectTypeDimension}"
  by (auto simp: selectedDims_def)

lemma set_take_drop_mid: "set (take k xs @ ys @ drop k xs) = set xs \<union> set ys"
proof -
  have "set (take k xs) \<union> set (drop k xs) = set xs"
    by (metis append_take_drop_id set_append)
  then show ?thesis by auto
qed

lemma take_firstMetric:
  "take (firstMetric sel) sel = takeWhile (\<lambda>it. si_Type it \<noteq> SelectTypeMetric) sel"
  unfolding firstMetric_def by (rule takeWhile_eq_take [symmetric])

definition groupBySelect :: "LogicalQuery \<Rightarrow> SelectItem list" where
  "groupBySelect q =
     (let k = firstMetric (lq_Select q) in
      take k (lq_Select q) @ missingDims (lq_GroupBy q) (selectedDims (lq_Select q)) @ drop k (lq_Select q))"

text \<open>All three exits of the method agree with one equation.\<close>

lemma EnsureGroupBySelected_eq:
  "EnsureGroupBySelected (Some q) = Some (q\<lparr>lq_Select := groupBySelect q\<rparr>)"
  by (simp add: EnsureGroupBySelected_def groupBySelect_def Let_def)

lemma groupBySelect_covers:
  "gb \<in> set (lq_GroupBy q) \<Longrightarrow> gb_Field gb \<in> set (selectedDims (groupBySelect q))"
proof -
  let ?sel = "lq_Select q"
  let ?m = "missingDims (lq_GroupBy q) (selectedDims ?sel)"
  assume gb: "gb \<in> set (lq_GroupBy q)"
  have mem: "set (groupBySelect q) = set ?sel \<union> set ?m"
    by (simp add: groupBySelect_def Let_def set_take_drop_mid del: set_append)
  show ?thesis
  proof (cases "gb_Field gb \<in> set (selectedDims ?sel)")
    case True
    then show ?thesis by (auto simp: set_selectedDims mem)
  next
    case False
    with gb have "gb_Field gb \<in> si_Name ` set ?m" by (simp add: missing_names)
    then show ?thesis using missing_type by (fastforce simp: set_selectedDims mem)
  qed
qed

section \<open>Properties\<close>

definition example_query :: LogicalQuery where
  "example_query =
     \<lparr>lq_Version = [], lq_DatasourceID = ''ds1'', lq_ModelID = ''m1'', lq_CompositeID = [],
      lq_Select = [SelectItem ''dimension'' ''status'' [] [] None None None,
                   SelectItem ''metric'' ''revenue'' [] [] None None None],
      lq_Filters = [Filter ''status'' ''eq'' (AStr ''paid'') False None],
      lq_GroupBy = [\<lparr>gb_Field = ''country'', gb_TimeGrain = []\<rparr>, \<lparr>gb_Field = ''status'', gb_TimeGrain = []\<rparr>],
      lq_Having = [], lq_OrderBy = [], lq_Limit = 10, lq_Offset = 0, lq_CTEs = [],
      lq_FromSubquery = None, lq_FromCTE = [], lq_FromAlias = [], lq_DefaultSchema = [],
      lq_TableSchemas = Map.empty\<rparr>"

text \<open>After \<open>EnsureGroupBySelected\<close> every GROUP BY field is projected as a dimension; the
  inserted items are dimensions named after distinct group fields that were not selected before,
  they stand in one block before the first metric, and every other part of the query, the original
  select items and their order included, is unchanged.\<close>

theorem EnsureGroupBySelected_correct:
  assumes "EnsureGroupBySelected (Some q) = Some q'"
  shows "(\<forall>gb\<in>set (lq_GroupBy q). gb_Field gb \<in> set (selectedDims (lq_Select q'))) \<and>
     (\<exists>pre new post. lq_Select q = pre @ post \<and> lq_Select q' = pre @ new @ post \<and>
        (\<forall>it\<in>set pre. si_Type it \<noteq> SelectTypeMetric) \<and>
        (\<forall>it\<in>set new. si_Type it = SelectTypeDimension) \<and>
        distinct (map si_Name new) \<and>
        set (map si_Name new) = gb_Field ` set (lq_GroupBy q) - set (selectedDims (lq_Select q))) \<and>
     q' = q\<lparr>lq_Select := lq_Select q'\<rparr>"
proof -
  let ?k = "firstMetric (lq_Select q)"
  let ?new = "missingDims (lq_GroupBy q) (selectedDims (lq_Select q))"
  from assms have q': "q' = q\<lparr>lq_Select := groupBySelect q\<rparr>"
    by (simp add: EnsureGroupBySelected_eq)
  have "lq_Select q = take ?k (lq_Select q) @ drop ?k (lq_Select q)" by simp
  moreover have "lq_Select q' = take ?k (lq_Select q) @ ?new @ drop ?k (lq_Select q)"
    by (simp add: q' groupBySelect_def Let_def)
  moreover have "\<forall>it\<in>set (take ?k (lq_Select q)). si_Type it \<noteq> SelectTypeMetric"
    unfolding take_firstMetric by (auto dest: set_takeWhileD)
  moreover have "\<forall>it\<in>set ?new. si_Type it = SelectTypeDimension" by (auto dest: missing_type)
  moreover have "distinct (map si_Name ?new)" by (rule missing_distinct)
  moreover have "set (map si_Name ?new) = gb_Field ` set (lq_GroupBy q) - set (selectedDims (lq_Select q))"
    by (simp add: missing_names)
  ultimately have "\<exists>pre new post. lq_Select q = pre @ post \<and> lq_Select q' = pre @ new @ post \<and>
        (\<forall>it\<in>set pre. si_Type it \<noteq> SelectTypeMetric) \<and>
        (\<forall>it\<in>set new. si_Type it = SelectTypeDimension) \<and>
        distinct (map si_Name new) \<and>
        set (map si_Name new) = gb_Field ` set (lq_GroupBy q) - set (selectedDims (lq_Select q))"
    by blast
  moreover have "\<forall>gb\<in>set (lq_GroupBy q). gb_Field gb \<in> set (selectedDims (lq_Select q'))"
    using groupBySelect_covers by (simp add: q')
  ultimately show ?thesis by (simp add: q')
qed

theorem EnsureGroupBySelected_correct_witness:
  "\<exists>q'. EnsureGroupBySelected (Some example_query) = Some q' \<and>
     map si_Name (lq_Select q') = [''status'', ''country'', ''revenue''] \<and>
     ''country'' \<in> set (selectedDims (lq_Select q'))"
proof -
  let ?q' = "example_query\<lparr>lq_Select := groupBySelect example_query\<rparr>"
  have run: "EnsureGroupBySelected (Some example_query) = Some ?q'"
    by (rule EnsureGroupBySelected_eq)
  have names: "map si_Name (lq_Select ?q') = [''status'', ''country'', ''revenue'']"
    by (simp add: example_query_def groupBySelect_def firstMetric_def selectedDims_def
        dimensionItem_def select_type_defs)
  have gb: "\<lparr>gb_Field = ''country'', gb_TimeGrain = []\<rparr> \<in> set (lq_GroupBy example_query)"
    by (simp add: example_query_def)
  from EnsureGroupBySelected_correct [OF run] gb
  have sel: "''country'' \<in> set (selectedDims (lq_Select ?q'))" by fastforce
  show ?thesis by (rule exI [of _ ?q'], intro conjI, rule run, rule names, rule sel)
qed

text \<open>\<open>EnsureGroupBySelected\<close> is idempotent: normalising a normalised query changes nothing.\<close>

theorem EnsureGroupBySelected_idempotent:
  "EnsureGroupBySelected (EnsureGroupBySelected lq) = EnsureGroupBySelected lq"
proof (cases lq)
  case None
  then show ?thesis by (simp add: EnsureGroupBySelected_def)
next
  case (Some q)
  let ?q = "q\<lparr>lq_Select := groupBySelect q\<rparr>"
  have "missingDims (lq_GroupBy q) (selectedDims (groupBySelect q)) = []"
    by (rule missing_none) (use groupBySelect_covers in auto)
  then have "groupBySelect ?q = groupBySelect q"
    unfolding groupBySelect_def [of ?q] by (simp add: Let_def)
  then show ?thesis by (simp add: Some EnsureGroupBySelected_eq)
qed

end
