(* ===== verification/Query_Planning.thy ===== *)
theory Query_Planning
  imports Logical_Query Dialects "HOL-Library.Product_Lexorder"
begin

text \<open>The parts of \<open>internal/query\<close> that decide about tables before any SQL is written: physical
  references and schemas (\<open>physical_ref.go\<close>), join column types (\<open>join_compat.go\<close>), the suggestions of
  validation errors (\<open>validation_helpers.go\<close>) and the planner (\<open>planner.go\<close>). The error record is the
  one of \<open>pkg/query/types.go\<close>. Lengths and distances are natural numbers where the code's integers
  cannot be negative.\<close>

section \<open>Physical references\<close>

record ParsedColumnRef =
  pc_Schema :: string
  pc_Table :: string
  pc_Column :: string

definition TableKey :: "string \<Rightarrow> string \<Rightarrow> string" where
  "TableKey schema table =
     (let s = TrimSpace schema; t = TrimSpace table in if s = [] then t else s @ ''.'' @ t)"

text \<open>The loop of \<open>splitDot\<close>; \<open>cur\<close> is the piece read since \<open>start\<close>.\<close>

fun splitDotFrom :: "string \<Rightarrow> string \<Rightarrow> string list" where
  "splitDotFrom cur [] = [cur]"
| "splitDotFrom cur (c # s) = (if c = CHR ''.'' then cur # splitDotFrom [] s else splitDotFrom (cur @ [c]) s)"

definition splitDot :: "string \<Rightarrow> string list" where
  "splitDot s = splitDotFrom [] s"

definition ParseColumnRef :: "string \<Rightarrow> string \<Rightarrow> ParsedColumnRef option" where
  "ParseColumnRef ref defaultSchema =
     (case splitDot ref of
        [a, b, c] \<Rightarrow> Some \<lparr>pc_Schema = a, pc_Table = b, pc_Column = c\<rparr>
      | [a, b] \<Rightarrow> Some \<lparr>pc_Schema = defaultSchema, pc_Table = a, pc_Column = b\<rparr>
      | _ \<Rightarrow> None)"

record SchemaResolver =
  modelBaseSchema :: string
  defaultSchema :: string
  tableSchemas :: "string \<rightharpoonup> string"

definition NewSchemaResolver :: "SemanticModel \<Rightarrow> LogicalQuery option \<Rightarrow> SchemaResolver" where
  "NewSchemaResolver model lq =
     (case lq of
        None \<Rightarrow> \<lparr>modelBaseSchema = sm_BaseSchema model, defaultSchema = [], tableSchemas = (\<lambda>_. None)\<rparr>
      | Some q \<Rightarrow>
          \<lparr>modelBaseSchema = sm_BaseSchema model, defaultSchema = TrimSpace (lq_DefaultSchema q),
           tableSchemas = (\<lambda>t. case lq_TableSchemas q t of
               None \<Rightarrow> None
             | Some s \<Rightarrow> if TrimSpace s \<noteq> [] then Some (TrimSpace s) else None)\<rparr>)"

definition EffectiveDefaultSchema :: "SchemaResolver \<Rightarrow> string" where
  "EffectiveDefaultSchema r = (if defaultSchema r \<noteq> [] then defaultSchema r else modelBaseSchema r)"

definition SchemaForTable :: "SchemaResolver \<Rightarrow> string \<Rightarrow> string" where
  "SchemaForTable r table =
     (case tableSchemas r table of
        Some s \<Rightarrow> if s \<noteq> [] then s else EffectiveDefaultSchema r
      | None \<Rightarrow> EffectiveDefaultSchema r)"

definition resolverParse :: "SchemaResolver \<Rightarrow> string \<Rightarrow> ParsedColumnRef option" where
  "resolverParse r ref = ParseColumnRef ref (EffectiveDefaultSchema r)"

definition applyOverride :: "SchemaResolver \<Rightarrow> ParsedColumnRef \<Rightarrow> ParsedColumnRef" where
  "applyOverride r p =
     (case tableSchemas r (pc_Table p) of
        Some override \<Rightarrow> if override \<noteq> [] then p\<lparr>pc_Schema := override\<rparr> else p
      | None \<Rightarrow> p)"

definition PhysicalColumnRef :: "SchemaResolver \<Rightarrow> string \<Rightarrow> string" where
  "PhysicalColumnRef r ref =
     (case resolverParse r ref of
        None \<Rightarrow> ref
      | Some p0 \<Rightarrow>
          (let p = applyOverride r p0 in
           if pc_Schema p \<noteq> EffectiveDefaultSchema r
           then TableKey (pc_Schema p) (pc_Table p) @ ''.'' @ pc_Column p
           else pc_Table p @ ''.'' @ pc_Column p))"

definition splitQualifiedTableName :: "string \<Rightarrow> string \<times> string" where
  "splitQualifiedTableName table =
     (case Split (TrimSpace table) CHR ''.'' of
        [a, b] \<Rightarrow> (a, b)
      | _ \<Rightarrow> ([], TrimSpace table))"

definition QualifyColumn :: "SchemaResolver \<Rightarrow> Dialect \<Rightarrow> string \<Rightarrow> string" where
  "QualifyColumn r d ref = QuoteIdent d (PhysicalColumnRef r ref)"

definition QualifyTable :: "SchemaResolver \<Rightarrow> Dialect \<Rightarrow> string \<Rightarrow> string \<Rightarrow> string" where
  "QualifyTable r d schema table =
     (if schema = [] then
        (case splitQualifiedTableName table of (s, t) \<Rightarrow>
           if s \<noteq> [] then QuoteIdent d (TableKey s t)
           else QuoteIdent d (TableKey (SchemaForTable r table) (TrimSpace table)))
      else QuoteIdent d (TableKey schema table))"

definition JoinSideKey :: "SchemaResolver \<Rightarrow> string \<Rightarrow> string \<Rightarrow> string" where
  "JoinSideKey r schema table =
     (case splitQualifiedTableName table of (s, t) \<Rightarrow>
        if s \<noteq> [] then TableKey s t
        else if schema = [] then TableKey (SchemaForTable r table) table
        else TableKey schema table)"

section \<open>Join column types\<close>

record ValidationError =
  ve_Field :: string
  ve_Code :: string
  ve_Message :: string
  ve_Value :: string
  ve_AllowedAlternatives :: "string list"

definition joinTypeGroupByRawType :: "(string \<times> string) list" where
  "joinTypeGroupByRawType =
     map (\<lambda>t. (t, ''integer''))
       [''smallint'', ''int2'', ''integer'', ''int'', ''int4'', ''bigint'', ''int8'', ''serial'', ''serial4'',
        ''bigserial'', ''serial8''] @
     map (\<lambda>t. (t, ''decimal''))
       [''numeric'', ''decimal'', ''double precision'', ''float'', ''float4'', ''float8'', ''real'', ''money''] @
     map (\<lambda>t. (t, ''text''))
       [''text'', ''character varying'', ''varchar'', ''character'', ''char'', ''citext'', ''nvarchar'', ''nchar'',
        ''string''] @
     [(''uuid'', ''uuid''), (''uniqueidentifier'', ''uuid''), (''boolean'', ''boolean''), (''bool'', ''boolean'')] @
     map (\<lambda>t. (t, ''timestamp''))
       [''timestamp'', ''timestamp without time zone'', ''timestamp with time zone'', ''timestamptz'', ''datetime''] @
     [(''date'', ''date''), (''json'', ''json''), (''jsonb'', ''json'')]"

definition NormalizeJoinDataType :: "string \<Rightarrow> string" where
  "NormalizeJoinDataType dataType =
     (let t0 = ToLower dataType;
          t = (case IndexByte t0 CHR ''('' of
                 None \<Rightarrow> t0
               | Some idx \<Rightarrow>
                   (case IndexByte (drop idx t0) CHR '')'' of
                      None \<Rightarrow> t0
                    | Some stop \<Rightarrow> take idx t0 @ drop (idx + stop + 1) t0))
      in case map_of joinTypeGroupByRawType (Join (Fields t) '' '') of None \<Rightarrow> [] | Some g \<Rightarrow> g)"

definition JoinDataTypesCompatible :: "string \<Rightarrow> string \<Rightarrow> bool" where
  "JoinDataTypesCompatible left right =
     (let l = NormalizeJoinDataType left; r = NormalizeJoinDataType right in
      if l = [] \<or> r = [] then True
      else if l = r then True
      else l = ''integer'' \<and> r = ''decimal'' \<or> l = ''decimal'' \<and> r = ''integer'' \<or>
           l = ''date'' \<and> r = ''timestamp'' \<or> l = ''timestamp'' \<and> r = ''date'')"

definition joinTypeError :: "Join \<Rightarrow> string \<Rightarrow> string \<Rightarrow> ValidationError" where
  "joinTypeError j fromType toType =
     \<lparr>ve_Field = ''model.joins'', ve_Code = ''INCOMPATIBLE_JOIN_COLUMN_TYPES'',
      ve_Message = ''join column types are not compatible: '' @ join_FromTable j @ ''.'' @ join_FromColumn j @
        '' ('' @ fromType @ '') cannot be joined to '' @ join_ToTable j @ ''.'' @ join_ToColumn j @
        '' ('' @ toType @ '')'',
      ve_Value = join_Name j, ve_AllowedAlternatives = []\<rparr>"

definition checkJoin ::
  "SemanticModel \<Rightarrow> (string \<Rightarrow> string \<Rightarrow> string \<Rightarrow> string option) \<Rightarrow> Join \<Rightarrow> ValidationError list" where
  "checkJoin model typeFor j =
     (if join_FromTable j = [] \<or> join_FromColumn j = [] \<or> join_ToTable j = [] \<or> join_ToColumn j = [] then []
      else
        (let fromSchema = (if join_FromSchema j = [] then sm_BaseSchema model else join_FromSchema j);
             toSchema = (if join_ToSchema j = [] then sm_BaseSchema model else join_ToSchema j)
         in case (typeFor fromSchema (join_FromTable j) (join_FromColumn j),
                  typeFor toSchema (join_ToTable j) (join_ToColumn j)) of
              (Some fromType, Some toType) \<Rightarrow>
                if \<not> JoinDataTypesCompatible fromType toType then [joinTypeError j fromType toType] else []
            | _ \<Rightarrow> []))"

definition ValidateJoinColumnTypes ::
  "SemanticModel option \<Rightarrow> (string \<Rightarrow> string \<Rightarrow> string \<Rightarrow> string option) option \<Rightarrow> ValidationError list" where
  "ValidateJoinColumnTypes model typeFor =
     (case (model, typeFor) of
        (Some m, Some f) \<Rightarrow> concat (map (checkJoin m f) (sm_Joins m))
      | _ \<Rightarrow> [])"

section \<open>Suggestions\<close>

definition validationErrWithCode ::
  "string \<Rightarrow> string \<Rightarrow> string \<Rightarrow> string \<Rightarrow> string list \<Rightarrow> ValidationError list" where
  "validationErrWithCode field message code v allowed =
     [\<lparr>ve_Field = field, ve_Code = code, ve_Message = message, ve_Value = v, ve_AllowedAlternatives = allowed\<rparr>]"

definition getDimensionNames :: "SemanticModel option \<Rightarrow> string list" where
  "getDimensionNames model = (case model of None \<Rightarrow> [] | Some m \<Rightarrow> map dim_Name (sm_Dimensions m))"

definition getMetricNames :: "SemanticModel option \<Rightarrow> string list" where
  "getMetricNames model = (case model of None \<Rightarrow> [] | Some m \<Rightarrow> map met_Name (sm_Metrics m))"

definition getAllFieldNames :: "SemanticModel option \<Rightarrow> string list" where
  "getAllFieldNames model =
     (case model of
        None \<Rightarrow> []
      | Some m \<Rightarrow> map dim_Name (sm_Dimensions m) @ map met_Name (sm_Metrics m))"

text \<open>One row of the distance table: \<open>diag\<close> and \<open>up\<close> are the entries of the previous row \<open>v0\<close> at
  \<open>j\<close> and \<open>j + 1\<close>, \<open>left\<close> is the entry of the new row \<open>v1\<close> at \<open>j\<close>.\<close>

fun levenshteinRow :: "char \<Rightarrow> string \<Rightarrow> nat list \<Rightarrow> nat \<Rightarrow> nat list" where
  "levenshteinRow c (b # bs) (diag # up # v0) left =
     (let cost = (if c = b then 0 else 1);
          x = min (left + 1) (up + 1);
          y = (if diag + cost < x then diag + cost else x)
      in y # levenshteinRow c bs (up # v0) y)"
| "levenshteinRow c _ _ left = []"

fun levenshteinRows :: "nat \<Rightarrow> string \<Rightarrow> string \<Rightarrow> nat list \<Rightarrow> nat list" where
  "levenshteinRows i [] t v0 = v0"
| "levenshteinRows i (c # s) t v0 = levenshteinRows (i + 1) s t ((i + 1) # levenshteinRow c t v0 (i + 1))"

definition levenshteinDistance :: "string \<Rightarrow> string \<Rightarrow> nat" where
  "levenshteinDistance s t =
     (if s = t then 0
      else if s = [] then length t
      else if t = [] then length s
      else levenshteinRows 0 s t [0..<length t + 1] ! length t)"

definition maxFieldSuggestions :: nat where "maxFieldSuggestions = 3"

definition candidateDistance :: "string \<Rightarrow> string \<Rightarrow> int" where
  "candidateDistance unknown c =
     (let u = ToLower unknown; l = ToLower c; d = int (levenshteinDistance u l)
      in if Contains l u \<or> Contains u l then d - 1 else d)"

text \<open>The list is ordered by distance and then by name, a total order, so that the sorted list does not
  depend on the sorting algorithm.\<close>

definition rankedCandidates :: "string \<Rightarrow> string list \<Rightarrow> (int \<times> string) list" where
  "rankedCandidates unknown candidates = sort (map (\<lambda>c. (candidateDistance unknown c, c)) candidates)"

definition suggestAlternatives :: "string \<Rightarrow> string list \<Rightarrow> string list" where
  "suggestAlternatives unknown candidates =
     (let ranked = rankedCandidates unknown candidates;
          limit = min maxFieldSuggestions (length ranked)
      in map (\<lambda>i. snd (ranked ! i)) (filter (\<lambda>i. fst (ranked ! i) \<le> 5 \<or> i = 0) [0..<limit]))"

section \<open>The planner\<close>

record TableNode =
  tn_Name :: string
  tn_Columns :: "string list"
  tn_IsBaseTable :: bool

record PlanResult =
  RequiredJoins :: "string list"
  Warnings :: "string list"
  TableGraph :: "TableNode list"

definition buildSemanticFieldMaps :: "SemanticModel \<Rightarrow> (string \<rightharpoonup> Dimension) \<times> (string \<rightharpoonup> Metric)" where
  "buildSemanticFieldMaps model =
     (foldl (\<lambda>m d. m(dim_Name d \<mapsto> d)) (\<lambda>_. None) (sm_Dimensions model),
      foldl (\<lambda>m x. m(met_Name x \<mapsto> x)) (\<lambda>_. None) (sm_Metrics model))"

definition extractTable :: "string \<Rightarrow> string \<Rightarrow> string" where
  "extractTable colRef schema = (case ParseColumnRef colRef schema of Some p \<Rightarrow> pc_Table p | None \<Rightarrow> [])"

definition markNonBaseTable :: "string set \<Rightarrow> string \<Rightarrow> string \<Rightarrow> string set" where
  "markNonBaseTable tables table baseTable =
     (if table \<noteq> [] \<and> table \<noteq> baseTable then insert table tables else tables)"

definition markTableFromDimension ::
  "SemanticModel \<Rightarrow> (string \<rightharpoonup> Dimension) \<Rightarrow> string set \<Rightarrow> string \<Rightarrow> string set" where
  "markTableFromDimension model dimMap tables field =
     (case dimMap field of
        Some d \<Rightarrow> markNonBaseTable tables (extractTable (dim_ColumnRef d) (sm_BaseSchema model)) (sm_BaseTable model)
      | None \<Rightarrow> tables)"

definition markSelectItem ::
  "SemanticModel \<Rightarrow> (string \<rightharpoonup> Dimension) \<Rightarrow> (string \<rightharpoonup> Metric) \<Rightarrow> string set \<Rightarrow> SelectItem \<Rightarrow> string set" where
  "markSelectItem model dimMap metricMap tables item =
     (if si_Type item = SelectTypeDimension then markTableFromDimension model dimMap tables (si_Name item)
      else if si_Type item = SelectTypeMetric then
        (case metricMap (si_Name item) of
           Some metric \<Rightarrow>
             markNonBaseTable tables (extractTable (met_Expression metric) (sm_BaseSchema model)) (sm_BaseTable model)
         | None \<Rightarrow> tables)
      else tables)"

definition collectRequiredTables ::
  "LogicalQuery \<Rightarrow> SemanticModel \<Rightarrow> (string \<rightharpoonup> Dimension) \<Rightarrow> (string \<rightharpoonup> Metric) \<Rightarrow> string set" where
  "collectRequiredTables lq model dimMap metricMap =
     (let t0 = {sm_BaseTable model};
          t1 = foldl (markSelectItem model dimMap metricMap) t0 (lq_Select lq);
          t2 = foldl (\<lambda>ts f. markTableFromDimension model dimMap ts (f_Field f)) t1 (lq_Filters lq)
      in foldl (\<lambda>ts g. markTableFromDimension model dimMap ts (gb_Field g)) t2 (lq_GroupBy lq))"

definition joinTouches :: "string set \<Rightarrow> Join \<Rightarrow> bool" where
  "joinTouches tables j = (join_FromTable j \<in> tables \<or> join_ToTable j \<in> tables)"

definition requiredJoinNames :: "SemanticModel \<Rightarrow> string set \<Rightarrow> string list" where
  "requiredJoinNames model tables = map join_Name (filter (joinTouches tables) (sm_Joins model))"

text \<open>\<open>order\<close> is the order in which the set of tables is iterated.\<close>

definition buildTableGraph :: "string \<Rightarrow> string list \<Rightarrow> TableNode list" where
  "buildTableGraph baseTable order =
     \<lparr>tn_Name = baseTable, tn_Columns = [], tn_IsBaseTable = True\<rparr> #
     map (\<lambda>t. \<lparr>tn_Name = t, tn_Columns = [], tn_IsBaseTable = False\<rparr>) (filter (\<lambda>t. t \<noteq> baseTable) order)"

definition relationCount :: "string list \<Rightarrow> Join list \<Rightarrow> nat" where
  "relationCount rels js = length (filter (\<lambda>j. join_Relationship j \<in> set rels) js)"

definition emDash :: string where
  "emDash = [CHR 0xE2, CHR 0x80, CHR 0x94]"

definition checkFanout :: "SemanticModel \<Rightarrow> string set \<Rightarrow> string list" where
  "checkFanout model tables =
     (let js = filter (joinTouches tables) (sm_Joins model);
          manyToMany = relationCount [RelationshipManyToMany] js;
          oneToMany = relationCount [RelationshipOneToMany] js;
          manyToOne = relationCount [RelationshipManyToOne, RelationshipOneToOne] js;
          risky = map join_Name
            (filter (\<lambda>j. join_Relationship j \<in> {RelationshipManyToMany, RelationshipOneToMany}) js)
      in (if manyToMany > 0 then
            [''fanout risk: query involves '' @ Itoa (int manyToMany) @ '' many-to-many join(s) ['' @
             Join risky '', '' @ ''] '' @ emDash @ '' aggregation results may be inflated'']
          else []) @
         (if oneToMany > 0 \<and> manyToMany = 0 then
            [''fanout risk: query involves '' @ Itoa (int oneToMany) @ '' one-to-many join(s) ['' @
             Join risky '', '' @ ''] '' @ emDash @
             '' verify aggregation accuracy when grouping by base table columns'']
          else []) @
         (if manyToOne > 2 then [''multiple many-to-one joins detected - verify aggregation accuracy''] else []))"

definition checkAggregations :: "LogicalQuery \<Rightarrow> string list" where
  "checkAggregations lq =
     (if list_ex (\<lambda>item. si_Type item = SelectTypeMetric) (lq_Select lq) \<and> lq_GroupBy lq = []
      then [''metrics selected without GROUP BY - result will be a single aggregated row''] else [])"

definition Plan :: "LogicalQuery \<Rightarrow> SemanticModel \<Rightarrow> string list \<Rightarrow> PlanResult" where
  "Plan lq model order =
     (let (dimMap, metricMap) = buildSemanticFieldMaps model;
          tables = collectRequiredTables lq model dimMap metricMap
      in \<lparr>RequiredJoins = requiredJoinNames model tables,
          Warnings = checkFanout model tables @ checkAggregations lq,
          TableGraph = buildTableGraph (sm_BaseTable model) order\<rparr>)"

section \<open>Lemmas: edit distance\<close>

text \<open>An edit script of a given cost: keep or replace a character, insert one, delete one.\<close>

inductive edits :: "string \<Rightarrow> string \<Rightarrow> nat \<Rightarrow> bool" where
  nothing: "edits [] [] 0"
| keep: "edits s t n \<Longrightarrow> edits (c # s) (c # t) n"
| replace: "edits s t n \<Longrightarrow> edits (a # s) (b # t) (n + 1)"
| insert: "edits s t n \<Longrightarrow> edits s (b # t) (n + 1)"
| delete: "edits s t n \<Longrightarrow> edits (a # s) t (n + 1)"

inductive_cases edits_NilL: "edits [] t n"
inductive_cases edits_NilR: "edits s [] n"
inductive_cases edits_Cons: "edits (a # s) (b # t) n"

lemma edits_append: "edits s t n \<Longrightarrow> edits s' t' m \<Longrightarrow> edits (s @ s') (t @ t') (n + m)"
proof (induction rule: edits.induct)
  case (replace s t n a b)
  then show ?case using edits.replace [of "s @ s'" "t @ t'" "n + m" a b] by simp
next
  case (insert s t n b)
  then show ?case using edits.insert [of "s @ s'" "t @ t'" "n + m" b] by simp
next
  case (delete s t n a)
  then show ?case using edits.delete [of "s @ s'" "t @ t'" "n + m" a] by simp
qed (auto intro: edits.intros)

lemma edits_single:
  "edits [c] [c] 0" "edits [a] [b] 1" "edits [] [b] 1" "edits [a] [] 1"
  using edits.keep [OF edits.nothing] edits.replace [OF edits.nothing] edits.insert [OF edits.nothing]
    edits.delete [OF edits.nothing] by simp_all

lemma edits_rev: "edits s t n \<Longrightarrow> edits (rev s) (rev t) n"
proof (induction rule: edits.induct)
  case nothing
  show ?case by (simp add: edits.nothing)
next
  case (keep s t n c)
  then show ?case using edits_append [OF keep.IH edits_single(1) [of c]] by simp
next
  case (replace s t n a b)
  then show ?case using edits_append [OF replace.IH edits_single(2) [of a b]] by simp
next
  case (insert s t n b)
  then show ?case using edits_append [OF insert.IH edits_single(3) [of b]] by simp
next
  case (delete s t n a)
  then show ?case using edits_append [OF delete.IH edits_single(4) [of a]] by simp
qed

text \<open>The textbook recursion.\<close>

fun lev :: "string \<Rightarrow> string \<Rightarrow> nat" where
  "lev [] t = length t"
| "lev (a # s) [] = length (a # s)"
| "lev (a # s) (b # t) =
     min (min (lev (a # s) t + 1) (lev s (b # t) + 1)) (lev s t + (if a = b then 0 else 1))"

lemma lev_Nil [simp]: "lev s [] = length s"
  by (cases s) auto

lemma lev_edits: "edits s t (lev s t)"
proof (induction s t rule: lev.induct)
  case (1 t)
  show ?case by (induction t) (auto intro: edits.nothing edits.insert [simplified])
next
  case (2 a s)
  have "edits xs [] (length xs)" for xs by (induction xs) (auto intro: edits.nothing edits.delete [simplified])
  from this [of "a # s"] show ?case by simp
next
  case (3 a s b t)
  note cand = edits.insert [OF 3(1)] edits.delete [OF 3(2)]
  have "edits (a # s) (b # t) (lev s t + (if a = b then 0 else 1))"
    using edits.keep [OF 3(3)] edits.replace [OF 3(3)] by auto
  with cand show ?case by (simp add: min_def)
qed

lemma lev_insert: "lev s (b # t) \<le> lev s t + 1"
  by (cases s) auto

lemma lev_delete: "lev (a # s) t \<le> lev s t + 1"
  by (cases t) auto

lemma lev_least: "edits s t n \<Longrightarrow> lev s t \<le> n"
proof (induction rule: edits.induct)
  case (insert s t n b)
  then show ?case using lev_insert [of s b t] by simp
next
  case (delete s t n a)
  then show ?case using lev_delete [of a s t] by simp
qed auto

text \<open>The table: \<open>D p q\<close> is the distance of two prefixes, \<open>drow\<close> a row of it.\<close>

definition D :: "string \<Rightarrow> string \<Rightarrow> nat" where
  "D p q = lev (rev p) (rev q)"

fun drow :: "string \<Rightarrow> string \<Rightarrow> string \<Rightarrow> nat list" where
  "drow p q [] = [D p q]"
| "drow p q (b # bs) = D p q # drow p (q @ [b]) bs"

lemma drow_Cons: "drow p q bs = D p q # tl (drow p q bs)"
  by (cases bs) auto

lemma D_snoc:
  "D (p @ [c]) (q @ [b]) = min (min (D (p @ [c]) q + 1) (D p (q @ [b]) + 1)) (D p q + (if c = b then 0 else 1))"
  by (simp add: D_def)

lemma levenshteinRow_drow: "levenshteinRow c bs (drow p q bs) (D (p @ [c]) q) = tl (drow (p @ [c]) q bs)"
proof (induction bs arbitrary: q)
  case Nil
  show ?case by simp
next
  case (Cons b bs)
  let ?y = "D (p @ [c]) (q @ [b])" and ?rest = "tl (drow p (q @ [b]) bs)"
  have "levenshteinRow c (b # bs) (drow p q (b # bs)) (D (p @ [c]) q) =
      levenshteinRow c (b # bs) (D p q # D p (q @ [b]) # ?rest) (D (p @ [c]) q)"
    using drow_Cons [of p "q @ [b]" bs] by simp
  also have "\<dots> = ?y # levenshteinRow c bs (D p (q @ [b]) # ?rest) ?y"
    by (simp add: D_snoc Let_def min_def)
  also have "\<dots> = ?y # tl (drow (p @ [c]) (q @ [b]) bs)"
    using Cons.IH [of "q @ [b]"] drow_Cons [of p "q @ [b]" bs] by simp
  also have "\<dots> = tl (drow (p @ [c]) q (b # bs))"
    using drow_Cons [of "p @ [c]" "q @ [b]" bs] by simp
  finally show ?case .
qed

lemma levenshteinRows_drow: "levenshteinRows (length p) s t (drow p [] t) = drow (p @ s) [] t"
proof (induction s arbitrary: p)
  case Nil
  show ?case by simp
next
  case (Cons c s)
  have "D (p @ [c]) [] = length p + 1" by (simp add: D_def)
  then have "(length p + 1) # levenshteinRow c t (drow p [] t) (length p + 1) = drow (p @ [c]) [] t"
    using levenshteinRow_drow [of c t p "[]"] drow_Cons [of "p @ [c]" "[]" t] by simp
  then show ?case using Cons.IH [of "p @ [c]"] by simp
qed

lemma drow_start: "drow [] q bs = [length q..<length q + length bs + 1]"
proof (induction bs arbitrary: q)
  case Nil
  show ?case by (simp add: D_def)
next
  case (Cons b bs)
  have "[length q..<length q + length (b # bs) + 1] = length q # [length (q @ [b])..<length (q @ [b]) + length bs + 1]"
    using upt_conv_Cons [of "length q" "length q + length (b # bs) + 1"] by simp
  then show ?case using Cons.IH [of "q @ [b]"] by (simp add: D_def)
qed

lemma drow_last: "drow p q bs ! length bs = D p (q @ bs)"
  by (induction bs arbitrary: q) auto

lemma levenshteinDistance_D: "levenshteinDistance s t = D s t"
proof (cases "s = t \<or> s = [] \<or> t = []")
  case True
  have "D t t = 0" for t :: string
  proof -
    have "edits xs xs 0" for xs by (induction xs) (auto intro: edits.intros)
    then show ?thesis using lev_least [of "rev t" "rev t" 0] by (simp add: D_def)
  qed
  with True show ?thesis by (auto simp: levenshteinDistance_def D_def)
next
  case False
  have "levenshteinRows 0 s t [0..<length t + 1] = drow s [] t"
    using levenshteinRows_drow [of "[]" s t] drow_start [of "[]" t] by simp
  then show ?thesis using False drow_last [of s "[]" t] by (simp add: levenshteinDistance_def)
qed

section \<open>Lemmas: suggestions, join types and references\<close>

lemma rankedCandidates_set: "set (rankedCandidates u cs) = (\<lambda>c. (candidateDistance u c, c)) ` set cs"
  by (simp add: rankedCandidates_def)

lemma rankedCandidates_length: "length (rankedCandidates u cs) = length cs"
  by (simp add: rankedCandidates_def)

lemma rankedCandidates_sorted: "sorted (rankedCandidates u cs)"
  by (simp add: rankedCandidates_def)

lemma suggestAlternatives_Cons:
  assumes "cs \<noteq> []"
  shows "\<exists>rest. suggestAlternatives u cs = snd (rankedCandidates u cs ! 0) # rest"
proof -
  have "0 < min maxFieldSuggestions (length (rankedCandidates u cs))"
    using assms by (simp add: rankedCandidates_length maxFieldSuggestions_def)
  then obtain m where m: "min maxFieldSuggestions (length (rankedCandidates u cs)) = Suc m"
    using gr0_implies_Suc by blast
  have "[0..<Suc m] = 0 # [1..<Suc m]" using upt_conv_Cons [of 0 "Suc m"] by simp
  then show ?thesis unfolding suggestAlternatives_def Let_def m by (simp del: upt_Suc)
qed

lemma rankedCandidates_least:
  assumes "c \<in> set cs"
  shows "rankedCandidates u cs ! 0 \<le> (candidateDistance u c, c)"
proof -
  have "(candidateDistance u c, c) \<in> set (rankedCandidates u cs)" using assms by (simp add: rankedCandidates_set)
  then obtain i where "i < length (rankedCandidates u cs)" "rankedCandidates u cs ! i = (candidateDistance u c, c)"
    by (auto simp: in_set_conv_nth)
  then show ?thesis using sorted_nth_mono [OF rankedCandidates_sorted [of u cs], of 0 i] by simp
qed

lemma rankedCandidates_head:
  assumes "cs \<noteq> []"
  shows "rankedCandidates u cs ! 0 = (candidateDistance u (snd (rankedCandidates u cs ! 0)), snd (rankedCandidates u cs ! 0))"
proof -
  have "0 < length (rankedCandidates u cs)" using assms by (simp add: rankedCandidates_length)
  from nth_mem [OF this] show ?thesis by (auto simp: rankedCandidates_set)
qed

lemma suggestAlternatives_set: "set (suggestAlternatives u cs) \<subseteq> set cs"
proof
  fix x
  assume "x \<in> set (suggestAlternatives u cs)"
  then obtain i where i: "i < length (rankedCandidates u cs)" "x = snd (rankedCandidates u cs ! i)"
    by (auto simp: suggestAlternatives_def Let_def)
  from nth_mem [OF i(1)] show "x \<in> set cs" by (auto simp: rankedCandidates_set i(2))
qed

lemma suggestAlternatives_length: "length (suggestAlternatives u cs) \<le> 3"
proof -
  have "length (filter P [0..<min maxFieldSuggestions n]) \<le> 3" for P n
    using length_filter_le [of P "[0..<min maxFieldSuggestions n]"] by (simp add: maxFieldSuggestions_def)
  then show ?thesis by (simp add: suggestAlternatives_def Let_def)
qed

text \<open>The groups fall into classes of joinable types.\<close>

definition joinClass :: "string \<Rightarrow> string" where
  "joinClass g = (if g = ''decimal'' then ''integer'' else if g = ''timestamp'' then ''date'' else g)"

definition joinGroups :: "string list" where
  "joinGroups = [''integer'', ''decimal'', ''text'', ''uuid'', ''boolean'', ''timestamp'', ''date'', ''json'']"

lemma NormalizeJoinDataType_group: "NormalizeJoinDataType t \<in> set ([] # joinGroups)"
proof -
  have "snd ` set joinTypeGroupByRawType \<subseteq> set joinGroups"
    by (simp add: joinTypeGroupByRawType_def joinGroups_def)
  then have "(case map_of joinTypeGroupByRawType x of None \<Rightarrow> [] | Some g \<Rightarrow> g) \<in> set ([] # joinGroups)" for x
    using map_of_SomeD [of joinTypeGroupByRawType x] by (cases "map_of joinTypeGroupByRawType x") force+
  then show ?thesis unfolding NormalizeJoinDataType_def Let_def by blast
qed

definition groupsCompatible :: "string \<Rightarrow> string \<Rightarrow> bool" where
  "groupsCompatible l r =
     (l = r \<or> l = ''integer'' \<and> r = ''decimal'' \<or> l = ''decimal'' \<and> r = ''integer'' \<or>
      l = ''date'' \<and> r = ''timestamp'' \<or> l = ''timestamp'' \<and> r = ''date'')"

text \<open>The table of pairs of groups, checked by evaluation.\<close>

lemma groupsCompatible_table:
  "list_all (\<lambda>l. list_all (\<lambda>r. groupsCompatible l r = (joinClass l = joinClass r)) joinGroups) joinGroups"
  by code_simp

lemma JoinDataTypesCompatible_class:
  "JoinDataTypesCompatible a b \<longleftrightarrow>
     NormalizeJoinDataType a = [] \<or> NormalizeJoinDataType b = [] \<or>
     joinClass (NormalizeJoinDataType a) = joinClass (NormalizeJoinDataType b)"
proof (cases "NormalizeJoinDataType a = [] \<or> NormalizeJoinDataType b = []")
  case True
  then show ?thesis by (auto simp: JoinDataTypesCompatible_def)
next
  case False
  then have "NormalizeJoinDataType a \<in> set joinGroups" "NormalizeJoinDataType b \<in> set joinGroups"
    using NormalizeJoinDataType_group [of a] NormalizeJoinDataType_group [of b] by auto
  then have "groupsCompatible (NormalizeJoinDataType a) (NormalizeJoinDataType b) =
      (joinClass (NormalizeJoinDataType a) = joinClass (NormalizeJoinDataType b))"
    using groupsCompatible_table unfolding list_all_iff by blast
  then show ?thesis using False unfolding JoinDataTypesCompatible_def groupsCompatible_def Let_def by argo
qed

lemma splitDotFrom_append: "CHR ''.'' \<notin> set s \<Longrightarrow> splitDotFrom cur (s @ t) = splitDotFrom (cur @ s) t"
  by (induction s arbitrary: cur) auto

lemma splitDot_parts:
  "CHR ''.'' \<notin> set a \<Longrightarrow> CHR ''.'' \<notin> set b \<Longrightarrow> splitDot (a @ ''.'' @ b) = [a, b]"
  "CHR ''.'' \<notin> set a \<Longrightarrow> CHR ''.'' \<notin> set b \<Longrightarrow> CHR ''.'' \<notin> set c \<Longrightarrow>
     splitDot (a @ ''.'' @ b @ ''.'' @ c) = [a, b, c]"
  using splitDotFrom_append [of a] splitDotFrom_append [of b] splitDotFrom_append [of b "[]" "[]"]
    splitDotFrom_append [of c "[]" "[]"]
  by (simp_all add: splitDot_def)

lemma splitDotFrom_nodot:
  "CHR ''.'' \<notin> set cur \<Longrightarrow> x \<in> set (splitDotFrom cur s) \<Longrightarrow> CHR ''.'' \<notin> set x"
  by (induction cur s rule: splitDotFrom.induct) (auto split: if_splits)

lemma ParseColumnRef_nodot:
  "ParseColumnRef ref d = Some p \<Longrightarrow> CHR ''.'' \<notin> set (pc_Table p) \<and> CHR ''.'' \<notin> set (pc_Column p)"
proof -
  assume p: "ParseColumnRef ref d = Some p"
  have all: "\<forall>x\<in>set (splitDot ref). CHR ''.'' \<notin> set x"
    using splitDotFrom_nodot [of "[]" _ ref] by (simp add: splitDot_def)
  from p consider a b c where "splitDot ref = [a, b, c]" "pc_Table p = b" "pc_Column p = c"
    | a b where "splitDot ref = [a, b]" "pc_Table p = a" "pc_Column p = b"
    unfolding ParseColumnRef_def by (auto split: list.splits)
  then show ?thesis using all by cases simp_all
qed

section \<open>Lemmas: required tables\<close>

text \<open>The table of a field's column reference, when it is not the base table.\<close>

definition refTable :: "SemanticModel \<Rightarrow> string \<Rightarrow> string set" where
  "refTable model ref =
     (let t = extractTable ref (sm_BaseSchema model) in if t \<noteq> [] \<and> t \<noteq> sm_BaseTable model then {t} else {})"

definition dimTables :: "SemanticModel \<Rightarrow> (string \<rightharpoonup> Dimension) \<Rightarrow> string \<Rightarrow> string set" where
  "dimTables model dimMap f = (case dimMap f of None \<Rightarrow> {} | Some d \<Rightarrow> refTable model (dim_ColumnRef d))"

definition itemTables ::
  "SemanticModel \<Rightarrow> (string \<rightharpoonup> Dimension) \<Rightarrow> (string \<rightharpoonup> Metric) \<Rightarrow> SelectItem \<Rightarrow> string set" where
  "itemTables model dimMap metricMap it =
     (if si_Type it = SelectTypeDimension then dimTables model dimMap (si_Name it)
      else if si_Type it = SelectTypeMetric then
        (case metricMap (si_Name it) of None \<Rightarrow> {} | Some m \<Rightarrow> refTable model (met_Expression m))
      else {})"

definition neededTables ::
  "LogicalQuery \<Rightarrow> SemanticModel \<Rightarrow> (string \<rightharpoonup> Dimension) \<Rightarrow> (string \<rightharpoonup> Metric) \<Rightarrow> string set" where
  "neededTables lq model dimMap metricMap =
     insert (sm_BaseTable model)
       ((\<Union>it\<in>set (lq_Select lq). itemTables model dimMap metricMap it) \<union>
        (\<Union>f\<in>set (lq_Filters lq). dimTables model dimMap (f_Field f)) \<union>
        (\<Union>g\<in>set (lq_GroupBy lq). dimTables model dimMap (gb_Field g)))"

lemma markNonBaseTable_set:
  "markNonBaseTable ts (extractTable ref (sm_BaseSchema m)) (sm_BaseTable m) = ts \<union> refTable m ref"
  by (auto simp: markNonBaseTable_def refTable_def Let_def)

lemma markTableFromDimension_set: "markTableFromDimension m dm ts f = ts \<union> dimTables m dm f"
  by (simp add: markTableFromDimension_def dimTables_def markNonBaseTable_set split: option.splits)

lemma markSelectItem_set: "markSelectItem m dm mm ts it = ts \<union> itemTables m dm mm it"
  by (simp add: markSelectItem_def itemTables_def markTableFromDimension_set markNonBaseTable_set
      split: option.splits)

lemma foldl_union: "foldl (\<lambda>ts x. ts \<union> f x) a xs = a \<union> (\<Union>x\<in>set xs. f x)"
  by (induction xs arbitrary: a) auto

lemma collectRequiredTables_eq: "collectRequiredTables lq m dm mm = neededTables lq m dm mm"
  unfolding collectRequiredTables_def neededTables_def Let_def markTableFromDimension_set foldl_union
    foldl_cong [OF refl refl markSelectItem_set] by auto

section \<open>Properties\<close>

text \<open>C37. The two-row table computes the edit distance: there is an edit script of insertions, deletions
  and replacements of exactly that cost between the two texts, and no script is cheaper.\<close>

theorem levenshteinDistance_minimal:
  "edits s t (levenshteinDistance s t) \<and> (\<forall>n. edits s t n \<longrightarrow> levenshteinDistance s t \<le> n)"
  unfolding levenshteinDistance_D D_def
  using edits_rev [OF lev_edits [of "rev s" "rev t"]] lev_least [OF edits_rev] by simp

theorem levenshteinDistance_minimal_witness:
  "levenshteinDistance ''revnue'' ''revenue'' = 1 \<and> edits ''revnue'' ''revenue'' 1 \<and> \<not> edits ''revnue'' ''revenue'' 0"
proof -
  have d: "levenshteinDistance ''revnue'' ''revenue'' = 1" by code_simp
  show ?thesis using levenshteinDistance_minimal [of "''revnue''" "''revenue''"] unfolding d by auto
qed

text \<open>Suggestions are sound and lead with the best one: at most three names, all of them candidates;
  when there is a candidate there is a suggestion, and the first one has the least distance among all
  candidates, ties broken by name.\<close>

theorem suggestAlternatives_best:
  "length (suggestAlternatives u cs) \<le> 3 \<and> set (suggestAlternatives u cs) \<subseteq> set cs \<and>
   (cs \<noteq> [] \<longrightarrow> (\<exists>best rest. suggestAlternatives u cs = best # rest \<and>
      (\<forall>c\<in>set cs. (candidateDistance u best, best) \<le> (candidateDistance u c, c))))"
proof (intro conjI impI)
  assume ne: "cs \<noteq> []"
  obtain rest where "suggestAlternatives u cs = snd (rankedCandidates u cs ! 0) # rest"
    using suggestAlternatives_Cons [OF ne] by blast
  moreover have "\<forall>c\<in>set cs. (candidateDistance u (snd (rankedCandidates u cs ! 0)), snd (rankedCandidates u cs ! 0))
      \<le> (candidateDistance u c, c)"
    using rankedCandidates_least [of _ cs u] unfolding rankedCandidates_head [OF ne, symmetric] by blast
  ultimately show "\<exists>best rest. suggestAlternatives u cs = best # rest \<and>
      (\<forall>c\<in>set cs. (candidateDistance u best, best) \<le> (candidateDistance u c, c))" by blast
qed (rule suggestAlternatives_length, rule suggestAlternatives_set)

theorem suggestAlternatives_best_witness:
  "\<exists>best rest. suggestAlternatives ''Revnue'' [''country'', ''revenue''] = best # rest \<and>
      (\<forall>c\<in>{''country'', ''revenue''}. (candidateDistance ''Revnue'' best, best) \<le> (candidateDistance ''Revnue'' c, c))"
  using suggestAlternatives_best [of "''Revnue''" "[''country'', ''revenue'']"] by simp

text \<open>A join is mismatched when all four of its names are given, both column types are known to the
  catalog, both are recognised, and they belong to different classes of joinable types.\<close>

definition joinMismatch :: "SemanticModel \<Rightarrow> (string \<Rightarrow> string \<Rightarrow> string \<Rightarrow> string option) \<Rightarrow> Join \<Rightarrow> bool" where
  "joinMismatch m typeFor j =
     ([] \<notin> {join_FromTable j, join_FromColumn j, join_ToTable j, join_ToColumn j} \<and>
      (\<exists>a b. typeFor (if join_FromSchema j = [] then sm_BaseSchema m else join_FromSchema j)
               (join_FromTable j) (join_FromColumn j) = Some a \<and>
             typeFor (if join_ToSchema j = [] then sm_BaseSchema m else join_ToSchema j)
               (join_ToTable j) (join_ToColumn j) = Some b \<and>
             NormalizeJoinDataType a \<noteq> [] \<and> NormalizeJoinDataType b \<noteq> [] \<and>
             joinClass (NormalizeJoinDataType a) \<noteq> joinClass (NormalizeJoinDataType b)))"

lemma concat_map_if: "concat (map (\<lambda>x. if P x then [f x] else []) xs) = map f (filter P xs)"
  by (induction xs) auto

lemma checkJoin_value: "map ve_Value (checkJoin m typeFor j) = (if joinMismatch m typeFor j then [join_Name j] else [])"
proof -
  let ?a = "typeFor (if join_FromSchema j = [] then sm_BaseSchema m else join_FromSchema j)
    (join_FromTable j) (join_FromColumn j)"
  let ?b = "typeFor (if join_ToSchema j = [] then sm_BaseSchema m else join_ToSchema j)
    (join_ToTable j) (join_ToColumn j)"
  show ?thesis
    unfolding checkJoin_def joinMismatch_def Let_def
    by (cases ?a; cases ?b) (simp_all add: JoinDataTypesCompatible_class joinTypeError_def)
qed


text \<open>Physical references are faithful: rendering a resolved column reference and parsing it again
  with the same resolver gives the same table and column, in the schema the resolver chose for it.\<close>

theorem PhysicalColumnRef_roundtrip:
  assumes "resolverParse r ref = Some p" and "q = applyOverride r p"
    and "pc_Schema q \<noteq> []" and "CHR ''.'' \<notin> set (pc_Schema q)"
    and "TrimSpace (pc_Schema q) = pc_Schema q" and "TrimSpace (pc_Table q) = pc_Table q"
  shows "resolverParse r (PhysicalColumnRef r ref) = Some q"
proof -
  have t: "pc_Table q = pc_Table p" "pc_Column q = pc_Column p"
    using assms(2) by (auto simp: applyOverride_def split: option.splits)
  have nodot: "CHR ''.'' \<notin> set (pc_Table q)" "CHR ''.'' \<notin> set (pc_Column q)"
    using ParseColumnRef_nodot assms(1) t by (auto simp: resolverParse_def)
  show ?thesis
  proof (cases "pc_Schema q = EffectiveDefaultSchema r")
    case True
    then have "PhysicalColumnRef r ref = pc_Table q @ ''.'' @ pc_Column q"
      using assms(1,2) by (simp add: PhysicalColumnRef_def Let_def)
    then show ?thesis
      using True splitDot_parts(1) [OF nodot] by (simp add: resolverParse_def ParseColumnRef_def)
  next
    case False
    then have "PhysicalColumnRef r ref = pc_Schema q @ ''.'' @ pc_Table q @ ''.'' @ pc_Column q"
      using assms by (simp add: PhysicalColumnRef_def TableKey_def Let_def)
    then show ?thesis
      using splitDot_parts(2) [OF assms(4) nodot] by (simp add: resolverParse_def ParseColumnRef_def)
  qed
qed

definition example_resolver :: SchemaResolver where
  "example_resolver = \<lparr>modelBaseSchema = ''public'', defaultSchema = [], tableSchemas = [''users'' \<mapsto> ''crm'']\<rparr>"

theorem PhysicalColumnRef_roundtrip_witness:
  "PhysicalColumnRef example_resolver ''users.id'' = ''crm.users.id'' \<and>
   resolverParse example_resolver ''crm.users.id'' = Some \<lparr>pc_Schema = ''crm'', pc_Table = ''users'', pc_Column = ''id''\<rparr>"
proof -
  have r: "PhysicalColumnRef example_resolver ''users.id'' = ''crm.users.id''" by code_simp
  have p: "resolverParse example_resolver ''users.id'' =
      Some \<lparr>pc_Schema = ''public'', pc_Table = ''users'', pc_Column = ''id''\<rparr>" by code_simp
  have q: "\<lparr>pc_Schema = ''crm'', pc_Table = ''users'', pc_Column = ''id''\<rparr> =
      applyOverride example_resolver \<lparr>pc_Schema = ''public'', pc_Table = ''users'', pc_Column = ''id''\<rparr>" by code_simp
  have t: "TrimSpace ''crm'' = ''crm''" "TrimSpace ''users'' = ''users''" by code_simp+
  show ?thesis using PhysicalColumnRef_roundtrip [OF p q] r t by simp
qed

text \<open>The plan names what the query touches: the table graph holds the base table first and then
  every other table that a selected, filtered or grouped field lives in, each once; and a join is
  required exactly when one of its two sides is such a table.\<close>

theorem Plan_exact:
  assumes "buildSemanticFieldMaps model = (dimMap, metricMap)" and "distinct order"
    and "set order = neededTables lq model dimMap metricMap"
  shows "RequiredJoins (Plan lq model order) =
      map join_Name (filter (\<lambda>j. join_FromTable j \<in> set order \<or> join_ToTable j \<in> set order) (sm_Joins model)) \<and>
    set (map tn_Name (TableGraph (Plan lq model order))) = neededTables lq model dimMap metricMap \<and>
    distinct (map tn_Name (TableGraph (Plan lq model order))) \<and>
    map tn_Name (filter tn_IsBaseTable (TableGraph (Plan lq model order))) = [sm_BaseTable model]"
proof -
  have base: "sm_BaseTable model \<in> set order" using assms(3) by (simp add: neededTables_def)
  have names: "map tn_Name (TableGraph (Plan lq model order)) =
      sm_BaseTable model # filter (\<lambda>t. t \<noteq> sm_BaseTable model) order"
    by (simp add: Plan_def Let_def assms(1) buildTableGraph_def comp_def)
  have joins: "RequiredJoins (Plan lq model order) =
      map join_Name (filter (\<lambda>j. join_FromTable j \<in> set order \<or> join_ToTable j \<in> set order) (sm_Joins model))"
    using assms(3) by (simp add: Plan_def Let_def assms(1) requiredJoinNames_def collectRequiredTables_eq joinTouches_def [abs_def])
  have "map tn_Name (filter tn_IsBaseTable (TableGraph (Plan lq model order))) = [sm_BaseTable model]"
    by (simp add: Plan_def Let_def assms(1) buildTableGraph_def filter_map comp_def)
  then show ?thesis using joins base assms(2,3) unfolding names by auto
qed

theorem Plan_exact_witness:
  "RequiredJoins (Plan example_query example_model [''orders'', ''customers'']) = [''oc''] \<and>
   set (map tn_Name (TableGraph (Plan example_query example_model [''orders'', ''customers'']))) = {''orders'', ''customers''}"
proof -
  obtain dm mm where m: "buildSemanticFieldMaps example_model = (dm, mm)" by (cases "buildSemanticFieldMaps example_model")
  have "{''orders'', ''customers''} =
      neededTables example_query example_model (fst (buildSemanticFieldMaps example_model)) (snd (buildSemanticFieldMaps example_model))"
    by code_simp
  then have needed: "set [''orders'', ''customers''] = neededTables example_query example_model dm mm" by (simp add: m)
  have joins: "RequiredJoins (Plan example_query example_model [''orders'', ''customers'']) = [''oc'']" by code_simp
  have "distinct [''orders'', ''customers'']" by simp
  from Plan_exact [OF m this needed] joins needed show ?thesis by simp
qed

end
