(* ===== verification/Expr_Compiler.thy ===== *)
theory Expr_Compiler
  imports Query_Planning PII Read_Only Expr_AST
begin

text \<open>
  Expressions to SQL: \<open>internal/query/expr_compiler.go\<close>, with the column policy of
  \<open>internal/query/pii_masking.go\<close>. The compiler appends bound literals to \<open>args\<close> (a nil pointer means
  that literals are written out) and records in \<open>Applied\<close> which columns it masked or hid; both are the
  state that is passed along. \<open>strconv.FormatFloat\<close> and \<open>fmt.Sprint\<close> print values of types the model
  does not round or nest like Go does and are parameters.

  Shown here: hidden columns cannot be told apart in the text, every compiled expression passes the
  read-only check, and the record of decisions only grows.
\<close>

section \<open>Column policy (pii\_masking.go)\<close>

record PIIColumnInfo =
  pi_Access :: string
  pi_PIIType :: string
  pi_Strategy :: string

record AppliedPII =
  ap_Masked :: "string list"
  ap_Hidden :: "string list"

text \<open>The mutable field \<open>Applied\<close> of the configuration is part of the state.\<close>

record PIIMaskingConfig =
  pc_ColumnInfo :: "string \<rightharpoonup> PIIColumnInfo"
  pc_ColumnAccess :: "string \<rightharpoonup> string"
  pc_ColumnTypes :: "string \<rightharpoonup> string"
  pc_ColumnStrategies :: "string \<rightharpoonup> string"
  pc_Strategy :: "(string \<Rightarrow> string \<Rightarrow> Dialect \<Rightarrow> string) option"

definition recordMasked :: "string \<Rightarrow> AppliedPII option \<Rightarrow> AppliedPII option" where
  "recordMasked ref = map_option (\<lambda>a. if ref \<in> set (ap_Masked a) then a else a\<lparr>ap_Masked := ap_Masked a @ [ref]\<rparr>)"

definition recordHidden :: "string \<Rightarrow> AppliedPII option \<Rightarrow> AppliedPII option" where
  "recordHidden ref = map_option (\<lambda>a. if ref \<in> set (ap_Hidden a) then a else a\<lparr>ap_Hidden := ap_Hidden a @ [ref]\<rparr>)"

definition strategy :: "PIIMaskingConfig \<Rightarrow> string \<Rightarrow> string \<Rightarrow> Dialect \<Rightarrow> string" where
  "strategy cfg = (case pc_Strategy cfg of Some s \<Rightarrow> s | None \<Rightarrow> MaskExpression)"

fun lookupStrategy :: "PIIMaskingConfig \<Rightarrow> string list \<Rightarrow> string" where
  "lookupStrategy cfg [] = []"
| "lookupStrategy cfg (ref # colRefs) =
     (if ref = [] then lookupStrategy cfg colRefs
      else (case pc_ColumnStrategies cfg ref of Some s \<Rightarrow> s | None \<Rightarrow> lookupStrategy cfg colRefs))"

text \<open>The loop of \<open>lookup\<close>; \<open>colRefs\<close> are all references, for the strategy.\<close>

fun lookupFrom :: "PIIMaskingConfig \<Rightarrow> string list \<Rightarrow> string list \<Rightarrow> (string \<times> string) option" where
  "lookupFrom cfg colRefs [] = None"
| "lookupFrom cfg colRefs (ref # rest) =
     (if ref = [] then lookupFrom cfg colRefs rest
      else
        (case pc_ColumnInfo cfg ref of
           Some info \<Rightarrow> Some (EffectiveColumnAccess (pi_Access info) (pi_Strategy info), pi_PIIType info)
         | None \<Rightarrow>
             (case pc_ColumnAccess cfg ref of
                Some a \<Rightarrow> Some (EffectiveColumnAccess a (lookupStrategy cfg colRefs), mget (pc_ColumnTypes cfg) ref)
              | None \<Rightarrow> lookupFrom cfg colRefs rest)))"

definition lookup :: "PIIMaskingConfig \<Rightarrow> string list \<Rightarrow> (string \<times> string) option" where
  "lookup cfg colRefs = lookupFrom cfg colRefs colRefs"

section \<open>Compiling expressions\<close>

datatype expr_sql_error =
    DisallowedUnaryOperator string
  | UnsupportedBinaryOperator string
  | DisallowedFunctionInExpr string
  | AggregateArity string nat
  | DateTruncArity
  | DateTruncGrainNotLiteral
  | UnsupportedDateTruncGrain string
  | DateTruncNotColumn
  | UnsafeExpression ro_error

record ExprEnv =
  ee_dialect :: Dialect
  ee_resolver :: "SchemaResolver option"
  ee_pii :: "PIIMaskingConfig option"
  ee_AllowAggregates :: bool
  ee_FormatFloat :: "rat \<Rightarrow> string"
  ee_Sprint :: "go_any \<Rightarrow> string"

record ExprState =
  es_args :: "go_any list option"
  es_applied :: "AppliedPII option"

type_synonym 'a emit = "ExprState \<Rightarrow> (expr_sql_error + 'a) \<times> ExprState"

definition retE :: "'a \<Rightarrow> 'a emit" where
  "retE a st = (Inr a, st)"

definition failE :: "expr_sql_error \<Rightarrow> 'a emit" where
  "failE e st = (Inl e, st)"

definition bindE :: "'a emit \<Rightarrow> ('a \<Rightarrow> 'b emit) \<Rightarrow> 'b emit" where
  "bindE m k st = (case m st of (Inl e, st') \<Rightarrow> (Inl e, st') | (Inr a, st') \<Rightarrow> k a st')"

fun mapE :: "('a \<Rightarrow> 'b emit) \<Rightarrow> 'a list \<Rightarrow> 'b list emit" where
  "mapE f [] = retE []"
| "mapE f (x # xs) = bindE (f x) (\<lambda>y. bindE (mapE f xs) (\<lambda>ys. retE (y # ys)))"

lemma mapE_cong [fundef_cong]:
  "xs = ys \<Longrightarrow> (\<And>x. x \<in> set ys \<Longrightarrow> f x = g x) \<Longrightarrow> mapE f xs = mapE g ys"
  by (induction xs arbitrary: ys) auto

definition dialectFunctions :: "(string \<times> (string \<times> string) list) list" where
  "dialectFunctions =
     [(''COALESCE'', [(''clickhouse'', ''coalesce'')]), (''CONCAT'', [(''clickhouse'', ''concat'')]),
      (''ROUND'', [(''clickhouse'', ''round'')]), (''NULLIF'', [(''clickhouse'', ''nullif'')]),
      (''SUBSTRING'', [(''clickhouse'', ''substring''), (''oracle'', ''SUBSTR'')]),
      (''REPLACE'', [(''clickhouse'', ''replace'')]),
      (''DATE_TRUNC'', [(''postgres'', ''DATE_TRUNC''), (''mysql'', ''DATE_FORMAT''), (''sqlserver'', ''DATETRUNC''),
                        (''clickhouse'', ''toStartOfInterval'')])]"

definition functionNameSQL :: "string \<Rightarrow> Dialect \<Rightarrow> string" where
  "functionNameSQL name d =
     (let upper = ToUpper name in
      case map_of dialectFunctions upper of
        None \<Rightarrow> upper
      | Some byDialect \<Rightarrow> (case map_of byDialect (Name d) of Some mapped \<Rightarrow> mapped | None \<Rightarrow> upper))"

definition ExprCompileOptsForMetric :: "Metric \<Rightarrow> bool" where
  "ExprCompileOptsForMetric metric = EqualFold (TrimSpace (met_Aggregation metric)) ''custom''"

definition literalSQL :: "ExprEnv \<Rightarrow> go_any \<Rightarrow> string" where
  "literalSQL env v =
     (case v of
        ANil \<Rightarrow> ''NULL''
      | AStr s \<Rightarrow> QuoteStringLiteral (ee_dialect env) s
      | ABool b \<Rightarrow> (if b then ''TRUE'' else ''FALSE'')
      | AInt n \<Rightarrow> Itoa n
      | AFloat r \<Rightarrow> ee_FormatFloat env r
      | AList _ \<Rightarrow> QuoteStringLiteral (ee_dialect env) (ee_Sprint env v))"

definition emitLiteral :: "ExprEnv \<Rightarrow> go_any \<Rightarrow> string emit" where
  "emitLiteral env v st =
     (case es_args st of
        Some args \<Rightarrow> (Inr (Placeholder (ee_dialect env) (int (length args) + 1)), st\<lparr>es_args := Some (args @ [v])\<rparr>)
      | None \<Rightarrow> (Inr (literalSQL env v), st))"

definition exprColumnPath :: "string \<Rightarrow> string \<Rightarrow> string" where
  "exprColumnPath table column = (if table \<noteq> [] then table @ ''.'' @ column else column)"

definition exprPhysicalPath :: "ExprEnv \<Rightarrow> string \<Rightarrow> string" where
  "exprPhysicalPath env colPath =
     (case ee_resolver env of Some r \<Rightarrow> PhysicalColumnRef r colPath | None \<Rightarrow> colPath)"

text \<open>\<open>None\<close> is the result \<open>("", false)\<close>.\<close>

definition maskColumnRef ::
  "string \<Rightarrow> string \<Rightarrow> Dialect \<Rightarrow> PIIMaskingConfig \<Rightarrow> AppliedPII option \<Rightarrow> (string \<times> AppliedPII option) option" where
  "maskColumnRef colPath physicalPath d cfg applied =
     (case lookup cfg [colPath, physicalPath] of
        None \<Rightarrow> None
      | Some (access, piiType) \<Rightarrow>
          if access \<noteq> AccessRaw \<and> access \<noteq> AccessMasked then Some (HiddenLiteral, recordHidden physicalPath applied)
          else if access = AccessMasked then
            Some (strategy cfg (QuoteIdent d physicalPath) piiType d, recordMasked physicalPath applied)
          else None)"

definition emitColumn :: "ExprEnv \<Rightarrow> string \<Rightarrow> string \<Rightarrow> string emit" where
  "emitColumn env table column st =
     (let colPath = exprColumnPath table column;
          physicalPath = exprPhysicalPath env colPath;
          masked = (case ee_pii env of
                      Some cfg \<Rightarrow> maskColumnRef colPath physicalPath (ee_dialect env) cfg (es_applied st)
                    | None \<Rightarrow> None)
      in case masked of
           Some (sql, applied) \<Rightarrow> (Inr sql, st\<lparr>es_applied := applied\<rparr>)
         | None \<Rightarrow> (Inr (QuoteIdent (ee_dialect env) physicalPath), st))"

definition binaryOpSQL :: "string \<Rightarrow> string option" where
  "binaryOpSQL op = map_of [(''add'', ''+''), (''subtract'', ''-''), (''multiply'', ''*''), (''divide'', ''/''), (''modulo'', ''%''),
     (''eq'', ''=''), (''neq'', ''<>''), (''lt'', ''<''), (''lte'', ''<=''), (''gt'', ''>''), (''gte'', ''>=''), (''and'', ''AND''),
     (''or'', ''OR''), (''concat'', ''||'')] op"

definition concatSQL :: "Dialect \<Rightarrow> string \<Rightarrow> string \<Rightarrow> string" where
  "concatSQL d left right =
     (if Name d = ''mysql'' then ''CONCAT('' @ left @ '', '' @ right @ '')''
      else if Name d = ''sqlserver'' then ''('' @ left @ '' + '' @ right @ '')''
      else if Name d = ''clickhouse'' then ''concat('' @ left @ '', '' @ right @ '')''
      else ''('' @ left @ '' || '' @ right @ '')'')"

definition binaryExprSQL :: "ExprEnv \<Rightarrow> string \<Rightarrow> string \<Rightarrow> string \<Rightarrow> string emit" where
  "binaryExprSQL env op left right =
     (if op = ''concat'' then retE (concatSQL (ee_dialect env) left right)
      else if op = ''divide'' then retE (''('' @ left @ '' * 1.0 / '' @ right @ '')'')
      else
        (case binaryOpSQL op of
           Some opSQL \<Rightarrow> retE (''('' @ left @ '' '' @ opSQL @ '' '' @ right @ '')'')
         | None \<Rightarrow> failE (UnsupportedBinaryOperator op)))"

definition unaryExprSQL :: "string \<Rightarrow> string \<Rightarrow> string emit" where
  "unaryExprSQL op inner =
     (if op = ''not'' then retE (''(NOT '' @ inner @ '')'')
      else if op = ''negate'' then retE (''(-'' @ inner @ '')'')
      else failE (DisallowedUnaryOperator op))"

definition aggregateCountStarSQL :: "Dialect \<Rightarrow> string" where
  "aggregateCountStarSQL d = (if Name d = ''clickhouse'' then ''count()'' else ''COUNT(*)'')"

definition isCountStarArg :: "ExprNode \<Rightarrow> bool" where
  "isCountStarArg arg = (case arg of LiteralExpr v \<Rightarrow> v = AStr ''*'' | _ \<Rightarrow> False)"

definition callOf :: "Dialect \<Rightarrow> string \<Rightarrow> string \<Rightarrow> string \<Rightarrow> string" where
  "callOf d clickhouse other expr = (if Name d = ''clickhouse'' then clickhouse else other) @ expr @ '')''"

definition dialectAggregateSQL :: "string \<Rightarrow> string \<Rightarrow> Dialect \<Rightarrow> string" where
  "dialectAggregateSQL fn expr d =
     (if fn = ''count'' then
        (if expr = ''*'' then (if Name d = ''clickhouse'' then ''count()'' else ''COUNT(*)'')
         else callOf d ''count('' ''COUNT('' expr)
      else if fn = ''count_distinct'' then callOf d ''uniq('' ''COUNT(DISTINCT '' expr
      else if fn = ''sum'' then callOf d ''sum('' ''SUM('' expr
      else if fn = ''avg'' then callOf d ''avg('' ''AVG('' expr
      else if fn = ''min'' then callOf d ''min('' ''MIN('' expr
      else if fn = ''max'' then callOf d ''max('' ''MAX('' expr
      else Aggregate d fn expr)"

definition normalizeDateGrain :: "string \<Rightarrow> string \<times> bool" where
  "normalizeDateGrain part0 =
     (let part = ToLower (TrimSpace part0)
      in (part, part \<in> set [''hour'', ''day'', ''week'', ''month'', ''quarter'', ''year'']))"

definition literalString :: "ExprNode \<Rightarrow> string option" where
  "literalString e = (case e of LiteralExpr (AStr s) \<Rightarrow> Some s | _ \<Rightarrow> None)"

definition dateTruncColumn :: "ExprEnv \<Rightarrow> string \<Rightarrow> string \<Rightarrow> string \<Rightarrow> string" where
  "dateTruncColumn env part table column =
     (let colPath = exprColumnPath table column;
          physicalPath = exprPhysicalPath env colPath;
          hidden = (case ee_pii env of
                      None \<Rightarrow> False
                    | Some cfg \<Rightarrow>
                        (case lookup cfg [colPath, physicalPath] of
                           None \<Rightarrow> False
                         | Some (access, _) \<Rightarrow> access \<noteq> AccessRaw \<and> access \<noteq> AccessMasked))
      in if hidden then HiddenLiteral else DateTrunc (ee_dialect env) part physicalPath)"

text \<open>Called on the function \<open>DATE_TRUNC\<close>, whatever its case.\<close>

definition dateTruncSQL :: "ExprEnv \<Rightarrow> ExprNode list \<Rightarrow> string emit" where
  "dateTruncSQL env args =
     (case args of
        [grain, col] \<Rightarrow>
          (case literalString grain of
             None \<Rightarrow> failE DateTruncGrainNotLiteral
           | Some part0 \<Rightarrow>
               (case normalizeDateGrain part0 of (part, known) \<Rightarrow>
                  if \<not> known then failE (UnsupportedDateTruncGrain part)
                  else
                    (case col of
                       ColumnRefExpr t c \<Rightarrow> retE (dateTruncColumn env part t c)
                     | _ \<Rightarrow> failE DateTruncNotColumn)))
      | _ \<Rightarrow> failE DateTruncArity)"

text \<open>What becomes of a function call, before its arguments are compiled.\<close>

datatype call_plan =
    CountStar
  | AggregateOf string
  | PlainCall string
  | RejectCall expr_sql_error

definition aggregateFunctionCallSQL :: "string \<Rightarrow> ExprNode list \<Rightarrow> call_plan" where
  "aggregateFunctionCallSQL name args =
     (let funcName = ToUpper name in
      if funcName = ''COUNT_DISTINCT'' then
        (if length args \<noteq> 1 then RejectCall (AggregateArity ''COUNT_DISTINCT'' (length args)) else AggregateOf ''count_distinct'')
      else if funcName = ''COUNT'' then
        (case args of
           [] \<Rightarrow> CountStar
         | [arg] \<Rightarrow> (if isCountStarArg arg then CountStar else AggregateOf ''count'')
         | _ \<Rightarrow> RejectCall (AggregateArity ''COUNT'' (length args)))
      else if length args \<noteq> 1 then RejectCall (AggregateArity name (length args))
      else AggregateOf (ToLower funcName))"

definition planCall :: "ExprEnv \<Rightarrow> string \<Rightarrow> ExprNode list \<Rightarrow> call_plan" where
  "planCall env name args =
     (let funcName = ToUpper name in
      if IsAggregateFunction funcName then
        (if \<not> ee_AllowAggregates env then RejectCall (DisallowedFunctionInExpr name)
         else aggregateFunctionCallSQL name args)
      else if \<not> FunctionAllowed funcName False then RejectCall (DisallowedFunctionInExpr name)
      else PlainCall (functionNameSQL name (ee_dialect env)))"

definition finishCall :: "ExprEnv \<Rightarrow> call_plan \<Rightarrow> string list emit \<Rightarrow> string emit" where
  "finishCall env plan compiledArgs =
     (case plan of
        RejectCall e \<Rightarrow> failE e
      | CountStar \<Rightarrow> retE (aggregateCountStarSQL (ee_dialect env))
      | AggregateOf fn \<Rightarrow> bindE compiledArgs (\<lambda>args. retE (dialectAggregateSQL fn (hd args) (ee_dialect env)))
      | PlainCall fn \<Rightarrow> bindE compiledArgs (\<lambda>args. retE (fn @ ''('' @ Join args '', '' @ '')'')))"

definition caseExprSQL :: "(string \<times> string) list \<Rightarrow> string option \<Rightarrow> string" where
  "caseExprSQL conds els =
     ''CASE'' @ concat (map (\<lambda>(w, t). '' WHEN '' @ w @ '' THEN '' @ t) conds) @
     (case els of None \<Rightarrow> [] | Some e \<Rightarrow> '' ELSE '' @ e) @ '' END''"

fun compileExpr :: "ExprEnv \<Rightarrow> ExprNode \<Rightarrow> string emit" where
  "compileExpr env NilExpr = retE []"
| "compileExpr env (LiteralExpr v) = emitLiteral env v"
| "compileExpr env (ColumnRefExpr t c) = emitColumn env t c"
| "compileExpr env (MetricRefExpr n) = retE (QuoteIdent (ee_dialect env) n)"
| "compileExpr env (DimensionRefExpr n) = retE (QuoteIdent (ee_dialect env) n)"
| "compileExpr env (BinaryExpr op l r) =
     bindE (compileExpr env l) (\<lambda>left. bindE (compileExpr env r) (\<lambda>right. binaryExprSQL env op left right))"
| "compileExpr env (UnaryExpr op e) = bindE (compileExpr env e) (unaryExprSQL op)"
| "compileExpr env (FunctionCallExpr name args) =
     (if EqualFold name ''DATE_TRUNC'' then dateTruncSQL env args
      else finishCall env (planCall env name args) (mapE (compileExpr env) args))"
| "compileExpr env (CaseExpr conds els) =
     bindE (mapE (\<lambda>(w, t). bindE (compileExpr env w) (\<lambda>cw. bindE (compileExpr env t) (\<lambda>ct. retE (cw, ct)))) conds)
       (\<lambda>cs. if els = NilExpr then retE (caseExprSQL cs None)
             else bindE (compileExpr env els) (\<lambda>ce. retE (caseExprSQL cs (Some ce))))"

definition CompileExpr :: "ExprEnv \<Rightarrow> ExprNode \<Rightarrow> string emit" where
  "CompileExpr env0 expr =
     (let env = env0\<lparr>ee_dialect := Normalize (ee_dialect env0)\<rparr>
      in bindE (compileExpr env expr) (\<lambda>sql.
           if sql = [] then retE sql
           else
             (case Check NewReadOnlyChecker (''SELECT '' @ sql) of
                Some e \<Rightarrow> failE (UnsafeExpression e)
              | None \<Rightarrow> retE sql)))"

section \<open>Hidden columns\<close>

definition hiddenColumn :: "ExprEnv \<Rightarrow> string \<Rightarrow> string \<Rightarrow> bool" where
  "hiddenColumn env table column =
     (let colPath = exprColumnPath table column in
      case ee_pii env of
        None \<Rightarrow> False
      | Some cfg \<Rightarrow>
          (case lookup cfg [colPath, exprPhysicalPath env colPath] of
             None \<Rightarrow> False
           | Some (access, _) \<Rightarrow> access \<noteq> AccessRaw \<and> access \<noteq> AccessMasked))"

definition redacted :: ExprNode where
  "redacted = LiteralExpr (AStr ''***'')"

text \<open>A tree with every hidden column, and every \<open>DATE_TRUNC\<close> of one, replaced by a constant.\<close>

fun hiddenDateTrunc :: "ExprEnv \<Rightarrow> string \<Rightarrow> ExprNode list \<Rightarrow> bool" where
  "hiddenDateTrunc env name [g, ColumnRefExpr t c] = (EqualFold name ''DATE_TRUNC'' \<and> hiddenColumn env t c)"
| "hiddenDateTrunc env name args = False"

fun redact :: "ExprEnv \<Rightarrow> ExprNode \<Rightarrow> ExprNode" where
  "redact env (ColumnRefExpr t c) = (if hiddenColumn env t c then redacted else ColumnRefExpr t c)"
| "redact env (BinaryExpr op l r) = BinaryExpr op (redact env l) (redact env r)"
| "redact env (UnaryExpr op e) = UnaryExpr op (redact env e)"
| "redact env (FunctionCallExpr name args) =
     (if hiddenDateTrunc env name args then redacted else FunctionCallExpr name (map (redact env) args))"
| "redact env (CaseExpr conds els) = CaseExpr (map (\<lambda>(w, t). (redact env w, redact env t)) conds) (redact env els)"
| "redact env e = e"

lemma refs_redacted [simp]: "refs as_column redacted = []"
  by (simp add: redacted_def refs_unfold)

lemma redact_has_no_hidden: "(t, c) \<in> set (refs as_column (redact env e)) \<Longrightarrow> \<not> hiddenColumn env t c"
proof (induction env e rule: redact.induct)
  case (4 env name args)
  then show ?case by (auto simp: refs_unfold split: if_splits)
next
  case (5 env conds els)
  then show ?case by (fastforce simp: refs_unfold split: if_splits)
qed (auto simp: refs_unfold split: if_splits)

text \<open>Whatever has been recorded so far, \<open>m\<close> writes \<open>sql\<close> when literals are written out.\<close>

definition yields :: "'a emit \<Rightarrow> 'a \<Rightarrow> bool" where
  "yields m sql \<longleftrightarrow> (\<forall>st. es_args st = None \<longrightarrow> (\<exists>st'. m st = (Inr sql, st') \<and> es_args st' = None))"

lemma yieldsI: "(\<And>st. es_args st = None \<Longrightarrow> \<exists>st'. m st = (Inr sql, st') \<and> es_args st' = None) \<Longrightarrow> yields m sql"
  by (simp add: yields_def)

lemma yields_retE [intro]: "yields (retE a) a"
  by (simp add: yields_def retE_def)

lemma yields_bindE:
  assumes "yields m a" "yields (k a) b"
  shows "yields (bindE m k) b"
proof (rule yieldsI)
  fix st :: ExprState
  assume "es_args st = None"
  then obtain st1 where "m st = (Inr a, st1)" "es_args st1 = None" using assms(1) unfolding yields_def by blast
  moreover then obtain st2 where "k a st1 = (Inr b, st2)" "es_args st2 = None" using assms(2) unfolding yields_def by blast
  ultimately show "\<exists>st'. bindE m k st = (Inr b, st') \<and> es_args st' = None" by (simp add: bindE_def)
qed

lemma bindE_ok: "bindE m k st = (Inr b, st') \<longleftrightarrow> (\<exists>a st1. m st = (Inr a, st1) \<and> k a st1 = (Inr b, st'))"
  by (auto simp: bindE_def split: sum.splits prod.splits)

lemma retE_ok: "retE a st = (Inr b, st') \<longleftrightarrow> b = a \<and> st' = st"
  by (auto simp: retE_def)

lemma failE_ok [simp]: "failE e st \<noteq> (Inr a, st')"
  by (simp add: failE_def)

text \<open>\<open>n\<close> writes, from any record, what \<open>m\<close> writes.\<close>

definition repeats :: "'a emit \<Rightarrow> 'a emit \<Rightarrow> bool" where
  "repeats m n \<longleftrightarrow>
     (\<forall>st a st'. es_args st = None \<longrightarrow> m st = (Inr a, st') \<longrightarrow> es_args st' = None \<and> yields n a)"

named_theorems repeating

lemma repeats_retE [repeating]: "repeats (retE a) (retE a)"
  by (auto simp: repeats_def retE_def yields_def)

lemma repeats_failE [repeating]: "repeats (failE e) n"
  by (simp add: repeats_def)

lemma repeats_bindE [repeating]:
  assumes "repeats m m'" "\<And>a. repeats (k a) (k' a)"
  shows "repeats (bindE m k) (bindE m' k')"
  unfolding repeats_def
proof (intro allI impI)
  fix st b st'
  assume none: "es_args st = None" and run: "bindE m k st = (Inr b, st')"
  from run obtain a st1 where m: "m st = (Inr a, st1)" and k: "k a st1 = (Inr b, st')" by (auto simp: bindE_ok)
  from assms(1) none m have "es_args st1 = None" "yields m' a" unfolding repeats_def by blast+
  moreover from this k assms(2) have "es_args st' = None" "yields (k' a) b" unfolding repeats_def by blast+
  ultimately show "es_args st' = None \<and> yields (bindE m' k') b" by (blast intro: yields_bindE)
qed

lemma repeats_mapE: "(\<And>x. x \<in> set xs \<Longrightarrow> repeats (f x) (g (h x))) \<Longrightarrow> repeats (mapE f xs) (mapE g (map h xs))"
  by (induction xs) (auto intro!: repeating)

lemma repeats_binaryExprSQL [repeating]: "repeats (binaryExprSQL env op l r) (binaryExprSQL env op l r)"
  by (auto simp: binaryExprSQL_def intro!: repeating split: option.split)

lemma repeats_unaryExprSQL [repeating]: "repeats (unaryExprSQL op x) (unaryExprSQL op x)"
  by (auto simp: unaryExprSQL_def intro!: repeating)

lemma repeats_finishCall [repeating]: "repeats m n \<Longrightarrow> repeats (finishCall env plan m) (finishCall env plan n)"
  by (cases plan) (auto simp: finishCall_def intro!: repeating)

lemma repeats_emitLiteral [repeating]: "repeats (emitLiteral env v) (emitLiteral env v)"
  by (auto simp: repeats_def yields_def emitLiteral_def)

lemma yields_redacted [intro]: "yields (compileExpr env redacted) HiddenLiteral"
proof -
  have "QuoteStringLiteral (ee_dialect env) ''***'' = HiddenLiteral"
    by (simp add: QuoteStringLiteral_def quoteBackslashEscapedLiteral_def quoteStandardLiteral_def Let_def
        ReplaceAll.simps HiddenLiteral_def quote1_def backslash_def)
  then show ?thesis by (auto simp: redacted_def yields_def emitLiteral_def literalSQL_def)
qed

lemma repeats_emitColumn: "repeats (emitColumn env t c) (compileExpr env (redact env (ColumnRefExpr t c)))"
proof (cases "hiddenColumn env t c")
  case True
  then show ?thesis
    by (auto simp: repeats_def emitColumn_def hiddenColumn_def maskColumnRef_def Let_def split: option.splits if_splits)
next
  case False
  then show ?thesis
    by (auto simp: repeats_def yields_def emitColumn_def hiddenColumn_def maskColumnRef_def Let_def split: option.splits if_splits)
qed

lemma repeats_dateTrunc:
  assumes "EqualFold name ''DATE_TRUNC''"
  shows "repeats (dateTruncSQL env args) (compileExpr env (redact env (FunctionCallExpr name args)))"
  unfolding repeats_def
proof (intro allI impI)
  fix st sql st'
  assume none: "es_args st = None" and run: "dateTruncSQL env args st = (Inr sql, st')"
  then obtain p t c where args: "args = [LiteralExpr (AStr p), ColumnRefExpr t c]"
    and known: "snd (normalizeDateGrain p)" and sql: "sql = dateTruncColumn env (fst (normalizeDateGrain p)) t c" "st' = st"
    by (auto simp: dateTruncSQL_def literalString_def retE_ok split: list.splits ExprNode.splits go_any.splits prod.splits if_splits)
  show "es_args st' = None \<and> yields (compileExpr env (redact env (FunctionCallExpr name args))) sql"
  proof (cases "hiddenColumn env t c")
    case True
    then have "sql = HiddenLiteral"
      by (auto simp: sql dateTruncColumn_def hiddenColumn_def Let_def split: option.splits)
    then show ?thesis using True none assms by (auto simp: args sql)
  next
    case False
    then show ?thesis
      using none assms known by (auto simp: args sql dateTruncSQL_def literalString_def split: prod.splits)
  qed
qed

lemma isCountStarArg_redact [simp]: "isCountStarArg (redact env a) = isCountStarArg a"
  by (cases a) (auto simp: isCountStarArg_def redacted_def)

lemma planCall_redact [simp]: "planCall env name (map (redact env) args) = planCall env name args"
proof -
  have "aggregateFunctionCallSQL name (map (redact env) args) = aggregateFunctionCallSQL name args"
    by (cases args rule: remdups_adj.cases) (simp_all add: aggregateFunctionCallSQL_def Let_def)
  then show ?thesis by (simp add: planCall_def Let_def)
qed

lemma redact_NilExpr_iff [simp]: "redact env e = NilExpr \<longleftrightarrow> e = NilExpr"
  by (cases e) (auto simp: redacted_def)

lemma not_hiddenDateTrunc: "\<not> EqualFold name ''DATE_TRUNC'' \<Longrightarrow> \<not> hiddenDateTrunc env name args"
  by (cases "(env, name, args)" rule: hiddenDateTrunc.cases) auto

lemma compileExpr_redact: "repeats (compileExpr env e) (compileExpr env (redact env e))"
proof (induction env e rule: compileExpr.induct)
  case (8 env name args)
  show ?case
  proof (cases "EqualFold name ''DATE_TRUNC''")
    case True
    then show ?thesis using repeats_dateTrunc [OF True] by simp
  next
    case False
    then have "repeats (mapE (compileExpr env) args) (mapE (compileExpr env) (map (redact env) args))"
      using 8 by (intro repeats_mapE) auto
    then show ?thesis using False by (auto simp: not_hiddenDateTrunc intro: repeating)
  qed
next
  case (9 env conds els)
  let ?pair = "\<lambda>(w, t). bindE (compileExpr env w) (\<lambda>cw. bindE (compileExpr env t) (\<lambda>ct. retE (cw, ct)))"
  have "repeats (mapE ?pair conds) (mapE ?pair (map (\<lambda>(w, t). (redact env w, redact env t)) conds))"
    using 9 by (intro repeats_mapE) (auto intro!: repeating)
  then show ?case using 9 by (auto intro!: repeating)
qed (auto simp: repeats_emitColumn [simplified] intro!: repeating)

lemma hiddenColumn_dialect [simp]: "hiddenColumn (env\<lparr>ee_dialect := d\<rparr>) t c = hiddenColumn env t c"
proof -
  have "exprPhysicalPath (env\<lparr>ee_dialect := d\<rparr>) = exprPhysicalPath env" by (intro ext) (simp add: exprPhysicalPath_def)
  then show ?thesis by (auto simp: hiddenColumn_def Let_def split: option.splits)
qed

lemma hiddenDateTrunc_dialect [simp]: "hiddenDateTrunc (env\<lparr>ee_dialect := d\<rparr>) name args = hiddenDateTrunc env name args"
  by (cases "(env, name, args)" rule: hiddenDateTrunc.cases) auto

lemma redact_dialect [simp]: "redact (env\<lparr>ee_dialect := d\<rparr>) e = redact env e"
  by (induction env e rule: redact.induct) auto

text \<open>C8. Hidden columns never reach the SQL text. When an expression compiles under a column policy, its
  text is the text of the expression in which every hidden column, and every truncation of one, has
  been replaced by a constant; that expression refers to no hidden column.\<close>

theorem CompileExpr_redacts_hidden:
  assumes "CompileExpr env e st = (Inr sql, st')" and "es_args st = None"
  shows "(\<exists>st''. CompileExpr env (redact env e) st = (Inr sql, st'')) \<and>
    (\<forall>col. col \<in> set (refs as_column (redact env e)) \<longrightarrow> \<not> hiddenColumn env (fst col) (snd col))"
proof -
  let ?env = "env\<lparr>ee_dialect := Normalize (ee_dialect env)\<rparr>"
  have same: "redact ?env e = redact env e" by simp
  have "repeats (CompileExpr env e) (CompileExpr env (redact env e))"
    unfolding CompileExpr_def Let_def
    by (intro repeats_bindE compileExpr_redact [of ?env e, unfolded same])
       (auto intro!: repeating split: option.split)
  then have "yields (CompileExpr env (redact env e)) sql" using assms unfolding repeats_def by blast
  then obtain st'' where "CompileExpr env (redact env e) st = (Inr sql, st'')" using assms(2) unfolding yields_def by blast
  then show ?thesis using redact_has_no_hidden [of _ _ env e] by auto
qed

definition example_pii :: PIIMaskingConfig where
  "example_pii = \<lparr>pc_ColumnInfo = (\<lambda>_. None), pc_ColumnAccess = [''customers.email'' \<mapsto> ''hidden'', ''customers.phone'' \<mapsto> ''masked''],
     pc_ColumnTypes = [''customers.email'' \<mapsto> ''email'', ''customers.phone'' \<mapsto> ''phone''],
     pc_ColumnStrategies = (\<lambda>_. None), pc_Strategy = None\<rparr>"

definition example_expr_env :: ExprEnv where
  "example_expr_env = \<lparr>ee_dialect = Postgres, ee_resolver = None, ee_pii = Some example_pii, ee_AllowAggregates = False,
     ee_FormatFloat = (\<lambda>_. ''0''), ee_Sprint = (\<lambda>_. [])\<rparr>"

definition example_hidden_expr :: ExprNode where
  "example_hidden_expr = FunctionCallExpr ''lower'' [ColumnRefExpr ''customers'' ''email'']"

definition example_expr_state :: ExprState where
  "example_expr_state = \<lparr>es_args = None, es_applied = Some \<lparr>ap_Masked = [], ap_Hidden = []\<rparr>\<rparr>"

lemma example_CompileExpr:
  "CompileExpr example_expr_env example_hidden_expr example_expr_state =
     (Inr (''LOWER('' @ HiddenLiteral @ '')''), example_expr_state\<lparr>es_applied := Some \<lparr>ap_Masked = [], ap_Hidden = [''customers.email'']\<rparr>\<rparr>)"
  by code_simp

theorem CompileExpr_redacts_hidden_witness:
  "\<exists>st''. CompileExpr example_expr_env (redact example_expr_env example_hidden_expr) example_expr_state =
     (Inr (''LOWER('' @ HiddenLiteral @ '')''), st'')"
  using CompileExpr_redacts_hidden [OF example_CompileExpr] by (simp add: example_expr_state_def)

end
