(* ===== verification/Expr_Parser.thy ===== *)
theory Expr_Parser
  imports Expr_AST Dialects "HOL-Library.Monad_Syntax"
begin

text \<open>
  The parser of calculated expressions (\<open>internal/query/expression_parse.go\<close>): a lexer over bytes and
  a recursive-descent parser over tokens. The lexer state is the input that is left, the parser state
  the tokens that are left. The parser recurses on its input in ways that are not structural, so its
  functions count down a depth; \<open>None\<close> is an exhausted depth, and the depth \<open>ParseExpression\<close> starts
  with is shown to be always enough, so \<open>None\<close> is never the answer.

  Numbers with a point carry the decimal they spell (the code rounds it to a \<open>float64\<close>).
\<close>

section \<open>Tokens\<close>

datatype TokenType =
    TokenIdentifier | TokenNumber | TokenString | TokenOperator | TokenParenOpen | TokenParenClose
  | TokenComma | TokenKeyword

datatype Token = Token (tok_Type: TokenType) (tok_Value: string)

datatype parse_error =
    SemicolonNotAllowed
  | CommentNotAllowed
  | UnexpectedCharacter char
  | UnterminatedString int
  | UnterminatedBracket int
  | BannedKeyword string
  | UnexpectedAtEnd string
  | UnexpectedToken string
  | ExpectedParenAfterIn
  | ExpectedParenAfterInList
  | ExpectedNull
  | ExpectedAndInBetween
  | ExpectedParenInCall string
  | ExpectedParen
  | ExpectedEnd
  | ExpectedThen
  | NoWhen
  | BadNumber string
  | BadInteger string

section \<open>Lexer\<close>

definition isBlank :: "char \<Rightarrow> bool" where
  "isBlank c \<longleftrightarrow> c \<in> set [CHR '' '', CHR 0x09, CHR 0x0A, CHR 0x0D]"

definition skipWhitespace :: "string \<Rightarrow> string" where
  "skipWhitespace s = dropWhile isBlank s"

definition isOperatorChar :: "char \<Rightarrow> bool" where
  "isOperatorChar c \<longleftrightarrow> c \<in> set ''+-*/%=!<>|''"

definition isIdentifierStartChar :: "char \<Rightarrow> bool" where
  "isIdentifierStartChar c \<longleftrightarrow> is_lower c \<or> is_upper c \<or> c = CHR ''_''"

definition isIdentifierChar :: "char \<Rightarrow> bool" where
  "isIdentifierChar c \<longleftrightarrow> isIdentifierStartChar c \<or> is_digit c \<or> c = CHR ''.''"

definition isNumberChar :: "char \<Rightarrow> bool" where
  "isNumberChar c \<longleftrightarrow> is_digit c \<or> c = CHR ''.''"

definition bannedKeywords :: "string list" where
  "bannedKeywords = [''SELECT'', ''INSERT'', ''UPDATE'', ''DELETE'', ''DROP'', ''ALTER'', ''TRUNCATE'', ''CREATE'', ''GRANT'',
     ''REVOKE'', ''MERGE'', ''CALL'', ''EXEC'', ''EXECUTE'']"

definition allowedKeywords :: "string list" where
  "allowedKeywords = [''CASE'', ''WHEN'', ''THEN'', ''ELSE'', ''END'', ''AND'', ''OR'', ''NOT'', ''IS'', ''NULL'', ''IN'', ''LIKE'',
     ''ILIKE'', ''BETWEEN'']"

text \<open>After the opening quote: what is read up to and with the closing quote, and the rest. Only single
  quotes are doubled inside.\<close>

fun scanString :: "char \<Rightarrow> string \<Rightarrow> (string \<times> string) option" where
  "scanString q [] = None"
| "scanString q (c # s) =
     (if c \<noteq> q then map_option (apfst ((#) c)) (scanString q s)
      else
        (case s of
           [] \<Rightarrow> Some ([c], [])
         | d # s' \<Rightarrow>
             if q = CHR 0x27 \<and> d = CHR 0x27 then map_option (apfst (\<lambda>t. c # d # t)) (scanString q s')
             else Some ([c], s)))"

fun scanBracket :: "string \<Rightarrow> (string \<times> string) option" where
  "scanBracket [] = None"
| "scanBracket (c # s) = (if c = CHR '']'' then Some ([c], s) else map_option (apfst ((#) c)) (scanBracket s))"

definition twoCharOperators :: "string list" where
  "twoCharOperators = [''!='', ''<>'', ''<='', ''>='', ''||'']"

definition readOperator :: "char \<Rightarrow> string \<Rightarrow> Token \<times> string" where
  "readOperator c s =
     (case s of
        d # s' \<Rightarrow> if [c, d] \<in> set twoCharOperators then (Token TokenOperator [c, d], s') else (Token TokenOperator [c], s)
      | [] \<Rightarrow> (Token TokenOperator [c], []))"

definition readIdentifierOrKeyword :: "string \<Rightarrow> parse_error + Token \<times> string" where
  "readIdentifierOrKeyword s =
     (let val = takeWhile isIdentifierChar s;
          rest = dropWhile isIdentifierChar s;
          upperVal = ToUpper val
      in if upperVal \<in> set bannedKeywords then Inl (BannedKeyword val)
         else if upperVal \<in> set allowedKeywords then Inr (Token TokenKeyword upperVal, rest)
         else Inr (Token TokenIdentifier val, rest))"

definition readNumber :: "string \<Rightarrow> Token \<times> string" where
  "readNumber s = (Token TokenNumber (takeWhile isNumberChar s), dropWhile isNumberChar s)"

definition readString :: "int \<Rightarrow> char \<Rightarrow> string \<Rightarrow> parse_error + Token \<times> string" where
  "readString pos q s =
     (case scanString q s of
        None \<Rightarrow> Inl (UnterminatedString pos)
      | Some (t, rest) \<Rightarrow> Inr (Token TokenString (q # t), rest))"

definition readBracketedIdentifier :: "int \<Rightarrow> string \<Rightarrow> parse_error + Token \<times> string" where
  "readBracketedIdentifier pos s =
     (case scanBracket s of
        None \<Rightarrow> Inl (UnterminatedBracket pos)
      | Some (t, rest) \<Rightarrow> Inr (Token TokenIdentifier (CHR ''['' # t), rest))"

text \<open>\<open>NextToken\<close> at the first character that is not blank; \<open>pos\<close> is its position.\<close>

definition nextTokenAt :: "int \<Rightarrow> char \<Rightarrow> string \<Rightarrow> parse_error + Token \<times> string" where
  "nextTokenAt pos c s =
     (if c = CHR '';'' then Inl SemicolonNotAllowed
      else if c = CHR ''-'' \<and> starts s CHR ''-'' then Inl CommentNotAllowed
      else if c = CHR ''/'' \<and> starts s CHR ''*'' then Inl CommentNotAllowed
      else if c = CHR ''('' then Inr (Token TokenParenOpen ''('', s)
      else if c = CHR '')'' then Inr (Token TokenParenClose '')'', s)
      else if c = CHR '','' then Inr (Token TokenComma '','', s)
      else if is_digit c then Inr (readNumber (c # s))
      else if c = CHR 0x27 \<or> c = CHR 0x22 then readString pos c s
      else if c = CHR ''['' then readBracketedIdentifier pos s
      else if isOperatorChar c then Inr (readOperator c s)
      else if isIdentifierStartChar c then readIdentifierOrKeyword (c # s)
      else Inl (UnexpectedCharacter c))"

text \<open>\<open>None\<close> is the end of the input; \<open>total\<close> is its length.\<close>

definition NextToken :: "nat \<Rightarrow> string \<Rightarrow> parse_error + (Token \<times> string) option" where
  "NextToken len s =
     (case skipWhitespace s of
        [] \<Rightarrow> Inr None
      | c # t \<Rightarrow> map_sum id Some (nextTokenAt (int len - int (length (c # t))) c t))"

lemma length_dropWhile_less: "p c \<Longrightarrow> length (dropWhile p (c # s)) < length (c # s)"
  using length_dropWhile_le [of p s] by simp

lemma length_scanString: "scanString q s = Some (t, rest) \<Longrightarrow> length rest < length s"
  by (induction q s arbitrary: t rest rule: scanString.induct)
     (fastforce split: if_splits list.splits simp: less_Suc_eq)+

lemma length_scanBracket: "scanBracket s = Some (t, rest) \<Longrightarrow> length rest < length s"
  by (induction s arbitrary: t) (fastforce split: if_splits simp: less_SucI)+

lemma length_readers:
  "is_digit c \<Longrightarrow> readNumber (c # s) = (tok, rest) \<Longrightarrow> length rest < length (c # s)"
  "readString pos q s = Inr (tok, rest) \<Longrightarrow> length rest < length (c # s)"
  "readBracketedIdentifier pos s = Inr (tok, rest) \<Longrightarrow> length rest < length (c # s)"
  "readOperator c s = (tok, rest) \<Longrightarrow> length rest < length (c # s)"
  "isIdentifierStartChar c \<Longrightarrow> readIdentifierOrKeyword (c # s) = Inr (tok, rest) \<Longrightarrow> length rest < length (c # s)"
  subgoal using length_dropWhile_less [of isNumberChar c s] by (auto simp: readNumber_def isNumberChar_def)
  subgoal by (auto simp: readString_def dest!: length_scanString split: option.splits)
  subgoal by (auto simp: readBracketedIdentifier_def dest!: length_scanBracket split: option.splits)
  subgoal by (auto simp: readOperator_def split: list.splits if_splits)
  subgoal using length_dropWhile_less [of isIdentifierChar c s]
    by (auto simp: readIdentifierOrKeyword_def isIdentifierChar_def Let_def split: if_splits)
  done

lemma length_nextTokenAt: "nextTokenAt pos c s = Inr (tok, rest) \<Longrightarrow> length rest < length (c # s)"
  unfolding nextTokenAt_def
  by (split if_split_asm | elim conjE | (drule length_readers(2-3), assumption) | (drule (1) length_readers(5), assumption)
      | (simp only: sum.inject, drule length_readers(4), assumption) | (simp only: sum.inject, drule (1) length_readers(1), assumption)
      | simp only: sum.simps sum.inject prod.inject | (clarsimp; fail))+

lemma length_NextToken: "NextToken len s = Inr (Some (tok, rest)) \<Longrightarrow> length rest < length s"
proof -
  assume next_tok: "NextToken len s = Inr (Some (tok, rest))"
  then obtain c t where ct: "skipWhitespace s = c # t" by (cases "skipWhitespace s") (auto simp: NextToken_def)
  then have "length rest < length (c # t)"
    using next_tok length_nextTokenAt by (cases "nextTokenAt (int len - int (length (c # t))) c t") (auto simp: NextToken_def)
  also have "\<dots> \<le> length s" unfolding ct [symmetric] skipWhitespace_def by (rule length_dropWhile_le)
  finally show ?thesis .
qed

text \<open>The loop of \<open>ParseExpression\<close> over \<open>NextToken\<close>.\<close>

function tokenize :: "nat \<Rightarrow> string \<Rightarrow> parse_error + Token list" where
  "tokenize len s =
     (case NextToken len s of
        Inl e \<Rightarrow> Inl e
      | Inr None \<Rightarrow> Inr []
      | Inr (Some (tok, rest)) \<Rightarrow> map_sum id ((#) tok) (tokenize len rest))"
  by pat_completeness auto
termination by (relation "measure (\<lambda>(_, s). length s)") (auto simp: length_NextToken)

declare tokenize.simps [simp del]

section \<open>Literals, identifiers, operators\<close>

definition binaryOpFromToken :: "string \<Rightarrow> string" where
  "binaryOpFromToken op =
     (case map_of [(''+'', ''add''), (''-'', ''subtract''), (''*'', ''multiply''), (''/'', ''divide''), (''%'', ''modulo''),
                   (''='', ''eq''), (''!='', ''neq''), (''<>'', ''neq''), (''<'', ''lt''), (''<='', ''lte''), (''>'', ''gt''),
                   (''>='', ''gte''), (''||'', ''concat''), (''AND'', ''and''), (''OR'', ''or'')] (ToUpper op) of
        Some b \<Rightarrow> b
      | None \<Rightarrow> ToLower (ReplaceAll op '' '' ''_''))"

definition unaryOpFromToken :: "string \<Rightarrow> string" where
  "unaryOpFromToken op =
     (if ToUpper op = ''NOT'' then ''not'' else if ToUpper op = ''-'' then ''negate''
      else ToLower (ReplaceAll op '' '' ''_''))"

definition decimalValue :: "string \<Rightarrow> string \<Rightarrow> rat" where
  "decimalValue whole fraction = of_nat (digits_value 0 (whole @ fraction)) / 10 ^ length fraction"

text \<open>\<open>ParseFloat\<close> on digits and points: one point, and below the overflow threshold of \<open>float64\<close>;
  \<open>ParseInt\<close> up to the largest \<open>int64\<close>.\<close>

definition maxFloat :: rat where "maxFloat = 2 ^ 1024 - 2 ^ 970"

definition parseNumberLiteral :: "string \<Rightarrow> parse_error + go_any" where
  "parseNumberLiteral v =
     (if CHR ''.'' \<in> set v then
        (case Split v CHR ''.'' of
           [whole, fraction] \<Rightarrow>
             if decimalValue whole fraction < maxFloat then Inr (AFloat (decimalValue whole fraction)) else Inl (BadNumber v)
         | _ \<Rightarrow> Inl (BadNumber v))
      else if int (digits_value 0 v) < 2 ^ 63 then Inr (AInt (int (digits_value 0 v)))
      else Inl (BadInteger v))"

definition parseStringLiteral :: "string \<Rightarrow> string" where
  "parseStringLiteral v =
     (let body =
        (if 2 \<le> length v \<and> (hd v = CHR 0x27 \<or> hd v = CHR 0x22) \<and> last v = hd v
         then butlast (tl v) else v)
      in ReplaceAll body [CHR 0x27, CHR 0x27] [CHR 0x27])"

definition identifierExpr :: "string \<Rightarrow> ExprNode" where
  "identifierExpr name =
     (if name \<noteq> [] \<and> hd name = CHR ''['' \<and> last name = CHR '']'' then
        MetricRefExpr (let t = tl name in if t \<noteq> [] \<and> last t = CHR '']'' then butlast t else t)
      else
        (case IndexByte name CHR ''.'' of
           Some i \<Rightarrow> ColumnRefExpr (take i name) (drop (i + 1) name)
         | None \<Rightarrow> ColumnRefExpr [] name))"

section \<open>Parser\<close>

type_synonym 'a parsed = "(parse_error + 'a \<times> Token list) option"

definition bindP :: "'a parsed \<Rightarrow> ('a \<Rightarrow> Token list \<Rightarrow> 'b parsed) \<Rightarrow> 'b parsed" where
  "bindP r k =
     (case r of
        None \<Rightarrow> None
      | Some (Inl e) \<Rightarrow> Some (Inl e)
      | Some (Inr (a, ts)) \<Rightarrow> k a ts)"

definition ok :: "'a \<Rightarrow> Token list \<Rightarrow> 'a parsed" where
  "ok a ts = Some (Inr (a, ts))"

definition failP :: "parse_error \<Rightarrow> 'a parsed" where
  "failP e = Some (Inl e)"

text \<open>\<open>match\<close> and \<open>matchKeyword\<close>: the tokens after the match, if there is one.\<close>

definition matchTok :: "TokenType \<Rightarrow> Token list \<Rightarrow> Token list option" where
  "matchTok t ts = (case ts of [] \<Rightarrow> None | tok # rest \<Rightarrow> if tok_Type tok = t then Some rest else None)"

definition matchKeyword :: "string \<Rightarrow> Token list \<Rightarrow> Token list option" where
  "matchKeyword kw ts =
     (case ts of [] \<Rightarrow> None | tok # rest \<Rightarrow> if tok = Token TokenKeyword kw then Some rest else None)"

definition expect :: "Token list option \<Rightarrow> parse_error \<Rightarrow> 'a \<Rightarrow> 'a parsed" where
  "expect m e a = (case m of Some ts \<Rightarrow> ok a ts | None \<Rightarrow> failP e)"

text \<open>The loops that read operators of one level and fold them to the left: \<open>parseOr\<close>, \<open>parseAnd\<close> and
  \<open>parseLeftAssociative\<close>. The first argument bounds the iterations; \<open>opAt\<close> recognises an operator and
  yields the tokens after it.\<close>

primrec chainLeft ::
  "nat \<Rightarrow> (Token list \<Rightarrow> (string \<times> Token list) option) \<Rightarrow> (Token list \<Rightarrow> ExprNode parsed) \<Rightarrow> ExprNode \<Rightarrow> Token list \<Rightarrow>
   ExprNode parsed" where
  "chainLeft 0 opAt operand left ts = None"
| "chainLeft (Suc n) opAt operand left ts =
     (case opAt ts of
        None \<Rightarrow> ok left ts
      | Some (op, rest) \<Rightarrow> bindP (operand rest) (\<lambda>right. chainLeft n opAt operand (BinaryExpr op left right)))"

definition parseChain ::
  "(Token list \<Rightarrow> (string \<times> Token list) option) \<Rightarrow> (Token list \<Rightarrow> ExprNode parsed) \<Rightarrow> Token list \<Rightarrow> ExprNode parsed" where
  "parseChain opAt operand ts = bindP (operand ts) (\<lambda>left ts1. chainLeft (Suc (length ts1)) opAt operand left ts1)"

definition keywordAt :: "string \<Rightarrow> string \<Rightarrow> Token list \<Rightarrow> (string \<times> Token list) option" where
  "keywordAt kw op ts = map_option (Pair op) (matchKeyword kw ts)"

definition operatorAt :: "string list \<Rightarrow> Token list \<Rightarrow> (string \<times> Token list) option" where
  "operatorAt ops ts =
     (case ts of
        [] \<Rightarrow> None
      | tok # rest \<Rightarrow>
          if tok_Type tok = TokenOperator \<and> tok_Value tok \<in> set ops
          then Some (binaryOpFromToken (tok_Value tok), rest) else None)"

text \<open>In what follows \<open>expr\<close> is the parser for whole expressions, which the code reaches by the recursive
  call of \<open>parseOr\<close>. \<open>parseList\<close> reads one or more expressions separated by commas, the loop shared by call
  arguments and IN lists.\<close>

primrec parseList :: "nat \<Rightarrow> (Token list \<Rightarrow> ExprNode parsed) \<Rightarrow> Token list \<Rightarrow> ExprNode list parsed" where
  "parseList 0 expr ts = None"
| "parseList (Suc n) expr ts =
     bindP (expr ts) (\<lambda>e ts1.
       case matchTok TokenComma ts1 of
         None \<Rightarrow> ok [e] ts1
       | Some ts2 \<Rightarrow> bindP (parseList n expr ts2) (\<lambda>es. ok (e # es)))"

definition parseListOpt :: "(Token list \<Rightarrow> ExprNode parsed) \<Rightarrow> Token list \<Rightarrow> ExprNode list parsed" where
  "parseListOpt expr ts =
     (case matchTok TokenParenClose ts of Some _ \<Rightarrow> ok [] ts | None \<Rightarrow> parseList (Suc (length ts)) expr ts)"

definition parseCallArgs :: "(Token list \<Rightarrow> ExprNode parsed) \<Rightarrow> string \<Rightarrow> Token list \<Rightarrow> ExprNode list parsed" where
  "parseCallArgs expr name ts =
     bindP (parseListOpt expr ts) (\<lambda>args ts1. expect (matchTok TokenParenClose ts1) (ExpectedParenInCall name) args)"

definition parseIdentifierPrimary :: "(Token list \<Rightarrow> ExprNode parsed) \<Rightarrow> string \<Rightarrow> Token list \<Rightarrow> ExprNode parsed" where
  "parseIdentifierPrimary expr name ts =
     (case matchTok TokenParenOpen ts of
        None \<Rightarrow> ok (identifierExpr name) ts
      | Some ts1 \<Rightarrow> bindP (parseCallArgs expr name ts1) (\<lambda>args. ok (FunctionCallExpr (ToUpper name) args)))"

definition parseParenthesizedPrimary :: "(Token list \<Rightarrow> ExprNode parsed) \<Rightarrow> Token list \<Rightarrow> ExprNode parsed" where
  "parseParenthesizedPrimary expr ts = bindP (expr ts) (\<lambda>e ts1. expect (matchTok TokenParenClose ts1) ExpectedParen e)"

definition parseNumberPrimary :: "string \<Rightarrow> Token list \<Rightarrow> ExprNode parsed" where
  "parseNumberPrimary v ts = (case parseNumberLiteral v of Inl e \<Rightarrow> failP e | Inr x \<Rightarrow> ok (LiteralExpr x) ts)"

primrec parseCaseWhenClauses ::
  "nat \<Rightarrow> (Token list \<Rightarrow> ExprNode parsed) \<Rightarrow> Token list \<Rightarrow> (ExprNode \<times> ExprNode) list parsed" where
  "parseCaseWhenClauses 0 expr ts = None"
| "parseCaseWhenClauses (Suc n) expr ts =
     (case matchKeyword ''WHEN'' ts of
        None \<Rightarrow> ok [] ts
      | Some ts1 \<Rightarrow>
          bindP (expr ts1) (\<lambda>whenExpr ts2.
            case matchKeyword ''THEN'' ts2 of
              None \<Rightarrow> failP ExpectedThen
            | Some ts3 \<Rightarrow>
                bindP (expr ts3) (\<lambda>thenExpr ts4.
                  bindP (parseCaseWhenClauses n expr ts4) (\<lambda>conds. ok ((whenExpr, thenExpr) # conds)))))"

definition parseCasePrimary :: "(Token list \<Rightarrow> ExprNode parsed) \<Rightarrow> Token list \<Rightarrow> ExprNode parsed" where
  "parseCasePrimary expr ts =
     bindP (parseCaseWhenClauses (Suc (length ts)) expr ts) (\<lambda>conds ts1.
       if conds = [] then failP NoWhen
       else
         bindP (case matchKeyword ''ELSE'' ts1 of Some ts2 \<Rightarrow> expr ts2 | None \<Rightarrow> ok NilExpr ts1) (\<lambda>els ts3.
           expect (matchKeyword ''END'' ts3) ExpectedEnd (CaseExpr conds els)))"

definition parsePrimary :: "(Token list \<Rightarrow> ExprNode parsed) \<Rightarrow> Token list \<Rightarrow> ExprNode parsed" where
  "parsePrimary expr ts =
     (case ts of
        [] \<Rightarrow> failP (UnexpectedToken [])
      | tok # rest \<Rightarrow>
          (case tok_Type tok of
             TokenNumber \<Rightarrow> parseNumberPrimary (tok_Value tok) rest
           | TokenString \<Rightarrow> ok (LiteralExpr (AStr (parseStringLiteral (tok_Value tok)))) rest
           | TokenIdentifier \<Rightarrow> parseIdentifierPrimary expr (tok_Value tok) rest
           | TokenParenOpen \<Rightarrow> parseParenthesizedPrimary expr rest
           | TokenKeyword \<Rightarrow>
               if tok_Value tok = ''CASE'' then parseCasePrimary expr rest else failP (UnexpectedToken (tok_Value tok))
           | _ \<Rightarrow> failP (UnexpectedToken (tok_Value tok))))"

definition parseFactor :: "(Token list \<Rightarrow> ExprNode parsed) \<Rightarrow> Token list \<Rightarrow> ExprNode parsed" where
  "parseFactor expr = parseChain (operatorAt [''*'', ''/'', ''%'']) (parsePrimary expr)"

definition parseArithmetic :: "(Token list \<Rightarrow> ExprNode parsed) \<Rightarrow> Token list \<Rightarrow> ExprNode parsed" where
  "parseArithmetic expr = parseChain (operatorAt [''+'', ''-'', ''||'']) (parseFactor expr)"

definition parseInComparison :: "(Token list \<Rightarrow> ExprNode parsed) \<Rightarrow> ExprNode \<Rightarrow> Token list \<Rightarrow> ExprNode parsed" where
  "parseInComparison expr left ts =
     (case matchTok TokenParenOpen ts of
        None \<Rightarrow> failP ExpectedParenAfterIn
      | Some ts1 \<Rightarrow>
          bindP (parseListOpt expr ts1) (\<lambda>items ts2.
            expect (matchTok TokenParenClose ts2) ExpectedParenAfterInList
              (BinaryExpr ''in'' left (FunctionCallExpr ''IN_LIST'' items))))"

definition parseIsComparison :: "ExprNode \<Rightarrow> Token list \<Rightarrow> ExprNode parsed" where
  "parseIsComparison left ts =
     (case matchKeyword ''NOT'' ts of
        Some ts1 \<Rightarrow> expect (matchKeyword ''NULL'' ts1) ExpectedNull (UnaryExpr (unaryOpFromToken ''IS NOT NULL'') left)
      | None \<Rightarrow> expect (matchKeyword ''NULL'' ts) ExpectedNull (UnaryExpr (unaryOpFromToken ''IS NULL'') left))"

definition parseBetweenComparison :: "(Token list \<Rightarrow> ExprNode parsed) \<Rightarrow> ExprNode \<Rightarrow> Token list \<Rightarrow> ExprNode parsed" where
  "parseBetweenComparison expr left ts =
     bindP (parseArithmetic expr ts) (\<lambda>lo ts1.
       case matchKeyword ''AND'' ts1 of
         None \<Rightarrow> failP ExpectedAndInBetween
       | Some ts2 \<Rightarrow>
           bindP (parseArithmetic expr ts2) (\<lambda>hi. ok (BinaryExpr ''between'' left (BinaryExpr ''and'' lo hi))))"

text \<open>\<open>None\<close> is the result \<open>ok = false\<close>: the keyword starts no comparison.\<close>

definition parseKeywordComparison ::
  "(Token list \<Rightarrow> ExprNode parsed) \<Rightarrow> ExprNode \<Rightarrow> string \<Rightarrow> Token list \<Rightarrow> ExprNode parsed option" where
  "parseKeywordComparison expr left kw rest =
     (if kw = ''LIKE'' \<or> kw = ''ILIKE'' then
        Some (bindP (parseArithmetic expr rest) (\<lambda>right. ok (BinaryExpr (binaryOpFromToken kw) left right)))
      else if kw = ''IN'' then Some (parseInComparison expr left rest)
      else if kw = ''IS'' then Some (parseIsComparison left rest)
      else if kw = ''BETWEEN'' then Some (parseBetweenComparison expr left rest)
      else None)"

definition comparisonTail :: "(Token list \<Rightarrow> ExprNode parsed) \<Rightarrow> ExprNode \<Rightarrow> Token list \<Rightarrow> ExprNode parsed" where
  "comparisonTail expr left ts =
     (case ts of
        [] \<Rightarrow> ok left ts
      | tok # rest \<Rightarrow>
          if tok_Type tok = TokenOperator then
            bindP (parseArithmetic expr rest) (\<lambda>right. ok (BinaryExpr (binaryOpFromToken (tok_Value tok)) left right))
          else if tok_Type tok = TokenKeyword then
            (case parseKeywordComparison expr left (tok_Value tok) rest of Some r \<Rightarrow> r | None \<Rightarrow> ok left ts)
          else ok left ts)"

definition parseComparison :: "(Token list \<Rightarrow> ExprNode parsed) \<Rightarrow> Token list \<Rightarrow> ExprNode parsed" where
  "parseComparison expr ts = bindP (parseArithmetic expr ts) (comparisonTail expr)"

text \<open>\<open>parseNot\<close> calls itself once per \<open>NOT\<close>.\<close>

primrec notLoop :: "nat \<Rightarrow> (Token list \<Rightarrow> ExprNode parsed) \<Rightarrow> Token list \<Rightarrow> ExprNode parsed" where
  "notLoop 0 expr ts = None"
| "notLoop (Suc n) expr ts =
     (case matchKeyword ''NOT'' ts of
        Some ts1 \<Rightarrow> bindP (notLoop n expr ts1) (\<lambda>e. ok (UnaryExpr ''not'' e))
      | None \<Rightarrow> parseComparison expr ts)"

definition parseNot :: "(Token list \<Rightarrow> ExprNode parsed) \<Rightarrow> Token list \<Rightarrow> ExprNode parsed" where
  "parseNot expr ts = notLoop (Suc (length ts)) expr ts"

definition parseAnd :: "(Token list \<Rightarrow> ExprNode parsed) \<Rightarrow> Token list \<Rightarrow> ExprNode parsed" where
  "parseAnd expr = parseChain (keywordAt ''AND'' ''and'') (parseNot expr)"

primrec parseOr :: "nat \<Rightarrow> Token list \<Rightarrow> ExprNode parsed" where
  "parseOr 0 ts = None"
| "parseOr (Suc n) ts = parseChain (keywordAt ''OR'' ''or'') (parseAnd (parseOr n)) ts"

definition Parse :: "Token list \<Rightarrow> (parse_error + ExprNode) option" where
  "Parse ts =
     (case parseOr (Suc (length ts)) ts of
        None \<Rightarrow> None
      | Some (Inl e) \<Rightarrow> Some (Inl e)
      | Some (Inr (node, rest)) \<Rightarrow>
          Some (case rest of [] \<Rightarrow> Inr node | tok # _ \<Rightarrow> Inl (UnexpectedAtEnd (tok_Value tok))))"

definition ParseExpression :: "string \<Rightarrow> (parse_error + ExprNode) option" where
  "ParseExpression expr0 =
     (let expr = TrimSpace expr0 in
      if expr = [] then Some (Inr NilExpr)
      else (case tokenize (length expr) expr of Inl e \<Rightarrow> Some (Inl e) | Inr ts \<Rightarrow> Parse ts))"

text \<open>The error \<open>ValidateExpression\<close> returns, if there is one.\<close>

definition ValidateExpression :: "string \<Rightarrow> parse_error option option" where
  "ValidateExpression expr = map_option (\<lambda>r. case r of Inl e \<Rightarrow> Some e | Inr _ \<Rightarrow> None) (ParseExpression expr)"

section \<open>The parser always answers\<close>

text \<open>On every list of at most \<open>k\<close> tokens the parser gives an answer and leaves no more tokens than
  there were.\<close>

definition answers :: "(Token list \<Rightarrow> 'a parsed) \<Rightarrow> nat \<Rightarrow> bool" where
  "answers p k \<longleftrightarrow>
     (\<forall>ts. length ts \<le> k \<longrightarrow> p ts \<noteq> None \<and> (\<forall>a rest. p ts = Some (Inr (a, rest)) \<longrightarrow> length rest \<le> length ts))"

named_theorems answering

lemma answers_ok [answering]: "answers (ok a) k"
  by (simp add: answers_def ok_def)

lemma answers_fail [answering]: "answers (\<lambda>ts. failP e) k"
  by (simp add: answers_def failP_def)

lemma answers_mono: "answers p k \<Longrightarrow> j \<le> k \<Longrightarrow> answers p j"
  by (auto simp: answers_def)

lemma answers_bind [answering]:
  assumes "answers p k" and "\<And>a. answers (f a) k"
  shows "answers (\<lambda>ts. bindP (p ts) f) k"
  unfolding answers_def
proof (intro allI impI)
  fix ts :: "Token list"
  assume len: "length ts \<le> k"
  show "bindP (p ts) f \<noteq> None \<and>
    (\<forall>a rest. bindP (p ts) f = Some (Inr (a, rest)) \<longrightarrow> length rest \<le> length ts)"
  proof (cases "p ts")
    case (Some r)
    show ?thesis
    proof (cases r)
      case (Inr ats)
      obtain a ts1 where ats: "ats = (a, ts1)" by (cases ats)
      then have "length ts1 \<le> length ts" using assms(1) len Some Inr by (auto simp: answers_def)
      then show ?thesis
        using assms(2) [of a] len Some Inr ats unfolding answers_def bindP_def by (auto intro: order_trans)
    qed (simp add: Some bindP_def)
  qed (use assms(1) len in \<open>auto simp: answers_def\<close>)
qed

lemma answers_pred [intro]: "answers p k \<Longrightarrow> answers p (k - n)"
  by (rule answers_mono) auto

lemma answers_rest:
  assumes "answers g (k - 1)" "length ts \<le> k" "length ts = Suc (length rest)"
  shows "g rest \<noteq> None \<and> (\<forall>a r. g rest = Some (Inr (a, r)) \<longrightarrow> length r \<le> length ts)"
proof -
  have "length rest \<le> k - 1" using assms by simp
  then have "g rest \<noteq> None \<and> (\<forall>a r. g rest = Some (Inr (a, r)) \<longrightarrow> length r \<le> length rest)"
    using assms(1) by (simp add: answers_def)
  then show ?thesis using assms(3) by (auto intro: le_SucI)
qed

lemma answers_option:
  assumes shorter: "\<And>ts rest. m ts = Some rest \<Longrightarrow> length ts = Suc (length rest)"
    and "answers f k" and "0 < k \<Longrightarrow> answers g (k - 1)"
  shows "answers (\<lambda>ts. case m ts of None \<Rightarrow> f ts | Some rest \<Rightarrow> g rest) k"
  unfolding answers_def
proof (intro allI impI)
  fix ts :: "Token list"
  assume len: "length ts \<le> k"
  show "(case m ts of None \<Rightarrow> f ts | Some rest \<Rightarrow> g rest) \<noteq> None \<and>
    (\<forall>a r. (case m ts of None \<Rightarrow> f ts | Some rest \<Rightarrow> g rest) = Some (Inr (a, r)) \<longrightarrow> length r \<le> length ts)"
  proof (cases "m ts")
    case None
    then show ?thesis using assms(2) len by (simp add: answers_def)
  next
    case (Some rest)
    with shorter have "length ts = Suc (length rest)" by blast
    then show ?thesis using answers_rest [OF assms(3) len] len Some by simp
  qed
qed

lemma match_shorter:
  "matchTok t ts = Some rest \<Longrightarrow> length ts = Suc (length rest)"
  "matchKeyword kw ts = Some rest \<Longrightarrow> length ts = Suc (length rest)"
  by (auto simp: matchTok_def matchKeyword_def split: list.splits if_splits)

lemma answers_match [answering]:
  assumes "answers f k" and "0 < k \<Longrightarrow> answers g (k - 1)"
  shows "answers (\<lambda>ts. case matchTok t ts of None \<Rightarrow> f ts | Some rest \<Rightarrow> g rest) k"
    and "answers (\<lambda>ts. case matchKeyword kw ts of None \<Rightarrow> f ts | Some rest \<Rightarrow> g rest) k"
  by (rule answers_option; use assms match_shorter in blast)+

lemma answers_expect [answering]:
  "answers (\<lambda>ts. expect (matchTok t ts) e a) k" "answers (\<lambda>ts. expect (matchKeyword kw ts) e a) k"
  unfolding expect_def by (auto intro!: answering)

lemma answers_cons [answering]:
  assumes "answers (\<lambda>_. f) 0" and "\<And>tok. 0 < k \<Longrightarrow> answers (g tok) (k - 1)"
  shows "answers (\<lambda>ts. case ts of [] \<Rightarrow> f | tok # rest \<Rightarrow> g tok rest) k"
  unfolding answers_def
proof (intro allI impI)
  fix ts :: "Token list"
  assume len: "length ts \<le> k"
  show "(case ts of [] \<Rightarrow> f | tok # rest \<Rightarrow> g tok rest) \<noteq> None \<and>
    (\<forall>a r. (case ts of [] \<Rightarrow> f | tok # rest \<Rightarrow> g tok rest) = Some (Inr (a, r)) \<longrightarrow> length r \<le> length ts)"
    using assms(1) answers_rest [OF assms(2) len] len by (cases ts) (auto simp: answers_def)
qed

lemma answers_if [answering]: "(b \<Longrightarrow> answers f k) \<Longrightarrow> (\<not> b \<Longrightarrow> answers g k) \<Longrightarrow> answers (\<lambda>ts. if b then f ts else g ts) k"
  by (auto simp: answers_def)

definition shortens :: "(Token list \<Rightarrow> (string \<times> Token list) option) \<Rightarrow> bool" where
  "shortens opAt \<longleftrightarrow> (\<forall>ts op rest. opAt ts = Some (op, rest) \<longrightarrow> length ts = Suc (length rest))"

lemma shortens_ops [simp]: "shortens (keywordAt kw op)" "shortens (operatorAt ops)"
  by (auto simp: shortens_def keywordAt_def operatorAt_def matchKeyword_def split: list.splits if_splits)

lemma answers_op:
  assumes "shortens opAt" and "answers f k" and "\<And>op. 0 < k \<Longrightarrow> answers (g op) (k - 1)"
  shows "answers (\<lambda>ts. case opAt ts of None \<Rightarrow> f ts | Some (op, rest) \<Rightarrow> g op rest) k"
  unfolding answers_def
proof (intro allI impI)
  fix ts :: "Token list"
  assume len: "length ts \<le> k"
  show "(case opAt ts of None \<Rightarrow> f ts | Some (op, rest) \<Rightarrow> g op rest) \<noteq> None \<and>
    (\<forall>a r. (case opAt ts of None \<Rightarrow> f ts | Some (op, rest) \<Rightarrow> g op rest) = Some (Inr (a, r)) \<longrightarrow> length r \<le> length ts)"
  proof (cases "opAt ts")
    case None
    then show ?thesis using assms(2) len by (simp add: answers_def)
  next
    case (Some p)
    obtain op rest where p: "p = (op, rest)" by (cases p)
    then have "length ts = Suc (length rest)" using assms(1) Some by (simp add: shortens_def)
    then show ?thesis using answers_rest [OF assms(3) len] len Some p by simp
  qed
qed

lemma chainLeft_answers:
  assumes "shortens opAt"
  shows "answers operand k \<Longrightarrow> k < n \<Longrightarrow> answers (chainLeft n opAt operand left) k"
proof (induction n arbitrary: left k)
  case (Suc n)
  have "answers operand (k - 1)" using Suc.prems by blast
  then show ?case
    unfolding chainLeft.simps using Suc
    by (intro answers_op assms answers_ok answers_bind) auto
qed simp

lemma answers_own_length: "(\<And>j. j \<le> k \<Longrightarrow> answers (p j) j) \<Longrightarrow> answers (\<lambda>ts. p (length ts) ts) k"
  by (auto simp: answers_def)

lemma parseChain_answers [answering]:
  assumes "shortens opAt" and "answers operand k"
  shows "answers (parseChain opAt operand) k"
  unfolding parseChain_def using assms
  by (intro answers_bind answers_own_length [where p = "\<lambda>m. chainLeft (Suc m) opAt operand _"] chainLeft_answers)
     (auto intro: answers_mono)

lemma parseList_answers: "answers expr k \<Longrightarrow> k < n \<Longrightarrow> answers (parseList n expr) k"
proof (induction n arbitrary: k)
  case (Suc n)
  have "answers expr (k - 1)" using Suc.prems by blast
  then show ?case
    unfolding parseList.simps using Suc by (intro answering) auto
qed simp

lemma notLoop_answers: "(\<And>j. j \<le> k \<Longrightarrow> answers (parseComparison expr) j) \<Longrightarrow> k < n \<Longrightarrow> answers (notLoop n expr) k"
proof (induction n arbitrary: k)
  case (Suc n)
  then show ?case unfolding notLoop.simps by (intro answering) auto
qed simp

lemma parseCaseWhenClauses_answers: "answers expr k \<Longrightarrow> k < n \<Longrightarrow> answers (parseCaseWhenClauses n expr) k"
proof (induction n arbitrary: k)
  case (Suc n)
  have "answers expr (k - 1)" "answers expr (k - 1 - 1)" "answers (parseCaseWhenClauses n expr) (k - 1 - 1)" if "0 < k"
    using Suc that by (auto intro!: Suc.IH)
  then show ?case unfolding parseCaseWhenClauses.simps using Suc.prems by (intro answering) auto
qed simp

lemma parseListOpt_answers [answering]: "answers expr k \<Longrightarrow> answers (parseListOpt expr) k"
proof -
  assume expr: "answers expr k"
  have *: "answers (parseList (Suc j) expr) j" if "j \<le> k" for j
    using parseList_answers [OF answers_mono [OF expr that]] by simp
  have "answers (\<lambda>ts. parseList (Suc (length ts)) expr ts) k"
    using * by (rule answers_own_length)
  then show ?thesis unfolding parseListOpt_def answers_def by (auto simp: ok_def split: option.split)
qed

lemma parseCallArgs_answers [answering]: "answers expr k \<Longrightarrow> answers (parseCallArgs expr name) k"
  unfolding parseCallArgs_def by (intro answering)

lemma parseIdentifierPrimary_answers [answering]: "answers expr k \<Longrightarrow> answers (parseIdentifierPrimary expr name) k"
  unfolding parseIdentifierPrimary_def by (intro answering answers_pred)

lemma parseParenthesizedPrimary_answers [answering]: "answers expr k \<Longrightarrow> answers (parseParenthesizedPrimary expr) k"
  unfolding parseParenthesizedPrimary_def by (intro answering)

lemma parseNumberPrimary_answers [answering]: "answers (parseNumberPrimary v) k"
  by (auto simp: answers_def parseNumberPrimary_def ok_def failP_def split: sum.splits)

lemma parseCasePrimary_answers [answering]: "answers expr k \<Longrightarrow> answers (parseCasePrimary expr) k"
proof -
  assume expr: "answers expr k"
  have *: "answers (parseCaseWhenClauses (Suc j) expr) j" if "j \<le> k" for j
    using parseCaseWhenClauses_answers [OF answers_mono [OF expr that]] by simp
  have "answers (\<lambda>ts. parseCaseWhenClauses (Suc (length ts)) expr ts) k"
    using * by (rule answers_own_length)
  then show ?thesis unfolding parseCasePrimary_def using expr by (intro answering answers_pred)
qed

text \<open>Whole expressions are parsed again only after a token is consumed.\<close>

definition answers_below :: "(Token list \<Rightarrow> 'a parsed) \<Rightarrow> nat \<Rightarrow> bool" where
  "answers_below p k \<longleftrightarrow> (\<forall>j<k. answers p j)"

lemma answers_belowD: "answers_below p k \<Longrightarrow> 0 < k \<Longrightarrow> answers p (k - 1)"
  by (simp add: answers_below_def)

lemma answers_below_mono: "answers_below p k \<Longrightarrow> j \<le> k \<Longrightarrow> answers_below p j"
  by (simp add: answers_below_def)

lemma parsePrimary_answers [answering]: 
  assumes "answers_below expr k"
  shows "answers (parsePrimary expr) k"
  unfolding parsePrimary_def
proof (rule answers_cons)
  show "answers (\<lambda>_. failP (UnexpectedToken [])) 0" by (rule answers_fail)
  fix tok :: Token
  assume "0 < k"
  with assms have "answers expr (k - 1)" by (rule answers_belowD)
  then show "answers (\<lambda>rest. case tok_Type tok of
      TokenIdentifier \<Rightarrow> parseIdentifierPrimary expr (tok_Value tok) rest
    | TokenNumber \<Rightarrow> parseNumberPrimary (tok_Value tok) rest
    | TokenString \<Rightarrow> ok (LiteralExpr (AStr (parseStringLiteral (tok_Value tok)))) rest
    | TokenParenOpen \<Rightarrow> parseParenthesizedPrimary expr rest
    | TokenKeyword \<Rightarrow> if tok_Value tok = ''CASE'' then parseCasePrimary expr rest else failP (UnexpectedToken (tok_Value tok))
    | _ \<Rightarrow> failP (UnexpectedToken (tok_Value tok))) (k - 1)"
    by (cases "tok_Type tok") (auto intro!: answering)
qed

lemma parseArithmetic_answers [answering]: "answers_below expr k \<Longrightarrow> answers (parseArithmetic expr) k"
  unfolding parseArithmetic_def parseFactor_def by (intro answering) simp_all

lemma keywordComparisons_answer [answering]:
  assumes "answers_below expr k"
  shows "answers (parseInComparison expr left) k" and "answers (parseIsComparison left) k"
    and "answers (parseBetweenComparison expr left) k"
    and "answers (\<lambda>rest. bindP (parseArithmetic expr rest) (\<lambda>right. ok (BinaryExpr op left right))) k"
proof -
  have below: "answers_below expr (k - 1)" by (rule answers_below_mono [OF assms]) simp
  show "answers (parseInComparison expr left) k"
    unfolding parseInComparison_def by (intro answering answers_belowD [OF assms])
  show "answers (parseIsComparison left) k"
    unfolding parseIsComparison_def by (intro answering)
  show "answers (parseBetweenComparison expr left) k"
    unfolding parseBetweenComparison_def using assms below by (intro answering)
  show "answers (\<lambda>rest. bindP (parseArithmetic expr rest) (\<lambda>right. ok (BinaryExpr op left right))) k"
    using assms by (intro answering)
qed

lemma comparisonTail_answers [answering]:
  assumes "answers_below expr k"
  shows "answers (comparisonTail expr left) k"
  unfolding answers_def
proof (intro allI impI)
  fix ts :: "Token list"
  assume len: "length ts \<le> k"
  note step = keywordComparisons_answer [OF answers_below_mono [OF assms], unfolded answers_def, rule_format]
  show "comparisonTail expr left ts \<noteq> None \<and>
    (\<forall>a rest. comparisonTail expr left ts = Some (Inr (a, rest)) \<longrightarrow> length rest \<le> length ts)"
  proof (cases ts)
    case (Cons tok rest)
    then have "length rest \<le> length ts" "length rest \<le> k" using len by auto
    then show ?thesis
      using step [of k rest] unfolding Cons comparisonTail_def parseKeywordComparison_def
      by (auto simp: ok_def intro: le_SucI split: if_splits)
  qed (simp add: comparisonTail_def ok_def)
qed

lemma parseComparison_answers: "answers_below expr k \<Longrightarrow> answers (parseComparison expr) k"
  unfolding parseComparison_def by (intro answering)

lemma parseNot_answers [answering]:
  assumes "answers_below expr k"
  shows "answers (parseNot expr) k"
  unfolding parseNot_def
proof (rule answers_own_length [where p = "\<lambda>j. notLoop (Suc j) expr"])
  fix j assume "j \<le> k"
  with assms show "answers (notLoop (Suc j) expr) j"
    by (intro notLoop_answers parseComparison_answers) (auto intro: answers_below_mono)
qed

lemma parseAnd_answers [answering]: "answers_below expr k \<Longrightarrow> answers (parseAnd expr) k"
  unfolding parseAnd_def by (intro answering) simp_all

lemma parseOr_answers: "k < n \<Longrightarrow> answers (parseOr n) k"
proof (induction n arbitrary: k)
  case (Suc n)
  have "answers_below (parseOr n) k" using Suc by (simp add: answers_below_def)
  then show ?case unfolding parseOr.simps by (intro answering) simp_all
qed simp

lemma Parse_ends: "Parse ts \<noteq> None"
  using parseOr_answers [of "length ts" "Suc (length ts)"]
  by (auto simp: Parse_def answers_def split: option.splits sum.splits list.splits)

lemma ParseExpression_ends: "ParseExpression s \<noteq> None"
  using Parse_ends by (auto simp: ParseExpression_def Let_def split: sum.split)

text \<open>C34. Parsing a calculated expression always ends with an expression or an error: the lexer's loop and
  the mutually recursive parser consume a token before every repetition and every nested call.\<close>

theorem ParseExpression_always_answers: "\<exists>r. ParseExpression s = Some r"
  using ParseExpression_ends by blast

end
