(* ===== verification/Calendar_Grain.thy ===== *)
theory Calendar_Grain
  imports Query_Planning "HOL-Library.Monad_Syntax"
begin

text \<open>
  The filter values that carry calendar meaning: the decisions of
  \<open>internal/query/calendar_grain_filter.go\<close> that the validator and the compiler share. The layouts
  the code hands to \<open>time.Parse\<close> are modelled by readers that follow the standard library's rules:
  two-digit fields (the hour may have one digit), an optional fraction after the seconds, \<open>Z\<close> or a
  numeric zone offset, days checked against the month. An instant is the number of nanoseconds since
  the Unix epoch.

  Shown here: a date written as year, month and day is read back as the midnight it names.
\<close>

section \<open>Readers of time.Parse\<close>

type_synonym 'a reader = "string \<Rightarrow> ('a \<times> string) option"

definition digitVal :: "char \<Rightarrow> int" where
  "digitVal c = int (byte c) - 48"

text \<open>\<open>getnum\<close> with a fixed width of two.\<close>

fun getnum2 :: "int reader" where
  "getnum2 (a # b # s) = (if is_digit a \<and> is_digit b then Some (digitVal a * 10 + digitVal b, s) else None)"
| "getnum2 _ = None"

text \<open>\<open>getnum\<close> without a fixed width: one digit if the second character is none.\<close>

fun getnum :: "int reader" where
  "getnum (a # b # s) =
     (if is_digit a \<and> is_digit b then Some (digitVal a * 10 + digitVal b, s)
      else if is_digit a then Some (digitVal a, b # s) else None)"
| "getnum [a] = (if is_digit a then Some (digitVal a, []) else None)"
| "getnum [] = None"

fun readYear :: "int reader" where
  "readYear (a # b # c # d # s) =
     (if is_digit a \<and> is_digit b \<and> is_digit c \<and> is_digit d
      then Some (digitVal a * 1000 + digitVal b * 100 + digitVal c * 10 + digitVal d, s) else None)"
| "readYear _ = None"

fun skipChar :: "char \<Rightarrow> string \<Rightarrow> string option" where
  "skipChar c (d # s) = (if c = d then Some s else None)"
| "skipChar c [] = None"

text \<open>A blank of the layout stands for one or more blanks of the text.\<close>

definition skipBlanks :: "string \<Rightarrow> string option" where
  "skipBlanks s = (case s of [] \<Rightarrow> None | c # t \<Rightarrow> if c = CHR '' '' then Some (dropWhile (\<lambda>d. d = CHR '' '') t) else None)"

definition inRange :: "int \<Rightarrow> int \<Rightarrow> (int \<times> string) option \<Rightarrow> (int \<times> string) option" where
  "inRange lo hi r = (case r of Some (n, s) \<Rightarrow> if lo \<le> n \<and> n \<le> hi then r else None | None \<Rightarrow> None)"

definition readMonth :: "(int \<times> int) reader" where
  "readMonth s =
     do {
       (y, s1) \<leftarrow> readYear s;
       s2 \<leftarrow> skipChar CHR ''-'' s1;
       (m, s3) \<leftarrow> inRange 1 12 (getnum2 s2);
       Some ((y, m), s3)
     }"

definition isLeap :: "int \<Rightarrow> bool" where
  "isLeap y \<longleftrightarrow> y mod 4 = 0 \<and> (y mod 100 \<noteq> 0 \<or> y mod 400 = 0)"

definition daysIn :: "int \<Rightarrow> int \<Rightarrow> int" where
  "daysIn m y =
     (if m = 2 then (if isLeap y then 29 else 28) else if m = 4 \<or> m = 6 \<or> m = 9 \<or> m = 11 then 30 else 31)"

definition readDate :: "(int \<times> int \<times> int) reader" where
  "readDate s =
     do {
       ((y, m), s1) \<leftarrow> readMonth s;
       s2 \<leftarrow> skipChar CHR ''-'' s1;
       (d, s3) \<leftarrow> inRange 1 (daysIn m y) (getnum2 s2);
       Some ((y, m, d), s3)
     }"

text \<open>The fraction is cut after nine digits.\<close>

definition fractionNanos :: "string \<Rightarrow> int" where
  "fractionNanos ds = foldl (\<lambda>n c. n * 10 + digitVal c) 0 (take 9 (ds @ replicate 9 CHR ''0''))"

definition readFraction :: "string \<Rightarrow> int \<times> string" where
  "readFraction s =
     (case s of
        c # d # t \<Rightarrow>
          if (c = CHR ''.'' \<or> c = CHR '','') \<and> is_digit d
          then (fractionNanos (takeWhile is_digit (d # t)), dropWhile is_digit (d # t)) else (0, s)
      | _ \<Rightarrow> (0, s))"

definition readClock :: "int reader" where
  "readClock s =
     do {
       (h, s1) \<leftarrow> inRange 0 23 (getnum s);
       s2 \<leftarrow> skipChar CHR '':'' s1;
       (mi, s3) \<leftarrow> inRange 0 59 (getnum2 s2);
       s4 \<leftarrow> skipChar CHR '':'' s3;
       (se, s5) \<leftarrow> inRange 0 59 (getnum2 s4);
       let (ns, s6) = readFraction s5;
       Some (((h * 60 + mi) * 60 + se) * 1000000000 + ns, s6)
     }"

text \<open>\<open>Z07:00\<close>: the offset in seconds.\<close>

definition readZone :: "int reader" where
  "readZone s =
     (case s of
        [] \<Rightarrow> None
      | c # s1 \<Rightarrow>
          if c = CHR ''Z'' then Some (0, s1)
          else if c = CHR ''+'' \<or> c = CHR ''-'' then
            do {
              (h, s2) \<leftarrow> inRange 0 24 (getnum2 s1);
              s3 \<leftarrow> skipChar CHR '':'' s2;
              (mi, s4) \<leftarrow> inRange 0 60 (getnum2 s3);
              Some ((if c = CHR ''-'' then -1 else 1) * (h * 60 + mi) * 60, s4)
            }
          else None)"

text \<open>Days since the Unix epoch of a date of the Gregorian calendar, counting years from March.\<close>

definition epochDays :: "int \<Rightarrow> int \<Rightarrow> int \<Rightarrow> int" where
  "epochDays y m d =
     (let y' = (if m \<le> 2 then y - 1 else y);
          era = y' div 400;
          yoe = y' mod 400;
          doy = (153 * (if m > 2 then m - 3 else m + 9) + 2) div 5 + d - 1;
          doe = yoe * 365 + yoe div 4 - yoe div 100 + doy
      in era * 146097 + doe - 719468)"

definition dayNanos :: int where "dayNanos = 86400 * 1000000000"

fun midnight :: "int \<times> int \<times> int \<Rightarrow> int" where
  "midnight (y, m, d) = epochDays y m d * dayNanos"

text \<open>A layout has to consume the whole text.\<close>

definition whole :: "'a reader \<Rightarrow> string \<Rightarrow> 'a option" where
  "whole r s = (case r s of Some (a, []) \<Rightarrow> Some a | _ \<Rightarrow> None)"

text \<open>\<open>time.RFC3339Nano\<close>, \<open>time.RFC3339\<close> and its spelled-out copy accept the same texts.\<close>

definition readRFC3339 :: "int reader" where
  "readRFC3339 s =
     do {
       (day, s1) \<leftarrow> readDate s;
       s2 \<leftarrow> skipChar CHR ''T'' s1;
       (ns, s3) \<leftarrow> readClock s2;
       (off, s4) \<leftarrow> readZone s3;
       Some (midnight day + ns - off * 1000000000, s4)
     }"

definition readDateTime :: "int reader" where
  "readDateTime s =
     do {
       (day, s1) \<leftarrow> readDate s;
       s2 \<leftarrow> skipBlanks s1;
       (ns, s3) \<leftarrow> readClock s2;
       Some (midnight day + ns, s3)
     }"

definition layoutReaders :: "int reader list" where
  "layoutReaders =
     [readRFC3339, readDateTime, (\<lambda>s. map_option (apfst midnight) (readDate s)),
      (\<lambda>s. map_option (apfst (\<lambda>(y, m). midnight (y, m, 1))) (readMonth s))]"

definition isDateOnlyCalendarValue :: "go_any \<Rightarrow> bool" where
  "isDateOnlyCalendarValue v =
     (case v of AStr s0 \<Rightarrow> (let s = TrimSpace s0 in length s = 10 \<and> whole readDate s \<noteq> None) | _ \<Rightarrow> False)"

fun firstLayout :: "int reader list \<Rightarrow> string \<Rightarrow> int option" where
  "firstLayout [] s = None"
| "firstLayout (r # rs) s = (case whole r s of Some t \<Rightarrow> Some t | None \<Rightarrow> firstLayout rs s)"

definition calendarAnchorTime :: "go_any \<Rightarrow> int option" where
  "calendarAnchorTime v =
     (case v of
        AStr s0 \<Rightarrow> (let s = TrimSpace s0 in if s = [] then None else firstLayout layoutReaders s)
      | _ \<Rightarrow> None)"

section \<open>Filters on calendar grains\<close>

definition TimeGrainDay :: string where "TimeGrainDay = ''day''"
definition TimeGrainHour :: string where "TimeGrainHour = ''hour''"
definition TimeGrainWeek :: string where "TimeGrainWeek = ''week''"
definition TimeGrainMonth :: string where "TimeGrainMonth = ''month''"
definition TimeGrainQuarter :: string where "TimeGrainQuarter = ''quarter''"
definition TimeGrainYear :: string where "TimeGrainYear = ''year''"

lemmas grain_defs = TimeGrainDay_def TimeGrainHour_def TimeGrainWeek_def TimeGrainMonth_def
  TimeGrainQuarter_def TimeGrainYear_def

definition dimGrain :: "Dimension \<Rightarrow> string" where
  "dimGrain d = ToLower (TrimSpace (dim_TimeGrain d))"

definition dateTypes :: "string list" where
  "dateTypes = [''date'', ''timestamp'', ''datetime'']"

definition HasSuffix :: "string \<Rightarrow> string \<Rightarrow> bool" where
  "HasSuffix s suf \<longleftrightarrow> suffix suf s"

definition grainStemBeforeSuffix :: "string \<Rightarrow> string \<Rightarrow> string option" where
  "grainStemBeforeSuffix dimName suf =
     (if HasSuffix dimName suf then Some (take (length dimName - length suf) dimName) else None)"

definition isRawDateTimestampDimension :: "Dimension \<Rightarrow> bool" where
  "isRawDateTimestampDimension d \<longleftrightarrow>
     TrimSpace (dim_TimeGrain d) = [] \<and> ToLower (TrimSpace (dim_Type d)) \<in> set dateTypes"

definition rawDateColumnDayEqualityFilter :: "Dimension \<Rightarrow> Filter \<Rightarrow> bool" where
  "rawDateColumnDayEqualityFilter d f \<longleftrightarrow>
     isRawDateTimestampDimension d \<and> (f_Operator f = ''eq'' \<or> f_Operator f = ''neq'') \<and>
     isDateOnlyCalendarValue (f_Value f)"

definition scalarCompareOps :: "string list" where
  "scalarCompareOps = [''eq'', ''neq'', ''gt'', ''gte'', ''lt'', ''lte'']"

definition isScalarCompareOp :: "string \<Rightarrow> bool" where
  "isScalarCompareOp op \<longleftrightarrow> op \<in> set scalarCompareOps"

definition isNumericFilterValue :: "go_any \<Rightarrow> bool" where
  "isNumericFilterValue v = (case v of AInt _ \<Rightarrow> True | AFloat _ \<Rightarrow> True | _ \<Rightarrow> False)"

text \<open>The value goes through a \<open>float64\<close>; only small numbers are ever compared, where that is exact.\<close>

definition numericFilterValueInt :: "go_any \<Rightarrow> int option" where
  "numericFilterValueInt v =
     (case v of
        AInt n \<Rightarrow> Some n
      | AFloat r \<Rightarrow> if rat_of_int \<lfloor>r\<rfloor> = r then Some \<lfloor>r\<rfloor> else None
      | _ \<Rightarrow> None)"

definition bareIntegerMonthOrQuarter :: "string \<Rightarrow> go_any \<Rightarrow> bool" where
  "bareIntegerMonthOrQuarter grain v =
     (case numericFilterValueInt v of
        None \<Rightarrow> False
      | Some iv \<Rightarrow>
          if grain = TimeGrainMonth then 1 \<le> iv \<and> iv \<le> 12
          else if grain = TimeGrainQuarter then 1 \<le> iv \<and> iv \<le> 4 else False)"

definition scalarFilterValues :: "Filter \<Rightarrow> go_any list option" where
  "scalarFilterValues f =
     (if isScalarCompareOp (f_Operator f) then Some [f_Value f]
      else if f_Operator f \<in> set [''between'', ''in'', ''not_in'']
      then (case f_Value f of AList vals \<Rightarrow> Some vals | _ \<Rightarrow> None)
      else None)"

definition isDayOfMonth :: "go_any \<Rightarrow> bool" where
  "isDayOfMonth v = (case numericFilterValueInt v of None \<Rightarrow> False | Some iv \<Rightarrow> 1 \<le> iv \<and> iv \<le> 31)"

definition dayGrainBareIntegerFilter :: "Dimension \<Rightarrow> Filter \<Rightarrow> bool" where
  "dayGrainBareIntegerFilter d f =
     (if dimGrain d \<noteq> TimeGrainDay then False
      else (case scalarFilterValues f of
              None \<Rightarrow> False
            | Some vals \<Rightarrow> vals \<noteq> [] \<and> list_all isDayOfMonth vals))"

definition filterTouchesField :: "Filter list \<Rightarrow> string \<Rightarrow> bool" where
  "filterTouchesField filters field = list_ex (\<lambda>f. f_Field f = field) filters"

definition grainFilterUsesDateTrunc :: "string \<Rightarrow> Dimension \<Rightarrow> Filter \<Rightarrow> bool" where
  "grainFilterUsesDateTrunc grain d f \<longleftrightarrow>
     dimGrain d = grain \<and> isScalarCompareOp (f_Operator f) \<and> calendarAnchorTime (f_Value f) \<noteq> None"

definition dayGrainFilterUsesDateTrunc :: "Dimension \<Rightarrow> Filter \<Rightarrow> bool" where
  "dayGrainFilterUsesDateTrunc = grainFilterUsesDateTrunc TimeGrainDay"

definition monthGrainFilterUsesDateTrunc :: "Dimension \<Rightarrow> Filter \<Rightarrow> bool" where
  "monthGrainFilterUsesDateTrunc = grainFilterUsesDateTrunc TimeGrainMonth"

definition quarterGrainFilterUsesDateTrunc :: "Dimension \<Rightarrow> Filter \<Rightarrow> bool" where
  "quarterGrainFilterUsesDateTrunc = grainFilterUsesDateTrunc TimeGrainQuarter"

definition hourGrainFilterUsesDateTrunc :: "Dimension \<Rightarrow> Filter \<Rightarrow> bool" where
  "hourGrainFilterUsesDateTrunc = grainFilterUsesDateTrunc TimeGrainHour"

section \<open>Dates can be read back\<close>

definition digit :: "int \<Rightarrow> char" where
  "digit n = char_of (nat (48 + n))"

definition dateText :: "int \<Rightarrow> int \<Rightarrow> int \<Rightarrow> string" where
  "dateText y m d =
     [digit (y div 1000), digit (y div 100 mod 10), digit (y div 10 mod 10), digit (y mod 10), CHR ''-'',
      digit (m div 10), digit (m mod 10), CHR ''-'', digit (d div 10), digit (d mod 10)]"

lemma digit_props:
  assumes "0 \<le> n" "n \<le> 9"
  shows "is_digit (digit n)" "digitVal (digit n) = n" "\<not> is_space (digit n)"
proof -
  have "byte (digit n) = nat (48 + n)" using assms by (simp add: digit_def take_bit_eq_mod)
  then show "is_digit (digit n)" "digitVal (digit n) = n" "\<not> is_space (digit n)"
    using assms by (auto simp: is_digit_def digitVal_def is_space_def)
qed

lemma digits4: "y div 1000 * 1000 + y div 100 mod 10 * 100 + y div 10 mod 10 * 10 + y mod 10 = (y :: int)"
proof -
  have "y div 100 = y div 10 div 10" "y div 1000 = y div 100 div 10"
    using zdiv_zmult2_eq [of 10 y 10] zdiv_zmult2_eq [of 10 y 100] by simp_all
  then show ?thesis by (simp add: minus_mult_div_eq_mod [symmetric])
qed

lemma readDate_dateText:
  assumes "0 \<le> y" "y \<le> 9999" "1 \<le> m" "m \<le> 12" "1 \<le> d" "d \<le> daysIn m y"
  shows "readDate (dateText y m d @ rest) = Some ((y, m, d), rest)"
proof -
  have d31: "d \<le> 31" using assms(6) by (simp add: daysIn_def split: if_splits)
  have year: "0 \<le> y div 1000" "y div 1000 \<le> 9" using assms by auto
  have mon: "0 \<le> m div 10" "m div 10 \<le> 9" "0 \<le> d div 10" "d div 10 \<le> 9" using assms d31 by auto
  have two: "n div 10 * 10 + n mod 10 = n" for n :: int by simp
  show ?thesis
    using assms year mon
    by (simp add: dateText_def readDate_def readMonth_def inRange_def digit_props digits4 two)
qed

lemma TrimSpace_no_outer: "\<not> is_space c \<Longrightarrow> \<not> is_space d \<Longrightarrow> TrimSpace (c # s @ [d]) = c # s @ [d]"
  by (simp add: TrimSpace_def TrimLeftFunc_def TrimRightFunc_def)

lemma TrimSpace_dateText:
  assumes "0 \<le> y" "y \<le> 9999" "0 \<le> d"
  shows "TrimSpace (dateText y m d) = dateText y m d"
proof -
  have shape: "dateText y m d = digit (y div 1000) # [digit (y div 100 mod 10), digit (y div 10 mod 10), digit (y mod 10),
      CHR ''-'', digit (m div 10), digit (m mod 10), CHR ''-'', digit (d div 10)] @ [digit (d mod 10)]"
    by (simp add: dateText_def)
  show ?thesis unfolding shape
    by (rule TrimSpace_no_outer; rule digit_props) (use assms in auto)
qed

lemma calendarAnchorTime_date:
  assumes "0 \<le> y" "y \<le> 9999" "1 \<le> m" "m \<le> 12" "1 \<le> d" "d \<le> daysIn m y"
  shows "calendarAnchorTime (AStr (dateText y m d)) = Some (midnight (y, m, d)) \<and>
    isDateOnlyCalendarValue (AStr (dateText y m d))"
proof -
  have trim: "TrimSpace (dateText y m d) = dateText y m d" using assms by (simp add: TrimSpace_dateText)
  have read: "readDate (dateText y m d) = Some ((y, m, d), [])" using readDate_dateText [OF assms, of "[]"] by simp
  have len: "length (dateText y m d) = 10" "dateText y m d \<noteq> []" by (simp_all add: dateText_def)
  have dt: "readRFC3339 (dateText y m d) = None" "readDateTime (dateText y m d) = None"
    by (simp_all add: readRFC3339_def readDateTime_def read skipBlanks_def)
  have "firstLayout layoutReaders (dateText y m d) = Some (midnight (y, m, d))"
    by (simp add: layoutReaders_def whole_def dt read)
  then show ?thesis
    using len by (simp add: calendarAnchorTime_def isDateOnlyCalendarValue_def Let_def trim whole_def read)
qed

end
