(* ===== verification/Query_Validator.thy ===== *)
theory Query_Validator
  imports Calendar_Grain
begin

text \<open>
  The query validator (\<open>internal/query/validator.go\<close>, with the year coverage rule of
  \<open>calendar_grain_filter.go\<close> and the metric registry of \<open>internal/semantic/model.go\<close>). Each check
  returns the list of errors the code appends, in the code's order. \<open>Validate\<close> also writes the row
  limit back, so it returns the query. The map of table schemas is ranged over by the code: the order
  of its keys is a parameter.

  Shown here: a query is accepted exactly when it satisfies the stated rules; an accepted query is
  bounded by the row ceiling; it cannot leave the schemas the model declares.
\<close>

section \<open>Errors\<close>

definition verr :: "string \<Rightarrow> string \<Rightarrow> string \<Rightarrow> string \<Rightarrow> string list \<Rightarrow> ValidationError" where
  "verr field code msg v allowed =
     \<lparr>ve_Field = field, ve_Code = code, ve_Message = msg, ve_Value = v, ve_AllowedAlternatives = allowed\<rparr>"

definition require :: "bool \<Rightarrow> ValidationError \<Rightarrow> ValidationError list" where
  "require b e = (if b then [] else [e])"

lemma require_Nil [simp]: "require b e = [] \<longleftrightarrow> b"
  by (simp add: require_def)

definition UnknownDimensionMsg :: "string \<Rightarrow> string" where
  "UnknownDimensionMsg name = ''unknown dimension: '' @ name"

definition UnknownMetricMsg :: "string \<Rightarrow> string" where
  "UnknownMetricMsg name = ''unknown metric: '' @ name"

definition UnknownFieldMsg :: "string \<Rightarrow> string" where
  "UnknownFieldMsg name = ''unknown field: '' @ name"

section \<open>The metric registry (model.go)\<close>

record MetricRegistry =
  byName :: "string \<rightharpoonup> Metric"
  bySynonym :: "string \<rightharpoonup> Metric"

definition registerMetric :: "MetricRegistry \<Rightarrow> Metric \<Rightarrow> MetricRegistry" where
  "registerMetric r m =
     r\<lparr>byName := (byName r)(ToLower (met_Name m) \<mapsto> m),
       bySynonym :=
         (let syn = foldl (\<lambda>f s. f(ToLower s \<mapsto> m)) (bySynonym r) (met_Synonyms m)
          in case met_Label m of None \<Rightarrow> syn | Some l \<Rightarrow> syn(ToLower l \<mapsto> m))\<rparr>"

definition NewMetricRegistry :: "Metric list \<Rightarrow> MetricRegistry" where
  "NewMetricRegistry metrics = foldl registerMetric \<lparr>byName = Map.empty, bySynonym = Map.empty\<rparr> metrics"

definition Lookup :: "MetricRegistry \<Rightarrow> string \<Rightarrow> Metric option" where
  "Lookup r name =
     (let key = ToLower (TrimSpace name) in
      case byName r key of Some m \<Rightarrow> Some m | None \<Rightarrow> bySynonym r key)"

definition Has :: "MetricRegistry \<Rightarrow> string \<Rightarrow> bool" where
  "Has r name \<longleftrightarrow> Lookup r name \<noteq> None"

section \<open>Lookup tables\<close>

definition havingOps :: "string list" where
  "havingOps = [''eq'', ''neq'', ''gt'', ''gte'', ''lt'', ''lte'', ''between'', ''is_null'', ''is_not_null'']"

definition validFilterOps :: "string list" where
  "validFilterOps = [''eq'', ''neq'', ''gt'', ''gte'', ''lt'', ''lte'', ''in'', ''not_in'', ''contains'', ''starts_with'',
     ''ends_with'', ''between'', ''is_null'', ''is_not_null'', ''is_empty'', ''is_not_empty'']"

record Validator =
  maxRows :: int

record validationLookups =
  lk_dimMap :: "string \<Rightarrow> bool"
  lk_dimTypes :: "string \<Rightarrow> string"
  lk_allowedFields :: "string \<Rightarrow> bool"
  lk_metricRegistry :: MetricRegistry
  lk_dimensionNames :: "string list"
  lk_metricNames :: "string list"
  lk_allFieldNames :: "string list"

definition newValidationLookups :: "SemanticModel \<Rightarrow> validationLookups" where
  "newValidationLookups model =
     \<lparr>lk_dimMap = (\<lambda>n. n \<in> set (map dim_Name (sm_Dimensions model))),
      lk_dimTypes = (\<lambda>n. case map_of (rev (map (\<lambda>d. (dim_Name d, ToLower (TrimSpace (dim_Type d)))) (sm_Dimensions model))) n of
                          None \<Rightarrow> [] | Some t \<Rightarrow> t),
      lk_allowedFields = (\<lambda>n. n \<in> set (map dim_Name (sm_Dimensions model)) \<union> set (map met_Name (sm_Metrics model))),
      lk_metricRegistry = NewMetricRegistry (sm_Metrics model),
      lk_dimensionNames = getDimensionNames (Some model),
      lk_metricNames = getMetricNames (Some model),
      lk_allFieldNames = getAllFieldNames (Some model)\<rparr>"

section \<open>Schema overrides\<close>

definition declaredSchemas :: "SemanticModel \<Rightarrow> string set" where
  "declaredSchemas model =
     (ToLower \<circ> TrimSpace) ` ({sm_BaseSchema model} \<union> join_FromSchema ` set (sm_Joins model) \<union>
        join_ToSchema ` set (sm_Joins model)) - {[]}"

definition checkSchema :: "SemanticModel \<Rightarrow> string \<Rightarrow> string \<Rightarrow> ValidationError list" where
  "checkSchema model field schema =
     require (TrimSpace schema = [] \<or> ToLower (TrimSpace schema) \<in> declaredSchemas model)
       (verr field ''DISALLOWED_SCHEMA'' (''schema not declared by the semantic model: '' @ schema) schema [])"

definition validateSchemaOverrides ::
  "LogicalQuery \<Rightarrow> SemanticModel \<Rightarrow> string list \<Rightarrow> ValidationError list" where
  "validateSchemaOverrides lq model order =
     (if TrimSpace (lq_DefaultSchema lq) = [] \<and> order = [] then []
      else checkSchema model ''default_schema'' (lq_DefaultSchema lq) @
        concat (map (\<lambda>tbl. checkSchema model (''table_schemas.'' @ tbl) (the (lq_TableSchemas lq tbl))) order))"

section \<open>Filters\<close>

definition dateMismatch :: "string \<Rightarrow> string \<Rightarrow> string list \<Rightarrow> ValidationError" where
  "dateMismatch msg v allowed = verr ''filters'' ''DATE_VALUE_TYPE_MISMATCH'' msg v allowed"

definition quoteChar :: string where "quoteChar = [CHR 0x22]"

definition dateValueError :: "string \<Rightarrow> string \<Rightarrow> go_any \<Rightarrow> ValidationError option" where
  "dateValueError field grain v =
     (if \<not> isNumericFilterValue v then None
      else if grain = [] then
        Some (dateMismatch
          (''filter on raw date/timestamp dimension '' @ field @ '' must use an ISO date string ('' @ quoteChar @
           ''YYYY-MM-DD'' @ quoteChar @ ''); for integer year/month/day filters use the matching *_year, *_month, or *_day grain dimension'')
          field [field @ ''_year'', field @ ''_month'', field @ ''_day''])
      else if grain = TimeGrainDay then
        (if isDayOfMonth v then None
         else Some (dateMismatch
           (''day grain filter on '' @ field @ '' accepts day-of-month integers 1-31 or ISO date strings ('' @ quoteChar @
            ''YYYY-MM-DD'' @ quoteChar @ '')'') field []))
      else if grain = TimeGrainWeek then
        Some (dateMismatch
          (''week grain filter on '' @ field @ '' must use an ISO date string ('' @ quoteChar @ ''YYYY-MM-DD'' @ quoteChar @
           '') anchoring the week; integers are not supported'') field [])
      else None)"

definition validateDateFilterValueType :: "Filter \<Rightarrow> Dimension list \<Rightarrow> ValidationError option" where
  "validateDateFilterValueType f dims =
     (case scalarFilterValues f of
        None \<Rightarrow> None
      | Some vals \<Rightarrow>
          (case find (\<lambda>d. dim_Name d = f_Field f) dims of
             None \<Rightarrow> None
           | Some d \<Rightarrow>
               if ToLower (TrimSpace (dim_Type d)) \<notin> set dateTypes then None
               else first_err (dateValueError (f_Field f) (dimGrain d)) vals))"

definition validateSubqueryFilter :: "Filter \<Rightarrow> ValidationError list" where
  "validateSubqueryFilter f =
     require (f_Operator f = ''in'' \<or> f_Operator f = ''not_in'')
       (verr ''filters.subquery'' ''INVALID_SUBQUERY_OPERATOR'' ''subquery filter requires in or not_in operator''
          (f_Operator f) [''in'', ''not_in'']) @
     (case f_Subquery f of
        None \<Rightarrow> []
      | Some sq \<Rightarrow>
          require (TrimSpace (sf_ResultField sq) \<noteq> [])
            (verr ''filters.subquery'' ''MISSING_SUBQUERY_RESULT_FIELD'' ''subquery result_field is required'' [] []) @
          require (sb_Select (sf_Body sq) \<noteq> [])
            (verr ''filters.subquery'' ''MISSING_SUBQUERY_SELECT'' ''subquery body requires select'' [] []))"

definition validateFilter :: "SemanticModel \<Rightarrow> validationLookups \<Rightarrow> string \<Rightarrow> Filter \<Rightarrow> ValidationError list" where
  "validateFilter model lk fieldPath f =
     require (lk_allowedFields lk (f_Field f))
       (verr fieldPath ''UNKNOWN_FIELD'' (UnknownFieldMsg (f_Field f)) (f_Field f)
          (suggestAlternatives (f_Field f) (lk_allFieldNames lk))) @
     require (f_Operator f \<in> set validFilterOps)
       (verr fieldPath ''INVALID_OPERATOR'' (''invalid operator: '' @ f_Operator f) (f_Operator f) validFilterOps) @
     (if f_Subquery f \<noteq> None then validateSubqueryFilter f else []) @
     (case validateDateFilterValueType f (sm_Dimensions model) of None \<Rightarrow> [] | Some e \<Rightarrow> [e])"

definition validateFilterList ::
  "Filter list \<Rightarrow> SemanticModel \<Rightarrow> validationLookups \<Rightarrow> string \<Rightarrow> ValidationError list" where
  "validateFilterList filters model lk fieldPath = concat (map (validateFilter model lk fieldPath) filters)"

definition validateFilterClauses :: "LogicalQuery \<Rightarrow> SemanticModel \<Rightarrow> validationLookups \<Rightarrow> ValidationError list" where
  "validateFilterClauses lq model lk = validateFilterList (lq_Filters lq) model lk ''filters''"

definition validateHaving :: "validationLookups \<Rightarrow> Filter \<Rightarrow> ValidationError list" where
  "validateHaving lk f =
     require (Has (lk_metricRegistry lk) (f_Field f))
       (verr ''having'' ''UNKNOWN_METRIC'' (''having field must reference a metric: '' @ f_Field f) (f_Field f)
          (suggestAlternatives (f_Field f) (lk_metricNames lk))) @
     require (f_Operator f \<in> set havingOps)
       (verr ''having'' ''INVALID_OPERATOR'' (''operator not supported in having: '' @ f_Operator f) (f_Operator f) havingOps)"

definition validateHavingClause :: "LogicalQuery \<Rightarrow> validationLookups \<Rightarrow> ValidationError list" where
  "validateHavingClause lq lk = concat (map (validateHaving lk) (lq_Having lq))"

section \<open>Order, windows, cases, formulas\<close>

definition validateOrderBy :: "validationLookups \<Rightarrow> string \<Rightarrow> OrderBy \<Rightarrow> ValidationError list" where
  "validateOrderBy lk field ob =
     require (lk_dimMap lk (ob_Field ob) \<or> Has (lk_metricRegistry lk) (ob_Field ob))
       (verr field ''UNKNOWN_FIELD'' (UnknownFieldMsg (ob_Field ob)) (ob_Field ob)
          (suggestAlternatives (ob_Field ob) (lk_allFieldNames lk))) @
     require (ob_Direction ob = [] \<or> ob_Direction ob = ''asc'' \<or> ob_Direction ob = ''desc'')
       (verr field ''INVALID_DIRECTION'' (''invalid direction: '' @ ob_Direction ob) (ob_Direction ob) [''asc'', ''desc''])"

definition validateOrderByClauses :: "OrderBy list \<Rightarrow> validationLookups \<Rightarrow> string \<Rightarrow> ValidationError list" where
  "validateOrderByClauses orderBy lk field = concat (map (validateOrderBy lk field) orderBy)"

definition aggregateWindow :: "string list" where
  "aggregateWindow = [''sum'', ''avg'', ''count'', ''min'', ''max'']"

definition analyticWindowFuncs :: "string list" where
  "analyticWindowFuncs = [''row_number'', ''rank'', ''dense_rank'', ''percent_rank'', ''cume_dist'', ''ntile'',
     ''lag'', ''lead'', ''first_value'', ''last_value'']"

definition requiresWindowOrderBy :: "string \<Rightarrow> bool" where
  "requiresWindowOrderBy agg \<longleftrightarrow> agg \<in> set [''row_number'', ''rank'', ''dense_rank'', ''percent_rank'', ''cume_dist'',
     ''ntile'', ''lag'', ''lead'', ''first_value'', ''last_value'']"

definition windowReadsValue :: "string \<Rightarrow> bool" where
  "windowReadsValue agg \<longleftrightarrow> agg \<in> set [''lag'', ''lead'', ''first_value'', ''last_value'']"

definition windowAggregationError :: "string \<Rightarrow> WindowSpec \<Rightarrow> ValidationError list" where
  "windowAggregationError agg w =
     (if agg = ''count_distinct'' then
        [verr ''select.window'' ''INVALID_WINDOW_AGGREGATION''
           ''count_distinct cannot be used as a window function; use a plain count window or a distinct subquery''
           (ws_Aggregation w) []]
      else require (agg \<in> set aggregateWindow \<or> agg \<in> set analyticWindowFuncs \<or> ws_Metric w \<noteq> [])
        (verr ''select.window'' ''INVALID_WINDOW_AGGREGATION'' (''unsupported window aggregation: '' @ ws_Aggregation w)
           (ws_Aggregation w) (aggregateWindow @ analyticWindowFuncs)))"

definition validateWindowSelect :: "SelectItem \<Rightarrow> validationLookups \<Rightarrow> ValidationError list" where
  "validateWindowSelect item lk =
     (case si_Window item of
        None \<Rightarrow> [verr ''select'' ''MISSING_WINDOW_SPEC'' (''window item missing window spec: '' @ si_Name item) [] []]
      | Some w \<Rightarrow>
          (let agg = ToLower (TrimSpace (ws_Aggregation w)) in
           require (ws_Metric w = [] \<or> Has (lk_metricRegistry lk) (ws_Metric w))
             (verr ''select.window'' ''UNKNOWN_METRIC'' (''unknown metric reference: '' @ ws_Metric w) (ws_Metric w)
                (suggestAlternatives (ws_Metric w) (lk_metricNames lk))) @
           windowAggregationError agg w @
           require (\<not> (requiresWindowOrderBy agg \<and> ws_OrderBy w = []))
             (verr ''select.window.order_by'' ''MISSING_WINDOW_ORDER_BY''
                (''window function '' @ agg @ '' requires order_by'') agg []) @
           require (\<not> (windowReadsValue agg \<and> TrimSpace (ws_Expression w) = [] \<and> ws_Expr w = NilExpr \<and>
                        TrimSpace (ws_Metric w) = []))
             (verr ''select.window'' ''MISSING_WINDOW_VALUE''
                (''window function '' @ agg @ '' requires a metric or expression to read'') agg []) @
           concat (map (\<lambda>p. require (lk_dimMap lk p)
             (verr ''select.window.partition_by'' ''UNKNOWN_DIMENSION'' (UnknownDimensionMsg p) p
                (suggestAlternatives p (lk_dimensionNames lk)))) (ws_PartitionBy w)) @
           validateOrderByClauses (ws_OrderBy w) lk ''select.window.order_by''))"

definition validateCaseThen :: "CaseThen \<Rightarrow> validationLookups \<Rightarrow> ValidationError list" where
  "validateCaseThen thn lk =
     (let t = ToLower (TrimSpace (ct_Type thn)) in
      if t = ''dimension'' \<or> t = [] then
        require (ct_Dimension thn \<noteq> [] \<and> lk_dimMap lk (ct_Dimension thn))
          (verr ''select.case'' ''UNKNOWN_DIMENSION'' (''unknown case then dimension: '' @ ct_Dimension thn)
             (ct_Dimension thn) (suggestAlternatives (ct_Dimension thn) (lk_dimensionNames lk)))
      else if t = ''literal'' then
        require (ct_Literal thn \<noteq> ANil)
          (verr ''select.case'' ''MISSING_CASE_THEN_LITERAL'' ''case then literal value required'' [] [])
      else [verr ''select.case'' ''INVALID_CASE_THEN_TYPE'' (''invalid case then type: '' @ ct_Type thn) (ct_Type thn)
              [''dimension'', ''literal'']])"

definition validateCaseBranch :: "validationLookups \<Rightarrow> nat \<times> CaseBranch \<Rightarrow> ValidationError list" where
  "validateCaseBranch lk ib =
     (case ib of (i, br) \<Rightarrow>
        require (cb_When br \<noteq> [])
          (verr ''select.case'' ''MISSING_CASE_WHEN''
             (''case branch '' @ Itoa (int i) @ '' missing when filters'') [] []) @
        validateCaseThen (cb_Then br) lk)"

definition missingName :: "SelectItem \<Rightarrow> bool" where
  "missingName item \<longleftrightarrow> TrimSpace (si_Name item) = [] \<and> TrimSpace (si_Alias item) = []"

definition validateCaseSelect :: "SelectItem \<Rightarrow> validationLookups \<Rightarrow> ValidationError list" where
  "validateCaseSelect item lk =
     (case si_Case item of
        None \<Rightarrow> [verr ''select.case'' ''MISSING_CASE_BRANCHES'' (''case item requires branches: '' @ si_Name item) [] []]
      | Some ce \<Rightarrow>
          if qc_Branches ce = []
          then [verr ''select.case'' ''MISSING_CASE_BRANCHES'' (''case item requires branches: '' @ si_Name item) [] []]
          else
            require (\<not> missingName item)
              (verr ''select.case'' ''MISSING_CASE_NAME'' ''case item requires name or alias'' [] []) @
            concat (map (validateCaseBranch lk) (enumerate 0 (qc_Branches ce))) @
            (case qc_Else ce of None \<Rightarrow> [] | Some thn \<Rightarrow> validateCaseThen thn lk))"

definition validateMeasureRef ::
  "MeasureRef \<Rightarrow> SemanticModel \<Rightarrow> validationLookups \<Rightarrow> string \<Rightarrow> ValidationError list" where
  "validateMeasureRef m model lk fieldPath =
     require (Has (lk_metricRegistry lk) (mr_Metric m))
       (verr fieldPath ''UNKNOWN_METRIC'' (UnknownMetricMsg (mr_Metric m)) (mr_Metric m)
          (suggestAlternatives (mr_Metric m) (lk_metricNames lk))) @
     validateFilterList (mr_Filters m) model lk (fieldPath @ ''.filters'')"

definition validateFormulaSelect :: "SelectItem \<Rightarrow> SemanticModel \<Rightarrow> validationLookups \<Rightarrow> ValidationError list" where
  "validateFormulaSelect item model lk =
     (case si_Formula item of
        None \<Rightarrow> [verr ''select.formula'' ''MISSING_FORMULA_SPEC'' (''formula item requires a formula spec: '' @ si_Name item) [] []]
      | Some fs \<Rightarrow>
          require (\<not> missingName item)
            (verr ''select.formula'' ''MISSING_FORMULA_NAME'' ''formula item requires name or alias'' [] []) @
          require (IsValidFormulaOp (fs_Op fs))
            (verr ''select.formula'' ''INVALID_FORMULA_OP'' (''unsupported formula op: '' @ fs_Op fs) (fs_Op fs)
               [''add'', ''subtract'', ''divide'', ''percent_of'', ''percent_change'']) @
          validateMeasureRef (fs_Left fs) model lk ''select.formula.left'' @
          validateMeasureRef (fs_Right fs) model lk ''select.formula.right'')"

section \<open>The clauses\<close>

definition validateSelectItem :: "SemanticModel \<Rightarrow> validationLookups \<Rightarrow> SelectItem \<Rightarrow> ValidationError list" where
  "validateSelectItem model lk item =
     (if si_Type item = ''dimension'' then
        require (lk_dimMap lk (si_Name item))
          (verr ''select'' ''UNKNOWN_DIMENSION'' (UnknownDimensionMsg (si_Name item)) (si_Name item)
             (suggestAlternatives (si_Name item) (lk_dimensionNames lk)))
      else if si_Type item = ''metric'' then
        require (Has (lk_metricRegistry lk) (si_Name item))
          (verr ''select'' ''UNKNOWN_METRIC'' (UnknownMetricMsg (si_Name item)) (si_Name item)
             (suggestAlternatives (si_Name item) (lk_metricNames lk))) @
        validateFilterList (si_Filters item) model lk ''select.filters''
      else if si_Type item = ''window'' then validateWindowSelect item lk
      else if si_Type item = ''case'' then validateCaseSelect item lk
      else if si_Type item = ''formula'' then validateFormulaSelect item model lk
      else [verr ''select'' ''INVALID_SELECT_TYPE'' (''invalid select type: '' @ si_Type item) (si_Type item)
              [''dimension'', ''metric'', ''window'', ''case'', ''formula'']])"

definition validateSelectItems :: "LogicalQuery \<Rightarrow> SemanticModel \<Rightarrow> validationLookups \<Rightarrow> ValidationError list" where
  "validateSelectItems lq model lk = concat (map (validateSelectItem model lk) (lq_Select lq))"

definition validateFromAndCTEs :: "LogicalQuery \<Rightarrow> ValidationError list" where
  "validateFromAndCTEs lq =
     require (\<not> (lq_FromSubquery lq \<noteq> None \<and> TrimSpace (lq_FromCTE lq) \<noteq> []))
       (verr ''from'' ''MUTUALLY_EXCLUSIVE_FROM'' ''from_subquery and from_cte are mutually exclusive'' [] []) @
     concat (map (\<lambda>cte. require (TrimSpace (cte_Name cte) \<noteq> [])
       (verr ''ctes'' ''MISSING_CTE_NAME'' ''cte name is required'' [] [])) (lq_CTEs lq)) @
     (if TrimSpace (lq_FromCTE lq) \<noteq> [] then
        require (list_ex (\<lambda>cte. cte_Name cte = lq_FromCTE lq) (lq_CTEs lq))
          (verr ''from_cte'' ''UNKNOWN_CTE'' (''from_cte must match a defined cte name: '' @ lq_FromCTE lq) (lq_FromCTE lq) [])
      else [])"

definition validateGroupBy :: "validationLookups \<Rightarrow> GroupBy \<Rightarrow> ValidationError list" where
  "validateGroupBy lk gb =
     (if \<not> lk_dimMap lk (gb_Field gb) then
        [verr ''group_by'' ''UNKNOWN_DIMENSION'' (UnknownDimensionMsg (gb_Field gb)) (gb_Field gb)
           (suggestAlternatives (gb_Field gb) (lk_dimensionNames lk))]
      else if gb_TimeGrain gb = [] then []
      else if \<not> IsValidTimeGrain (gb_TimeGrain gb) then
        [verr ''group_by.time_grain'' ''INVALID_TIME_GRAIN''
           (''invalid time_grain (expected hour|day|week|month|quarter|year): '' @ gb_TimeGrain gb) (gb_TimeGrain gb)
           [''hour'', ''day'', ''week'', ''month'', ''quarter'', ''year'']]
      else require (lk_dimTypes lk (gb_Field gb) \<in> set dateTypes)
        (verr ''group_by.time_grain'' ''TIME_GRAIN_ON_NON_DATE''
           (''time_grain only valid on date/timestamp dimensions: '' @ gb_Field gb) (gb_Field gb) []))"

definition validateGroupByClauses :: "LogicalQuery \<Rightarrow> validationLookups \<Rightarrow> ValidationError list" where
  "validateGroupByClauses lq lk = concat (map (validateGroupBy lk) (lq_GroupBy lq))"

text \<open>\<open>lq.Limit\<close> is written through the pointer, so the new query is returned.\<close>

definition validateLimitOffset :: "Validator \<Rightarrow> LogicalQuery \<Rightarrow> LogicalQuery \<times> ValidationError list" where
  "validateLimitOffset v lq =
     (let errs =
        require (0 \<le> lq_Limit lq) (verr ''limit'' ''NEGATIVE_LIMIT'' ''limit must be non-negative'' [] []) @
        require (lq_Limit lq \<le> maxRows v)
          (verr ''limit'' ''ROW_LIMIT_EXCEEDED'' (''limit exceeds maximum allowed rows ('' @ Itoa (maxRows v) @ '')'')
             (Itoa (lq_Limit lq)) []) @
        require (0 \<le> lq_Offset lq) (verr ''offset'' ''NEGATIVE_OFFSET'' ''offset must be non-negative'' [] [])
      in (if errs = [] \<and> lq_Limit lq = 0 \<and> 0 < maxRows v then lq\<lparr>lq_Limit := maxRows v\<rparr> else lq, errs))"

section \<open>Year coverage (calendar\_grain\_filter.go)\<close>

definition yearSuffix :: "string \<Rightarrow> string" where
  "yearSuffix g = (if g = TimeGrainMonth then ''_month'' else ''_quarter'')"

definition ambiguousYear :: "Filter list \<Rightarrow> (string \<rightharpoonup> Dimension) \<Rightarrow> Filter \<Rightarrow> ValidationError option" where
  "ambiguousYear filters dimByName f =
     (case dimByName (f_Field f) of
        None \<Rightarrow> None
      | Some d \<Rightarrow>
          (let g = dimGrain d in
           if \<not> isScalarCompareOp (f_Operator f) \<or> (g \<noteq> TimeGrainMonth \<and> g \<noteq> TimeGrainQuarter) \<or>
              calendarAnchorTime (f_Value f) \<noteq> None \<or> \<not> bareIntegerMonthOrQuarter g (f_Value f)
           then None
           else
             (case grainStemBeforeSuffix (f_Field f) (yearSuffix g) of
                None \<Rightarrow> None
              | Some stem \<Rightarrow>
                  (let yearField = stem @ ''_year'' in
                   if stem = [] \<or> dimByName yearField = None \<or> filterTouchesField filters yearField then None
                   else Some (verr ''filters'' ''AMBIGUOUS_YEAR_COVERAGE''
                     (''ambiguous calendar '' @ g @ '' filter on '' @ Quote (f_Field f) @
                      '' (numeric value without year): add a filter on dimension '' @ Quote yearField @
                      '' (e.g. eq 2026), or replace the '' @ Quote (f_Field f) @
                      '' filter value with an ISO calendar anchor like '' @ quoteChar @ ''2026-04-01'' @ quoteChar)
                     (f_Field f) [yearField])))))"

definition dimensionsByName :: "SemanticModel \<Rightarrow> string \<rightharpoonup> Dimension" where
  "dimensionsByName model = map_of (rev (map (\<lambda>d. (dim_Name d, d)) (sm_Dimensions model)))"

definition validateCalendarGrainYearCoverage :: "LogicalQuery \<Rightarrow> SemanticModel \<Rightarrow> ValidationError option" where
  "validateCalendarGrainYearCoverage lq model =
     first_err (ambiguousYear (lq_Filters lq) (dimensionsByName model)) (lq_Filters lq)"

section \<open>Validate\<close>

definition Validate ::
  "Validator \<Rightarrow> LogicalQuery \<Rightarrow> SemanticModel \<Rightarrow> string list \<Rightarrow> LogicalQuery \<times> ValidationError list" where
  "Validate v lq model order =
     (let lk = newValidationLookups model;
          (lq', limitErrs) = validateLimitOffset v lq
      in (lq',
          validateSelectItems lq model lk @
          validateHavingClause lq lk @
          validateFilterClauses lq model lk @
          validateFromAndCTEs lq @
          validateSchemaOverrides lq model order @
          (case validateCalendarGrainYearCoverage lq model of None \<Rightarrow> [] | Some e \<Rightarrow> [e]) @
          validateGroupByClauses lq lk @
          validateOrderByClauses (lq_OrderBy lq) lk ''order_by'' @
          limitErrs))"

section \<open>Lemmas\<close>

lemma Validate_ok:
  "Validate v lq model order = (lq', []) \<longleftrightarrow>
     (let lk = newValidationLookups model in
      validateSelectItems lq model lk = [] \<and> validateHavingClause lq lk = [] \<and>
      validateFilterClauses lq model lk = [] \<and> validateFromAndCTEs lq = [] \<and>
      validateSchemaOverrides lq model order = [] \<and> validateCalendarGrainYearCoverage lq model = None \<and>
      validateGroupByClauses lq lk = [] \<and> validateOrderByClauses (lq_OrderBy lq) lk ''order_by'' = [] \<and>
      validateLimitOffset v lq = (lq', []))"
  by (auto simp: Validate_def Let_def split: prod.splits option.splits)

lemma validateLimitOffset_ok:
  "validateLimitOffset v lq = (lq', []) \<longleftrightarrow>
     0 \<le> lq_Limit lq \<and> lq_Limit lq \<le> maxRows v \<and> 0 \<le> lq_Offset lq \<and>
     lq' = (if lq_Limit lq = 0 \<and> 0 < maxRows v then lq\<lparr>lq_Limit := maxRows v\<rparr> else lq)"
  by (auto simp: validateLimitOffset_def Let_def)

lemma map_upds_keys: "foldl (\<lambda>f s. f(ToLower s \<mapsto> m)) f0 ss k = (if k \<in> ToLower ` set ss then Some m else f0 k)"
  by (induction ss arbitrary: f0) (auto simp: fun_upd_def)

definition metricKeys :: "Metric \<Rightarrow> string set" where
  "metricKeys m = ToLower ` (insert (met_Name m) (set (met_Synonyms m) \<union> set_option (met_Label m)))"

definition registered :: "MetricRegistry \<Rightarrow> string \<Rightarrow> bool" where
  "registered r k \<longleftrightarrow> byName r k \<noteq> None \<or> bySynonym r k \<noteq> None"

lemma registered_registerMetric: "registered (registerMetric r m) k \<longleftrightarrow> k \<in> metricKeys m \<or> registered r k"
  by (cases "met_Label m") (auto simp: registered_def registerMetric_def Let_def map_upds_keys metricKeys_def)

lemma registered_fold:
  "registered (foldl registerMetric r ms) k \<longleftrightarrow> (\<exists>m\<in>set ms. k \<in> metricKeys m) \<or> registered r k"
  by (induction ms arbitrary: r) (auto simp: registered_registerMetric)

lemma Has_registered: "Has r name \<longleftrightarrow> registered r (ToLower (TrimSpace name))"
  by (auto simp: Has_def Lookup_def registered_def Let_def split: option.splits)

lemma Has_iff: "Has (NewMetricRegistry ms) name \<longleftrightarrow> (\<exists>m\<in>set ms. ToLower (TrimSpace name) \<in> metricKeys m)"
  unfolding Has_registered NewMetricRegistry_def registered_fold by (simp add: registered_def)

lemma registry_named:
  "byName (foldl registerMetric r ms) k =
     (case find (\<lambda>m. ToLower (met_Name m) = k) (rev ms) of None \<Rightarrow> byName r k | Some m \<Rightarrow> Some m)"
  by (induction ms arbitrary: r) (auto simp: registerMetric_def find_append split: option.splits)

lemma lookups_simps [simp]:
  "lk_dimMap (newValidationLookups model) n \<longleftrightarrow> n \<in> dim_Name ` set (sm_Dimensions model)"
  "lk_allowedFields (newValidationLookups model) n \<longleftrightarrow>
     n \<in> dim_Name ` set (sm_Dimensions model) \<union> met_Name ` set (sm_Metrics model)"
  "lk_metricRegistry (newValidationLookups model) = NewMetricRegistry (sm_Metrics model)"
  by (simp_all add: newValidationLookups_def)

lemma checkSchema_ok [simp]:
  "checkSchema model field s = [] \<longleftrightarrow> TrimSpace s = [] \<or> ToLower (TrimSpace s) \<in> declaredSchemas model"
  by (simp add: checkSchema_def)

lemma validateSchemaOverrides_ok:
  assumes "set order = dom (lq_TableSchemas lq)"
  shows "validateSchemaOverrides lq model order = [] \<longleftrightarrow>
    (\<forall>s\<in>insert (lq_DefaultSchema lq) (ran (lq_TableSchemas lq)).
       TrimSpace s = [] \<or> ToLower (TrimSpace s) \<in> declaredSchemas model)"
proof -
  let ?ok = "\<lambda>s. TrimSpace s = [] \<or> ToLower (TrimSpace s) \<in> declaredSchemas model"
  have ran: "ran (lq_TableSchemas lq) = (\<lambda>t. the (lq_TableSchemas lq t)) ` set order"
    unfolding assms by (force simp: ran_def dom_def)
  have "validateSchemaOverrides lq model order = [] \<longleftrightarrow>
      ?ok (lq_DefaultSchema lq) \<and> (\<forall>t\<in>set order. ?ok (the (lq_TableSchemas lq t)))"
    by (cases "order = []") (simp_all add: validateSchemaOverrides_def del: TrimSpace_eq_Nil)
  then show ?thesis unfolding ran by blast
qed

section \<open>What a query refers to\<close>

definition thenDimensions :: "CaseThen \<Rightarrow> string set" where
  "thenDimensions thn = (if ToLower (TrimSpace (ct_Type thn)) \<in> {''dimension'', []} then {ct_Dimension thn} else {})"

definition caseDimensions :: "QueryCaseExpr \<Rightarrow> string set" where
  "caseDimensions ce = (\<Union>br\<in>set (qc_Branches ce). thenDimensions (cb_Then br)) \<union> (\<Union>thn\<in>set_option (qc_Else ce). thenDimensions thn)"

definition itemDimensions :: "SelectItem \<Rightarrow> string set" where
  "itemDimensions item =
     (if si_Type item = ''dimension'' then {si_Name item}
      else if si_Type item = ''window'' then (\<Union>w\<in>set_option (si_Window item). set (ws_PartitionBy w))
      else if si_Type item = ''case'' then (\<Union>ce\<in>set_option (si_Case item). caseDimensions ce) else {})"

definition itemMetrics :: "SelectItem \<Rightarrow> string set" where
  "itemMetrics item =
     (if si_Type item = ''metric'' then {si_Name item}
      else if si_Type item = ''window'' then (\<Union>w\<in>set_option (si_Window item). {ws_Metric w} - {[]})
      else if si_Type item = ''formula'' then
        (\<Union>fs\<in>set_option (si_Formula item). {mr_Metric (fs_Left fs), mr_Metric (fs_Right fs)}) else {})"

definition itemFilters :: "SelectItem \<Rightarrow> Filter set" where
  "itemFilters item =
     (if si_Type item = ''metric'' then set (si_Filters item)
      else if si_Type item = ''formula'' then
        (\<Union>fs\<in>set_option (si_Formula item). set (mr_Filters (fs_Left fs)) \<union> set (mr_Filters (fs_Right fs))) else {})"

definition itemOrders :: "SelectItem \<Rightarrow> OrderBy set" where
  "itemOrders item = (if si_Type item = ''window'' then (\<Union>w\<in>set_option (si_Window item). set (ws_OrderBy w)) else {})"

definition dimensionRefs :: "LogicalQuery \<Rightarrow> string set" where
  "dimensionRefs lq = (\<Union>item\<in>set (lq_Select lq). itemDimensions item) \<union> gb_Field ` set (lq_GroupBy lq)"

definition metricRefs :: "LogicalQuery \<Rightarrow> string set" where
  "metricRefs lq = (\<Union>item\<in>set (lq_Select lq). itemMetrics item) \<union> f_Field ` set (lq_Having lq)"

definition filterRefs :: "LogicalQuery \<Rightarrow> Filter set" where
  "filterRefs lq = (\<Union>item\<in>set (lq_Select lq). itemFilters item) \<union> set (lq_Filters lq)"

definition orderRefs :: "LogicalQuery \<Rightarrow> OrderBy set" where
  "orderRefs lq = (\<Union>item\<in>set (lq_Select lq). itemOrders item) \<union> set (lq_OrderBy lq)"

lemma validateFilterList_ok:
  "validateFilterList fs model lk path = [] \<longleftrightarrow> (\<forall>f\<in>set fs. validateFilter model lk path f = [])"
  by (auto simp: validateFilterList_def)

lemma validateFilter_known:
  "validateFilter model lk path f = [] \<Longrightarrow> lk_allowedFields lk (f_Field f) \<and> f_Operator f \<in> set validFilterOps"
  by (simp add: validateFilter_def)

lemma validateOrderBy_ok:
  "validateOrderBy lk field ob = [] \<longleftrightarrow>
     (lk_dimMap lk (ob_Field ob) \<or> Has (lk_metricRegistry lk) (ob_Field ob)) \<and> ob_Direction ob \<in> {[], ''asc'', ''desc''}"
  by (auto simp: validateOrderBy_def)

lemma validateOrderByClauses_ok:
  "validateOrderByClauses obs lk field = [] \<longleftrightarrow> (\<forall>ob\<in>set obs. validateOrderBy lk field ob = [])"
  by (auto simp: validateOrderByClauses_def)

lemma thenDimensions_known: "validateCaseThen thn lk = [] \<Longrightarrow> d \<in> thenDimensions thn \<Longrightarrow> lk_dimMap lk d"
  by (auto simp: validateCaseThen_def thenDimensions_def Let_def split: if_splits)

lemma caseDimensions_known:
  assumes "validateCaseSelect item lk = []" "si_Case item = Some ce" "d \<in> caseDimensions ce"
  shows "lk_dimMap lk d"
proof -
  have branches: "\<forall>ib\<in>set (enumerate 0 (qc_Branches ce)). validateCaseThen (cb_Then (snd ib)) lk = []"
    and els: "\<forall>thn\<in>set_option (qc_Else ce). validateCaseThen thn lk = []"
    using assms(1,2) by (auto simp: validateCaseSelect_def validateCaseBranch_def split: if_splits option.splits prod.splits)
  have "validateCaseThen (cb_Then br) lk = []" if "br \<in> set (qc_Branches ce)" for br
  proof -
    have "set (qc_Branches ce) = snd ` set (enumerate 0 (qc_Branches ce))"
      by (metis list.set_map map_snd_enumerate)
    then show ?thesis using branches that by auto
  qed
  then show ?thesis using assms(3) els thenDimensions_known unfolding caseDimensions_def by blast
qed

lemma validateSelectItem_known:
  assumes "validateSelectItem model lk item = []"
  shows "\<forall>d\<in>itemDimensions item. lk_dimMap lk d"
    and "\<forall>m\<in>itemMetrics item. Has (lk_metricRegistry lk) m"
    and "\<forall>f\<in>itemFilters item. lk_allowedFields lk (f_Field f) \<and> f_Operator f \<in> set validFilterOps"
    and "\<forall>ob\<in>itemOrders item. validateOrderBy lk ''select.window.order_by'' ob = []"
  subgoal using assms caseDimensions_known [of item lk]
    by (auto simp: validateSelectItem_def itemDimensions_def validateWindowSelect_def Let_def split: if_splits option.splits)
  subgoal using assms
    by (auto simp: validateSelectItem_def itemMetrics_def validateWindowSelect_def validateFormulaSelect_def
        validateMeasureRef_def Let_def split: if_splits option.splits)
  subgoal using assms
    by (auto simp: validateSelectItem_def itemFilters_def validateFormulaSelect_def validateMeasureRef_def
        validateFilterList_ok dest!: validateFilter_known bspec split: if_splits option.splits)
  subgoal using assms
    by (auto simp: validateSelectItem_def itemOrders_def validateWindowSelect_def validateOrderByClauses_ok Let_def
        split: if_splits option.splits)
  done

definition schemaDeclared :: "SemanticModel \<Rightarrow> string \<Rightarrow> bool" where
  "schemaDeclared model s \<longleftrightarrow> s = sm_BaseSchema model \<or> ToLower s \<in> declaredSchemas model"

definition resolverConfined :: "SemanticModel \<Rightarrow> SchemaResolver \<Rightarrow> bool" where
  "resolverConfined model r \<longleftrightarrow>
     modelBaseSchema r = sm_BaseSchema model \<and>
     (defaultSchema r = [] \<or> ToLower (defaultSchema r) \<in> declaredSchemas model) \<and>
     (\<forall>t s. tableSchemas r t = Some s \<longrightarrow> ToLower s \<in> declaredSchemas model)"

lemma resolver_confined:
  assumes "set order = dom (lq_TableSchemas lq)" and "validateSchemaOverrides lq model order = []"
  shows "resolverConfined model (NewSchemaResolver model (Some lq))"
    and "resolverConfined model (NewSchemaResolver model (Some (lq\<lparr>lq_Limit := n\<rparr>)))"
  using assms(2) unfolding validateSchemaOverrides_ok [OF assms(1)]
  by (auto simp: resolverConfined_def NewSchemaResolver_def ran_def simp del: TrimSpace_eq_Nil
      split: option.splits if_splits)

lemma ParseColumnRef_schema:
  "ParseColumnRef ref s = Some p \<Longrightarrow> splitDot ref = [pc_Schema p, pc_Table p, pc_Column p] \<or> pc_Schema p = s"
  by (auto simp: ParseColumnRef_def split: list.splits)

section \<open>Examples\<close>

definition example_validator :: Validator where "example_validator = \<lparr>maxRows = 1000\<rparr>"

definition example_accepted :: LogicalQuery where
  "example_accepted = example_query\<lparr>lq_GroupBy := [\<lparr>gb_Field = ''status'', gb_TimeGrain = []\<rparr>], lq_Limit := 0,
     lq_OrderBy := [\<lparr>ob_Field = ''revenue'', ob_Direction = ''desc''\<rparr>], lq_DefaultSchema := ''PUBLIC '',
     lq_TableSchemas := [''customers'' \<mapsto> '' public'']\<rparr>"

lemma fst_Validate: "fst (Validate v lq model order) = fst (validateLimitOffset v lq)"
  by (simp add: Validate_def Let_def split_beta)

lemma example_Validate:
  "Validate example_validator example_accepted example_model [''customers''] = (example_accepted\<lparr>lq_Limit := 1000\<rparr>, [])"
proof -
  have "snd (Validate example_validator example_accepted example_model [''customers'']) = []" by code_simp
  moreover have "fst (Validate example_validator example_accepted example_model [''customers'']) = example_accepted\<lparr>lq_Limit := 1000\<rparr>"
    unfolding fst_Validate
    by (simp add: validateLimitOffset_def example_validator_def example_accepted_def example_query_def Let_def require_def)
  ultimately show ?thesis by (simp add: prod_eq_iff)
qed

section \<open>Properties\<close>




text \<open>No accepted query is unbounded: after validation the limit is between zero and the row ceiling
  and positive whenever there is a ceiling, the offset is not negative, and nothing but an omitted
  limit has changed.\<close>

theorem Validate_bounds_rows:
  assumes "Validate v lq model order = (lq', [])"
  shows "0 \<le> lq_Limit lq' \<and> lq_Limit lq' \<le> maxRows v \<and> 0 \<le> lq_Offset lq' \<and>
    (0 < lq_Limit lq' \<or> maxRows v = 0) \<and> lq' = lq\<lparr>lq_Limit := lq_Limit lq'\<rparr> \<and>
    (lq_Limit lq' = lq_Limit lq \<or> lq_Limit lq = 0 \<and> lq_Limit lq' = maxRows v)"
  using assms by (auto simp: Validate_ok Let_def validateLimitOffset_ok)

theorem Validate_bounds_rows_witness:
  "0 < lq_Limit (example_accepted\<lparr>lq_Limit := 1000\<rparr>) \<and> lq_Limit (example_accepted\<lparr>lq_Limit := 1000\<rparr>) \<le> maxRows example_validator"
  using Validate_bounds_rows [OF example_Validate] by simp


text \<open>An accepted query stays in the schemas of its model: whatever default schema and table
  schemas it asks for, every table is resolved to the base schema of the model or to a schema the
  model declares for itself or one of its joins, and so is every column reference that does not spell
  its schema out.\<close>

theorem Validate_confines_schemas:
  assumes "Validate v lq model order = (lq', [])" and "set order = dom (lq_TableSchemas lq)"
    and "r = NewSchemaResolver model (Some lq')"
  shows "schemaDeclared model (SchemaForTable r table) \<and>
    (\<forall>ref p. resolverParse r ref = Some p \<longrightarrow>
       splitDot ref = [pc_Schema (applyOverride r p), pc_Table p, pc_Column p] \<or>
       schemaDeclared model (pc_Schema (applyOverride r p)))"
proof -
  have "validateSchemaOverrides lq model order = []" "validateLimitOffset v lq = (lq', [])"
    using assms(1) by (simp_all add: Validate_ok Let_def)
  then have r: "resolverConfined model r"
    using resolver_confined [OF assms(2)] assms(3) by (auto simp: validateLimitOffset_ok)
  then have "schemaDeclared model (EffectiveDefaultSchema r)"
    by (auto simp: resolverConfined_def EffectiveDefaultSchema_def schemaDeclared_def)
  moreover from this r have "schemaDeclared model (SchemaForTable r table)"
    by (auto simp: resolverConfined_def SchemaForTable_def schemaDeclared_def split: option.splits)
  ultimately show ?thesis
    using r by (auto simp: resolverParse_def applyOverride_def resolverConfined_def schemaDeclared_def
        dest!: ParseColumnRef_schema split: option.splits)
qed

theorem Validate_confines_schemas_witness:
  "schemaDeclared example_model
     (SchemaForTable (NewSchemaResolver example_model (Some (example_accepted\<lparr>lq_Limit := 1000\<rparr>))) ''customers'')"
proof -
  have "set [''customers''] = dom (lq_TableSchemas example_accepted)" by (simp add: example_accepted_def)
  from Validate_confines_schemas [OF example_Validate this refl] show ?thesis by blast
qed


text \<open>The bodies of CTEs and of a FROM subquery are not validated: replacing them by any other bodies
  changes nothing in what the validator reports.\<close>

theorem Validate_ignores_nested_bodies:
  assumes "map cte_Name ctes = map cte_Name (lq_CTEs lq)" and "(sub = None) = (lq_FromSubquery lq = None)"
  shows "snd (Validate v (lq\<lparr>lq_CTEs := ctes, lq_FromSubquery := sub\<rparr>) model order) = snd (Validate v lq model order)"
proof -
  let ?q = "lq\<lparr>lq_CTEs := ctes, lq_FromSubquery := sub\<rparr>"
  have names: "map (\<lambda>cte. require (TrimSpace (cte_Name cte) \<noteq> []) e) ctes =
      map (\<lambda>cte. require (TrimSpace (cte_Name cte) \<noteq> []) e) (lq_CTEs lq)" for e
    using arg_cong [OF assms(1), of "map (\<lambda>n. require (TrimSpace n \<noteq> []) e)"] by (simp add: comp_def)
  have "list_ex (\<lambda>cte. cte_Name cte = n) ctes = list_ex (\<lambda>n'. n' = n) (map cte_Name ctes)" for n
    by (auto simp: list_ex_iff)
  then have found: "list_ex (\<lambda>cte. cte_Name cte = n) ctes = list_ex (\<lambda>cte. cte_Name cte = n) (lq_CTEs lq)" for n
    unfolding assms(1) by (auto simp: list_ex_iff)
  have "validateFromAndCTEs ?q = validateFromAndCTEs lq"
    using assms(2) by (simp add: validateFromAndCTEs_def names found del: TrimSpace_eq_Nil)
  moreover have "snd (validateLimitOffset v ?q) = snd (validateLimitOffset v lq)"
    by (simp add: validateLimitOffset_def Let_def)
  ultimately show ?thesis
    by (simp add: Validate_def Let_def split_beta validateSelectItems_def validateHavingClause_def
        validateFilterClauses_def validateSchemaOverrides_def validateCalendarGrainYearCoverage_def
        validateGroupByClauses_def)
qed

theorem Validate_ignores_nested_bodies_witness:
  "snd (Validate example_validator (example_accepted\<lparr>lq_CTEs := [], lq_FromSubquery := None\<rparr>) example_model [''customers'']) = []"
proof -
  have "map cte_Name [] = map cte_Name (lq_CTEs example_accepted)" "(None = None) = (lq_FromSubquery example_accepted = None)"
    by (simp_all add: example_accepted_def example_query_def)
  from Validate_ignores_nested_bodies [OF this, of example_validator example_model "[''customers'']"]
  show ?thesis by (simp add: example_Validate)
qed

end
