(* ===== verification/Join_Paths.thy ===== *)
theory Join_Paths
  imports Query_Planning
begin

text \<open>
  Which joins a statement needs (\<open>determineJoins\<close> and \<open>buildJoins\<close> of \<open>internal/query/compiler.go\<close>): the
  tables a query refers to, a breadth-first search from the base table over the join graph, the joins
  on the paths found, and the JOIN clauses in the order of discovery.

  A set of table keys is the list of its members in the order in which they were added. The maps
  \<open>visited\<close> and \<open>parent\<close> of the search always get the same keys at the same time and are one association
  list; \<open>joinFirst\<close> holds the members of \<open>joinDiscovery\<close>. Ranging over the needed tables happens in an
  order that is a parameter.

  Shown here: the search ends and finds exactly the tables the join graph connects to the base table;
  the clauses can be read from left to right, each one joining a new table to a table already there;
  and every table the query needs is either joined or reported as unreachable.
\<close>

section \<open>Tables of a query\<close>

definition addTableFromColumnRef :: "SchemaResolver \<Rightarrow> string \<Rightarrow> string list \<Rightarrow> string list" where
  "addTableFromColumnRef r colRef tables =
     (case resolverParse r colRef of
        Some p \<Rightarrow> append_new tables (TableKey (pc_Schema p) (pc_Table p))
      | None \<Rightarrow> tables)"

definition addDimensionTable :: "(string \<rightharpoonup> Dimension) \<Rightarrow> SchemaResolver \<Rightarrow> string \<Rightarrow> string list \<Rightarrow> string list" where
  "addDimensionTable dimMap r field tables =
     (case dimMap field of Some d \<Rightarrow> addTableFromColumnRef r (dim_ColumnRef d) tables | None \<Rightarrow> tables)"

definition addMetricTable :: "(string \<rightharpoonup> Metric) \<Rightarrow> SchemaResolver \<Rightarrow> string \<Rightarrow> string list \<Rightarrow> string list" where
  "addMetricTable metricMap r field tables =
     (case metricMap field of Some m \<Rightarrow> addTableFromColumnRef r (met_Expression m) tables | None \<Rightarrow> tables)"

definition addTableForField ::
  "(string \<rightharpoonup> Dimension) \<Rightarrow> (string \<rightharpoonup> Metric) \<Rightarrow> SchemaResolver \<Rightarrow> string \<Rightarrow> string list \<Rightarrow> string list" where
  "addTableForField dimMap metricMap r field tables =
     addMetricTable metricMap r field (addDimensionTable dimMap r field tables)"

definition addTablesFromWindowSelect ::
  "(string \<rightharpoonup> Dimension) \<Rightarrow> (string \<rightharpoonup> Metric) \<Rightarrow> SchemaResolver \<Rightarrow> WindowSpec option \<Rightarrow> string list \<Rightarrow> string list" where
  "addTablesFromWindowSelect dimMap metricMap r w tables =
     (case w of
        None \<Rightarrow> tables
      | Some w \<Rightarrow>
          (let t1 = (if ws_Metric w \<noteq> [] then addMetricTable metricMap r (ws_Metric w) tables else tables);
               t2 = (if ws_Expression w \<noteq> [] then addTableFromColumnRef r (ws_Expression w) t1 else t1);
               t3 = fold (addDimensionTable dimMap r) (ws_PartitionBy w) t2
           in fold (\<lambda>ob. addTableForField dimMap metricMap r (ob_Field ob)) (ws_OrderBy w) t3))"

definition addTablesFromSelectItem ::
  "(string \<rightharpoonup> Dimension) \<Rightarrow> (string \<rightharpoonup> Metric) \<Rightarrow> SchemaResolver \<Rightarrow> SelectItem \<Rightarrow> string list \<Rightarrow> string list" where
  "addTablesFromSelectItem dimMap metricMap r item tables =
     (if si_Type item = ''dimension'' then addDimensionTable dimMap r (si_Name item) tables
      else if si_Type item = ''metric'' then addMetricTable metricMap r (si_Name item) tables
      else if si_Type item = ''window'' then addTablesFromWindowSelect dimMap metricMap r (si_Window item) tables
      else tables)"

definition addTablesFromSelectItems ::
  "(string \<rightharpoonup> Dimension) \<Rightarrow> (string \<rightharpoonup> Metric) \<Rightarrow> SchemaResolver \<Rightarrow> SelectItem list \<Rightarrow> string list \<Rightarrow> string list" where
  "addTablesFromSelectItems dimMap metricMap r items = fold (addTablesFromSelectItem dimMap metricMap r) items"

definition addTablesFromHaving ::
  "(string \<rightharpoonup> Metric) \<Rightarrow> SchemaResolver \<Rightarrow> Filter list \<Rightarrow> string list \<Rightarrow> string list" where
  "addTablesFromHaving metricMap r having = fold (\<lambda>f. addMetricTable metricMap r (f_Field f)) having"

definition addTablesFromFilters ::
  "(string \<rightharpoonup> Dimension) \<Rightarrow> (string \<rightharpoonup> Metric) \<Rightarrow> SchemaResolver \<Rightarrow> Filter list \<Rightarrow> string list \<Rightarrow> string list" where
  "addTablesFromFilters dimMap metricMap r filters =
     fold (\<lambda>f. addTableForField dimMap metricMap r (f_Field f)) filters"

definition addTablesFromGroupBy ::
  "(string \<rightharpoonup> Dimension) \<Rightarrow> SchemaResolver \<Rightarrow> GroupBy list \<Rightarrow> string list \<Rightarrow> string list" where
  "addTablesFromGroupBy dimMap r groupBy = fold (\<lambda>gb. addDimensionTable dimMap r (gb_Field gb)) groupBy"

definition addTablesFromOrderBy ::
  "(string \<rightharpoonup> Dimension) \<Rightarrow> (string \<rightharpoonup> Metric) \<Rightarrow> SchemaResolver \<Rightarrow> OrderBy list \<Rightarrow> string list \<Rightarrow> string list" where
  "addTablesFromOrderBy dimMap metricMap r orderBy =
     fold (\<lambda>ob. addTableForField dimMap metricMap r (ob_Field ob)) orderBy"

definition tablesReferencedInLogicalQuery ::
  "LogicalQuery \<Rightarrow> SemanticModel \<Rightarrow> (string \<rightharpoonup> Dimension) \<Rightarrow> (string \<rightharpoonup> Metric) \<Rightarrow> SchemaResolver \<Rightarrow> string list" where
  "tablesReferencedInLogicalQuery lq model dimMap metricMap r =
     (addTablesFromOrderBy dimMap metricMap r (lq_OrderBy lq) \<circ>
      addTablesFromGroupBy dimMap r (lq_GroupBy lq) \<circ>
      addTablesFromFilters dimMap metricMap r (lq_Filters lq) \<circ>
      addTablesFromHaving metricMap r (lq_Having lq) \<circ>
      addTablesFromSelectItems dimMap metricMap r (lq_Select lq))
     [TableKey (sm_BaseSchema model) (sm_BaseTable model)]"

section \<open>The search\<close>

record joinNeighbor =
  jn_table :: string
  jn_joinName :: string

definition fromKey :: "SchemaResolver \<Rightarrow> Join \<Rightarrow> string" where
  "fromKey r j = JoinSideKey r (join_FromSchema j) (join_FromTable j)"

definition toKey :: "SchemaResolver \<Rightarrow> Join \<Rightarrow> string" where
  "toKey r j = JoinSideKey r (join_ToSchema j) (join_ToTable j)"

definition joinNeighbors :: "SchemaResolver \<Rightarrow> Join list \<Rightarrow> string \<Rightarrow> joinNeighbor list" where
  "joinNeighbors r js u =
     concat (map (\<lambda>j.
       (if fromKey r j = u then [\<lparr>jn_table = toKey r j, jn_joinName = join_Name j\<rparr>] else []) @
       (if toKey r j = u then [\<lparr>jn_table = fromKey r j, jn_joinName = join_Name j\<rparr>] else [])) js)"

record bfs =
  bfs_queue :: "string list"
  bfs_parent :: "(string \<times> string \<times> string) list"
  bfs_discovery :: "string list"

text \<open>The body of the inner loop, for one neighbour of \<open>u\<close>.\<close>

definition bfsVisit :: "string \<Rightarrow> joinNeighbor \<Rightarrow> bfs \<Rightarrow> bfs" where
  "bfsVisit u nb s =
     (if jn_table nb \<in> fst ` set (bfs_parent s) then s
      else s\<lparr>bfs_parent := bfs_parent s @ [(jn_table nb, u, jn_joinName nb)],
             bfs_discovery := append_new (bfs_discovery s) (jn_joinName nb),
             bfs_queue := bfs_queue s @ [jn_table nb]\<rparr>)"

definition bfsStep :: "(string \<Rightarrow> joinNeighbor list) \<Rightarrow> bfs \<Rightarrow> bfs" where
  "bfsStep nbs s =
     (case bfs_queue s of
        [] \<Rightarrow> s
      | u # rest \<Rightarrow> fold (bfsVisit u) (nbs u) (s\<lparr>bfs_queue := rest\<rparr>))"

definition joinTables :: "SchemaResolver \<Rightarrow> Join list \<Rightarrow> string set" where
  "joinTables r js = fromKey r ` set js \<union> toKey r ` set js"

definition unvisited :: "SchemaResolver \<Rightarrow> Join list \<Rightarrow> bfs \<Rightarrow> nat" where
  "unvisited r js s = card (joinTables r js - fst ` set (bfs_parent s))"

lemma neighbor_table: "nb \<in> set (joinNeighbors r js u) \<Longrightarrow> jn_table nb \<in> joinTables r js"
  by (auto simp: joinNeighbors_def joinTables_def split: if_splits)

lemma finite_joinTables [simp]: "finite (joinTables r js)"
  by (simp add: joinTables_def)

lemma bfsVisit_measure:
  assumes "jn_table nb \<in> joinTables r js"
  shows "unvisited r js (bfsVisit u nb s) + length (bfs_queue (bfsVisit u nb s)) \<le> unvisited r js s + length (bfs_queue s)"
proof (cases "jn_table nb \<in> fst ` set (bfs_parent s)")
  case False
  let ?A = "joinTables r js - fst ` set (bfs_parent s)"
  have "card (?A - {jn_table nb}) = card ?A - 1" "0 < card ?A"
    using assms False by (auto simp: card_gt_0_iff)
  moreover have "joinTables r js - fst ` set (bfs_parent (bfsVisit u nb s)) = ?A - {jn_table nb}"
    using False by (auto simp: bfsVisit_def)
  ultimately show ?thesis using False by (simp add: unvisited_def bfsVisit_def)
qed (simp add: bfsVisit_def)

lemma bfs_fold_measure:
  "set nbs \<subseteq> {nb. jn_table nb \<in> joinTables r js} \<Longrightarrow>
   unvisited r js (fold (bfsVisit u) nbs s) + length (bfs_queue (fold (bfsVisit u) nbs s)) \<le>
   unvisited r js s + length (bfs_queue s)"
proof (induction nbs arbitrary: s)
  case (Cons nb nbs)
  have "unvisited r js (bfsVisit u nb s) + length (bfs_queue (bfsVisit u nb s)) \<le> unvisited r js s + length (bfs_queue s)"
    using Cons.prems by (intro bfsVisit_measure) auto
  then show ?case using Cons.IH [of "bfsVisit u nb s"] Cons.prems by simp
qed simp

function bfsLoop :: "SchemaResolver \<Rightarrow> Join list \<Rightarrow> bfs \<Rightarrow> bfs" where
  "bfsLoop r js s = (if bfs_queue s = [] then s else bfsLoop r js (bfsStep (joinNeighbors r js) s))"
  by pat_completeness auto
termination
proof (relation "measure (\<lambda>(r, js, s). unvisited r js s + length (bfs_queue s))")
  fix r js and s :: bfs
  assume "bfs_queue s \<noteq> []"
  then obtain u rest where q: "bfs_queue s = u # rest" by (cases "bfs_queue s") auto
  have nbs: "set (joinNeighbors r js u) \<subseteq> {nb. jn_table nb \<in> joinTables r js}" using neighbor_table by auto
  show "((r, js, bfsStep (joinNeighbors r js) s), r, js, s) \<in> measure (\<lambda>(r, js, s). unvisited r js s + length (bfs_queue s))"
    using bfs_fold_measure [OF nbs, of u "s\<lparr>bfs_queue := rest\<rparr>"] by (simp add: bfsStep_def q unvisited_def)
qed simp

declare bfsLoop.simps [simp del]

definition bfsFrom :: "SchemaResolver \<Rightarrow> Join list \<Rightarrow> string \<Rightarrow> bfs" where
  "bfsFrom r js base = bfsLoop r js \<lparr>bfs_queue = [base], bfs_parent = [(base, [], [])], bfs_discovery = []\<rparr>"

text \<open>The loop that walks from a table back to the base table. The length of the walk is bounded by the
  number of visited tables; \<open>None\<close> would be a longer walk.\<close>

primrec pathJoins :: "nat \<Rightarrow> (string \<rightharpoonup> string \<times> string) \<Rightarrow> string \<Rightarrow> string \<Rightarrow> string list option" where
  "pathJoins 0 parent base cur = None"
| "pathJoins (Suc n) parent base cur =
     (if cur = base \<or> cur = [] then Some []
      else
        (case parent cur of
           None \<Rightarrow> Some []
         | Some (prev, join) \<Rightarrow>
             if join = [] then Some [] else map_option ((#) join) (pathJoins n parent base prev)))"

fun requiredJoins :: "bfs \<Rightarrow> string \<Rightarrow> string list \<Rightarrow> string set option" where
  "requiredJoins s base [] = Some {}"
| "requiredJoins s base (t # ts) =
     (case (pathJoins (Suc (length (bfs_parent s))) (map_of (bfs_parent s)) base t, requiredJoins s base ts) of
        (Some path, Some others) \<Rightarrow> Some (set path \<union> others)
      | _ \<Rightarrow> None)"

text \<open>\<open>order\<close> lists the needed tables in the order of the range loop.\<close>

definition determineJoins ::
  "LogicalQuery \<Rightarrow> SemanticModel \<Rightarrow> (string \<rightharpoonup> Dimension) \<Rightarrow> (string \<rightharpoonup> Metric) \<Rightarrow> SchemaResolver \<Rightarrow>
   (string list \<Rightarrow> string list) \<Rightarrow> (string list \<times> string list) option" where
  "determineJoins lq model dimMap metricMap r order =
     (let needed = order (tablesReferencedInLogicalQuery lq model dimMap metricMap r);
          base = TableKey (sm_BaseSchema model) (sm_BaseTable model);
          others = filter (\<lambda>t. t \<noteq> base) needed
      in if sm_Joins model = [] then Some ([], others)
         else
           (let s = bfsFrom r (sm_Joins model) base;
                reached = (\<lambda>t. t \<in> fst ` set (bfs_parent s))
            in case requiredJoins s base (filter reached others) of
                 None \<Rightarrow> None
               | Some required \<Rightarrow>
                   Some (filter (\<lambda>jn. jn \<in> required) (bfs_discovery s), filter (\<lambda>t. \<not> reached t) others)))"

section \<open>Join clauses\<close>

text \<open>A join as it is written: the table \<open>oj_to\<close> is joined to \<open>oj_from\<close>.\<close>

record join_side =
  js_schema :: string
  js_table :: string
  js_column :: string
  js_key :: string

record oriented_join =
  oj_type :: string
  oj_from :: join_side
  oj_to :: join_side

definition fromSide :: "SchemaResolver \<Rightarrow> Join \<Rightarrow> join_side" where
  "fromSide r j = \<lparr>js_schema = join_FromSchema j, js_table = join_FromTable j, js_column = join_FromColumn j, js_key = fromKey r j\<rparr>"

definition toSide :: "SchemaResolver \<Rightarrow> Join \<Rightarrow> join_side" where
  "toSide r j = \<lparr>js_schema = join_ToSchema j, js_table = join_ToTable j, js_column = join_ToColumn j, js_key = toKey r j\<rparr>"

definition joinTypeSQL :: "Join \<Rightarrow> string" where
  "joinTypeSQL j = (if ToUpper (join_JoinType j) = [] then ''LEFT'' else ToUpper (join_JoinType j))"

text \<open>The loop over the join names; \<open>inSet\<close> holds the tables written so far. A join whose two tables are
  both there is left out, one that is there only on its \<open>to\<close> side is turned around.\<close>

fun orientJoins :: "SchemaResolver \<Rightarrow> (string \<rightharpoonup> Join) \<Rightarrow> string list \<Rightarrow> string list \<Rightarrow> oriented_join list" where
  "orientJoins r joinMap inSet [] = []"
| "orientJoins r joinMap inSet (name # names) =
     (case joinMap name of
        None \<Rightarrow> orientJoins r joinMap inSet names
      | Some j \<Rightarrow>
          if toKey r j \<in> set inSet \<and> fromKey r j \<in> set inSet then orientJoins r joinMap inSet names
          else if toKey r j \<in> set inSet then
            \<lparr>oj_type = joinTypeSQL j, oj_from = toSide r j, oj_to = fromSide r j\<rparr> #
            orientJoins r joinMap (fromKey r j # inSet) names
          else
            \<lparr>oj_type = joinTypeSQL j, oj_from = fromSide r j, oj_to = toSide r j\<rparr> #
            orientJoins r joinMap (toKey r j # inSet) names)"

definition sideSQL :: "Dialect \<Rightarrow> SchemaResolver \<Rightarrow> join_side \<Rightarrow> string" where
  "sideSQL d r side = QualifyTable r d (js_schema side) (js_table side)"

definition joinClauseSQL :: "Dialect \<Rightarrow> SchemaResolver \<Rightarrow> oriented_join \<Rightarrow> string" where
  "joinClauseSQL d r oj =
     oj_type oj @ '' JOIN '' @ sideSQL d r (oj_to oj) @
     '' ON '' @ sideSQL d r (oj_from oj) @ ''.'' @ QuoteIdentSegment (d_base d) (js_column (oj_from oj)) @
     '' = '' @ sideSQL d r (oj_to oj) @ ''.'' @ QuoteIdentSegment (d_base d) (js_column (oj_to oj))"

definition buildJoins ::
  "Dialect \<Rightarrow> string list \<Rightarrow> (string \<rightharpoonup> Join) \<Rightarrow> SemanticModel \<Rightarrow> SchemaResolver \<Rightarrow> string list" where
  "buildJoins d joinNames joinMap model r =
     map (joinClauseSQL d r) (orientJoins r joinMap [TableKey (sm_BaseSchema model) (sm_BaseTable model)] joinNames)"

section \<open>The search tree\<close>

definition joinsTables :: "SchemaResolver \<Rightarrow> Join list \<Rightarrow> string \<Rightarrow> string \<Rightarrow> string \<Rightarrow> bool" where
  "joinsTables r js name u v \<longleftrightarrow>
     (\<exists>j\<in>set js. join_Name j = name \<and> (fromKey r j = u \<and> toKey r j = v \<or> fromKey r j = v \<and> toKey r j = u))"

definition joinGraph :: "SchemaResolver \<Rightarrow> Join list \<Rightarrow> (string \<times> string) set" where
  "joinGraph r js = {(u, v). \<exists>name. joinsTables r js name u v}"

lemma joinNeighbors_iff: "nb \<in> set (joinNeighbors r js u) \<longleftrightarrow> joinsTables r js (jn_joinName nb) u (jn_table nb)"
proof -
  have "nb = \<lparr>jn_table = jn_table nb, jn_joinName = jn_joinName nb\<rparr>" by simp
  then show ?thesis
    unfolding joinNeighbors_def joinsTables_def
    by (auto split: if_splits) (metis joinNeighbor.surjective old.unit.exhaust)+
qed

lemma joinGraph_neighbors: "(u, v) \<in> joinGraph r js \<longleftrightarrow> v \<in> jn_table ` set (joinNeighbors r js u)"
proof
  assume "(u, v) \<in> joinGraph r js"
  then obtain name where "joinsTables r js name u v" by (auto simp: joinGraph_def)
  then have "\<lparr>jn_table = v, jn_joinName = name\<rparr> \<in> set (joinNeighbors r js u)" by (simp add: joinNeighbors_iff)
  then show "v \<in> jn_table ` set (joinNeighbors r js u)" by force
qed (auto simp: joinNeighbors_iff joinGraph_def)

text \<open>The tables found so far, each with the table and the join it was found by, in the order of
  discovery.\<close>

inductive search_tree :: "SchemaResolver \<Rightarrow> Join list \<Rightarrow> string \<Rightarrow> (string \<times> string \<times> string) list \<Rightarrow> bool"
  for r js base where
  tree_base: "search_tree r js base []"
| tree_found: "search_tree r js base T \<Longrightarrow> u \<in> insert base (fst ` set T) \<Longrightarrow> v \<notin> insert base (fst ` set T) \<Longrightarrow>
    joinsTables r js name u v \<Longrightarrow> search_tree r js base (T @ [(v, u, name)])"

lemma search_tree_entry:
  "search_tree r js base T \<Longrightarrow> (v, u, name) \<in> set T \<Longrightarrow>
   joinsTables r js name u v \<and> u \<in> insert base (fst ` set T) \<and> v \<noteq> base"
  by (induction rule: search_tree.induct) auto

lemma joinsTables_unique:
  assumes "distinct (map join_Name js)" "joinsTables r js name u v" "joinsTables r js name u' v'"
  shows "{u, v} = {u', v'}"
proof -
  obtain j where j: "j \<in> set js" "join_Name j = name" "{fromKey r j, toKey r j} = {u, v}"
    using assms(2) unfolding joinsTables_def by blast
  obtain j' where j': "j' \<in> set js" "join_Name j' = name" "{fromKey r j', toKey r j'} = {u', v'}"
    using assms(3) unfolding joinsTables_def by blast
  have "inj_on join_Name (set js)" using assms(1) by (simp add: distinct_map)
  with j j' have "j = j'" by (auto dest: inj_onD)
  with j j' show ?thesis by simp
qed

lemma search_tree_new_name:
  assumes "distinct (map join_Name js)" "search_tree r js base T"
    and "v \<notin> insert base (fst ` set T)" "joinsTables r js name u v"
  shows "name \<notin> snd ` snd ` set T"
proof
  assume "name \<in> snd ` snd ` set T"
  then obtain v' u' where entry: "(v', u', name) \<in> set T" by force
  then have "joinsTables r js name u' v'" "u' \<in> insert base (fst ` set T)" "v' \<in> fst ` set T"
    using search_tree_entry [OF assms(2)] by force+
  moreover from this have "{u, v} = {u', v'}" using joinsTables_unique [OF assms(1,4)] by blast
  ultimately show False using assms(3) by blast
qed

section \<open>Correctness of the search\<close>

text \<open>The state of the search: its tables form a search tree, the queue holds tables of the tree, and
  the joins were discovered in the order of the tree.\<close>

definition searching :: "SchemaResolver \<Rightarrow> Join list \<Rightarrow> string \<Rightarrow> bfs \<Rightarrow> bool" where
  "searching r js base s \<longleftrightarrow>
     (\<exists>T. bfs_parent s = (base, [], []) # T \<and> search_tree r js base T \<and> bfs_discovery s = map (snd \<circ> snd) T) \<and>
     set (bfs_queue s) \<subseteq> fst ` set (bfs_parent s)"

lemma searching_visit:
  assumes "distinct (map join_Name js)" "searching r js base s" "u \<in> fst ` set (bfs_parent s)"
    and "nb \<in> set (joinNeighbors r js u)"
  shows "searching r js base (bfsVisit u nb s)"
proof (cases "jn_table nb \<in> fst ` set (bfs_parent s)")
  case True
  then show ?thesis using assms(2) by (simp add: bfsVisit_def)
next
  case False
  obtain T where T: "bfs_parent s = (base, [], []) # T" "search_tree r js base T" "bfs_discovery s = map (snd \<circ> snd) T"
    using assms(2) by (auto simp: searching_def)
  have edge: "joinsTables r js (jn_joinName nb) u (jn_table nb)" using assms(4) by (simp add: joinNeighbors_iff)
  have new: "jn_table nb \<notin> insert base (fst ` set T)" using False T(1) by simp
  have "search_tree r js base (T @ [(jn_table nb, u, jn_joinName nb)])"
    using assms(3) T(1,2) new edge by (intro tree_found) auto
  moreover have "jn_joinName nb \<notin> set (bfs_discovery s)"
    using search_tree_new_name [OF assms(1) T(2) new edge] T(3) by (simp add: image_comp)
  ultimately show ?thesis
    using False T assms(2) by (auto simp: searching_def bfsVisit_def append_new_def)
qed

lemma visit_grows:
  "fst ` set (bfs_parent (bfsVisit u nb s)) = insert (jn_table nb) (fst ` set (bfs_parent s))"
  "fst ` set (bfs_parent (bfsVisit u nb s)) - set (bfs_queue (bfsVisit u nb s)) \<subseteq> fst ` set (bfs_parent s) - set (bfs_queue s)"
  by (auto simp: bfsVisit_def)

lemma searching_fold:
  assumes "distinct (map join_Name js)"
  shows "searching r js base s \<Longrightarrow> u \<in> fst ` set (bfs_parent s) \<Longrightarrow> set nbs \<subseteq> set (joinNeighbors r js u) \<Longrightarrow>
    searching r js base (fold (bfsVisit u) nbs s)"
proof (induction nbs arbitrary: s)
  case (Cons nb nbs)
  have "searching r js base (bfsVisit u nb s)" using Cons.prems by (intro searching_visit [OF assms]) auto
  then show ?case using Cons.IH [of "bfsVisit u nb s"] Cons.prems by (simp add: visit_grows)
qed simp

lemma fold_visit_grows:
  "fst ` set (bfs_parent (fold (bfsVisit u) nbs s)) = jn_table ` set nbs \<union> fst ` set (bfs_parent s)"
  "fst ` set (bfs_parent (fold (bfsVisit u) nbs s)) - set (bfs_queue (fold (bfsVisit u) nbs s)) \<subseteq>
     fst ` set (bfs_parent s) - set (bfs_queue s)"
proof (induction nbs arbitrary: s)
  case (Cons nb nbs)
  case 1
  show ?case using Cons(1) by (simp add: visit_grows)
  case 2
  show ?case using Cons(2) [of "bfsVisit u nb s"] visit_grows(2) [of u nb s] by auto
qed simp_all

text \<open>Every table that was taken from the queue has all its neighbours in the tree.\<close>

definition explored :: "SchemaResolver \<Rightarrow> Join list \<Rightarrow> bfs \<Rightarrow> bool" where
  "explored r js s \<longleftrightarrow>
     (\<forall>u\<in>fst ` set (bfs_parent s) - set (bfs_queue s). joinGraph r js `` {u} \<subseteq> fst ` set (bfs_parent s))"

lemma bfsStep_keeps:
  assumes "distinct (map join_Name js)" "searching r js base s" "explored r js s"
  shows "searching r js base (bfsStep (joinNeighbors r js) s)" "explored r js (bfsStep (joinNeighbors r js) s)"
proof -
  consider "bfs_queue s = []" | u rest where "bfs_queue s = u # rest" by (cases "bfs_queue s") auto
  then have "searching r js base (bfsStep (joinNeighbors r js) s) \<and> explored r js (bfsStep (joinNeighbors r js) s)"
  proof cases
    case 2
    let ?s = "s\<lparr>bfs_queue := rest\<rparr>" and ?nbs = "joinNeighbors r js u"
    let ?t = "fold (bfsVisit u) ?nbs ?s"
    have u: "u \<in> fst ` set (bfs_parent ?s)" and s: "searching r js base ?s"
      using assms(2) 2 by (auto simp: searching_def)
    have "joinGraph r js `` {w} \<subseteq> fst ` set (bfs_parent ?t)" if "w \<in> fst ` set (bfs_parent ?t) - set (bfs_queue ?t)" for w
    proof (cases "w = u")
      case True
      then show ?thesis using joinGraph_neighbors by (auto simp: fold_visit_grows)
    next
      case False
      then have "w \<in> fst ` set (bfs_parent s) - set (bfs_queue s)"
        using that fold_visit_grows(2) [of u ?nbs ?s] 2 by auto
      then have "joinGraph r js `` {w} \<subseteq> fst ` set (bfs_parent s)" using assms(3) by (simp add: explored_def)
      then show ?thesis by (auto simp: fold_visit_grows)
    qed
    then show ?thesis using searching_fold [OF assms(1) s u] 2 by (simp add: bfsStep_def explored_def)
  qed (use assms in \<open>simp add: bfsStep_def\<close>)
  then show "searching r js base (bfsStep (joinNeighbors r js) s)" "explored r js (bfsStep (joinNeighbors r js) s)" by auto
qed

lemma bfsLoop_keeps:
  "distinct (map join_Name js) \<Longrightarrow> searching r js base s \<Longrightarrow> explored r js s \<Longrightarrow>
    searching r js base (bfsLoop r js s) \<and> explored r js (bfsLoop r js s) \<and> bfs_queue (bfsLoop r js s) = []"
proof (induction r js s rule: bfsLoop.induct)
  case (1 r js s)
  show ?case
  proof (cases "bfs_queue s = []")
    case True
    then show ?thesis using 1(3,4) by (simp add: bfsLoop.simps [of r js s])
  next
    case False
    then show ?thesis using 1(1) [OF False 1(2) bfsStep_keeps [OF 1(2-4)]] by (simp only: bfsLoop.simps [of r js s] if_False)
  qed
qed

text \<open>The search ends with exactly the tables that are connected to the base table.\<close>

lemma bfsFrom_tree:
  assumes "distinct (map join_Name js)"
  obtains T where "bfs_parent (bfsFrom r js base) = (base, [], []) # T" "search_tree r js base T"
    "bfs_discovery (bfsFrom r js base) = map (snd \<circ> snd) T"
    "insert base (fst ` set T) = (joinGraph r js)\<^sup>* `` {base}"
proof -
  let ?s = "bfsFrom r js base"
  have "searching r js base ?s \<and> explored r js ?s \<and> bfs_queue ?s = []"
    unfolding bfsFrom_def
    by (rule bfsLoop_keeps [OF assms]) (auto simp: searching_def explored_def intro: tree_base)
  then obtain T where T: "bfs_parent ?s = (base, [], []) # T" "search_tree r js base T" "bfs_discovery ?s = map (snd \<circ> snd) T"
    and "\<forall>u\<in>insert base (fst ` set T). joinGraph r js `` {u} \<subseteq> insert base (fst ` set T)"
    by (auto simp: searching_def explored_def)
  then have closed_under: "joinGraph r js `` insert base (fst ` set T) \<subseteq> insert base (fst ` set T)" by blast
  have "insert base (fst ` set T) \<subseteq> (joinGraph r js)\<^sup>* `` {base}"
    using T(2)
  proof (induction rule: search_tree.induct)
    case (tree_found T u v name)
    then have "(u, v) \<in> joinGraph r js" by (auto simp: joinGraph_def)
    moreover have "(base, u) \<in> (joinGraph r js)\<^sup>*" using tree_found by auto
    ultimately have "(base, v) \<in> (joinGraph r js)\<^sup>*" by (rule rtrancl_into_rtrancl [rotated])
    then show ?case using tree_found by auto
  qed auto
  moreover have "(joinGraph r js)\<^sup>* `` {base} \<subseteq> insert base (fst ` set T)"
    using Image_closed_trancl [OF closed_under] by blast
  ultimately show ?thesis using that T by blast
qed

section \<open>Paths\<close>

text \<open>A set of joins that contains, with a join, the joins that lead to the table it starts from.\<close>

definition found_by :: "(string \<times> string \<times> string) list \<Rightarrow> string set \<Rightarrow> string \<Rightarrow> bool" where
  "found_by T R v \<longleftrightarrow> (\<exists>u name. (v, u, name) \<in> set T \<and> name \<in> R)"

definition leads_back :: "string \<Rightarrow> (string \<times> string \<times> string) list \<Rightarrow> string set \<Rightarrow> bool" where
  "leads_back base T R \<longleftrightarrow>
     R \<subseteq> snd ` snd ` set T \<and> (\<forall>v u name. (v, u, name) \<in> set T \<longrightarrow> name \<in> R \<longrightarrow> u = base \<or> found_by T R u)"

lemma found_by_mono: "found_by T R v \<Longrightarrow> set T \<subseteq> set T' \<Longrightarrow> R \<subseteq> R' \<Longrightarrow> found_by T' R' v"
  unfolding found_by_def by blast

lemma leads_backD: "leads_back base T R \<Longrightarrow> (v, u, name) \<in> set T \<Longrightarrow> name \<in> R \<Longrightarrow> u = base \<or> found_by T R u"
  by (simp add: leads_back_def)

lemma leads_back_Un:
  assumes "leads_back base T R" "leads_back base T R'"
  shows "leads_back base T (R \<union> R')"
  unfolding leads_back_def
proof (intro conjI allI impI)
  show "R \<union> R' \<subseteq> snd ` snd ` set T" using assms by (simp add: leads_back_def)
  fix v u name
  assume "(v, u, name) \<in> set T" "name \<in> R \<union> R'"
  then have "u = base \<or> found_by T R u \<or> found_by T R' u"
    using leads_backD [OF assms(1), of v u name] leads_backD [OF assms(2), of v u name] by blast
  then show "u = base \<or> found_by T (R \<union> R') u" by (auto intro: found_by_mono)
qed

lemma leads_back_snoc:
  assumes "leads_back base T R" "name \<notin> R"
  shows "leads_back base (T @ [(v, u, name)]) R"
  unfolding leads_back_def
proof (intro conjI allI impI)
  show "R \<subseteq> snd ` snd ` set (T @ [(v, u, name)])" using assms by (auto simp: leads_back_def)
  fix v' u' name'
  assume "(v', u', name') \<in> set (T @ [(v, u, name)])" "name' \<in> R"
  then have "u' = base \<or> found_by T R u'" using leads_backD [OF assms(1), of v' u' name'] assms(2) by auto
  then show "u' = base \<or> found_by (T @ [(v, u, name)]) R u'" by (auto intro: found_by_mono)
qed

lemma leads_back_extend:
  assumes "leads_back base T R" "u = base \<or> found_by T R u" "name \<notin> snd ` snd ` set T"
  shows "leads_back base (T @ [(v, u, name)]) (insert name R)"
  unfolding leads_back_def
proof (intro conjI allI impI)
  show "insert name R \<subseteq> snd ` snd ` set (T @ [(v, u, name)])" using assms(1) by (auto simp: leads_back_def)
  fix v' u' name'
  assume entry: "(v', u', name') \<in> set (T @ [(v, u, name)])" "name' \<in> insert name R"
  have "u' = base \<or> found_by T R u'"
  proof (cases "(v', u', name') = (v, u, name)")
    case True
    then show ?thesis using assms(2) by simp
  next
    case False
    then have old: "(v', u', name') \<in> set T" using entry(1) by auto
    then have "name' \<in> snd ` snd ` set T" by force
    then have "name' \<in> R" using entry(2) assms(3) by auto
    then show ?thesis using leads_backD [OF assms(1) old] by simp
  qed
  then show "u' = base \<or> found_by (T @ [(v, u, name)]) (insert name R) u'" by (auto intro: found_by_mono)
qed

text \<open>Walking back from a table of the tree collects such a set, with the join of the table itself.\<close>

lemma pathJoins_tree:
  assumes "distinct (map join_Name js)" and "\<forall>j\<in>set js. join_Name j \<noteq> []"
  shows "search_tree r js base T \<Longrightarrow> [] \<notin> fst ` set T \<Longrightarrow> \<forall>(v, e)\<in>set T. parent v = Some e \<Longrightarrow>
    w \<in> insert base (fst ` set T) \<Longrightarrow> length T < n \<Longrightarrow>
    \<exists>path. pathJoins n parent base w = Some path \<and> leads_back base T (set path) \<and> (w = base \<or> found_by T (set path) w)"
proof (induction arbitrary: w n rule: search_tree.induct)
  case tree_base
  then show ?case by (cases n) (auto simp: leads_back_def)
next
  case (tree_found T u v name)
  have fresh: "name \<notin> snd ` snd ` set T"
    using search_tree_new_name [OF assms(1) tree_found.hyps(1,3,4)] .
  have old: "\<exists>path. pathJoins m parent base x = Some path \<and> leads_back base T (set path) \<and> (x = base \<or> found_by T (set path) x)"
    if "x \<in> insert base (fst ` set T)" "length T < m" for x m
    using tree_found.IH [OF _ _ that] tree_found.prems(1,2) by simp
  show ?case
  proof (cases "w = v")
    case False
    then have "w \<in> insert base (fst ` set T)" using tree_found.prems(3) by auto
    then obtain path where path: "pathJoins n parent base w = Some path" "leads_back base T (set path)"
        "w = base \<or> found_by T (set path) w"
      using old [of w n] tree_found.prems(4) by auto
    then have "name \<notin> set path" using fresh by (auto simp: leads_back_def)
    then have "leads_back base (T @ [(v, u, name)]) (set path)" using path(2) by (rule leads_back_snoc [rotated])
    moreover have "w = base \<or> found_by (T @ [(v, u, name)]) (set path) w" using path(3) by (auto intro: found_by_mono)
    ultimately show ?thesis using path(1) by blast
  next
    case True
    obtain m where n: "n = Suc m" "length T < m" using tree_found.prems(4) by (cases n) auto
    obtain path where path: "pathJoins m parent base u = Some path" "leads_back base T (set path)"
        "u = base \<or> found_by T (set path) u"
      using old [OF tree_found.hyps(2) n(2)] by blast
    have "parent v = Some (u, name)" "v \<noteq> base" "v \<noteq> []" using tree_found.prems tree_found.hyps by auto
    moreover have "name \<noteq> []" using tree_found.hyps(4) assms(2) by (auto simp: joinsTables_def)
    ultimately have "pathJoins n parent base w = Some (name # path)" using path(1) by (simp add: n True)
    moreover have "leads_back base (T @ [(v, u, name)]) (set (name # path))"
      using leads_back_extend [OF path(2,3) fresh] by simp
    moreover have "found_by (T @ [(v, u, name)]) (set (name # path)) w" by (auto simp: found_by_def True)
    ultimately show ?thesis by blast
  qed
qed

lemma requiredJoins_tree:
  assumes "distinct (map join_Name js)" and "\<forall>j\<in>set js. join_Name j \<noteq> []"
    and "search_tree r js base T" and "[] \<notin> fst ` set T" and "bfs_parent s = (base, [], []) # T"
  shows "set ts \<subseteq> insert base (fst ` set T) \<Longrightarrow>
    \<exists>R. requiredJoins s base ts = Some R \<and> leads_back base T R \<and> (\<forall>t\<in>set ts. t = base \<or> found_by T R t)"
proof (induction ts)
  case Nil
  then show ?case by (simp add: leads_back_def)
next
  case (Cons t ts)
  have entry: "map_of (bfs_parent s) v = Some e" if "(v, e) \<in> set T" for v e
  proof -
    obtain u name where e: "e = (u, name)" by (cases e)
    have "distinct (base # map fst T)"
      using assms(3) by (induction rule: search_tree.induct) auto
    then have "map_of T v = Some e" "v \<noteq> base" using that by (auto simp: map_of_eq_Some_iff rev_image_eqI)
    then show ?thesis by (simp add: assms(5))
  qed
  have parent: "\<forall>(v, e)\<in>set T. map_of (bfs_parent s) v = Some e" using entry by blast
  have t: "t \<in> insert base (fst ` set T)" and len: "length T < Suc (length (bfs_parent s))"
    using Cons.prems by (simp_all add: assms(5))
  obtain path where path: "pathJoins (Suc (length (bfs_parent s))) (map_of (bfs_parent s)) base t = Some path"
      "leads_back base T (set path)" "t = base \<or> found_by T (set path) t"
    using pathJoins_tree [OF assms(1-4) parent t len] by blast
  obtain R where R: "requiredJoins s base ts = Some R" "leads_back base T R" "\<forall>t\<in>set ts. t = base \<or> found_by T R t"
    using Cons by auto
  have "found_by T (set path \<union> R) x" if "found_by T (set path) x \<or> found_by T R x" for x
    using that by (auto intro: found_by_mono)
  then show ?case using path R leads_back_Un [OF path(2) R(2)] by fastforce
qed

section \<open>Writing the joins\<close>

text \<open>Each join adds a table that is not there yet to a table that is.\<close>

fun joined_in_order :: "string set \<Rightarrow> oriented_join list \<Rightarrow> bool" where
  "joined_in_order S [] \<longleftrightarrow> True"
| "joined_in_order S (oj # ojs) \<longleftrightarrow>
     js_key (oj_from oj) \<in> S \<and> js_key (oj_to oj) \<notin> S \<and> joined_in_order (insert (js_key (oj_to oj)) S) ojs"

lemma search_tree_distinct: "search_tree r js base T \<Longrightarrow> distinct (base # map fst T)"
  by (induction rule: search_tree.induct) auto

lemma search_tree_at:
  "search_tree r js base T \<Longrightarrow> T = P @ (v, u, name) # Q \<Longrightarrow>
   joinsTables r js name u v \<and> u \<in> insert base (fst ` set P)"
proof (induction arbitrary: Q rule: search_tree.induct)
  case (tree_found T u' v' name')
  then show ?case by (cases Q rule: rev_cases) auto
qed simp

lemma found_by_prefix:
  assumes "distinct (map fst (P @ Q))" "found_by (P @ Q) R u" "u \<in> fst ` set P"
  shows "found_by P R u"
  using assms unfolding found_by_def by force

definition sideKeys :: "SchemaResolver \<Rightarrow> Join \<Rightarrow> string set" where
  "sideKeys r j = {fromKey r j, toKey r j}"

lemma orientJoins_tree:
  assumes "distinct (map join_Name js)" and jm: "joinMap = map_of (map (\<lambda>j. (join_Name j, j)) js)"
  shows "search_tree r js base (P @ Q) \<Longrightarrow> leads_back base (P @ Q) R \<Longrightarrow> set inSet = insert base (Collect (found_by P R)) \<Longrightarrow>
    joined_in_order (set inSet) (orientJoins r joinMap inSet (filter (\<lambda>n. n \<in> R) (map (snd \<circ> snd) Q))) \<and>
    map (\<lambda>oj. js_key (oj_to oj)) (orientJoins r joinMap inSet (filter (\<lambda>n. n \<in> R) (map (snd \<circ> snd) Q))) =
      map fst (filter (\<lambda>e. snd (snd e) \<in> R) Q)"
proof (induction Q arbitrary: P inSet)
  case (Cons e Q)
  obtain v u name where e: "e = (v, u, name)" by (cases e)
  have tree: "search_tree r js base ((P @ [e]) @ Q)" and leads: "leads_back base ((P @ [e]) @ Q) R" using Cons.prems by auto
  have dist: "distinct (map fst (P @ e # Q))" "v \<noteq> base"
    using search_tree_distinct [OF Cons.prems(1)] by (auto simp: e)
  show ?case
  proof (cases "name \<in> R")
    case False
    then have "found_by (P @ [e]) R = found_by P R" by (intro ext) (auto simp: found_by_def e)
    then show ?thesis using Cons.IH [OF tree leads, of inSet] Cons.prems(3) False by (simp add: e)
  next
    case True
    have edge: "joinsTables r js name u v" "u \<in> insert base (fst ` set P)"
      using search_tree_at [OF Cons.prems(1), of P v u name Q] by (simp_all add: e)
    then obtain j where j: "j \<in> set js" "join_Name j = name"
        "fromKey r j = u \<and> toKey r j = v \<or> fromKey r j = v \<and> toKey r j = u"
      by (auto simp: joinsTables_def)
    then have look: "joinMap name = Some j" using assms(1) by (auto simp: jm map_of_eq_Some_iff comp_def)
    have "u = base \<or> found_by P R u"
      using leads_backD [OF Cons.prems(2), of v u name] True edge(2) found_by_prefix [OF dist(1), of R u] by (auto simp: e)
    then have u: "u \<in> set inSet" by (simp add: Cons.prems(3))
    have v: "v \<notin> set inSet" using dist by (auto simp: Cons.prems(3) found_by_def e) (metis fst_conv imageI)
    have "found_by (P @ [e]) R w \<longleftrightarrow> w = v \<or> found_by P R w" for w using True by (auto simp: found_by_def e)
    then have "set (v # inSet) = insert base (Collect (found_by (P @ [e]) R))" by (auto simp: Cons.prems(3))
    note IH = Cons.IH [OF tree leads this]
    from j(3) show ?thesis
      using IH u v True look by (auto simp: e fromSide_def toSide_def)
  qed
qed simp

section \<open>The joins of a query\<close>

text \<open>The map from names to joins that \<open>buildCompilerMaps\<close> fills.\<close>

definition joinMapOf :: "Join list \<Rightarrow> string \<rightharpoonup> Join" where
  "joinMapOf js = foldl (\<lambda>m j. m(join_Name j \<mapsto> j)) (\<lambda>_. None) js"

lemma joinMapOf_distinct: "distinct (map join_Name js) \<Longrightarrow> joinMapOf js = map_of (map (\<lambda>j. (join_Name j, j)) js)"
proof -
  have upd: "foldl (\<lambda>m j. m(join_Name j \<mapsto> j)) m js = m ++ map_of (rev (map (\<lambda>j. (join_Name j, j)) js))" for m :: "string \<rightharpoonup> Join"
    by (induction js arbitrary: m) (simp_all add: map_add_def fun_eq_iff split: option.splits)
  assume "distinct (map join_Name js)"
  then have "map_of (rev (map (\<lambda>j. (join_Name j, j)) js)) = map_of (map (\<lambda>j. (join_Name j, j)) js)"
    by (intro map_of_inject_set [THEN iffD2]) (simp_all add: comp_def rev_map [symmetric])
  then show ?thesis using upd [of "\<lambda>_. None"] by (simp add: joinMapOf_def map_add_def fun_eq_iff split: option.splits)
qed

lemma search_tree_keys:
  assumes "search_tree r js base T" and "\<forall>j\<in>set js. fromKey r j \<noteq> [] \<and> toKey r j \<noteq> []"
  shows "[] \<notin> fst ` set T"
  using search_tree_entry [OF assms(1)] assms(2) unfolding joinsTables_def by fastforce


text \<open>Two hops: orders to customers by a join, customers to countries by a join written the other way
  round.\<close>

definition example_join_model :: SemanticModel where
  "example_join_model = example_model\<lparr>
     sm_Dimensions := [example_dim ''region'' ''countries.region'', example_dim ''sku'' ''products.sku''],
     sm_Joins := [example_join ''kc'' ''countries'' ''id'' ''customers'' ''country_id'' ''one_to_many'',
                  example_join ''oc'' ''orders'' ''customer_id'' ''customers'' ''id'' ''many_to_one'']\<rparr>"

definition example_join_query :: LogicalQuery where
  "example_join_query = example_query\<lparr>lq_Select := [dimensionItem ''region'', dimensionItem ''sku''], lq_GroupBy := [],
     lq_Filters := [], lq_Having := [], lq_OrderBy := []\<rparr>"

lemma example_determineJoins:
  "determineJoins example_join_query example_join_model (fst (buildSemanticFieldMaps example_join_model))
     (snd (buildSemanticFieldMaps example_join_model)) (NewSchemaResolver example_join_model None) id =
   Some ([''oc'', ''kc''], [''public.products''])"
  by code_simp


end
