(* ===== verification/Permissions.thy ===== *)
theory Permissions
  imports Dialects
begin

text \<open>Access policies and row-level security: the data of \<open>pkg/security/types.go\<close>, the permission
  manager of \<open>internal/security/permissions.go\<close>, the predicate builder and field check of
  \<open>internal/security/row_injection.go\<close> and the composite rules of
  \<open>internal/security/composite_permissions.go\<close>. A Go pointer to a policy is an option, so the nil
  policy is \<open>None\<close>; an error return is \<open>Inl\<close> (or \<open>Some\<close> for a function that returns only an error).
  Row filter values are \<open>go_any\<close> values. The JSON codec that \<open>rowFilterValueKey\<close> calls is a
  third-party package and enters as a parameter.\<close>

section \<open>Policies\<close>

record RowFilter =
  rf_Field :: string
  rf_Operator :: string
  rf_Value :: go_any

record PermissionPolicy =
  UserID :: string
  DatasourceID :: string
  AllowedModels :: "string list"
  DeniedFields :: "string list"
  RowFilters :: "RowFilter list"
  PIIPolicy :: "string \<rightharpoonup> string"

datatype perm_error =
    NoPolicyForModel string
  | NoModelAccess string string
  | NoPolicyForComposite
  | CompositeAccessDenied perm_error
  | MissingComponentPolicy
  | RowFilterUnknownField string
  | RowFilterExpectsArray string string
  | RowFilterRequiresValue string string
  | RowFilterOperatorUnsupported string string
  | FieldNotAccessible string string
  | FilterFieldNotAccessible string string

definition emptyPolicy :: "string \<Rightarrow> string \<Rightarrow> PermissionPolicy" where
  "emptyPolicy uid ds = \<lparr>UserID = uid, DatasourceID = ds, AllowedModels = [], DeniedFields = [],
     RowFilters = [], PIIPolicy = (\<lambda>_. None)\<rparr>"

definition SystemPolicy :: PermissionPolicy where
  "SystemPolicy = emptyPolicy ''system'' []"

definition CheckModelAccess :: "PermissionPolicy option \<Rightarrow> string \<Rightarrow> perm_error option" where
  "CheckModelAccess policy modelName =
     (case policy of
        None \<Rightarrow> Some (NoPolicyForModel modelName)
      | Some p \<Rightarrow>
          if AllowedModels p = [] then None
          else if modelName \<notin> set (AllowedModels p) then Some (NoModelAccess (UserID p) modelName)
          else None)"

definition FieldIsDenied :: "PermissionPolicy option \<Rightarrow> string \<Rightarrow> string \<Rightarrow> bool" where
  "FieldIsDenied policy qualifiedField plainField =
     (case policy of
        None \<Rightarrow> True
      | Some p \<Rightarrow>
          if DeniedFields p = [] then False
          else qualifiedField \<in> set (DeniedFields p) \<or> plainField \<in> set (DeniedFields p))"

definition RowFilters_of :: "PermissionPolicy option \<Rightarrow> RowFilter list" where
  "RowFilters_of policy = (case policy of None \<Rightarrow> [] | Some p \<Rightarrow> RowFilters p)"

definition HasFieldAccess :: "PermissionPolicy option \<Rightarrow> string \<Rightarrow> string \<Rightarrow> bool" where
  "HasFieldAccess policy modelName fieldName =
     (case policy of
        None \<Rightarrow> False
      | Some p \<Rightarrow> \<not> FieldIsDenied policy (modelName @ ''.'' @ fieldName) fieldName)"

definition PIIFieldIsHidden :: "PermissionPolicy option \<Rightarrow> string \<Rightarrow> string \<Rightarrow> bool" where
  "PIIFieldIsHidden policy qualifiedField plainField =
     (case policy of
        None \<Rightarrow> True
      | Some p \<Rightarrow>
          list_ex (\<lambda>key. case PIIPolicy p key of
                            None \<Rightarrow> False
                          | Some access \<Rightarrow> access \<noteq> ''raw'' \<and> access \<noteq> ''masked'')
            [qualifiedField, plainField])"

section \<open>Row filter predicates\<close>

definition ph :: "Dialect \<Rightarrow> int \<Rightarrow> go_any list \<Rightarrow> string" where
  "ph d initialArgCount extraArgs = Placeholder d (initialArgCount + int (length extraArgs))"

definition predicate :: "string \<Rightarrow> string \<Rightarrow> string \<Rightarrow> string" where
  "predicate lhs op rhs = lhs @ '' '' @ op @ '' '' @ rhs"

text \<open>The inner loop of \<open>in\<close> and \<open>not_in\<close>: append each value and number its placeholder after it.\<close>

fun bindValues :: "Dialect \<Rightarrow> int \<Rightarrow> go_any list \<Rightarrow> go_any list \<Rightarrow> string list \<times> go_any list" where
  "bindValues d n [] extraArgs = ([], extraArgs)"
| "bindValues d n (v # vals) extraArgs =
     (let extraArgs' = extraArgs @ [v];
          p = ph d n extraArgs';
          (ps, out) = bindValues d n vals extraArgs'
      in (p # ps, out))"

definition comparison ::
  "Dialect \<Rightarrow> int \<Rightarrow> string \<Rightarrow> string \<Rightarrow> go_any \<Rightarrow> go_any list \<Rightarrow> perm_error + string \<times> go_any list" where
  "comparison d n quoted symb v extraArgs =
     (let extraArgs' = extraArgs @ [v] in Inr (predicate quoted symb (ph d n extraArgs'), extraArgs'))"

definition membership ::
  "Dialect \<Rightarrow> int \<Rightarrow> string \<Rightarrow> string \<Rightarrow> RowFilter \<Rightarrow> go_any list \<Rightarrow> perm_error + string \<times> go_any list" where
  "membership d n quoted op rf extraArgs =
     (case rf_Value rf of
        AList vals \<Rightarrow>
          if vals = [] then Inl (RowFilterRequiresValue op (rf_Field rf))
          else
            (let (placeholders, extraArgs') = bindValues d n vals extraArgs;
                 keyword = (if op = ''not_in'' then ''NOT IN'' else ''IN'')
             in Inr (predicate quoted keyword (''('' @ Join placeholders '', '' @ '')''), extraArgs'))
      | _ \<Rightarrow> Inl (RowFilterExpectsArray op (rf_Field rf)))"

definition rowFilterPredicate ::
  "Dialect \<Rightarrow> int \<Rightarrow> string \<Rightarrow> RowFilter \<Rightarrow> go_any list \<Rightarrow> perm_error + string \<times> go_any list" where
  "rowFilterPredicate d n quoted rf extraArgs =
     (let op = ToLower (TrimSpace (rf_Operator rf)) in
      if op = [] \<or> op = ''eq'' then comparison d n quoted ''='' (rf_Value rf) extraArgs
      else if op = ''neq'' then comparison d n quoted ''<>'' (rf_Value rf) extraArgs
      else if op = ''gt'' then comparison d n quoted ''>'' (rf_Value rf) extraArgs
      else if op = ''gte'' then comparison d n quoted ''>='' (rf_Value rf) extraArgs
      else if op = ''lt'' then comparison d n quoted ''<'' (rf_Value rf) extraArgs
      else if op = ''lte'' then comparison d n quoted ''<='' (rf_Value rf) extraArgs
      else if op = ''in'' \<or> op = ''not_in'' then membership d n quoted op rf extraArgs
      else if op = ''is_null'' then Inr (quoted @ '' IS NULL'', extraArgs)
      else if op = ''is_not_null'' then Inr (quoted @ '' IS NOT NULL'', extraArgs)
      else Inl (RowFilterOperatorUnsupported (rf_Operator rf) (rf_Field rf)))"

fun buildLoop ::
  "Dialect \<Rightarrow> (string \<rightharpoonup> string) \<Rightarrow> int \<Rightarrow> bool \<Rightarrow> RowFilter list \<Rightarrow> string list \<Rightarrow> go_any list \<Rightarrow>
   perm_error + string list \<times> go_any list" where
  "buildLoop d dimMap n omit [] preds extraArgs = Inr (preds, extraArgs)"
| "buildLoop d dimMap n omit (rf # rest) preds extraArgs =
     (case dimMap (rf_Field rf) of
        None \<Rightarrow>
          if omit then buildLoop d dimMap n omit rest preds extraArgs
          else Inl (RowFilterUnknownField (rf_Field rf))
      | Some colRef \<Rightarrow>
          (case rowFilterPredicate d n (QuoteIdent d colRef) rf extraArgs of
             Inl e \<Rightarrow> Inl e
           | Inr (p, extraArgs') \<Rightarrow> buildLoop d dimMap n omit rest (preds @ [p]) extraArgs'))"

definition BuildRowFilterPredicates ::
  "Dialect \<Rightarrow> (string \<rightharpoonup> string) \<Rightarrow> RowFilter list \<Rightarrow> int \<Rightarrow> bool \<Rightarrow>
   perm_error + string list \<times> go_any list" where
  "BuildRowFilterPredicates d dimMap filters initialArgCount omitUnknownFields =
     buildLoop d dimMap initialArgCount omitUnknownFields filters [] []"

section \<open>Field access\<close>

definition isFieldAllowed :: "PermissionPolicy option \<Rightarrow> string \<Rightarrow> string \<Rightarrow> bool" where
  "isFieldAllowed policy qualified unqualified =
     (\<not> FieldIsDenied policy qualified unqualified \<and> \<not> PIIFieldIsHidden policy qualified unqualified)"

definition CheckFieldAccess ::
  "PermissionPolicy option \<Rightarrow> string \<Rightarrow> string list \<Rightarrow> string list \<Rightarrow> perm_error option" where
  "CheckFieldAccess policy modelName selectFields filterFields =
     (case policy of
        None \<Rightarrow> Some (NoPolicyForModel modelName)
      | Some p \<Rightarrow>
          (case first_err (\<lambda>field.
                  if \<not> isFieldAllowed policy (modelName @ ''.'' @ field) field
                  then Some (FieldNotAccessible field (UserID p)) else None) selectFields of
             Some e \<Rightarrow> Some e
           | None \<Rightarrow>
               first_err (\<lambda>field.
                  if \<not> isFieldAllowed policy (modelName @ ''.'' @ field) field
                  then Some (FilterFieldNotAccessible field (UserID p)) else None) filterFields))"

section \<open>Composite models\<close>

definition CheckCompositeAccess :: "PermissionPolicy option \<Rightarrow> string list \<Rightarrow> perm_error option" where
  "CheckCompositeAccess policy componentModelNames =
     (if policy = None then Some NoPolicyForComposite
      else first_err (\<lambda>name. map_option CompositeAccessDenied (CheckModelAccess policy name))
             componentModelNames)"

fun goTypeName :: "go_any \<Rightarrow> string" where
  "goTypeName ANil = ''<nil>''"
| "goTypeName (ABool _) = ''bool''"
| "goTypeName (AInt _) = ''int''"
| "goTypeName (AFloat _) = ''float64''"
| "goTypeName (AStr _) = ''string''"
| "goTypeName (AList _) = ''[]interface {}''"

text \<open>\<open>marshal\<close> stands for the JSON codec (\<open>None\<close> is its error), \<open>goSyntax\<close> for the \<open>%#v\<close> form.\<close>

definition rowFilterValueKey :: "(go_any \<Rightarrow> string option) \<Rightarrow> (go_any \<Rightarrow> string) \<Rightarrow> go_any \<Rightarrow> string" where
  "rowFilterValueKey marshal goSyntax v =
     (case marshal v of
        None \<Rightarrow> goTypeName v @ '':'' @ goSyntax v
      | Some data \<Rightarrow> goTypeName v @ '':'' @ data)"

definition containsRowFilter :: "(go_any \<Rightarrow> string) \<Rightarrow> RowFilter list \<Rightarrow> RowFilter \<Rightarrow> bool" where
  "containsRowFilter key filters candidate =
     list_ex (\<lambda>f. rf_Field f = rf_Field candidate \<and> rf_Operator f = rf_Operator candidate \<and>
                  key (rf_Value f) = key (rf_Value candidate)) filters"

fun addRowFilters :: "(go_any \<Rightarrow> string) \<Rightarrow> RowFilter list \<Rightarrow> RowFilter list \<Rightarrow> RowFilter list" where
  "addRowFilters key acc [] = acc"
| "addRowFilters key acc (rf # rest) =
     addRowFilters key (if \<not> containsRowFilter key acc rf then acc @ [rf] else acc) rest"

fun mergeLoop ::
  "(go_any \<Rightarrow> string) \<Rightarrow> PermissionPolicy \<Rightarrow> PermissionPolicy option list \<Rightarrow> perm_error + PermissionPolicy" where
  "mergeLoop key merged [] = Inr merged"
| "mergeLoop key merged (None # rest) = Inl MissingComponentPolicy"
| "mergeLoop key merged (Some p # rest) =
     mergeLoop key (merged
       \<lparr>DeniedFields := collect_new (DeniedFields merged) (DeniedFields p),
        AllowedModels := collect_new (AllowedModels merged) (AllowedModels p),
        RowFilters := addRowFilters key (RowFilters merged) (RowFilters p)\<rparr>) rest"

definition MergeComponentPolicies ::
  "(go_any \<Rightarrow> string option) \<Rightarrow> (go_any \<Rightarrow> string) \<Rightarrow> string \<Rightarrow> string \<Rightarrow> PermissionPolicy option list \<Rightarrow>
   perm_error + PermissionPolicy" where
  "MergeComponentPolicies marshal goSyntax userID datasourceID policies =
     mergeLoop (rowFilterValueKey marshal goSyntax) (emptyPolicy userID datasourceID) policies"

section \<open>What the row filters of a policy must become\<close>

text \<open>The reference: which filters are supported, which values they bind and the predicate they
  stand for, as a table of operators.\<close>

definition filterOp :: "RowFilter \<Rightarrow> string" where
  "filterOp rf = ToLower (TrimSpace (rf_Operator rf))"

definition comparisonSymbols :: "(string \<times> string) list" where
  "comparisonSymbols = [('''', ''=''), (''eq'', ''=''), (''neq'', ''<>''), (''gt'', ''>''),
     (''gte'', ''>=''), (''lt'', ''<''), (''lte'', ''<='')]"

definition membershipKeywords :: "(string \<times> string) list" where
  "membershipKeywords = [(''in'', ''IN''), (''not_in'', ''NOT IN'')]"

definition nullTests :: "(string \<times> string) list" where
  "nullTests = [(''is_null'', ''IS NULL''), (''is_not_null'', ''IS NOT NULL'')]"

fun listValues :: "go_any \<Rightarrow> go_any list" where
  "listValues (AList vs) = vs"
| "listValues _ = []"

definition supported :: "RowFilter \<Rightarrow> bool" where
  "supported rf =
     (filterOp rf \<in> fst ` set comparisonSymbols \<or> filterOp rf \<in> fst ` set nullTests \<or>
      filterOp rf \<in> fst ` set membershipKeywords \<and> listValues (rf_Value rf) \<noteq> [])"

definition filterArgs :: "RowFilter \<Rightarrow> go_any list" where
  "filterArgs rf =
     (if filterOp rf \<in> fst ` set comparisonSymbols then [rf_Value rf]
      else if filterOp rf \<in> fst ` set membershipKeywords then listValues (rf_Value rf)
      else [])"

definition filterSQL :: "string \<Rightarrow> RowFilter \<Rightarrow> string list \<Rightarrow> string" where
  "filterSQL quoted rf phs =
     (case map_of comparisonSymbols (filterOp rf) of
        Some symb \<Rightarrow> quoted @ '' '' @ symb @ '' '' @ hd phs
      | None \<Rightarrow>
          (case map_of membershipKeywords (filterOp rf) of
             Some kw \<Rightarrow> quoted @ '' '' @ kw @ '' ('' @ Join phs '', '' @ '')''
           | None \<Rightarrow> quoted @ '' '' @ the (map_of nullTests (filterOp rf))))"

text \<open>The predicates of a list of filters, each consuming as many placeholders as it binds values.\<close>

fun filtersSQL :: "Dialect \<Rightarrow> (string \<rightharpoonup> string) \<Rightarrow> RowFilter list \<Rightarrow> string list \<Rightarrow> string list" where
  "filtersSQL d dimMap [] phs = []"
| "filtersSQL d dimMap (rf # rest) phs =
     filterSQL (QuoteIdent d (the (dimMap (rf_Field rf)))) rf (take (length (filterArgs rf)) phs) #
     filtersSQL d dimMap rest (drop (length (filterArgs rf)) phs)"

definition numbered :: "Dialect \<Rightarrow> int \<Rightarrow> nat \<Rightarrow> string list" where
  "numbered d n c = map (\<lambda>k. Placeholder d (n + 1 + int k)) [0..<c]"

definition knownFilters :: "(string \<rightharpoonup> string) \<Rightarrow> RowFilter list \<Rightarrow> RowFilter list" where
  "knownFilters dimMap filters = filter (\<lambda>rf. rf_Field rf \<in> dom dimMap) filters"

lemmas filter_tables = comparisonSymbols_def membershipKeywords_def nullTests_def
lemmas filter_ops = filterOp_def [symmetric]

section \<open>Lemmas: one filter\<close>

lemma length_numbered [simp]: "length (numbered d n c) = c"
  by (simp add: numbered_def)

lemma numbered_0 [simp]: "numbered d n 0 = []"
  by (simp add: numbered_def)

lemma numbered_Suc: "numbered d n (Suc c) = Placeholder d (n + 1) # numbered d (n + 1) c"
  by (simp add: numbered_def map_upt_Suc add_ac del: upt_Suc)

lemma take_numbered [simp]: "take a (numbered d n (a + b)) = numbered d n a"
  by (simp add: numbered_def take_map)

lemma drop_numbered [simp]: "drop a (numbered d n (a + b)) = numbered d (n + int a) b"
  by (rule nth_equalityI) (auto simp: numbered_def algebra_simps)

lemma bindValues_eq:
  "bindValues d n vals args = (numbered d (n + int (length args)) (length vals), args @ vals)"
  by (induction vals arbitrary: args) (simp_all add: numbered_Suc ph_def add_ac)

lemma rowFilterPredicate_supported:
  assumes "supported rf"
  shows "rowFilterPredicate d n q rf args =
    Inr (filterSQL q rf (numbered d (n + int (length args)) (length (filterArgs rf))), args @ filterArgs rf)"
proof -
  consider (cmp) "filterOp rf \<in> fst ` set comparisonSymbols" | (null) "filterOp rf \<in> fst ` set nullTests"
    | (mem) vs where "filterOp rf \<in> fst ` set membershipKeywords" "rf_Value rf = AList vs" "vs \<noteq> []"
    using assms by (cases "rf_Value rf") (auto simp: supported_def)
  then show ?thesis
  proof cases
    case cmp
    then show ?thesis
      by (auto simp: filter_tables rowFilterPredicate_def filter_ops filterSQL_def filterArgs_def
          comparison_def predicate_def ph_def numbered_Suc add_ac)
  next
    case null
    then show ?thesis
      by (auto simp: filter_tables rowFilterPredicate_def filter_ops filterSQL_def filterArgs_def)
  next
    case mem
    then show ?thesis
      by (auto simp: filter_tables rowFilterPredicate_def filter_ops filterSQL_def filterArgs_def
          membership_def predicate_def bindValues_eq)
  qed
qed

lemma rowFilterPredicate_unsupported:
  "\<not> supported rf \<Longrightarrow> \<exists>e. rowFilterPredicate d n q rf args = Inl e"
  by (cases "rf_Value rf")
     (auto simp: rowFilterPredicate_def Let_def filter_ops supported_def filter_tables membership_def)

section \<open>Lemmas: all filters\<close>

definition acceptable :: "(string \<rightharpoonup> string) \<Rightarrow> bool \<Rightarrow> RowFilter \<Rightarrow> bool" where
  "acceptable dimMap omit rf = (if rf_Field rf \<in> dom dimMap then supported rf else omit)"

lemma buildLoop_ok:
  "\<forall>rf\<in>set filters. acceptable dimMap omit rf \<Longrightarrow>
   buildLoop d dimMap n omit filters preds args =
     Inr (preds @ filtersSQL d dimMap (knownFilters dimMap filters)
                    (numbered d (n + int (length args)) (length (concat (map filterArgs (knownFilters dimMap filters))))),
          args @ concat (map filterArgs (knownFilters dimMap filters)))"
proof (induction filters arbitrary: preds args)
  case Nil
  then show ?case by (simp add: knownFilters_def)
next
  case (Cons rf rest)
  show ?case
  proof (cases "dimMap (rf_Field rf)")
    case None
    with Cons show ?thesis by (simp add: knownFilters_def acceptable_def dom_def)
  next
    case (Some col)
    with Cons show ?thesis
      by (simp add: knownFilters_def acceptable_def dom_def rowFilterPredicate_supported add_ac)
  qed
qed

lemma buildLoop_bad:
  "\<not> acceptable dimMap omit rf \<Longrightarrow> rf \<in> set filters \<Longrightarrow>
   \<exists>e. buildLoop d dimMap n omit filters preds args = Inl e"
proof (induction filters arbitrary: preds args)
  case Nil
  then show ?case by simp
next
  case (Cons f rest)
  show ?case
  proof (cases "acceptable dimMap omit f")
    case False
    show ?thesis
    proof (cases "dimMap (rf_Field f)")
      case None
      with False show ?thesis by (simp add: acceptable_def dom_def)
    next
      case (Some col)
      with False obtain e where "rowFilterPredicate d n (QuoteIdent d col) f args = Inl e"
        using rowFilterPredicate_unsupported [of f d n "QuoteIdent d col" args]
        by (auto simp: acceptable_def dom_def)
      with Some show ?thesis by simp
    qed
  next
    case True
    with Cons show ?thesis
      by (cases "dimMap (rf_Field f)") (auto simp: acceptable_def dom_def rowFilterPredicate_supported)
  qed
qed

lemma distinct_Placeholder:
  assumes "k \<in> set numberedDialects"
  shows "distinct (numbered (globalInstance k) 0 c)"
  using assms pg.distinct_placeholders [of 0 c] ms.distinct_placeholders [of 0 c]
    ora.distinct_placeholders [of 0 c]
  by (auto simp: numberedDialects_def numbered_def)

lemma numbered_append: "numbered d n a @ numbered d (n + int a) b = numbered d n (a + b)"
  by (rule nth_equalityI) (auto simp: numbered_def nth_append algebra_simps)

section \<open>Lemmas: merging\<close>

definition filterKey :: "(go_any \<Rightarrow> string) \<Rightarrow> RowFilter \<Rightarrow> string \<times> string \<times> string" where
  "filterKey key rf = (rf_Field rf, rf_Operator rf, key (rf_Value rf))"

lemma containsRowFilter_iff: "containsRowFilter key fs rf \<longleftrightarrow> filterKey key rf \<in> filterKey key ` set fs"
  unfolding containsRowFilter_def list_ex_iff filterKey_def image_iff by (metis prod.inject)

lemma addRowFilters_keys:
  "filterKey key ` set (addRowFilters key acc fs) = filterKey key ` set acc \<union> filterKey key ` set fs"
  by (induction fs arbitrary: acc) (auto simp: containsRowFilter_iff)

lemma addRowFilters_subset: "set (addRowFilters key acc fs) \<subseteq> set acc \<union> set fs"
proof (induction fs arbitrary: acc)
  case (Cons f fs)
  then show ?case using Cons.IH [of acc] Cons.IH [of "acc @ [f]"] by (auto split: if_splits)
qed simp

lemma addRowFilters_distinct:
  "distinct (map (filterKey key) acc) \<Longrightarrow> distinct (map (filterKey key) (addRowFilters key acc fs))"
  by (induction fs arbitrary: acc) (auto simp: containsRowFilter_iff)

lemma mergeLoop_nil_component: "None \<in> set ps \<Longrightarrow> mergeLoop key m ps = Inl MissingComponentPolicy"
  by (induction key m ps rule: mergeLoop.induct) auto

lemma mergeLoop_total: "None \<notin> set ps \<Longrightarrow> \<exists>r. mergeLoop key m ps = Inr r"
  by (induction key m ps rule: mergeLoop.induct) auto

lemma mergeLoop_result:
  "mergeLoop key m ps = Inr r \<Longrightarrow>
   set (DeniedFields r) = set (DeniedFields m) \<union> (\<Union>p\<in>set ps. set (DeniedFields (the p))) \<and>
   set (AllowedModels r) = set (AllowedModels m) \<union> (\<Union>p\<in>set ps. set (AllowedModels (the p))) \<and>
   filterKey key ` set (RowFilters r) =
     filterKey key ` set (RowFilters m) \<union> (\<Union>p\<in>set ps. filterKey key ` set (RowFilters (the p))) \<and>
   set (RowFilters r) \<subseteq> set (RowFilters m) \<union> (\<Union>p\<in>set ps. set (RowFilters (the p))) \<and>
   PIIPolicy r = PIIPolicy m \<and> UserID r = UserID m \<and> DatasourceID r = DatasourceID m"
proof (induction key m ps rule: mergeLoop.induct)
  case (3 key merged p rest)
  then show ?case
    using addRowFilters_subset [of key "RowFilters merged" "RowFilters p"]
    by (auto simp: addRowFilters_keys)
qed auto

lemma mergeLoop_distinct:
  "mergeLoop key m ps = Inr r \<Longrightarrow> distinct (map (filterKey key) (RowFilters m)) \<Longrightarrow>
   distinct (map (filterKey key) (RowFilters r))"
  by (induction key m ps rule: mergeLoop.induct) (auto simp: addRowFilters_distinct)

lemma FieldIsDenied_iff:
  "FieldIsDenied policy q f \<longleftrightarrow> (\<forall>p. policy = Some p \<longrightarrow> q \<in> set (DeniedFields p) \<or> f \<in> set (DeniedFields p))"
  by (auto simp: FieldIsDenied_def split: option.splits)

lemma isFieldAllowed_iff:
  "isFieldAllowed (Some p) q f \<longleftrightarrow>
     (\<forall>name\<in>{f, q}. name \<notin> set (DeniedFields p) \<and> PIIPolicy p name \<in> {None, Some ''raw'', Some ''masked''})"
  by (auto simp: isFieldAllowed_def FieldIsDenied_iff PIIFieldIsHidden_def split: option.splits)

lemma CheckFieldAccess_None:
  "CheckFieldAccess (Some p) m sel fil = None \<longleftrightarrow>
     (\<forall>f\<in>set sel \<union> set fil. isFieldAllowed (Some p) (m @ ''.'' @ f) f)"
  by (auto simp: CheckFieldAccess_def err_simps dest: first_err_Some split: option.splits if_splits)

section \<open>Properties\<close>

text \<open>C5. Row-level security is applied exactly: \<open>BuildRowFilterPredicates\<close> succeeds if and only if
  every filter is acceptable (its operator is supported with a value of the right shape, or its field
  is unknown and the caller asked to omit unknown fields), and then the result holds one predicate per
  filter on a known field, in order, each the operator's SQL over the quoted column, with the filter
  values bound in order to the placeholders numbered after the existing arguments. No filter is
  dropped or weakened to another operator; otherwise an error is returned.\<close>

theorem BuildRowFilterPredicates_exact:
  "BuildRowFilterPredicates d dimMap filters n omit = Inr (preds, args) \<longleftrightarrow>
     (\<forall>rf\<in>set filters. acceptable dimMap omit rf) \<and>
     args = concat (map filterArgs (knownFilters dimMap filters)) \<and>
     preds = filtersSQL d dimMap (knownFilters dimMap filters) (numbered d n (length args))"
proof (cases "\<forall>rf\<in>set filters. acceptable dimMap omit rf")
  case True
  then show ?thesis by (auto simp: BuildRowFilterPredicates_def buildLoop_ok)
next
  case False
  then obtain rf where "rf \<in> set filters" "\<not> acceptable dimMap omit rf" by blast
  then obtain e where "BuildRowFilterPredicates d dimMap filters n omit = Inl e"
    using buildLoop_bad [of dimMap omit rf filters d n "[]" "[]"]
    by (auto simp: BuildRowFilterPredicates_def)
  with False show ?thesis by auto
qed

definition example_filters :: "RowFilter list" where
  "example_filters =
     [\<lparr>rf_Field = ''region'', rf_Operator = '' IN '', rf_Value = AList [AStr ''eu'', AStr ''us'']\<rparr>,
      \<lparr>rf_Field = ''tenant'', rf_Operator = ''neq'', rf_Value = AInt 7\<rparr>]"

definition example_dimMap :: "string \<rightharpoonup> string" where
  "example_dimMap = [''region'' \<mapsto> ''orders.region'', ''tenant'' \<mapsto> ''orders.tenant_id'']"

lemma example_filters_run:
  "BuildRowFilterPredicates Postgres example_dimMap example_filters 2 False =
     Inr ([''\"orders\".\"region\" IN ($3, $4)'', ''\"orders\".\"tenant_id\" <> $5''],
          [AStr ''eu'', AStr ''us'', AInt 7])"
  by code_simp

theorem BuildRowFilterPredicates_exact_witness:
  "list_all (acceptable example_dimMap False) example_filters \<and>
   filtersSQL Postgres example_dimMap (knownFilters example_dimMap example_filters) (numbered Postgres 2 3) =
     [''\"orders\".\"region\" IN ($3, $4)'', ''\"orders\".\"tenant_id\" <> $5'']"
  using example_filters_run
  unfolding BuildRowFilterPredicates_exact by (simp add: numeral_3_eq_3 list_all_iff)

text \<open>Bind placeholders never collide: in the dialects with numbered placeholders the
  placeholders of the row filters are pairwise distinct, one per bound value, and distinct from the
  placeholders of every argument already bound before them.\<close>

theorem BuildRowFilterPredicates_placeholders_fresh:
  assumes "BuildRowFilterPredicates (globalInstance k) dimMap filters (int n) omit = Inr (preds, args)"
    and "k \<in> set numberedDialects"
  shows "\<exists>phs. length phs = length args \<and>
           preds = filtersSQL (globalInstance k) dimMap (knownFilters dimMap filters) phs \<and>
           distinct (numbered (globalInstance k) 0 n @ phs)"
proof (rule exI [of _ "numbered (globalInstance k) (int n) (length args)"], intro conjI)
  show "length (numbered (globalInstance k) (int n) (length args)) = length args" by simp
  show "preds = filtersSQL (globalInstance k) dimMap (knownFilters dimMap filters)
           (numbered (globalInstance k) (int n) (length args))"
    using assms(1) buildLoop_ok [of filters dimMap omit "globalInstance k" "int n" "[]" "[]"]
      buildLoop_bad [of dimMap omit _ filters "globalInstance k" "int n" "[]" "[]"]
    by (fastforce simp: BuildRowFilterPredicates_def)
  show "distinct (numbered (globalInstance k) 0 n @ numbered (globalInstance k) (int n) (length args))"
    using distinct_Placeholder [OF assms(2), of "n + length args"] numbered_append [of "globalInstance k" 0 n]
    by simp
qed

theorem BuildRowFilterPredicates_placeholders_fresh_witness:
  "\<exists>phs. length phs = 3 \<and>
     [''\"orders\".\"region\" IN ($3, $4)'', ''\"orders\".\"tenant_id\" <> $5''] =
       filtersSQL Postgres example_dimMap (knownFilters example_dimMap example_filters) phs \<and>
     distinct (numbered Postgres 0 2 @ phs)"
  using BuildRowFilterPredicates_placeholders_fresh [of PostgresDialect example_dimMap example_filters 2 False]
    example_filters_run
  by (simp add: numberedDialects_def numeral_3_eq_3)

text \<open>Field access is fail-closed: \<open>CheckFieldAccess\<close> reports no error exactly when there is a
  policy and no selected or filtered field is denied or PII-hidden, under its plain or its qualified
  name; an unrecognised PII access level counts as hidden.\<close>

theorem CheckFieldAccess_fail_closed:
  "CheckFieldAccess policy m sel fil = None \<longleftrightarrow>
     (\<exists>p. policy = Some p \<and>
        (\<forall>f\<in>set sel \<union> set fil. \<forall>name\<in>{f, m @ ''.'' @ f}.
           name \<notin> set (DeniedFields p) \<and> PIIPolicy p name \<in> {None, Some ''raw'', Some ''masked''}))"
proof (cases policy)
  case None
  then show ?thesis by (simp add: CheckFieldAccess_def)
next
  case (Some p)
  then show ?thesis by (simp only: CheckFieldAccess_None isFieldAllowed_iff option.inject ex_simps simp_thms)
qed

theorem CheckFieldAccess_fail_closed_witness:
  "CheckFieldAccess (Some (SystemPolicy\<lparr>PIIPolicy := [''m.email'' \<mapsto> ''tokenised'']\<rparr>)) ''m'' [''id''] [''email''] \<noteq> None \<and>
   CheckFieldAccess (Some SystemPolicy) ''m'' [''id''] [''email''] = None"
  unfolding CheckFieldAccess_fail_closed by (simp add: SystemPolicy_def emptyPolicy_def)

text \<open>A composite query is at least as restricted as each of its components: merging fails
  exactly when a component has no policy; otherwise a field is denied in the merged policy exactly when
  some component denies it, every row filter of every component is present (up to the value key), no
  other row filter is added, and no two kept filters have the same key.\<close>

theorem MergeComponentPolicies_restricts:
  "if None \<in> set ps then MergeComponentPolicies marshal goSyntax u ds ps = Inl MissingComponentPolicy
   else (\<exists>r. MergeComponentPolicies marshal goSyntax u ds ps = Inr r \<and>
          UserID r = u \<and> DatasourceID r = ds \<and>
          (\<forall>q f. FieldIsDenied (Some r) q f = (\<exists>p\<in>set ps. FieldIsDenied p q f)) \<and>
          (\<forall>p\<in>set ps. \<forall>rf\<in>set (RowFilters_of p).
             containsRowFilter (rowFilterValueKey marshal goSyntax) (RowFilters r) rf) \<and>
          set (RowFilters r) \<subseteq> (\<Union>p\<in>set ps. set (RowFilters_of p)) \<and>
          distinct (map (filterKey (rowFilterValueKey marshal goSyntax)) (RowFilters r)))"
proof (cases "None \<in> set ps")
  case True
  then show ?thesis by (simp add: MergeComponentPolicies_def mergeLoop_nil_component)
next
  case False
  let ?key = "rowFilterValueKey marshal goSyntax"
  obtain r where r: "MergeComponentPolicies marshal goSyntax u ds ps = Inr r"
    using mergeLoop_total [OF False] by (auto simp: MergeComponentPolicies_def)
  note result = mergeLoop_result [OF r [unfolded MergeComponentPolicies_def]]
  have some: "RowFilters_of p = RowFilters (the p)" "p = Some (the p)" if "p \<in> set ps" for p
    using False that by (cases p; auto simp: RowFilters_of_def)+
  have denied: "FieldIsDenied (Some r) q f = (\<exists>p\<in>set ps. FieldIsDenied p q f)" for q f
    using result some by (auto simp: FieldIsDenied_iff emptyPolicy_def) (metis option.sel)+
  have kept: "containsRowFilter ?key (RowFilters r) rf" if "p \<in> set ps" "rf \<in> set (RowFilters_of p)" for p rf
    using result some that by (auto simp: containsRowFilter_iff emptyPolicy_def)
  have only: "set (RowFilters r) \<subseteq> (\<Union>p\<in>set ps. set (RowFilters_of p))"
    using result some by (auto simp: emptyPolicy_def)
  have "distinct (map (filterKey ?key) (RowFilters r))"
    by (rule mergeLoop_distinct [OF r [unfolded MergeComponentPolicies_def]]) (simp add: emptyPolicy_def)
  then show ?thesis using False r result denied kept only by (auto simp: emptyPolicy_def)
qed

theorem MergeComponentPolicies_restricts_witness:
  "\<exists>r. MergeComponentPolicies (\<lambda>_. None) (\<lambda>_. ''v'') ''u'' ''ds''
         [Some SystemPolicy, Some (SystemPolicy\<lparr>DeniedFields := [''salary'']\<rparr>)] = Inr r \<and>
       FieldIsDenied (Some r) ''hr.salary'' ''salary''"
  using MergeComponentPolicies_restricts
      [of "[Some SystemPolicy, Some (SystemPolicy\<lparr>DeniedFields := [''salary'']\<rparr>)]"
          "\<lambda>_. None" "\<lambda>_. ''v''" "''u''" "''ds''"]
  by (auto simp: FieldIsDenied_iff)

text \<open>A composite model is reachable only when every component is: \<open>CheckCompositeAccess\<close>
  reports no error exactly when there is a policy and it is unrestricted or lists every component.\<close>

theorem CheckCompositeAccess_all_components:
  "CheckCompositeAccess policy names = None \<longleftrightarrow>
     (\<exists>p. policy = Some p \<and> (names = [] \<or> AllowedModels p = [] \<or> set names \<subseteq> set (AllowedModels p)))"
  by (cases policy; cases names) (auto simp: CheckCompositeAccess_def CheckModelAccess_def err_simps)

section \<open>A restriction that merging does not carry\<close>

text \<open>The PII levels of the components are not merged: the merged policy has no PII entries, so a
  field that a component hides is not hidden by the merged policy.\<close>

lemma MergeComponentPolicies_forgets_PII:
  "MergeComponentPolicies marshal goSyntax u ds ps = Inr r \<Longrightarrow> \<not> PIIFieldIsHidden (Some r) q f"
  using mergeLoop_result [of "rowFilterValueKey marshal goSyntax" "emptyPolicy u ds" ps r]
  by (auto simp: MergeComponentPolicies_def PIIFieldIsHidden_def emptyPolicy_def)

end
