(* ===== verification/Query_Compiler.thy ===== *)
theory Query_Compiler
  imports Expr_Compiler Expr_Parser Query_Validator Join_Paths Permissions
begin

text \<open>
  The SQL compiler: \<open>internal/query/compiler.go\<close>, \<open>compiler_filter.go\<close>, \<open>compiler_case.go\<close>,
  \<open>compiler_nested.go\<close>, the dimension part of \<open>pii_masking.go\<close> and the SQL builders at the end of
  \<open>calendar_grain_filter.go\<close>.

  A compilation threads a state: the bind arguments collected so far (\<open>args\<close>), the error field of the
  compiler object (\<open>c.err\<close>, which several methods set without returning an error) and the record of
  column decisions. A result is a value or an error together with the new state. Two recursions of the
  code are not structural: metric expressions that name other metrics in brackets, and statements
  nested in filters, CTEs and FROM clauses. Both count down a depth, and \<open>None\<close> is an exhausted depth.

  Every filter handler returns no further arguments (\<open>newArgs\<close> is always nil), so its result is the
  SQL text. Error texts are kept; \<open>%w\<close> wrapping is a constructor. The order in which the code ranges
  over the field maps and over the set of needed tables is a parameter.
\<close>

section \<open>State, errors, sequencing\<close>

datatype bind_value = BVal go_any | BTime int

datatype compile_error =
    CValidation "ValidationError list"
  | CExpr expr_sql_error
  | CParse parse_error
  | CReadOnly ro_error
  | CRowFilter perm_error
  | CText string
  | CWrap string compile_error

record CState =
  cs_args :: "bind_value list"
  cs_err :: "compile_error option"
  cs_applied :: "AppliedPII option"

type_synonym 'a comp = "CState \<Rightarrow> ((compile_error + 'a) \<times> CState) option"

definition retC :: "'a \<Rightarrow> 'a comp" where
  "retC a st = Some (Inr a, st)"

definition failC :: "compile_error \<Rightarrow> 'a comp" where
  "failC e st = Some (Inl e, st)"

definition exhausted :: "'a comp" where
  "exhausted st = None"

definition bindC :: "'a comp \<Rightarrow> ('a \<Rightarrow> 'b comp) \<Rightarrow> 'b comp" where
  "bindC m k st =
     (case m st of
        None \<Rightarrow> None
      | Some (Inl e, st') \<Rightarrow> Some (Inl e, st')
      | Some (Inr a, st') \<Rightarrow> k a st')"

fun mapC :: "('a \<Rightarrow> 'b comp) \<Rightarrow> 'a list \<Rightarrow> 'b list comp" where
  "mapC f [] = retC []"
| "mapC f (x # xs) = bindC (f x) (\<lambda>y. bindC (mapC f xs) (\<lambda>ys. retC (y # ys)))"

text \<open>\<open>fmt.Errorf("...: %w", err)\<close>.\<close>

definition wrapC :: "string \<Rightarrow> 'a comp \<Rightarrow> 'a comp" where
  "wrapC label m st = (case m st of Some (Inl e, st') \<Rightarrow> Some (Inl (CWrap label e), st') | res \<Rightarrow> res)"

text \<open>\<open>c.err = err; return ""\<close>.\<close>

definition setErr :: "compile_error \<Rightarrow> string comp" where
  "setErr e st = Some (Inr [], st\<lparr>cs_err := Some e\<rparr>)"

definition softC :: "string comp \<Rightarrow> string comp" where
  "softC m st = (case m st of Some (Inl e, st') \<Rightarrow> setErr e st' | res \<Rightarrow> res)"

text \<open>\<open>if c.err != nil { return "", c.err }\<close>.\<close>

definition checkErr :: "'a \<Rightarrow> 'a comp" where
  "checkErr a st = (case cs_err st of Some e \<Rightarrow> Some (Inl e, st) | None \<Rightarrow> Some (Inr a, st))"

text \<open>The fields of the compiler object that do not change, and the parameters of the model.\<close>

record Compiler =
  c_dialect :: Dialect
  c_pii :: "PIIMaskingConfig option"
  c_rowFilters :: "RowFilter list"
  c_metricDepth :: nat
  c_rangeOrder :: "string list \<Rightarrow> string list"
  c_FormatFloat :: "rat \<Rightarrow> string"
  c_Sprint :: "go_any \<Rightarrow> string"

text \<open>What a statement is compiled against.\<close>

record Scope =
  sc_derivedSource :: bool
  sc_dimMap :: "string \<rightharpoonup> Dimension"
  sc_metricMap :: "string \<rightharpoonup> Metric"
  sc_model :: SemanticModel
  sc_resolver :: SchemaResolver

text \<open>\<open>*args = append(*args, v)\<close> and the placeholder of the new argument.\<close>

definition pushArg :: "Compiler \<Rightarrow> bind_value \<Rightarrow> string comp" where
  "pushArg c v st =
     Some (Inr (Placeholder (c_dialect c) (int (length (cs_args st)) + 1)), st\<lparr>cs_args := cs_args st @ [v]\<rparr>)"

definition NewCompiler :: "Dialect \<Rightarrow> Compiler \<Rightarrow> Compiler" where
  "NewCompiler d c = c\<lparr>c_dialect := Normalize d\<rparr>"

definition dimKeys :: "Scope \<Rightarrow> string list" where
  "dimKeys sc = remdups (map dim_Name (sm_Dimensions (sc_model sc)))"

definition metricKeysOf :: "Scope \<Rightarrow> string list" where
  "metricKeysOf sc = remdups (map met_Name (sm_Metrics (sc_model sc)))"

definition unknownDimension :: "string \<Rightarrow> Scope \<Rightarrow> string \<Rightarrow> compile_error" where
  "unknownDimension clause sc name =
     CValidation (validationErrWithCode clause (UnknownDimensionMsg name) ''UNKNOWN_DIMENSION'' name
       (suggestAlternatives name (dimKeys sc)))"

definition unknownMetric :: "string \<Rightarrow> Scope \<Rightarrow> string \<Rightarrow> compile_error" where
  "unknownMetric clause sc name =
     CValidation (validationErrWithCode clause (UnknownMetricMsg name) ''UNKNOWN_METRIC'' name
       (suggestAlternatives name (metricKeysOf sc)))"

definition unknownField :: "string \<Rightarrow> Scope \<Rightarrow> string \<Rightarrow> compile_error" where
  "unknownField clause sc name =
     CValidation (validationErrWithCode clause (UnknownFieldMsg name) ''UNKNOWN_FIELD'' name
       (suggestAlternatives name (dimKeys sc @ metricKeysOf sc)))"

definition HiddenPIIFieldMsg :: "string \<Rightarrow> string" where
  "HiddenPIIFieldMsg name = ''field is hidden by PII policy: '' @ name"

definition hiddenField :: "string \<Rightarrow> string \<Rightarrow> compile_error" where
  "hiddenField clause name =
     CValidation (validationErrWithCode clause (HiddenPIIFieldMsg name) ''HIDDEN_PII_FIELD'' name [])"

section \<open>Expressions and dimensions\<close>

definition compileNode :: "Compiler \<Rightarrow> Scope \<Rightarrow> bool \<Rightarrow> ExprNode \<Rightarrow> string comp" where
  "compileNode c sc allowAggregates e st =
     (case CompileExpr \<lparr>ee_dialect = c_dialect c, ee_resolver = Some (sc_resolver sc), ee_pii = c_pii c,
                        ee_AllowAggregates = allowAggregates, ee_FormatFloat = c_FormatFloat c, ee_Sprint = c_Sprint c\<rparr>
             e \<lparr>es_args = None, es_applied = cs_applied st\<rparr> of
        (Inl err, es) \<Rightarrow> Some (Inl (CExpr err), st\<lparr>cs_applied := es_applied es\<rparr>)
      | (Inr sql, es) \<Rightarrow> Some (Inr sql, st\<lparr>cs_applied := es_applied es\<rparr>))"

definition dimensionSQL :: "Compiler \<Rightarrow> Scope \<Rightarrow> Dimension \<Rightarrow> string comp" where
  "dimensionSQL c sc d =
     (if dim_CalculatedExpr d \<noteq> NilExpr then compileNode c sc False (dim_CalculatedExpr d)
      else if TrimSpace (dim_CalculatedExpression d) \<noteq> [] then
        (case ParseExpression (TrimSpace (dim_CalculatedExpression d)) of
           None \<Rightarrow> exhausted
         | Some (Inl e) \<Rightarrow> failC (CParse e)
         | Some (Inr node) \<Rightarrow> compileNode c sc False node)
      else
        (let colRef = PhysicalColumnRef (sc_resolver sc) (dim_ColumnRef d) in
         if TrimSpace (dim_TimeGrain d) = [] then retC (QuoteIdent (c_dialect c) colRef)
         else
           (case normalizeDateGrain (dim_TimeGrain d) of (part, known) \<Rightarrow>
              if \<not> known then failC (CText (''unsupported time grain: '' @ dim_TimeGrain d))
              else if part \<in> set [''year'', ''quarter'', ''month'', ''hour''] then
                retC (CalendarPart (c_dialect c) part colRef)
              else retC (DateTrunc (c_dialect c) part colRef))))"

definition piiAccessForDim :: "Compiler \<Rightarrow> Scope \<Rightarrow> Dimension \<Rightarrow> (string \<times> string) option" where
  "piiAccessForDim c sc d =
     (case c_pii c of
        None \<Rightarrow> None
      | Some cfg \<Rightarrow>
          if dim_ColumnRef d = [] then None
          else lookup cfg [dim_ColumnRef d, PhysicalColumnRef (sc_resolver sc) (dim_ColumnRef d)])"

definition recordMaskedC :: "string \<Rightarrow> CState \<Rightarrow> CState" where
  "recordMaskedC ref st = st\<lparr>cs_applied := recordMasked ref (cs_applied st)\<rparr>"

definition recordHiddenC :: "string \<Rightarrow> CState \<Rightarrow> CState" where
  "recordHiddenC ref st = st\<lparr>cs_applied := recordHidden ref (cs_applied st)\<rparr>"

text \<open>The masking expression of the configured strategy; only called with a configuration.\<close>

definition maskSQL :: "Compiler \<Rightarrow> string \<Rightarrow> string \<Rightarrow> string" where
  "maskSQL c colRef piiType =
     (case c_pii c of Some cfg \<Rightarrow> strategy cfg colRef piiType (c_dialect c) | None \<Rightarrow> [])"

text \<open>The result \<open>("", false)\<close> is \<open>None\<close>.\<close>

definition piiSQLForColumnRef :: "Compiler \<Rightarrow> Scope \<Rightarrow> string \<Rightarrow> string option comp" where
  "piiSQLForColumnRef c sc ref0 st =
     (case c_pii c of
        None \<Rightarrow> Some (Inr None, st)
      | Some cfg \<Rightarrow>
          (let ref = TrimSpace ref0; physicalRef = PhysicalColumnRef (sc_resolver sc) ref in
           if ref = [] then Some (Inr None, st)
           else
             (case lookup cfg [ref, physicalRef] of
                None \<Rightarrow> Some (Inr None, st)
              | Some (access, piiType) \<Rightarrow>
                  if access = AccessRaw then Some (Inr None, st)
                  else if access = AccessMasked then
                    Some (Inr (Some (maskSQL c (QuoteIdent (c_dialect c) physicalRef) piiType)), recordMaskedC physicalRef st)
                  else Some (Inr (Some HiddenLiteral), recordHiddenC physicalRef st))))"

definition dimensionOutputSQL :: "Compiler \<Rightarrow> Scope \<Rightarrow> Dimension \<Rightarrow> string comp" where
  "dimensionOutputSQL c sc d =
     (case piiAccessForDim c sc d of
        None \<Rightarrow> softC (dimensionSQL c sc d)
      | Some (access, piiType) \<Rightarrow>
          (let physicalRef = PhysicalColumnRef (sc_resolver sc) (dim_ColumnRef d) in
           if access = AccessRaw then softC (dimensionSQL c sc d)
           else if access = AccessMasked then
             (\<lambda>st. Some (Inr (maskSQL c (QuoteIdent (c_dialect c) physicalRef) piiType), recordMaskedC physicalRef st))
           else (\<lambda>st. Some (Inr HiddenLiteral, recordHiddenC physicalRef st))))"

definition dimensionFullyHidden :: "Compiler \<Rightarrow> Scope \<Rightarrow> Dimension \<Rightarrow> bool" where
  "dimensionFullyHidden c sc d =
     (case piiAccessForDim c sc d of
        None \<Rightarrow> False
      | Some (access, _) \<Rightarrow> access \<noteq> AccessRaw \<and> access \<noteq> AccessMasked)"

definition filterFieldHidden :: "Compiler \<Rightarrow> Scope \<Rightarrow> Dimension \<Rightarrow> bool" where
  "filterFieldHidden = dimensionFullyHidden"

definition derivedFieldSQL :: "Compiler \<Rightarrow> string \<Rightarrow> string" where
  "derivedFieldSQL c name = QuoteIdent (c_dialect c) name"

section \<open>Metric expressions\<close>

text \<open>\<open>reBracket.ReplaceAllStringFunc\<close>: the leftmost \<open>[token]\<close> with a non-empty token is replaced, and so
  on behind it.\<close>

function replaceBrackets :: "(string \<Rightarrow> string comp) \<Rightarrow> string \<Rightarrow> string comp" where
  "replaceBrackets f [] = retC []"
| "replaceBrackets f (x # s) =
     (let token = takeWhile (\<lambda>y. y \<noteq> CHR '']'') s; rest = dropWhile (\<lambda>y. y \<noteq> CHR '']'') s in
      if x = CHR ''['' \<and> token \<noteq> [] \<and> rest \<noteq> []
      then bindC (f token) (\<lambda>a. bindC (replaceBrackets f (tl rest)) (\<lambda>b. retC (a @ b)))
      else bindC (replaceBrackets f s) (\<lambda>b. retC (x # b)))"
  by pat_completeness auto
termination
proof (relation "measure (\<lambda>(f, s). length s)")
  fix f :: "string \<Rightarrow> string comp" and x s token rest
  assume "rest = dropWhile (\<lambda>y. y \<noteq> CHR '']'') s"
  then have "length (tl rest) \<le> length s" using length_dropWhile_le [of "\<lambda>y. y \<noteq> CHR '']''" s] by simp
  then show "((f, tl rest), f, x # s) \<in> measure (\<lambda>(f, s). length s)" by simp
qed auto

declare replaceBrackets.simps [simp del]

definition resolveBareCustomExpression :: "Compiler \<Rightarrow> Scope \<Rightarrow> string \<Rightarrow> string comp" where
  "resolveBareCustomExpression c sc expr =
     bindC (piiSQLForColumnRef c sc expr) (\<lambda>masked.
       case masked of
         Some sql \<Rightarrow> retC sql
       | None \<Rightarrow>
           if resolverParse (sc_resolver sc) expr \<noteq> None then retC (PhysicalColumnRef (sc_resolver sc) expr)
           else if sm_BaseTable (sc_model sc) = [] then retC expr
           else
             bindC (piiSQLForColumnRef c sc (sm_BaseTable (sc_model sc) @ ''.'' @ expr)) (\<lambda>masked2.
               retC (case masked2 of Some sql \<Rightarrow> sql | None \<Rightarrow> expr)))"

text \<open>\<open>agg\<close> is \<open>metricAggregate\<close>, for the metrics an expression names.\<close>

definition resolveCustomToken :: "(Metric \<Rightarrow> string comp) \<Rightarrow> Compiler \<Rightarrow> Scope \<Rightarrow> string \<Rightarrow> string comp" where
  "resolveCustomToken agg c sc token0 =
     (let token = TrimSpace token0;
          byName = (\<lambda>names. find (\<lambda>name. EqualFold name token) (c_rangeOrder c names))
      in case byName (dimKeys sc) of
           Some name \<Rightarrow> (case sc_dimMap sc name of Some d \<Rightarrow> dimensionOutputSQL c sc d | None \<Rightarrow> retC [])
         | None \<Rightarrow>
             (case byName (metricKeysOf sc) of
                Some name \<Rightarrow> (case sc_metricMap sc name of Some m \<Rightarrow> agg m | None \<Rightarrow> retC [])
              | None \<Rightarrow>
                  bindC (piiSQLForColumnRef c sc token) (\<lambda>masked.
                    case masked of
                      Some sql \<Rightarrow> retC sql
                    | None \<Rightarrow>
                        if Contains token ''.'' then retC (QualifyColumn (sc_resolver sc) (c_dialect c) token)
                        else if sm_BaseTable (sc_model sc) \<noteq> [] then
                          (let ref = sm_BaseTable (sc_model sc) @ ''.'' @ token in
                           bindC (piiSQLForColumnRef c sc ref) (\<lambda>masked2.
                             retC (case masked2 of Some sql \<Rightarrow> sql | None \<Rightarrow> QualifyColumn (sc_resolver sc) (c_dialect c) ref)))
                        else retC (QuoteIdent (c_dialect c) token))))"

definition readOnlyGuard :: "string \<Rightarrow> string comp" where
  "readOnlyGuard resolved st =
     (if cs_err st = None \<and> resolved \<noteq> [] then
        (case Check NewReadOnlyChecker (''SELECT '' @ resolved) of
           Some e \<Rightarrow> setErr (CWrap ''metric expression failed read-only check'' (CReadOnly e)) st
         | None \<Rightarrow> Some (Inr resolved, st))
      else Some (Inr resolved, st))"

definition resolveBracketExpressions :: "(Metric \<Rightarrow> string comp) \<Rightarrow> Compiler \<Rightarrow> Scope \<Rightarrow> string \<Rightarrow> string comp" where
  "resolveBracketExpressions agg c sc expr =
     (if expr = ''*'' then retC expr
      else
        bindC (if CHR ''['' \<in> set expr then replaceBrackets (resolveCustomToken agg c sc) expr
               else resolveBareCustomExpression c sc expr)
          readOnlyGuard)"

definition metricExpressionRef ::
  "(Metric \<Rightarrow> string comp) \<Rightarrow> Compiler \<Rightarrow> Scope \<Rightarrow> Metric option \<Rightarrow> string \<Rightarrow> string comp" where
  "metricExpressionRef agg c sc metric expr =
     (let bracketed = (if TrimSpace expr = ''*'' then retC ''*'' else resolveBracketExpressions agg c sc (TrimSpace expr)) in
      case metric of
        None \<Rightarrow> bracketed
      | Some m \<Rightarrow>
          if met_Expr m \<noteq> NilExpr \<and> TrimSpace expr = TrimSpace (met_Expression m)
          then softC (compileNode c sc (ExprCompileOptsForMetric m) (met_Expr m))
          else bracketed)"

definition isSupportedAggregation :: "string \<Rightarrow> bool" where
  "isSupportedAggregation fn \<longleftrightarrow>
     ToLower (TrimSpace fn) \<in> set [[], ''custom'', ''none'', ''count'', ''count_distinct'', ''sum'', ''avg'', ''min'', ''max'']"

definition aggregateExpr :: "Compiler \<Rightarrow> string \<Rightarrow> string \<Rightarrow> string comp" where
  "aggregateExpr c fn expr =
     (let fnLower = ToLower (TrimSpace fn); d = c_dialect c in
      if fnLower \<in> set [''custom'', ''none'', []] then retC expr
      else if fnLower = ''count'' \<and> expr = ''*'' then retC (aggregateCountStarSQL d)
      else if fnLower = ''count'' then retC (callOf d ''count('' ''COUNT('' expr)
      else if fnLower = ''count_distinct'' then retC (callOf d ''uniq('' ''COUNT(DISTINCT '' expr)
      else if fnLower = ''sum'' then retC (callOf d ''sum('' ''SUM('' expr)
      else if fnLower = ''avg'' then retC (callOf d ''avg('' ''AVG('' expr)
      else if fnLower = ''min'' then retC (callOf d ''min('' ''MIN('' expr)
      else if fnLower = ''max'' then retC (callOf d ''max('' ''MAX('' expr)
      else setErr (CText (''unsupported aggregation function: '' @ fn)))"

primrec metricAggregateN :: "nat \<Rightarrow> Compiler \<Rightarrow> Scope \<Rightarrow> Metric \<Rightarrow> string comp" where
  "metricAggregateN 0 c sc m = exhausted"
| "metricAggregateN (Suc n) c sc m =
     bindC (metricExpressionRef (metricAggregateN n c sc) c sc (Some m) (met_Expression m)) (\<lambda>expr.
       if met_Expr m \<noteq> NilExpr then aggregateExpr c (met_Aggregation m) expr
       else if \<not> isSupportedAggregation (met_Aggregation m) then
         setErr (CText (''unsupported aggregation function: '' @ met_Aggregation m))
       else retC (Aggregate (c_dialect c) (met_Aggregation m) expr))"

definition metricAggregate :: "Compiler \<Rightarrow> Scope \<Rightarrow> Metric \<Rightarrow> string comp" where
  "metricAggregate c sc m = metricAggregateN (c_metricDepth c) c sc m"

definition qualifyMetricExpression :: "Compiler \<Rightarrow> Scope \<Rightarrow> Metric \<Rightarrow> string \<Rightarrow> string comp" where
  "qualifyMetricExpression c sc m expr0 =
     (if met_Expr m \<noteq> NilExpr \<and> TrimSpace expr0 = TrimSpace (met_Expression m)
      then softC (compileNode c sc (ExprCompileOptsForMetric m) (met_Expr m))
      else
        (let expr = TrimSpace expr0 in
         if expr = ''*'' then retC expr
         else if CHR ''['' \<in> set expr then resolveBracketExpressions (metricAggregate c sc) c sc expr
         else
           bindC (piiSQLForColumnRef c sc expr) (\<lambda>masked.
             case masked of
               Some sql \<Rightarrow> retC sql
             | None \<Rightarrow>
                 if resolverParse (sc_resolver sc) expr \<noteq> None
                 then retC (QuoteIdent (c_dialect c) (PhysicalColumnRef (sc_resolver sc) expr))
                 else if sm_BaseTable (sc_model sc) \<noteq> [] then
                   bindC (piiSQLForColumnRef c sc (sm_BaseTable (sc_model sc) @ ''.'' @ expr)) (\<lambda>masked2.
                     retC (case masked2 of Some sql \<Rightarrow> sql | None \<Rightarrow> QuoteIdent (c_dialect c) expr))
                 else retC (QuoteIdent (c_dialect c) expr))))"

section \<open>Filters (compiler\_filter.go)\<close>

text \<open>\<open>fmt.Sprint\<close>: strings, integers and booleans print as themselves.\<close>

definition sprintAny :: "Compiler \<Rightarrow> go_any \<Rightarrow> string" where
  "sprintAny c v =
     (case v of
        AStr s \<Rightarrow> s
      | AInt n \<Rightarrow> Itoa n
      | ABool b \<Rightarrow> (if b then ''true'' else ''false'')
      | ANil \<Rightarrow> ''<nil>''
      | _ \<Rightarrow> c_Sprint c v)"

definition sliceOfStrings :: "Compiler \<Rightarrow> go_any \<Rightarrow> string list option" where
  "sliceOfStrings c v =
     (case v of AList vs \<Rightarrow> Some (map (sprintAny c) (filter (\<lambda>x. x \<noteq> ANil) vs)) | _ \<Rightarrow> None)"

definition caseSensitiveComparison :: "string \<Rightarrow> string \<Rightarrow> string \<Rightarrow> string \<Rightarrow> string" where
  "caseSensitiveComparison dname lhsSQL op placeholder =
     (if dname = ''mysql'' then lhsSQL @ '' '' @ op @ '' BINARY '' @ placeholder
      else if dname = ''sqlserver'' then lhsSQL @ '' '' @ op @ '' '' @ placeholder @ '' COLLATE Latin1_General_CS_AS''
      else lhsSQL @ '' '' @ op @ '' '' @ placeholder)"

definition likeExpression :: "Compiler \<Rightarrow> string \<Rightarrow> string \<Rightarrow> bool \<Rightarrow> string" where
  "likeExpression c lhsSQL placeholder caseSensitive =
     (if caseSensitive then caseSensitiveComparison (Name (c_dialect c)) lhsSQL ''LIKE'' placeholder
      else ILike (c_dialect c) lhsSQL placeholder)"

definition compareSQL :: "Compiler \<Rightarrow> Filter \<Rightarrow> string \<Rightarrow> string \<Rightarrow> string \<Rightarrow> string" where
  "compareSQL c f lhsSQL op placeholder =
     (if f_CaseSensitive f then caseSensitiveComparison (Name (c_dialect c)) lhsSQL op placeholder
      else lhsSQL @ '' '' @ op @ '' '' @ placeholder)"

definition buildEqualityFilter :: "Compiler \<Rightarrow> Filter \<Rightarrow> string \<Rightarrow> string \<Rightarrow> string \<Rightarrow> string comp" where
  "buildEqualityFilter c f lhsSQL op sliceJoin =
     (case sliceOfStrings c (f_Value f) of
        Some vals \<Rightarrow>
          if vals = [] then retC ''1=1''
          else
            bindC (mapC (\<lambda>v. bindC (pushArg c (BVal (AStr v))) (\<lambda>p. retC (compareSQL c f lhsSQL op p))) vals) (\<lambda>parts.
              retC (''('' @ Join parts ('' '' @ sliceJoin @ '' '') @ '')''))
      | None \<Rightarrow> bindC (pushArg c (BVal (f_Value f))) (\<lambda>p. retC (compareSQL c f lhsSQL op p)))"

definition buildComparisonFilter :: "Compiler \<Rightarrow> Filter \<Rightarrow> string \<Rightarrow> string \<Rightarrow> string comp" where
  "buildComparisonFilter c f lhsSQL op =
     bindC (pushArg c (BVal (f_Value f))) (\<lambda>p. retC (lhsSQL @ '' '' @ op @ '' '' @ p))"

definition buildInFilter :: "Compiler \<Rightarrow> string \<Rightarrow> go_any \<Rightarrow> string comp" where
  "buildInFilter c lhsSQL v =
     (case v of
        AList vals \<Rightarrow>
          bindC (mapC (\<lambda>x. pushArg c (BVal x)) vals) (\<lambda>ps. retC (lhsSQL @ '' IN ('' @ Join ps '', '' @ '')''))
      | _ \<Rightarrow> failC (CText ''in operator expects array''))"

definition buildNotInFilter :: "Compiler \<Rightarrow> string \<Rightarrow> go_any \<Rightarrow> string comp" where
  "buildNotInFilter c lhsSQL v =
     (case v of
        AList vals \<Rightarrow>
          bindC (mapC (\<lambda>x. pushArg c (BVal x)) vals) (\<lambda>ps. retC (lhsSQL @ '' NOT IN ('' @ Join ps '', '' @ '')''))
      | _ \<Rightarrow> failC (CText ''not_in operator expects array''))"

definition buildBetweenFilter :: "Compiler \<Rightarrow> string \<Rightarrow> go_any \<Rightarrow> string comp" where
  "buildBetweenFilter c lhsSQL v =
     (case v of
        AList [lo, hi] \<Rightarrow>
          bindC (pushArg c (BVal lo)) (\<lambda>p1. bindC (pushArg c (BVal hi)) (\<lambda>p2.
            retC (lhsSQL @ '' BETWEEN '' @ p1 @ '' AND '' @ p2)))
      | _ \<Rightarrow> failC (CText ''between operator expects 2 values''))"

definition buildLikeFilter :: "Compiler \<Rightarrow> Filter \<Rightarrow> string \<Rightarrow> (string \<Rightarrow> string) \<Rightarrow> string comp" where
  "buildLikeFilter c f lhsSQL wrap =
     (let like = (\<lambda>v. bindC (pushArg c (BVal (AStr (wrap v)))) (\<lambda>p. retC (likeExpression c lhsSQL p (f_CaseSensitive f)))) in
      case sliceOfStrings c (f_Value f) of
        Some vals \<Rightarrow>
          if vals = [] then retC ''1=1''
          else bindC (mapC like vals) (\<lambda>parts. retC (''('' @ Join parts '' OR '' @ '')''))
      | None \<Rightarrow> like (sprintAny c (f_Value f)))"

text \<open>\<open>sub\<close> compiles a nested statement.\<close>

definition buildInSubqueryFilter ::
  "(SubqueryBody \<Rightarrow> string comp) \<Rightarrow> string \<Rightarrow> SubqueryFilter \<Rightarrow> bool \<Rightarrow> string comp" where
  "buildInSubqueryFilter sub lhsSQL sf positive =
     (if TrimSpace (sf_ResultField sf) = [] then failC (CText ''subquery filter requires result_field'')
      else
        bindC (sub (sf_Body sf)) (\<lambda>subSQL.
          case sb_Select (sf_Body sf) of
            [sel] \<Rightarrow>
              if si_Name sel \<noteq> sf_ResultField sf \<and> si_Alias sel \<noteq> sf_ResultField sf
              then failC (CText (''subquery filter body does not select the required result_field '' @ Quote (sf_ResultField sf)))
              else retC (lhsSQL @ '' '' @ (if positive then ''IN'' else ''NOT IN'') @ '' ('' @ subSQL @ '')'')
          | _ \<Rightarrow>
              failC (CValidation (validationErrWithCode ''filters'' ''subquery filter body must select exactly one field''
                ''INVALID_SUBQUERY_FILTER'' (sf_ResultField sf) []))))"

definition buildFilterPart :: "(SubqueryBody \<Rightarrow> string comp) \<Rightarrow> Compiler \<Rightarrow> Filter \<Rightarrow> string \<Rightarrow> string comp" where
  "buildFilterPart sub c f lhsSQL =
     (let op = f_Operator f in
      if op = ''eq'' then buildEqualityFilter c f lhsSQL ''='' ''OR''
      else if op = ''neq'' then buildEqualityFilter c f lhsSQL ''!='' ''AND''
      else if op = ''gt'' then buildComparisonFilter c f lhsSQL ''>''
      else if op = ''gte'' then buildComparisonFilter c f lhsSQL ''>=''
      else if op = ''lt'' then buildComparisonFilter c f lhsSQL ''<''
      else if op = ''lte'' then buildComparisonFilter c f lhsSQL ''<=''
      else if op = ''in'' then
        (case f_Subquery f of Some sf \<Rightarrow> buildInSubqueryFilter sub lhsSQL sf True | None \<Rightarrow> buildInFilter c lhsSQL (f_Value f))
      else if op = ''not_in'' then
        (case f_Subquery f of Some sf \<Rightarrow> buildInSubqueryFilter sub lhsSQL sf False | None \<Rightarrow> buildNotInFilter c lhsSQL (f_Value f))
      else if op = ''contains'' then buildLikeFilter c f lhsSQL (\<lambda>v. ''%'' @ v @ ''%'')
      else if op = ''starts_with'' then buildLikeFilter c f lhsSQL (\<lambda>v. v @ ''%'')
      else if op = ''ends_with'' then buildLikeFilter c f lhsSQL (\<lambda>v. ''%'' @ v)
      else if op = ''between'' then buildBetweenFilter c lhsSQL (f_Value f)
      else if op = ''is_null'' then retC (lhsSQL @ '' IS NULL'')
      else if op = ''is_not_null'' then retC (lhsSQL @ '' IS NOT NULL'')
      else if op = ''is_empty'' then retC (lhsSQL @ '' = '' @ [CHR 0x27, CHR 0x27])
      else if op = ''is_not_empty'' then retC (lhsSQL @ '' != '' @ [CHR 0x27, CHR 0x27])
      else failC (CText (''unsupported operator: '' @ op)))"

definition sqlComparator :: "string \<Rightarrow> string option" where
  "sqlComparator op = map_of [(''eq'', ''=''), (''neq'', ''!=''), (''gt'', ''>''), (''gte'', ''>=''), (''lt'', ''<''), (''lte'', ''<='')] op"

definition comparatorC :: "string \<Rightarrow> string comp" where
  "comparatorC op =
     (case sqlComparator op of Some s \<Rightarrow> retC s | None \<Rightarrow> failC (CText (''unsupported comparator operator: '' @ op)))"

section \<open>Calendar filters (calendar\_grain\_filter.go, compiler.go)\<close>

definition dateTruncCompareExpr :: "Compiler \<Rightarrow> string \<Rightarrow> string \<Rightarrow> string \<Rightarrow> int \<Rightarrow> string comp" where
  "dateTruncCompareExpr c part0 columnRef op anchor =
     (let part = ToLower (TrimSpace part0) in
      if part \<notin> set [''day'', ''month'', ''quarter'', ''hour''] then
        failC (CText (''date_trunc compare: unsupported part '' @ Quote part))
      else
        bindC (comparatorC op) (\<lambda>cmp.
        bindC (pushArg c (BTime anchor)) (\<lambda>p.
          retC (DateTrunc (c_dialect c) part columnRef @ '' '' @ cmp @ '' '' @ DateTruncPlaceholder (c_dialect c) part p))))"

definition castColumnAsDate :: "Compiler \<Rightarrow> string \<Rightarrow> string" where
  "castColumnAsDate c columnRef =
     (let quoted = QuoteIdent (c_dialect c) columnRef; n = Name (c_dialect c) in
      if n = ''mysql'' then ''DATE('' @ quoted @ '')''
      else if n = ''clickhouse'' then ''toDate('' @ quoted @ '')''
      else if n = ''sqlite'' then ''date('' @ quoted @ '')''
      else ''CAST('' @ quoted @ '' AS '' @ CastTypeUpper ''date'' @ '')'')"

text \<open>In the next three functions \<open>None\<close> is the result \<open>ok = false\<close>.\<close>

definition rawDateDayFilterExpr :: "Compiler \<Rightarrow> Scope \<Rightarrow> Filter \<Rightarrow> string comp option" where
  "rawDateDayFilterExpr c sc f =
     (case sc_dimMap sc (f_Field f) of
        None \<Rightarrow> None
      | Some d \<Rightarrow>
          if \<not> rawDateColumnDayEqualityFilter d f then None
          else Some
            (bindC (comparatorC (f_Operator f)) (\<lambda>cmp.
             bindC (pushArg c (BVal (f_Value f))) (\<lambda>p.
               retC (castColumnAsDate c (PhysicalColumnRef (sc_resolver sc) (dim_ColumnRef d)) @ '' '' @ cmp @ '' '' @ p)))))"

definition dayOfMonthGrainFilterExpr ::
  "(SubqueryBody \<Rightarrow> string comp) \<Rightarrow> Compiler \<Rightarrow> Scope \<Rightarrow> Filter \<Rightarrow> string comp option" where
  "dayOfMonthGrainFilterExpr sub c sc f =
     (case sc_dimMap sc (f_Field f) of
        None \<Rightarrow> None
      | Some d \<Rightarrow>
          if \<not> dayGrainBareIntegerFilter d f then None
          else Some (buildFilterPart sub c f
            (CalendarPart (c_dialect c) TimeGrainDay (PhysicalColumnRef (sc_resolver sc) (dim_ColumnRef d)))))"

definition calendarFilterGrain :: "Dimension \<Rightarrow> Filter \<Rightarrow> string option" where
  "calendarFilterGrain d f =
     (if dayGrainFilterUsesDateTrunc d f then Some TimeGrainDay
      else if monthGrainFilterUsesDateTrunc d f then Some TimeGrainMonth
      else if quarterGrainFilterUsesDateTrunc d f then Some TimeGrainQuarter
      else if hourGrainFilterUsesDateTrunc d f then
        Some (if isDateOnlyCalendarValue (f_Value f) then TimeGrainDay else TimeGrainHour)
      else None)"

definition calendarGrainFilterExpr :: "Compiler \<Rightarrow> Scope \<Rightarrow> Filter \<Rightarrow> string comp option" where
  "calendarGrainFilterExpr c sc f =
     (case sc_dimMap sc (f_Field f) of
        None \<Rightarrow> None
      | Some d \<Rightarrow>
          (case calendarFilterGrain d f of
             None \<Rightarrow> None
           | Some grain \<Rightarrow>
               Some (case calendarAnchorTime (f_Value f) of
                 None \<Rightarrow> failC (CText (grain @ '' grain filter on '' @ Quote (f_Field f) @ '': expected calendar anchor value''))
               | Some anchor \<Rightarrow>
                   dateTruncCompareExpr c grain (PhysicalColumnRef (sc_resolver sc) (dim_ColumnRef d)) (f_Operator f) anchor)))"

section \<open>Predicates\<close>

definition resolveFilterLHS :: "Compiler \<Rightarrow> Scope \<Rightarrow> string \<Rightarrow> string comp" where
  "resolveFilterLHS c sc field =
     (if sc_derivedSource sc \<and> (sc_dimMap sc field \<noteq> None \<or> sc_metricMap sc field \<noteq> None)
      then retC (derivedFieldSQL c field)
      else
        (case sc_dimMap sc field of
           Some d \<Rightarrow>
             if filterFieldHidden c sc d then failC (hiddenField ''filters'' field) else dimensionSQL c sc d
         | None \<Rightarrow>
             (case sc_metricMap sc field of
                Some m \<Rightarrow> qualifyMetricExpression c sc m (met_Expression m)
              | None \<Rightarrow> failC (unknownField ''filters'' sc field))))"

definition filterSQLC :: "(SubqueryBody \<Rightarrow> string comp) \<Rightarrow> Compiler \<Rightarrow> Scope \<Rightarrow> Filter \<Rightarrow> string comp" where
  "filterSQLC sub c sc f =
     (case dayOfMonthGrainFilterExpr sub c sc f of
        Some m \<Rightarrow> m
      | None \<Rightarrow>
          (case calendarGrainFilterExpr c sc f of
             Some m \<Rightarrow> m
           | None \<Rightarrow>
               (case rawDateDayFilterExpr c sc f of
                  Some m \<Rightarrow> m
                | None \<Rightarrow> bindC (resolveFilterLHS c sc (f_Field f)) (buildFilterPart sub c f))))"

definition buildFilterConjunction ::
  "(SubqueryBody \<Rightarrow> string comp) \<Rightarrow> Compiler \<Rightarrow> Scope \<Rightarrow> Filter list \<Rightarrow> string comp" where
  "buildFilterConjunction sub c sc filters = bindC (mapC (filterSQLC sub c sc) filters) (\<lambda>parts. retC (Join parts '' AND ''))"

definition buildWhere :: "(SubqueryBody \<Rightarrow> string comp) \<Rightarrow> Compiler \<Rightarrow> Scope \<Rightarrow> Filter list \<Rightarrow> string comp" where
  "buildWhere = buildFilterConjunction"

definition buildPredicate :: "(SubqueryBody \<Rightarrow> string comp) \<Rightarrow> Compiler \<Rightarrow> Scope \<Rightarrow> Filter list \<Rightarrow> string comp" where
  "buildPredicate sub c sc filters =
     (if filters = [] then failC (CText ''empty predicate'')
      else
        bindC (mapC (\<lambda>f. bindC (resolveFilterLHS c sc (f_Field f)) (buildFilterPart sub c f)) filters) (\<lambda>parts.
          retC (Join parts '' AND '')))"

section \<open>Measures\<close>

definition aggregatingFunctions :: "string list" where
  "aggregatingFunctions = [''count'', ''count_distinct'', ''sum'', ''avg'', ''min'', ''max'']"

definition metricFilteredAggregate ::
  "(SubqueryBody \<Rightarrow> string comp) \<Rightarrow> Compiler \<Rightarrow> Scope \<Rightarrow> Metric \<Rightarrow> Filter list \<Rightarrow> string comp" where
  "metricFilteredAggregate sub c sc m filters =
     (if ToLower (TrimSpace (met_Aggregation m)) \<notin> set aggregatingFunctions then
        failC (CText (''per-measure filters require an aggregating metric (count/count_distinct/sum/avg/min/max), got '' @
          Quote (met_Aggregation m) @ '' for metric '' @ Quote (met_Name m)))
      else
        bindC (buildFilterConjunction sub c sc filters) (\<lambda>cond.
          if cond = [] then bindC (metricAggregate c sc m) checkErr
          else
            bindC (bindC (metricExpressionRef (metricAggregate c sc) c sc (Some m) (met_Expression m)) checkErr) (\<lambda>expr.
              let inner =
                (if EqualFold (TrimSpace (met_Aggregation m)) ''count'' \<and> TrimSpace expr = ''*'' then ''1''
                 else if met_Expr m \<noteq> NilExpr then expr
                 else QuoteIdent (c_dialect c) expr)
              in bindC (aggregateExpr c (met_Aggregation m) (''CASE WHEN '' @ cond @ '' THEN '' @ inner @ '' END'')) checkErr)))"

definition measureSQL :: "(SubqueryBody \<Rightarrow> string comp) \<Rightarrow> Compiler \<Rightarrow> Scope \<Rightarrow> MeasureRef \<Rightarrow> string comp" where
  "measureSQL sub c sc m =
     (case sc_metricMap sc (mr_Metric m) of
        None \<Rightarrow> failC (unknownMetric ''select'' sc (mr_Metric m))
      | Some metric \<Rightarrow>
          if mr_Filters m = [] then bindC (metricAggregate c sc metric) checkErr
          else metricFilteredAggregate sub c sc metric (mr_Filters m))"

definition selectItemAlias :: "string \<Rightarrow> string \<Rightarrow> string" where
  "selectItemAlias alias fallback = (if alias \<noteq> [] then alias else fallback)"

definition selectItemSQL :: "string \<Rightarrow> string \<Rightarrow> Dialect \<Rightarrow> string" where
  "selectItemSQL expr alias d = expr @ '' AS '' @ QuoteIdent d alias"

definition buildSelectDimension :: "Compiler \<Rightarrow> Scope \<Rightarrow> SelectItem \<Rightarrow> string comp" where
  "buildSelectDimension c sc item =
     (case sc_dimMap sc (si_Name item) of
        None \<Rightarrow> failC (unknownDimension ''select'' sc (si_Name item))
      | Some d \<Rightarrow>
          (let alias = selectItemAlias (si_Alias item) (dim_Name d) in
           if sc_derivedSource sc then retC (selectItemSQL (derivedFieldSQL c alias) alias (c_dialect c))
           else bindC (bindC (dimensionOutputSQL c sc d) checkErr) (\<lambda>sql. retC (selectItemSQL sql alias (c_dialect c)))))"

definition buildSelectMetric :: "(SubqueryBody \<Rightarrow> string comp) \<Rightarrow> Compiler \<Rightarrow> Scope \<Rightarrow> SelectItem \<Rightarrow> string comp" where
  "buildSelectMetric sub c sc item =
     (case sc_metricMap sc (si_Name item) of
        None \<Rightarrow> failC (unknownMetric ''select'' sc (si_Name item))
      | Some m \<Rightarrow>
          (let alias = selectItemAlias (si_Alias item) (met_Name m) in
           if sc_derivedSource sc then retC (selectItemSQL (derivedFieldSQL c alias) alias (c_dialect c))
           else
             bindC (if si_Filters item \<noteq> [] then metricFilteredAggregate sub c sc m (si_Filters item)
                    else bindC (metricAggregate c sc m) checkErr)
               (\<lambda>agg. retC (selectItemSQL agg alias (c_dialect c)))))"

definition formulaSQL :: "string \<Rightarrow> string \<Rightarrow> string \<Rightarrow> string comp" where
  "formulaSQL op l r =
     (if op = ''add'' then retC (l @ '' + '' @ r)
      else if op = ''subtract'' then retC (l @ '' - '' @ r)
      else if op = ''divide'' then retC (l @ '' * 1.0 / NULLIF('' @ r @ '', 0)'')
      else if op = ''percent_of'' then retC (l @ '' * 100.0 / NULLIF('' @ r @ '', 0)'')
      else if op = ''percent_change'' then retC (''('' @ l @ '' - '' @ r @ '') * 100.0 / NULLIF('' @ r @ '', 0)'')
      else failC (CText (''unsupported formula op: '' @ Quote op)))"

definition buildSelectFormula :: "(SubqueryBody \<Rightarrow> string comp) \<Rightarrow> Compiler \<Rightarrow> Scope \<Rightarrow> SelectItem \<Rightarrow> string comp" where
  "buildSelectFormula sub c sc item =
     (case si_Formula item of
        None \<Rightarrow> failC (CText ''formula select item requires a formula spec'')
      | Some fs \<Rightarrow>
          (let alias = selectItemAlias (si_Alias item) (si_Name item) in
           if alias = [] then failC (CText ''formula select item requires name or alias'')
           else
             bindC (measureSQL sub c sc (fs_Left fs)) (\<lambda>left.
             bindC (measureSQL sub c sc (fs_Right fs)) (\<lambda>right.
             bindC (formulaSQL (fs_Op fs) (''('' @ left @ '')'') (''('' @ right @ '')'')) (\<lambda>sql.
               retC (selectItemSQL sql alias (c_dialect c)))))))"

section \<open>CASE items (compiler\_case.go)\<close>

definition formatLiteral :: "Compiler \<Rightarrow> go_any \<Rightarrow> string comp" where
  "formatLiteral c v =
     (case v of
        ANil \<Rightarrow> retC ''NULL''
      | ABool b \<Rightarrow> retC (if b then ''TRUE'' else ''FALSE'')
      | _ \<Rightarrow> pushArg c (BVal v))"

definition buildCaseThen :: "Compiler \<Rightarrow> Scope \<Rightarrow> CaseThen \<Rightarrow> string comp" where
  "buildCaseThen c sc thn =
     (let t = ToLower (TrimSpace (ct_Type thn)) in
      if t = ''dimension'' \<or> t = [] then
        (if ct_Dimension thn = [] then failC (CText ''case then dimension name required'')
         else
           (case sc_dimMap sc (ct_Dimension thn) of
              None \<Rightarrow> failC (CText (''unknown case then dimension: '' @ ct_Dimension thn))
            | Some d \<Rightarrow> dimensionSQL c sc d))
      else if t = ''literal'' then formatLiteral c (ct_Literal thn)
      else failC (CText (''invalid case then type: '' @ ct_Type thn)))"

definition caseBranchSQL ::
  "(SubqueryBody \<Rightarrow> string comp) \<Rightarrow> Compiler \<Rightarrow> Scope \<Rightarrow> nat \<times> CaseBranch \<Rightarrow> string comp" where
  "caseBranchSQL sub c sc ib =
     (case ib of (i, br) \<Rightarrow>
        let label = ''case branch '' @ Itoa (int i) in
        if cb_When br = [] then failC (CText (label @ '' missing when filters''))
        else
          bindC (wrapC label (buildPredicate sub c sc (cb_When br))) (\<lambda>pred.
          bindC (wrapC (label @ '' then'') (buildCaseThen c sc (cb_Then br))) (\<lambda>thenSQL.
            retC (''WHEN '' @ pred @ '' THEN '' @ thenSQL))))"

definition buildCaseExpr :: "(SubqueryBody \<Rightarrow> string comp) \<Rightarrow> Compiler \<Rightarrow> Scope \<Rightarrow> SelectItem \<Rightarrow> string comp" where
  "buildCaseExpr sub c sc item =
     (let missing = failC (CText (''case select item '' @ Quote (si_Name item) @ '' missing case branches'')) in
      case si_Case item of
        None \<Rightarrow> missing
      | Some ce \<Rightarrow>
          if qc_Branches ce = [] then missing
          else
            bindC (mapC (caseBranchSQL sub c sc) (enumerate 0 (qc_Branches ce))) (\<lambda>branches.
            bindC (case qc_Else ce of
                     None \<Rightarrow> retC []
                   | Some thn \<Rightarrow> bindC (wrapC ''case else'' (buildCaseThen c sc thn)) (\<lambda>e. retC [''ELSE '' @ e]))
              (\<lambda>els. retC (Join (''CASE'' # branches @ els @ [''END'']) '' ''))))"

definition buildSelectCase :: "(SubqueryBody \<Rightarrow> string comp) \<Rightarrow> Compiler \<Rightarrow> Scope \<Rightarrow> SelectItem \<Rightarrow> string comp" where
  "buildSelectCase sub c sc item =
     bindC (buildCaseExpr sub c sc item) (\<lambda>caseSQL.
       let alias = selectItemAlias (si_Alias item) (si_Name item) in
       if alias = [] then failC (CText ''case select item requires name or alias'')
       else retC (selectItemSQL caseSQL alias (c_dialect c)))"

section \<open>Window items\<close>

text \<open>\<open>validFramePattern\<close>: words separated by white space, whatever their case.\<close>

fun frameWords :: "string \<Rightarrow> string \<Rightarrow> string list" where
  "frameWords [] acc = (if acc = [] then [] else [rev acc])"
| "frameWords (x # s) acc =
     (if re_space x then (if acc = [] then frameWords s [] else rev acc # frameWords s [])
      else frameWords s (upper_char x # acc))"

definition isNumberWord :: "string \<Rightarrow> bool" where
  "isNumberWord w \<longleftrightarrow> w \<noteq> [] \<and> list_all is_digit w"

definition frameStart :: "string \<Rightarrow> string \<Rightarrow> bool" where
  "frameStart a b \<longleftrightarrow>
     a = ''UNBOUNDED'' \<and> b = ''PRECEDING'' \<or> isNumberWord a \<and> b = ''PRECEDING'' \<or> a = ''CURRENT'' \<and> b = ''ROW''"

definition frameEnd :: "string \<Rightarrow> string \<Rightarrow> bool" where
  "frameEnd a b \<longleftrightarrow>
     a = ''UNBOUNDED'' \<and> b = ''FOLLOWING'' \<or> isNumberWord a \<and> b = ''PRECEDING'' \<or>
     isNumberWord a \<and> b = ''FOLLOWING'' \<or> a = ''CURRENT'' \<and> b = ''ROW''"

definition isValidFrame :: "string \<Rightarrow> bool" where
  "isValidFrame frame =
     (case frameWords frame [] of
        [units, between, a, b, conn, a', b'] \<Rightarrow>
          units \<in> set [''ROWS'', ''RANGE'', ''GROUPS''] \<and> between = ''BETWEEN'' \<and> frameStart a b \<and> conn = ''AND'' \<and> frameEnd a' b'
      | _ \<Rightarrow> False)"

definition isPositiveInt :: "string \<Rightarrow> bool" where
  "isPositiveInt s \<longleftrightarrow> s \<noteq> [] \<and> list_all is_digit s \<and> s \<noteq> ''0''"

definition windowArgs :: "Compiler \<Rightarrow> string \<Rightarrow> string \<Rightarrow> bool \<Rightarrow> int \<Rightarrow> string list comp" where
  "windowArgs c agg expr exprFromAST offset =
     (let valueSQL = (if exprFromAST then expr else QuoteIdent (c_dialect c) expr);
          needsValue = failC (CText (''window function '' @ Quote agg @ '' requires a metric or expression to read''))
      in if agg = ''ntile'' then
           (let bucket = (if expr = [] then ''4'' else expr) in
            if \<not> isPositiveInt bucket then failC (CText (''ntile bucket must be a positive integer, got: '' @ Quote bucket))
            else retC [bucket])
         else if agg = ''lag'' \<or> agg = ''lead'' then
           (if expr = [] \<or> expr = ''*'' then needsValue else retC [valueSQL, Itoa (if offset \<le> 0 then 1 else offset)])
         else if agg = ''first_value'' \<or> agg = ''last_value'' then
           (if expr = [] \<or> expr = ''*'' then needsValue else retC [valueSQL])
         else retC [])"

definition buildWindowHead :: "Compiler \<Rightarrow> string \<Rightarrow> string \<Rightarrow> bool \<Rightarrow> int \<Rightarrow> string comp" where
  "buildWindowHead c agg expr exprFromAST offset =
     (if agg = ''count_distinct'' then
        failC (CText ''count_distinct is not supported as a window function (no portable SQL across engines); use a plain count window or a distinct subquery instead'')
      else if agg \<notin> set analyticWindowFuncs then
        (if exprFromAST \<or> expr = ''*'' then aggregateExpr c agg expr else retC (Aggregate (c_dialect c) agg expr))
      else
        bindC (windowArgs c agg expr exprFromAST offset) (\<lambda>args.
          case WindowFunc (c_dialect c) agg args of
            Some head \<Rightarrow> retC head
          | None \<Rightarrow> failC (CText (''window function '' @ Quote agg @ '' is not supported by the '' @ Name (c_dialect c) @ '' dialect''))))"

text \<open>Aggregation, expression and whether the expression is SQL already.\<close>

definition inheritWindowMetricFields ::
  "Compiler \<Rightarrow> Scope \<Rightarrow> string \<Rightarrow> string \<Rightarrow> string \<Rightarrow> bool \<Rightarrow> (string \<times> string \<times> bool) comp" where
  "inheritWindowMetricFields c sc metricName agg0 expr exprFromAST =
     (let mname = TrimSpace metricName in
      if mname = [] then retC (agg0, expr, exprFromAST)
      else
        (case sc_metricMap sc mname of
           None \<Rightarrow> failC (CText (''window metric not found: '' @ mname))
         | Some m \<Rightarrow>
             (let agg = (if agg0 = [] then ToLower (met_Aggregation m) else agg0) in
              if expr \<noteq> [] then retC (agg, expr, exprFromAST)
              else if met_Expr m \<noteq> NilExpr then
                bindC (compileNode c sc (ExprCompileOptsForMetric m) (met_Expr m)) (\<lambda>sql. retC (agg, sql, True))
              else retC (agg, met_Expression m, exprFromAST))))"

definition buildWindowPartitionBy :: "Compiler \<Rightarrow> Scope \<Rightarrow> string list \<Rightarrow> string comp" where
  "buildWindowPartitionBy c sc partitionBy =
     (if partitionBy = [] then retC []
      else
        bindC (mapC (\<lambda>p. case sc_dimMap sc p of
                           Some d \<Rightarrow> dimensionSQL c sc d
                         | None \<Rightarrow> failC (CText (''unknown window partition_by dimension: '' @ p))) partitionBy)
          (\<lambda>cols. retC (''PARTITION BY '' @ Join cols '', '')))"

definition windowOrderSQL :: "Compiler \<Rightarrow> Scope \<Rightarrow> OrderBy \<Rightarrow> string comp" where
  "windowOrderSQL c sc ob =
     (let dir = (if ToUpper (TrimSpace (ob_Direction ob)) \<noteq> ''DESC'' then ''ASC'' else ''DESC'') in
      bindC (case sc_dimMap sc (ob_Field ob) of
               Some d \<Rightarrow> dimensionSQL c sc d
             | None \<Rightarrow>
                 (case sc_metricMap sc (ob_Field ob) of
                    Some m \<Rightarrow> metricAggregate c sc m
                  | None \<Rightarrow> failC (CText (''unknown window order_by field: '' @ ob_Field ob))))
        (\<lambda>ref. retC (ref @ '' '' @ dir)))"

definition buildWindowOrderBy :: "Compiler \<Rightarrow> Scope \<Rightarrow> OrderBy list \<Rightarrow> string comp" where
  "buildWindowOrderBy c sc orderBy =
     (if orderBy = [] then retC []
      else bindC (mapC (windowOrderSQL c sc) orderBy) (\<lambda>parts. retC (''ORDER BY '' @ Join parts '', '')))"

definition finishWindowOver :: "Compiler \<Rightarrow> Scope \<Rightarrow> string \<Rightarrow> WindowSpec \<Rightarrow> string comp" where
  "finishWindowOver c sc head w =
     bindC (buildWindowPartitionBy c sc (ws_PartitionBy w)) (\<lambda>partBy.
     bindC (buildWindowOrderBy c sc (ws_OrderBy w)) (\<lambda>orderBy.
       let frame = TrimSpace (ws_Frame w) in
       if frame \<noteq> [] \<and> \<not> isValidFrame frame then
         failC (CValidation (validationErrWithCode ''select'' (''invalid window frame clause: '' @ Quote frame)
           ''INVALID_WINDOW_FRAME'' frame []))
       else retC (head @ '' OVER ('' @ Join (filter (\<lambda>s. s \<noteq> []) [partBy, orderBy, frame]) '' '' @ '')'')))"

definition nestedWindowMetric :: "Scope \<Rightarrow> WindowSpec \<Rightarrow> string \<Rightarrow> Metric option" where
  "nestedWindowMetric sc w agg =
     (let mname = TrimSpace (ws_Metric w) in
      if mname = [] then None
      else
        (case sc_metricMap sc mname of
           None \<Rightarrow> None
         | Some m \<Rightarrow>
             (let metricAgg = ToLower (TrimSpace (met_Aggregation m)) in
              if metricAgg = [] \<or> agg = metricAgg \<or> agg \<in> set analyticWindowFuncs then None else Some m)))"

definition tryBuildNestedMetricWindow :: "Compiler \<Rightarrow> Scope \<Rightarrow> WindowSpec \<Rightarrow> string \<Rightarrow> string comp option" where
  "tryBuildNestedMetricWindow c sc w agg =
     (case nestedWindowMetric sc w agg of
        None \<Rightarrow> None
      | Some m \<Rightarrow>
          Some (bindC (bindC (metricAggregate c sc m) checkErr) (\<lambda>inner.
                bindC (buildWindowHead c agg inner True (ws_Offset w)) (\<lambda>head. finishWindowOver c sc head w))))"

definition buildWindowExpr :: "Compiler \<Rightarrow> Scope \<Rightarrow> SelectItem \<Rightarrow> string comp" where
  "buildWindowExpr c sc item =
     (case si_Window item of
        None \<Rightarrow> failC (CText (''window select item '' @ Quote (si_Name item) @ '' missing window spec''))
      | Some w \<Rightarrow>
          bindC (if ws_Expr w \<noteq> NilExpr then bindC (compileNode c sc False (ws_Expr w)) (\<lambda>sql. retC (sql, True))
                 else retC (TrimSpace (ws_Expression w), False)) (\<lambda>(expr0, ast0).
          bindC (inheritWindowMetricFields c sc (ws_Metric w) (ToLower (TrimSpace (ws_Aggregation w))) expr0 ast0)
            (\<lambda>(agg, expr1, ast).
              case tryBuildNestedMetricWindow c sc w agg of
                Some m \<Rightarrow> m
              | None \<Rightarrow>
                  bindC (if expr1 \<noteq> [] \<and> expr1 \<noteq> ''*'' \<and> \<not> ast
                         then metricExpressionRef (metricAggregate c sc) c sc None expr1 else retC expr1) (\<lambda>expr.
                    if agg = [] then failC (CText (''window select item '' @ Quote (si_Name item) @ '' missing aggregation''))
                    else bindC (buildWindowHead c agg expr ast (ws_Offset w)) (\<lambda>head. finishWindowOver c sc head w)))))"

definition buildSelectWindow :: "Compiler \<Rightarrow> Scope \<Rightarrow> SelectItem \<Rightarrow> string comp" where
  "buildSelectWindow c sc item =
     bindC (buildWindowExpr c sc item) (\<lambda>sql.
       retC (selectItemSQL sql (selectItemAlias (si_Alias item) (si_Name item)) (c_dialect c)))"

section \<open>Clauses\<close>

definition buildSelectItem :: "(SubqueryBody \<Rightarrow> string comp) \<Rightarrow> Compiler \<Rightarrow> Scope \<Rightarrow> SelectItem \<Rightarrow> string comp" where
  "buildSelectItem sub c sc item =
     (if si_Type item = ''dimension'' then buildSelectDimension c sc item
      else if si_Type item = ''metric'' then buildSelectMetric sub c sc item
      else if si_Type item = ''window'' then buildSelectWindow c sc item
      else if si_Type item = ''case'' then buildSelectCase sub c sc item
      else if si_Type item = ''formula'' then buildSelectFormula sub c sc item
      else retC [])"

definition buildSelect :: "(SubqueryBody \<Rightarrow> string comp) \<Rightarrow> Compiler \<Rightarrow> Scope \<Rightarrow> SelectItem list \<Rightarrow> string list comp" where
  "buildSelect sub c sc items =
     bindC (mapC (buildSelectItem sub c sc) items) (\<lambda>parts. retC (filter (\<lambda>p. p \<noteq> []) parts))"

definition havingSQL :: "Compiler \<Rightarrow> Scope \<Rightarrow> Filter \<Rightarrow> string comp" where
  "havingSQL c sc f =
     (case sc_metricMap sc (f_Field f) of
        None \<Rightarrow> failC (CText (''unknown having field (must be a metric): '' @ f_Field f))
      | Some m \<Rightarrow>
          bindC (if sc_derivedSource sc then retC (derivedFieldSQL c (f_Field f)) else metricAggregate c sc m) (\<lambda>aggSQL.
            if isScalarCompareOp (f_Operator f) then
              bindC (wrapC (''having field '' @ Quote (f_Field f)) (comparatorC (f_Operator f))) (\<lambda>op.
              bindC (pushArg c (BVal (f_Value f))) (\<lambda>p. retC (aggSQL @ '' '' @ op @ '' '' @ p)))
            else if f_Operator f = ''between'' then
              (case f_Value f of
                 AList [lo, hi] \<Rightarrow>
                   bindC (pushArg c (BVal lo)) (\<lambda>p1. bindC (pushArg c (BVal hi)) (\<lambda>p2.
                     retC (aggSQL @ '' BETWEEN '' @ p1 @ '' AND '' @ p2)))
               | _ \<Rightarrow> failC (CText (''having between expects 2 values for metric '' @ Quote (f_Field f))))
            else if f_Operator f = ''is_null'' then retC (aggSQL @ '' IS NULL'')
            else if f_Operator f = ''is_not_null'' then retC (aggSQL @ '' IS NOT NULL'')
            else failC (CText (''operator '' @ Quote (f_Operator f) @ '' not supported in HAVING for metric '' @ Quote (f_Field f)))))"

definition buildHaving :: "Compiler \<Rightarrow> Scope \<Rightarrow> Filter list \<Rightarrow> string comp" where
  "buildHaving c sc filters = bindC (mapC (havingSQL c sc) filters) (\<lambda>parts. retC (Join parts '' AND ''))"

definition buildFrom :: "Compiler \<Rightarrow> SemanticModel \<Rightarrow> string" where
  "buildFrom c model = QuoteIdent (c_dialect c) (sm_BaseSchema model) @ ''.'' @ QuoteIdent (c_dialect c) (sm_BaseTable model)"

definition groupBySQL :: "Compiler \<Rightarrow> Scope \<Rightarrow> GroupBy \<Rightarrow> string comp" where
  "groupBySQL c sc gb =
     (case sc_dimMap sc (gb_Field gb) of
        None \<Rightarrow> failC (unknownDimension ''group_by'' sc (gb_Field gb))
      | Some d \<Rightarrow>
          if dimensionFullyHidden c sc d then failC (hiddenField ''group_by'' (gb_Field gb))
          else if sc_derivedSource sc then retC (derivedFieldSQL c (gb_Field gb))
          else dimensionOutputSQL c sc d)"

definition buildGroupBy :: "Compiler \<Rightarrow> Scope \<Rightarrow> GroupBy list \<Rightarrow> string comp" where
  "buildGroupBy c sc groupBy = bindC (mapC (groupBySQL c sc) groupBy) (\<lambda>parts. retC (Join parts '', ''))"

definition orderByDirection :: "string \<Rightarrow> string" where
  "orderByDirection direction = (if ToUpper direction = [] then ''ASC'' else ToUpper direction)"

definition orderByDimensionSQL :: "string \<Rightarrow> string \<Rightarrow> string" where
  "orderByDimensionSQL dimSQL direction = dimSQL @ '' '' @ orderByDirection direction"

definition orderByMetricSQL :: "string \<Rightarrow> string \<Rightarrow> Dialect \<Rightarrow> string" where
  "orderByMetricSQL metricName direction d = QuoteIdent d metricName @ '' '' @ orderByDirection direction"

definition buildOrderByDimension :: "Compiler \<Rightarrow> Scope \<Rightarrow> Dimension \<Rightarrow> OrderBy \<Rightarrow> string comp" where
  "buildOrderByDimension c sc d ob =
     (if dimensionFullyHidden c sc d then failC (hiddenField ''order_by'' (ob_Field ob))
      else bindC (dimensionOutputSQL c sc d) (\<lambda>sql. retC (orderByDimensionSQL sql (ob_Direction ob))))"

definition buildOrderByField :: "Compiler \<Rightarrow> Scope \<Rightarrow> OrderBy \<Rightarrow> string comp" where
  "buildOrderByField c sc ob =
     (case sc_dimMap sc (ob_Field ob) of
        Some d \<Rightarrow> buildOrderByDimension c sc d ob
      | None \<Rightarrow>
          (case sc_metricMap sc (ob_Field ob) of
             Some m \<Rightarrow> retC (orderByMetricSQL (met_Name m) (ob_Direction ob) (c_dialect c))
           | None \<Rightarrow> failC (unknownField ''order_by'' sc (ob_Field ob))))"

definition buildOrderBy :: "Compiler \<Rightarrow> Scope \<Rightarrow> OrderBy list \<Rightarrow> string comp" where
  "buildOrderBy c sc orderBy = bindC (mapC (buildOrderByField c sc) orderBy) (\<lambda>parts. retC (Join parts '', ''))"

definition rowFilterMap :: "SemanticModel \<Rightarrow> string \<rightharpoonup> string" where
  "rowFilterMap model =
     foldl (\<lambda>m x. m(met_Name x \<mapsto> met_Expression x))
       (foldl (\<lambda>m d. m(dim_Name d \<mapsto> dim_ColumnRef d)) (\<lambda>_. None) (sm_Dimensions model)) (sm_Metrics model)"

definition buildRowFilterPreds :: "Compiler \<Rightarrow> SemanticModel \<Rightarrow> RowFilter list \<Rightarrow> string list comp" where
  "buildRowFilterPreds c model filters st =
     (if filters = [] then Some (Inr [], st)
      else
        (case BuildRowFilterPredicates (c_dialect c) (rowFilterMap model) filters (int (length (cs_args st))) True of
           Inl e \<Rightarrow> Some (Inl (CRowFilter e), st)
         | Inr (preds, extraArgs) \<Rightarrow> Some (Inr preds, st\<lparr>cs_args := cs_args st @ map BVal extraArgs\<rparr>)))"

section \<open>Statements (compiler\_nested.go)\<close>

definition buildCompilerMaps ::
  "LogicalQuery \<Rightarrow> SemanticModel \<Rightarrow> (string \<rightharpoonup> Dimension) \<times> (string \<rightharpoonup> Metric) \<times> (string \<rightharpoonup> Join)" where
  "buildCompilerMaps lq model =
     (let dims = fst (buildSemanticFieldMaps model);
          dims' = foldl (\<lambda>m gb.
            if gb_TimeGrain gb = [] then m
            else (case m (gb_Field gb) of
                    Some d \<Rightarrow> m(gb_Field gb \<mapsto> d\<lparr>dim_TimeGrain := gb_TimeGrain gb\<rparr>)
                  | None \<Rightarrow> m)) dims (lq_GroupBy lq)
      in (dims', snd (buildSemanticFieldMaps model), joinMapOf (sm_Joins model)))"

definition validateReachableTables :: "string list \<Rightarrow> LogicalQuery \<Rightarrow> ValidationError option" where
  "validateReachableTables unreachableTables lq =
     (if unreachableTables = [] \<or> lq_FromSubquery lq \<noteq> None \<or> lq_FromCTE lq \<noteq> [] then None
      else
        (let filtered = filter (\<lambda>t. CHR ''['' \<notin> set t \<and> CHR '']'' \<notin> set t) unreachableTables in
         if filtered = [] then None
         else Some
           (verr ''filters'' ''UNREACHABLE_TABLE''
              (''query references tables not reachable through model relations: '' @ Join filtered '', '' @
               ''; add these tables to the model'' @ [CHR 0x27] @ ''s relations or remove the fields that reference them'')
              [] [])))"

definition logicalQueryFromBody :: "SubqueryBody \<Rightarrow> LogicalQuery" where
  "logicalQueryFromBody body =
     \<lparr>lq_Version = [], lq_DatasourceID = [], lq_ModelID = [], lq_CompositeID = [],
      lq_Select = sb_Select body, lq_Filters = sb_Filters body, lq_GroupBy = sb_GroupBy body, lq_Having = sb_Having body,
      lq_OrderBy = sb_OrderBy body, lq_Limit = sb_Limit body, lq_Offset = sb_Offset body, lq_CTEs = [],
      lq_FromSubquery = None, lq_FromCTE = [], lq_FromAlias = [], lq_DefaultSchema = [], lq_TableSchemas = (\<lambda>_. None)\<rparr>"

record Clauses =
  cl_with :: string
  cl_select :: "string list"
  cl_from :: string
  cl_joins :: "string list"
  cl_where :: string
  cl_rowFilters :: "string list"
  cl_groupBy :: string
  cl_having :: string
  cl_orderBy :: string
  cl_limit :: string

definition clause :: "string \<Rightarrow> string \<Rightarrow> string" where
  "clause keyword body = (if body = [] then [] else keyword @ body)"

definition whereSQL :: "string \<Rightarrow> string list \<Rightarrow> string" where
  "whereSQL whereClause preds =
     (if whereClause = [] \<and> preds = [] then []
      else '' WHERE '' @ whereClause @ (if whereClause \<noteq> [] \<and> preds \<noteq> [] then '' AND '' else []) @ Join preds '' AND '')"

definition assembleSQL :: "Dialect \<Rightarrow> Clauses \<Rightarrow> string" where
  "assembleSQL d cl =
     cl_with cl @ ''SELECT '' @ Join (cl_select cl) '', '' @ '' FROM '' @ cl_from cl @
     concat (map ((@) '' '') (cl_joins cl)) @
     whereSQL (cl_where cl) (cl_rowFilters cl) @
     clause '' GROUP BY '' (cl_groupBy cl) @
     clause '' HAVING '' (cl_having cl) @
     (if cl_orderBy cl \<noteq> [] then '' ORDER BY '' @ cl_orderBy cl
      else if DefaultOrderBy d \<noteq> [] \<and> cl_limit cl \<noteq> [] then '' ORDER BY '' @ DefaultOrderBy d else []) @
     clause '' '' (cl_limit cl)"

record AppliedRowFilter =
  arf_Field :: string
  arf_Operator :: string
  arf_Value :: go_any

record PolicyDecisions =
  pd_RowFilters :: "AppliedRowFilter list"
  pd_MaskedColumns :: "string list"
  pd_HiddenColumns :: "string list"

record CompiledQuery =
  cq_SQL :: string
  cq_Args :: "bind_value list"
  cq_Policy :: "PolicyDecisions option"

definition scopeOf :: "LogicalQuery \<Rightarrow> SemanticModel \<Rightarrow> Scope" where
  "scopeOf lq model =
     (case buildCompilerMaps lq model of (dimMap, metricMap, _) \<Rightarrow>
        \<lparr>sc_derivedSource = (TrimSpace (lq_FromCTE lq) \<noteq> [] \<or> lq_FromSubquery lq \<noteq> None),
         sc_dimMap = dimMap, sc_metricMap = metricMap, sc_model = model, sc_resolver = NewSchemaResolver model (Some lq)\<rparr>)"

text \<open>The joins of the statement, or the error about tables out of reach.\<close>

definition statementJoins :: "Compiler \<Rightarrow> Scope \<Rightarrow> LogicalQuery \<Rightarrow> string list comp" where
  "statementJoins c sc lq =
     (case determineJoins lq (sc_model sc) (sc_dimMap sc) (sc_metricMap sc) (sc_resolver sc) (c_rangeOrder c) of
        None \<Rightarrow> exhausted
      | Some (names, unreachable) \<Rightarrow>
          (case validateReachableTables unreachable lq of
             Some e \<Rightarrow> failC (CValidation [e])
           | None \<Rightarrow> retC (buildJoins (c_dialect c) names (joinMapOf (sm_Joins (sc_model sc))) (sc_model sc) (sc_resolver sc))))"

text \<open>The body of \<open>compileStatement\<close> after \<open>EnsureGroupBySelected\<close>.\<close>

definition statementClauses ::
  "(SubqueryBody \<Rightarrow> string comp) \<Rightarrow> Compiler \<Rightarrow> Scope \<Rightarrow> LogicalQuery \<Rightarrow> string \<Rightarrow> string \<Rightarrow> RowFilter list \<Rightarrow> Clauses comp" where
  "statementClauses sub c sc lq fromClause withPrefix rowFilters =
     bindC (statementJoins c sc lq) (\<lambda>joinClauses.
     bindC (wrapC ''build select'' (buildSelect sub c sc (lq_Select lq))) (\<lambda>selectParts.
     bindC (wrapC ''build where'' (buildWhere sub c sc (lq_Filters lq))) (\<lambda>whereClause.
     bindC (wrapC ''build group by'' (buildGroupBy c sc (lq_GroupBy lq))) (\<lambda>groupByClause.
     bindC (wrapC ''build having'' (buildHaving c sc (lq_Having lq))) (\<lambda>havingClause.
     bindC (wrapC ''build row filters'' (buildRowFilterPreds c (sc_model sc) rowFilters)) (\<lambda>rowFilterPreds.
     bindC (wrapC ''build order by'' (buildOrderBy c sc (lq_OrderBy lq))) (\<lambda>orderByClause.
       retC \<lparr>cl_with = withPrefix, cl_select = selectParts, cl_from = fromClause, cl_joins = joinClauses,
             cl_where = whereClause, cl_rowFilters = rowFilterPreds, cl_groupBy = groupByClause,
             cl_having = havingClause, cl_orderBy = orderByClause,
             cl_limit = LimitOffset (c_dialect c) (lq_Limit lq) (lq_Offset lq)\<rparr>)))))))"

text \<open>The statement is compiled by a copy of the compiler object: the copy starts with the error field
  of the original, and what it writes there is lost with it.\<close>

definition onCopy :: "'a comp \<Rightarrow> 'a comp" where
  "onCopy m st = map_option (apsnd (\<lambda>st'. st'\<lparr>cs_err := cs_err st\<rparr>)) (m st)"

definition ensured :: "LogicalQuery \<Rightarrow> LogicalQuery" where
  "ensured lq = (case EnsureGroupBySelected (Some lq) of Some q \<Rightarrow> q | None \<Rightarrow> lq)"

primrec compileStatement ::
  "nat \<Rightarrow> Compiler \<Rightarrow> LogicalQuery \<Rightarrow> SemanticModel \<Rightarrow> string \<Rightarrow> string \<Rightarrow> RowFilter list \<Rightarrow> CompiledQuery comp" where
  "compileStatement 0 c lq model fromClause withPrefix rowFilters = exhausted"
| "compileStatement (Suc n) c lq model fromClause withPrefix rowFilters =
     onCopy (
       bindC (statementClauses
           (\<lambda>body. bindC (compileStatement n c (logicalQueryFromBody body) model (buildFrom c model) [] (c_rowFilters c))
                     (\<lambda>cq. retC (cq_SQL cq)))
           c (scopeOf lq model) (ensured lq) fromClause withPrefix rowFilters)
         (\<lambda>cl st. Some (Inr \<lparr>cq_SQL = assembleSQL (c_dialect c) cl, cq_Args = cs_args st, cq_Policy = None\<rparr>, st)))"

definition compileSubqueryBody :: "nat \<Rightarrow> Compiler \<Rightarrow> SemanticModel \<Rightarrow> SubqueryBody \<Rightarrow> string comp" where
  "compileSubqueryBody n c model body =
     bindC (compileStatement n c (logicalQueryFromBody body) model (buildFrom c model) [] (c_rowFilters c))
       (\<lambda>cq. retC (cq_SQL cq))"

definition cteSQL :: "nat \<Rightarrow> Compiler \<Rightarrow> SemanticModel \<Rightarrow> CTE \<Rightarrow> string comp" where
  "cteSQL n c model cte =
     (let name = TrimSpace (cte_Name cte) in
      if name = [] then failC (CText ''cte name is required'')
      else
        bindC (wrapC (''cte '' @ Quote name) (compileSubqueryBody n c model (Subquery cte))) (\<lambda>innerSQL.
          retC (QuoteIdent (c_dialect c) name @ '' AS ('' @ innerSQL @ '')'')))"

definition buildWithClause :: "nat \<Rightarrow> Compiler \<Rightarrow> SemanticModel \<Rightarrow> CTE list \<Rightarrow> string comp" where
  "buildWithClause n c model ctes =
     (if ctes = [] then retC []
      else bindC (mapC (cteSQL n c model) ctes) (\<lambda>parts. retC (''WITH '' @ Join parts '', '' @ '' '')))"

definition resolveFromClause :: "nat \<Rightarrow> Compiler \<Rightarrow> LogicalQuery \<Rightarrow> SemanticModel \<Rightarrow> string comp" where
  "resolveFromClause n c lq model =
     (case lq_FromSubquery lq of
        Some body \<Rightarrow>
          bindC (wrapC ''from_subquery'' (compileSubqueryBody n c model body)) (\<lambda>innerSQL.
            let alias = (if TrimSpace (lq_FromAlias lq) = [] then ''_sub'' else TrimSpace (lq_FromAlias lq)) in
            retC (''('' @ innerSQL @ '') AS '' @ QuoteIdent (c_dialect c) alias))
      | None \<Rightarrow>
          if TrimSpace (lq_FromCTE lq) \<noteq> [] then retC (QuoteIdent (c_dialect c) (TrimSpace (lq_FromCTE lq)))
          else retC (buildFrom c model))"

section \<open>Entry points\<close>

text \<open>\<open>n\<close> bounds how deep statements nest. Tracing is left out.\<close>

definition Compile :: "nat \<Rightarrow> Compiler \<Rightarrow> LogicalQuery \<Rightarrow> SemanticModel \<Rightarrow> CompiledQuery comp" where
  "Compile n c lq model =
     bindC (buildWithClause n c model (lq_CTEs lq)) (\<lambda>withPrefix.
     bindC (resolveFromClause n c lq model) (\<lambda>fromClause.
     bindC (compileStatement n c lq model fromClause withPrefix (c_rowFilters c)) checkErr))"

definition appliedRowFilter :: "RowFilter \<Rightarrow> AppliedRowFilter" where
  "appliedRowFilter rf =
     (let op = ToLower (TrimSpace (rf_Operator rf)) in
      \<lparr>arf_Field = rf_Field rf, arf_Operator = (if op = [] then ''eq'' else op), arf_Value = rf_Value rf\<rparr>)"

definition buildPolicyDecisions ::
  "RowFilter list \<Rightarrow> SemanticModel \<Rightarrow> PIIMaskingConfig option \<Rightarrow> AppliedPII option \<Rightarrow> PolicyDecisions option" where
  "buildPolicyDecisions rowFilters model piiConfig applied =
     (let fields = map dim_Name (sm_Dimensions model) @ map met_Name (sm_Metrics model);
          known = map appliedRowFilter (filter (\<lambda>rf. rf_Field rf \<in> set fields) rowFilters);
          decisions = (case (piiConfig, applied) of
            (Some _, Some a) \<Rightarrow> \<lparr>pd_RowFilters = known, pd_MaskedColumns = ap_Masked a, pd_HiddenColumns = ap_Hidden a\<rparr>
          | _ \<Rightarrow> \<lparr>pd_RowFilters = known, pd_MaskedColumns = [], pd_HiddenColumns = []\<rparr>)
      in if pd_RowFilters decisions = [] \<and> pd_MaskedColumns decisions = [] \<and> pd_HiddenColumns decisions = []
         then None else Some decisions)"

definition emptyApplied :: AppliedPII where
  "emptyApplied = \<lparr>ap_Masked = [], ap_Hidden = []\<rparr>"

definition initialCState :: "PIIMaskingConfig option \<Rightarrow> AppliedPII option \<Rightarrow> CState" where
  "initialCState piiConfig applied =
     \<lparr>cs_args = [], cs_err = None,
      cs_applied = (case piiConfig of None \<Rightarrow> None | Some _ \<Rightarrow> (case applied of None \<Rightarrow> Some emptyApplied | Some a \<Rightarrow> Some a))\<rparr>"

text \<open>\<open>applied\<close> is the record the caller put into the configuration, if there is one. The result has the
  compiled query or an error; \<open>None\<close> is an exhausted depth.\<close>

definition CompileWithPermissions ::
  "nat \<Rightarrow> Compiler \<Rightarrow> LogicalQuery \<Rightarrow> SemanticModel \<Rightarrow> RowFilter list \<Rightarrow> PIIMaskingConfig option \<Rightarrow> AppliedPII option \<Rightarrow>
   (compile_error + CompiledQuery) option" where
  "CompileWithPermissions n c lq model rowFilters piiConfig applied =
     (if Option.is_none piiConfig \<and> rowFilters = [] then map_option fst (Compile n c lq model (initialCState (c_pii c) None))
      else
        (let c' = c\<lparr>c_pii := piiConfig, c_rowFilters := rowFilters\<rparr> in
         case Compile n c' lq model (initialCState piiConfig applied) of
           None \<Rightarrow> None
         | Some (Inl e, _) \<Rightarrow> Some (Inl e)
         | Some (Inr cq, st) \<Rightarrow>
             Some (Inr (cq\<lparr>cq_Policy := buildPolicyDecisions rowFilters model piiConfig (cs_applied st)\<rparr>))))"

end
