(* ===== verification/Compiler_State.thy ===== *)
theory Compiler_State
  imports Query_Compiler
begin

text \<open>
  How a compilation changes its state. Every operation of the SQL compiler only appends bind arguments,
  adds to the record of column decisions and sets the error field. The locale states this once, for any
  relation these three updates respect; it is interpreted on the list of arguments and on the record.
\<close>

section \<open>The record of column decisions while expressions are compiled\<close>

definition applied_grows :: "AppliedPII option \<Rightarrow> AppliedPII option \<Rightarrow> bool" where
  "applied_grows = rel_option (\<lambda>a b. set (ap_Masked a) \<subseteq> set (ap_Masked b) \<and> set (ap_Hidden a) \<subseteq> set (ap_Hidden b))"

lemma applied_grows_refl [simp]: "applied_grows a a"
  by (simp add: applied_grows_def option.rel_refl)

lemma applied_grows_trans: "applied_grows a b \<Longrightarrow> applied_grows b c \<Longrightarrow> applied_grows a c"
  by (cases a; cases b; cases c) (simp_all add: applied_grows_def, blast)

lemma applied_grows_record [simp]: "applied_grows a (recordMasked ref a)" "applied_grows a (recordHidden ref a)"
  by (cases a; auto simp: applied_grows_def recordMasked_def recordHidden_def)+

definition grows :: "'a emit \<Rightarrow> bool" where
  "grows m \<longleftrightarrow> (\<forall>st r st'. m st = (r, st') \<longrightarrow> applied_grows (es_applied st) (es_applied st'))"

named_theorems growing

lemma growsD: "grows m \<Longrightarrow> m st = (r, st') \<Longrightarrow> applied_grows (es_applied st) (es_applied st')"
  by (simp add: grows_def)

lemma grows_basic [growing]: "grows (retE a)" "grows (failE e)"
  by (simp_all add: grows_def retE_def failE_def)

lemma grows_bindE [growing]:
  assumes "grows m" "\<And>a. grows (k a)"
  shows "grows (bindE m k)"
  unfolding grows_def
proof (intro allI impI)
  fix st r st' assume run: "bindE m k st = (r, st')"
  then consider e where "m st = (Inl e, st')" | a s where "m st = (Inr a, s)" "k a s = (r, st')"
    by (auto simp: bindE_def split: prod.splits sum.splits)
  then show "applied_grows (es_applied st) (es_applied st')"
    by cases (use growsD [OF assms(1)] growsD [OF assms(2)] in \<open>blast intro: applied_grows_trans\<close>)+
qed

lemma grows_mapE [growing]: "(\<And>x. x \<in> set xs \<Longrightarrow> grows (f x)) \<Longrightarrow> grows (mapE f xs)"
  by (induction xs) (auto intro!: growing)

lemma grows_leaves [growing]: "grows (emitLiteral env v)" "grows (emitColumn env t c)"
  by (auto simp: grows_def emitLiteral_def emitColumn_def maskColumnRef_def Let_def split: option.splits if_splits prod.splits)

lemma grows_operators [growing]:
  "grows (binaryExprSQL env op l r)" "grows (unaryExprSQL op x)" "grows (dateTruncSQL env args)"
  "grows m \<Longrightarrow> grows (finishCall env plan m)"
  unfolding binaryExprSQL_def unaryExprSQL_def dateTruncSQL_def finishCall_def
  by (auto intro!: growing split: option.split list.split prod.split ExprNode.split call_plan.split)

lemma grows_compileExpr [growing]: "grows (compileExpr env e)"
  by (induction env e rule: compileExpr.induct) (auto intro!: growing)

lemma grows_CompileExpr: "grows (CompileExpr env e)"
  unfolding CompileExpr_def Let_def by (auto intro!: growing split: option.split)

section \<open>What every operation respects\<close>

definition evolves :: "(CState \<Rightarrow> CState \<Rightarrow> bool) \<Rightarrow> 'a comp \<Rightarrow> bool" where
  "evolves R m \<longleftrightarrow> (\<forall>st r st'. m st = Some (r, st') \<longrightarrow> R st st')"

named_theorems evolving

lemma evolvesD: "evolves R m \<Longrightarrow> m st = Some (r, st') \<Longrightarrow> R st st'"
  by (simp add: evolves_def)

lemma evolvesI: "(\<And>st r st'. m st = Some (r, st') \<Longrightarrow> R st st') \<Longrightarrow> evolves R m"
  by (simp add: evolves_def)

locale evolution =
  fixes R :: "CState \<Rightarrow> CState \<Rightarrow> bool"
  assumes refl: "R s s"
    and trans: "R s t \<Longrightarrow> R t u \<Longrightarrow> R s u"
    and args: "R s (s\<lparr>cs_args := cs_args s @ vs\<rparr>)"
    and err: "R s (s\<lparr>cs_err := e\<rparr>)"
    and applied: "applied_grows (cs_applied s) a \<Longrightarrow> R s (s\<lparr>cs_applied := a\<rparr>)"
begin

lemma evolves_basic [evolving]:
  "evolves R (retC a)" "evolves R (failC e)" "evolves R exhausted" "evolves R (setErr e)" "evolves R (checkErr a)"
  "evolves R (pushArg c v)"
  by (auto simp: evolves_def retC_def failC_def exhausted_def setErr_def checkErr_def pushArg_def
      intro: refl err args split: option.splits)

lemma evolves_bindC [evolving]:
  assumes "evolves R m" "\<And>a. evolves R (k a)"
  shows "evolves R (bindC m k)"
proof (rule evolvesI)
  fix st r st' assume run: "bindC m k st = Some (r, st')"
  then consider e where "m st = Some (Inl e, st')" | a s where "m st = Some (Inr a, s)" "k a s = Some (r, st')"
    by (auto simp: bindC_def split: option.splits prod.splits sum.splits)
  then show "R st st'"
  proof cases
    case (2 a s)
    show ?thesis by (rule trans [OF evolvesD [OF assms(1) 2(1)] evolvesD [OF assms(2) 2(2)]])
  qed (use evolvesD [OF assms(1)] in blast)
qed

lemma evolves_wrapC [evolving]: "evolves R m \<Longrightarrow> evolves R (wrapC l m)"
  by (fastforce simp: evolves_def wrapC_def split: option.splits prod.splits sum.splits)

lemma evolves_softC [evolving]: "evolves R m \<Longrightarrow> evolves R (softC m)"
  by (fastforce simp: evolves_def softC_def setErr_def intro: trans [OF _ err] split: option.splits prod.splits sum.splits)

lemma evolves_mapC [evolving]: "(\<And>x. x \<in> set xs \<Longrightarrow> evolves R (f x)) \<Longrightarrow> evolves R (mapC f xs)"
  by (induction xs) (auto intro!: evolving)

lemma evolves_compileNode [evolving]: "evolves R (compileNode c sc b e)"
  by (auto simp: evolves_def compileNode_def dest!: growsD [OF grows_CompileExpr] intro!: applied split: prod.splits sum.splits)

lemma evolves_pii [evolving]: "evolves R (piiSQLForColumnRef c sc r)"
  by (auto simp: evolves_def piiSQLForColumnRef_def Let_def recordMaskedC_def recordHiddenC_def
      intro: refl applied split: option.splits if_splits prod.splits)

lemma evolves_dimensionSQL [evolving]: "evolves R (dimensionSQL c sc d)"
  unfolding dimensionSQL_def Let_def by (auto intro!: evolving split: option.split sum.split prod.split)

lemma evolves_record [evolving]:
  "evolves R (\<lambda>st. Some (Inr s, recordMaskedC ref st))" "evolves R (\<lambda>st. Some (Inr s, recordHiddenC ref st))"
  by (auto simp: evolves_def recordMaskedC_def recordHiddenC_def intro: applied)

lemma evolves_dimensionOutputSQL [evolving]: "evolves R (dimensionOutputSQL c sc d)"
  unfolding dimensionOutputSQL_def Let_def by (auto intro!: evolving split: option.split prod.split)

lemma evolves_replaceBrackets [evolving]: "(\<And>t. evolves R (f t)) \<Longrightarrow> evolves R (replaceBrackets f s)"
  by (induction f s rule: replaceBrackets.induct) (auto simp: replaceBrackets.simps Let_def intro!: evolving)

lemma evolves_resolveCustomToken [evolving]: "(\<And>m. evolves R (agg m)) \<Longrightarrow> evolves R (resolveCustomToken agg c sc t)"
  unfolding resolveCustomToken_def Let_def by (auto intro!: evolving split: option.split)

lemma evolves_resolveBareCustomExpression [evolving]: "evolves R (resolveBareCustomExpression c sc t)"
  unfolding resolveBareCustomExpression_def Let_def by (auto intro!: evolving split: option.split)

lemma evolves_readOnlyGuard [evolving]: "evolves R (readOnlyGuard s)"
  by (auto simp: evolves_def readOnlyGuard_def setErr_def intro: refl err split: if_splits option.splits)

lemma evolves_resolveBracketExpressions [evolving]:
  "(\<And>m. evolves R (agg m)) \<Longrightarrow> evolves R (resolveBracketExpressions agg c sc t)"
  unfolding resolveBracketExpressions_def by (auto intro!: evolving)

lemma evolves_metricExpressionRef [evolving]:
  "(\<And>m. evolves R (agg m)) \<Longrightarrow> evolves R (metricExpressionRef agg c sc mo t)"
  unfolding metricExpressionRef_def Let_def by (auto intro!: evolving split: option.split)

lemma evolves_aggregateExpr [evolving]: "evolves R (aggregateExpr c fn e)"
  unfolding aggregateExpr_def Let_def by (auto intro!: evolving)

lemma evolves_metricAggregateN [evolving]: "evolves R (metricAggregateN n c sc m)"
  by (induction n arbitrary: m) (auto intro!: evolving)

lemma evolves_metricAggregate [evolving]: "evolves R (metricAggregate c sc m)"
  by (simp add: metricAggregate_def evolving)

lemma evolves_qualifyMetricExpression [evolving]: "evolves R (qualifyMetricExpression c sc m e)"
  unfolding qualifyMetricExpression_def Let_def by (auto intro!: evolving split: option.split)

lemma evolves_filter_builders [evolving]:
  "evolves R (buildEqualityFilter c f l op sj)" "evolves R (buildComparisonFilter c f l op)" "evolves R (buildInFilter c l v)"
  "evolves R (buildNotInFilter c l v)" "evolves R (buildLikeFilter c f l w)"
  unfolding buildEqualityFilter_def buildComparisonFilter_def buildInFilter_def buildNotInFilter_def buildLikeFilter_def Let_def
  by (auto intro!: evolving split: option.split go_any.split)

lemma evolves_buildBetweenFilter [evolving]: "evolves R (buildBetweenFilter c l v)"
  unfolding buildBetweenFilter_def by (auto intro!: evolving split: go_any.split list.split)

lemma evolves_buildInSubqueryFilter [evolving]:
  "(\<And>b. evolves R (sub b)) \<Longrightarrow> evolves R (buildInSubqueryFilter sub l sf p)"
  unfolding buildInSubqueryFilter_def by (auto intro!: evolving split: list.split)

lemma evolves_buildFilterPart [evolving]: "(\<And>b. evolves R (sub b)) \<Longrightarrow> evolves R (buildFilterPart sub c f l)"
  unfolding buildFilterPart_def Let_def by (auto intro!: evolving split: option.split)

lemma evolves_comparatorC [evolving]: "evolves R (comparatorC op)"
  unfolding comparatorC_def by (auto intro!: evolving split: option.split)

lemma evolves_dateTruncCompareExpr [evolving]: "evolves R (dateTruncCompareExpr c p r op a)"
  unfolding dateTruncCompareExpr_def Let_def by (auto intro!: evolving)

lemma evolves_resolveFilterLHS [evolving]: "evolves R (resolveFilterLHS c sc f)"
  unfolding resolveFilterLHS_def by (auto intro!: evolving split: option.split)

lemma evolves_filterSQLC [evolving]: "(\<And>b. evolves R (sub b)) \<Longrightarrow> evolves R (filterSQLC sub c sc f)"
  unfolding filterSQLC_def dayOfMonthGrainFilterExpr_def calendarGrainFilterExpr_def rawDateDayFilterExpr_def
  by (auto intro!: evolving split: option.split)

lemma evolves_buildFilterConjunction [evolving]: "(\<And>b. evolves R (sub b)) \<Longrightarrow> evolves R (buildFilterConjunction sub c sc fs)"
  unfolding buildFilterConjunction_def by (auto intro!: evolving)

lemma evolves_buildPredicate [evolving]: "(\<And>b. evolves R (sub b)) \<Longrightarrow> evolves R (buildPredicate sub c sc fs)"
  unfolding buildPredicate_def by (auto intro!: evolving)

lemma evolves_metricFilteredAggregate [evolving]:
  "(\<And>b. evolves R (sub b)) \<Longrightarrow> evolves R (metricFilteredAggregate sub c sc m fs)"
  unfolding metricFilteredAggregate_def Let_def by (auto intro!: evolving)

lemma evolves_measureSQL [evolving]: "(\<And>b. evolves R (sub b)) \<Longrightarrow> evolves R (measureSQL sub c sc m)"
  unfolding measureSQL_def by (auto intro!: evolving split: option.split)

lemma evolves_simple_items [evolving]:
  "evolves R (buildSelectDimension c sc item)" "(\<And>b. evolves R (sub b)) \<Longrightarrow> evolves R (buildSelectMetric sub c sc item)"
  "evolves R (formulaSQL op l r)"
  unfolding buildSelectDimension_def buildSelectMetric_def formulaSQL_def Let_def by (auto intro!: evolving split: option.split)

lemma evolves_buildSelectFormula [evolving]: "(\<And>b. evolves R (sub b)) \<Longrightarrow> evolves R (buildSelectFormula sub c sc item)"
  unfolding buildSelectFormula_def Let_def by (auto intro!: evolving split: option.split)

lemma evolves_case [evolving]: "evolves R (formatLiteral c v)" "evolves R (buildCaseThen c sc t)"
  unfolding formatLiteral_def buildCaseThen_def Let_def by (auto intro!: evolving split: option.split go_any.split simp: formatLiteral_def)

lemma evolves_caseBranchSQL [evolving]: "(\<And>b. evolves R (sub b)) \<Longrightarrow> evolves R (caseBranchSQL sub c sc ib)"
  unfolding caseBranchSQL_def Let_def by (auto intro!: evolving split: prod.split)

lemma evolves_buildSelectCase [evolving]: "(\<And>b. evolves R (sub b)) \<Longrightarrow> evolves R (buildSelectCase sub c sc item)"
  unfolding buildSelectCase_def buildCaseExpr_def Let_def by (auto intro!: evolving split: option.split)

lemma evolves_windows [evolving]:
  "evolves R (windowArgs c agg e b off)" "evolves R (buildWindowPartitionBy c sc ps)" "evolves R (windowOrderSQL c sc ob)"
  unfolding windowArgs_def buildWindowPartitionBy_def windowOrderSQL_def Let_def by (auto intro!: evolving split: option.split)

lemma evolves_buildWindowHead [evolving]: "evolves R (buildWindowHead c agg e b off)"
  unfolding buildWindowHead_def by (auto intro!: evolving split: option.split)

lemma evolves_finishWindowOver [evolving]: "evolves R (finishWindowOver c sc h w)"
  unfolding finishWindowOver_def buildWindowOrderBy_def Let_def by (auto intro!: evolving)

lemma evolves_inherit [evolving]: "evolves R (inheritWindowMetricFields c sc n a e b)"
  unfolding inheritWindowMetricFields_def Let_def by (auto intro!: evolving split: option.split)

lemma evolves_buildSelectWindow [evolving]: "evolves R (buildSelectWindow c sc item)"
  unfolding buildSelectWindow_def buildWindowExpr_def tryBuildNestedMetricWindow_def
  by (auto intro!: evolving split: option.split prod.split)

lemma evolves_buildSelect [evolving]: "(\<And>b. evolves R (sub b)) \<Longrightarrow> evolves R (buildSelect sub c sc items)"
  unfolding buildSelect_def buildSelectItem_def by (auto intro!: evolving)

lemma evolves_havingSQL [evolving]: "evolves R (havingSQL c sc f)"
  unfolding havingSQL_def by (auto intro!: evolving split: option.split go_any.split list.split)

lemma evolves_clauses [evolving]:
  "evolves R (buildHaving c sc fs)" "evolves R (buildGroupBy c sc gbs)" "evolves R (buildOrderBy c sc obs)"
  unfolding buildHaving_def buildGroupBy_def groupBySQL_def buildOrderBy_def buildOrderByField_def buildOrderByDimension_def
  by (auto intro!: evolving split: option.split)

lemma evolves_buildRowFilterPreds [evolving]: "evolves R (buildRowFilterPreds c model rfs)"
  by (auto simp: evolves_def buildRowFilterPreds_def intro: refl args split: if_splits sum.splits prod.splits)

lemma evolves_statementJoins [evolving]: "evolves R (statementJoins c sc lq)"
  unfolding statementJoins_def by (auto intro!: evolving split: option.split prod.split)

lemma evolves_statementClauses [evolving]:
  "(\<And>b. evolves R (sub b)) \<Longrightarrow> evolves R (statementClauses sub c sc lq frm w rfs)"
  unfolding statementClauses_def buildWhere_def by (auto intro!: evolving)

lemma evolves_onCopy [evolving]: "evolves R m \<Longrightarrow> evolves R (onCopy m)"
  by (auto simp: evolves_def onCopy_def intro: trans [OF _ err])

lemma evolves_result: "evolves R (\<lambda>st. Some (Inr (f st), st))"
  by (auto simp: evolves_def intro: refl)

lemma evolves_compileStatement [evolving]: "evolves R (compileStatement n c lq model frm w rfs)"
proof (induction n arbitrary: lq frm w rfs)
  case (Suc n)
  then show ?case by (auto intro!: evolving evolves_result)
qed (simp add: evolving)


lemma evolves_nested [evolving]:
  "evolves R (compileSubqueryBody n c model body)" "evolves R (cteSQL n c model cte)"
  "evolves R (buildWithClause n c model ctes)" "evolves R (resolveFromClause n c lq model)" "evolves R (Compile n c lq model)"
  unfolding compileSubqueryBody_def cteSQL_def buildWithClause_def resolveFromClause_def Compile_def Let_def
  by (auto intro!: evolving split: option.split simp: compileSubqueryBody_def)

end

section \<open>Interpretations\<close>

definition args_extend :: "CState \<Rightarrow> CState \<Rightarrow> bool" where
  "args_extend s t \<longleftrightarrow> (\<exists>vs. cs_args t = cs_args s @ vs)"

definition decisions_grow :: "CState \<Rightarrow> CState \<Rightarrow> bool" where
  "decisions_grow s t \<longleftrightarrow> applied_grows (cs_applied s) (cs_applied t)"

interpretation binding: evolution args_extend
  by unfold_locales (auto simp: args_extend_def)

interpretation deciding: evolution decisions_grow
  by unfold_locales (auto simp: decisions_grow_def intro: applied_grows_trans)

end
