(* ===== verification/Compiler_Safety.thy ===== *)
theory Compiler_Safety
  imports Compiler_State
begin

text \<open>
  What the SQL compiler guarantees about its output, and where it does not.

  Shown here: every statement it assembles, nested ones included, carries the row filters with their own
  values bound; a validated query compiles to a statement with a bounded row limit; masked and hidden
  columns are protected in the projection and put on record. Three properties document defects: the
  order of positional arguments, errors that are recorded but never reported, and CASE branches outside
  of the column policy.
\<close>

section \<open>Successful runs\<close>

lemma bindC_ok: "bindC m k st = Some (Inr b, st') \<longleftrightarrow> (\<exists>a s. m st = Some (Inr a, s) \<and> k a s = Some (Inr b, st'))"
  by (auto simp: bindC_def split: option.splits prod.splits sum.splits)

lemma wrapC_ok [simp]: "wrapC l m st = Some (Inr b, st') \<longleftrightarrow> m st = Some (Inr b, st')"
  by (auto simp: wrapC_def split: option.splits prod.splits sum.splits)

lemma retC_ok [simp]: "retC a st = Some (Inr b, st') \<longleftrightarrow> b = a \<and> st' = st"
  by (auto simp: retC_def)

lemma failC_ok [simp]: "failC e st \<noteq> Some (Inr b, st')"
  by (simp add: failC_def)

lemma exhausted_ok [simp]: "exhausted st \<noteq> Some r"
  by (simp add: exhausted_def)

lemma checkErr_ok [simp]: "checkErr a st = Some (Inr b, st') \<longleftrightarrow> b = a \<and> st' = st \<and> cs_err st = None"
  by (auto simp: checkErr_def split: option.splits)

lemma onCopy_ok:
  "onCopy m st = Some (Inr b, st') \<longleftrightarrow> (\<exists>s. m st = Some (Inr b, s) \<and> st' = s\<lparr>cs_err := cs_err st\<rparr>)"
  by (auto simp: onCopy_def)

lemmas run_ok = bindC_ok wrapC_ok retC_ok failC_ok exhausted_ok checkErr_ok onCopy_ok

lemma mapC_ok: "mapC f xs st = Some (Inr ys, st') \<Longrightarrow> length ys = length xs"
  by (induction xs arbitrary: ys st) (auto simp: run_ok)

lemma extends_args: "evolves args_extend m \<Longrightarrow> m st = Some (r, st') \<Longrightarrow> \<exists>vs. cs_args st' = cs_args st @ vs"
  by (auto dest: evolvesD simp: args_extend_def)

text \<open>Each element of a mapped list was produced by its own run, and what a run establishes of the
  arguments stays true when more are appended.\<close>

lemma mapC_all:
  assumes "mapC f xs st = Some (Inr ys, st')"
    and step: "\<And>x y s s'. x \<in> set xs \<Longrightarrow> f x s = Some (Inr y, s') \<Longrightarrow> P x y (cs_args s')"
    and more: "\<And>x y as vs. P x y as \<Longrightarrow> P x y (as @ vs)"
    and extend: "\<And>x. evolves args_extend (f x)"
  shows "list_all2 (\<lambda>x y. P x y (cs_args st')) xs ys"
  using assms(1) step
proof (induction xs arbitrary: ys st)
  case (Cons x xs)
  then obtain y ys' s where run: "f x st = Some (Inr y, s)" "mapC f xs s = Some (Inr ys', st')" "ys = y # ys'"
    by (auto simp: run_ok)
  have "evolves args_extend (mapC f xs)" by (intro binding.evolves_mapC extend)
  then obtain vs where "cs_args st' = cs_args s @ vs" using extends_args run(2) by blast
  moreover have "P x y (cs_args s)" using Cons.prems(2) run(1) by simp
  ultimately have "P x y (cs_args st')" using more by simp
  moreover have "list_all2 (\<lambda>x y. P x y (cs_args st')) xs ys'" using Cons run(2) by simp
  ultimately show ?case using run(3) by simp
qed simp

section \<open>Row filters\<close>

text \<open>The clauses hold one predicate per row filter on a field of the model, and the values of the filters
  are the arguments its placeholders point to.\<close>

definition filters_bound :: "Dialect \<Rightarrow> SemanticModel \<Rightarrow> RowFilter list \<Rightarrow> string list \<Rightarrow> bind_value list \<Rightarrow> bool" where
  "filters_bound d model rfs preds args \<longleftrightarrow>
     (let known = knownFilters (rowFilterMap model) rfs; vals = concat (map filterArgs known) in
      \<exists>before after. args = before @ map BVal vals @ after \<and>
        preds = filtersSQL d (rowFilterMap model) known (numbered d (int (length before)) (length vals)))"

lemma filters_bound_more: "filters_bound d model rfs preds args \<Longrightarrow> filters_bound d model rfs preds (args @ vs)"
  unfolding filters_bound_def Let_def by (metis append.assoc)

lemma row_filter_result:
  assumes "BuildRowFilterPredicates d dimMap rfs n True = Inr (preds, vals)"
  shows "vals = concat (map filterArgs (knownFilters dimMap rfs)) \<and>
    preds = filtersSQL d dimMap (knownFilters dimMap rfs) (numbered d n (length vals))"
proof -
  have "\<forall>rf\<in>set rfs. acceptable dimMap True rf"
  proof (rule ccontr)
    assume "\<not> ?thesis"
    then obtain rf where "rf \<in> set rfs" "\<not> acceptable dimMap True rf" by blast
    then show False using buildLoop_bad [of dimMap True rf rfs d n "[]" "[]"] assms
      by (auto simp: BuildRowFilterPredicates_def)
  qed
  then show ?thesis using assms by (auto simp: BuildRowFilterPredicates_def buildLoop_ok)
qed

lemma buildRowFilterPreds_bound:
  assumes "buildRowFilterPreds c model rfs st = Some (Inr preds, st')"
  shows "filters_bound (c_dialect c) model rfs preds (cs_args st')"
proof (cases "rfs = []")
  case True
  then show ?thesis using assms by (auto simp: buildRowFilterPreds_def filters_bound_def knownFilters_def)
next
  case False
  then obtain vals where
    "BuildRowFilterPredicates (c_dialect c) (rowFilterMap model) rfs (int (length (cs_args st))) True = Inr (preds, vals)"
    and st': "cs_args st' = cs_args st @ map BVal vals"
    using assms by (auto simp: buildRowFilterPreds_def split: sum.splits prod.splits)
  from row_filter_result [OF this(1)] show ?thesis
    unfolding filters_bound_def Let_def st' by (intro exI [of _ "cs_args st"] exI [of _ "[]"]) simp
qed

text \<open>The predicates stand in the WHERE clause, joined by AND to whatever else is there.\<close>

definition filteredBy :: "string \<Rightarrow> string list \<Rightarrow> bool" where
  "filteredBy sql preds \<longleftrightarrow>
     preds = [] \<or>
     (\<exists>before conds after. sql = before @ '' WHERE '' @ conds @ Join preds '' AND '' @ after \<and>
        (conds = [] \<or> (\<exists>w. conds = w @ '' AND '')))"

lemma assembleSQL_filtered: "filteredBy (assembleSQL d cl) (cl_rowFilters cl)"
proof (cases "cl_rowFilters cl = []")
  case False
  define conds where "conds = cl_where cl @ (if cl_where cl \<noteq> [] then '' AND '' else [])"
  have "whereSQL (cl_where cl) (cl_rowFilters cl) = '' WHERE '' @ conds @ Join (cl_rowFilters cl) '' AND ''"
    using False by (simp add: whereSQL_def conds_def)
  moreover have "conds = [] \<or> (\<exists>w. conds = w @ '' AND '')" by (auto simp: conds_def)
  moreover obtain before after where "assembleSQL d cl = before @ whereSQL (cl_where cl) (cl_rowFilters cl) @ after"
    unfolding assembleSQL_def by (metis append.assoc)
  ultimately show ?thesis unfolding filteredBy_def by auto
qed (simp add: filteredBy_def)

text \<open>A statement text assembled from clauses of which the row filters are a part.\<close>

definition restricted :: "Compiler \<Rightarrow> SemanticModel \<Rightarrow> RowFilter list \<Rightarrow> bind_value list \<Rightarrow> Clauses \<Rightarrow> string \<Rightarrow> bool" where
  "restricted c model rfs args cl sql \<longleftrightarrow>
     sql = assembleSQL (c_dialect c) cl \<and> filteredBy sql (cl_rowFilters cl) \<and>
     filters_bound (c_dialect c) model rfs (cl_rowFilters cl) args"

lemma restricted_more: "restricted c model rfs args cl sql \<Longrightarrow> restricted c model rfs (args @ vs) cl sql"
  unfolding restricted_def using filters_bound_more by blast

lemma statementClauses_ok:
  assumes "statementClauses sub c sc lq src w rfs st = Some (Inr cl, st')"
  shows "cl_from cl = src \<and> cl_with cl = w \<and> cl_limit cl = LimitOffset (c_dialect c) (lq_Limit lq) (lq_Offset lq) \<and>
    filters_bound (c_dialect c) (sc_model sc) rfs (cl_rowFilters cl) (cs_args st')"
proof -
  from assms obtain joins sels wh gb hav preds s1 s2 ob where
    preds: "buildRowFilterPreds c (sc_model sc) rfs s1 = Some (Inr preds, s2)"
    and ob: "buildOrderBy c sc (lq_OrderBy lq) s2 = Some (Inr ob, st')"
    and cl: "cl = \<lparr>cl_with = w, cl_select = sels, cl_from = src, cl_joins = joins, cl_where = wh, cl_rowFilters = preds,
      cl_groupBy = gb, cl_having = hav, cl_orderBy = ob, cl_limit = LimitOffset (c_dialect c) (lq_Limit lq) (lq_Offset lq)\<rparr>"
    unfolding statementClauses_def run_ok by blast
  obtain vs where "cs_args st' = cs_args s2 @ vs" using extends_args [OF binding.evolves_clauses(3) ob] by blast
  then show ?thesis using filters_bound_more [OF buildRowFilterPreds_bound [OF preds], of vs] by (simp add: cl)
qed

lemma compileStatement_ok:
  assumes "compileStatement n c lq model src w rfs st = Some (Inr cq, st')"
  shows "\<exists>cl. restricted c model rfs (cs_args st') cl (cq_SQL cq) \<and> cq_Args cq = cs_args st' \<and>
    cl_from cl = src \<and> cl_with cl = w \<and>
    cl_limit cl = LimitOffset (c_dialect c) (lq_Limit (ensured lq)) (lq_Offset (ensured lq)) \<and> cs_err st' = cs_err st"
proof (cases n)
  case (Suc m)
  have model: "sc_model (scopeOf lq model) = model" by (simp add: scopeOf_def split: prod.split)
  from assms obtain sub cl s where
    "statementClauses sub c (scopeOf lq model) (ensured lq) src w rfs st = Some (Inr cl, s)"
    and "cq = \<lparr>cq_SQL = assembleSQL (c_dialect c) cl, cq_Args = cs_args s, cq_Policy = None\<rparr>"
    and "st' = s\<lparr>cs_err := cs_err st\<rparr>"
    unfolding Suc compileStatement.simps run_ok by auto
  with statementClauses_ok [OF this(1)] show ?thesis by (auto simp: restricted_def model assembleSQL_filtered)
qed (use assms in simp)

lemma compileSubqueryBody_ok:
  "compileSubqueryBody n c model body st = Some (Inr sql, st') \<Longrightarrow> \<exists>cl. restricted c model (c_rowFilters c) (cs_args st') cl sql"
  unfolding compileSubqueryBody_def run_ok using compileStatement_ok by fastforce

section \<open>Nested statements\<close>

definition restrictedSQL :: "Compiler \<Rightarrow> SemanticModel \<Rightarrow> RowFilter list \<Rightarrow> bind_value list \<Rightarrow> string \<Rightarrow> bool" where
  "restrictedSQL c model rfs args sql \<longleftrightarrow> (\<exists>cl. restricted c model rfs args cl sql)"

lemma restrictedSQL_more: "restrictedSQL c model rfs args sql \<Longrightarrow> restrictedSQL c model rfs (args @ vs) sql"
  unfolding restrictedSQL_def using restricted_more by blast

lemma compileSubqueryBody_restricted:
  "compileSubqueryBody n c model body st = Some (Inr sql, st') \<Longrightarrow> restrictedSQL c model (c_rowFilters c) (cs_args st') sql"
  unfolding restrictedSQL_def by (rule compileSubqueryBody_ok)

definition ctePart :: "Compiler \<Rightarrow> SemanticModel \<Rightarrow> RowFilter list \<Rightarrow> CTE \<Rightarrow> string \<Rightarrow> bind_value list \<Rightarrow> bool" where
  "ctePart c model rfs cte part args \<longleftrightarrow>
     (\<exists>sql. restrictedSQL c model rfs args sql \<and> part = QuoteIdent (c_dialect c) (TrimSpace (cte_Name cte)) @ '' AS ('' @ sql @ '')'')"

definition withPart :: "Compiler \<Rightarrow> SemanticModel \<Rightarrow> RowFilter list \<Rightarrow> CTE list \<Rightarrow> string \<Rightarrow> bind_value list \<Rightarrow> bool" where
  "withPart c model rfs ctes sql args \<longleftrightarrow>
     (\<exists>parts. list_all2 (\<lambda>cte part. ctePart c model rfs cte part args) ctes parts \<and>
        sql = (if ctes = [] then [] else ''WITH '' @ Join parts '', '' @ '' ''))"

definition fromPart :: "Compiler \<Rightarrow> SemanticModel \<Rightarrow> RowFilter list \<Rightarrow> LogicalQuery \<Rightarrow> string \<Rightarrow> bind_value list \<Rightarrow> bool" where
  "fromPart c model rfs lq sql args \<longleftrightarrow>
     (case lq_FromSubquery lq of
        Some _ \<Rightarrow> (\<exists>inner alias. restrictedSQL c model rfs args inner \<and> sql = ''('' @ inner @ '') AS '' @ QuoteIdent (c_dialect c) alias)
      | None \<Rightarrow>
          sql = (if TrimSpace (lq_FromCTE lq) \<noteq> [] then QuoteIdent (c_dialect c) (TrimSpace (lq_FromCTE lq)) else buildFrom c model))"

lemma ctePart_more: "ctePart c model rfs cte part args \<Longrightarrow> ctePart c model rfs cte part (args @ vs)"
  unfolding ctePart_def using restrictedSQL_more by blast

lemma withPart_more: "withPart c model rfs ctes sql args \<Longrightarrow> withPart c model rfs ctes sql (args @ vs)"
  unfolding withPart_def
  by (elim exE conjE, intro exI conjI, erule list_all2_mono, erule ctePart_more, assumption)

lemma fromPart_more: "fromPart c model rfs lq sql args \<Longrightarrow> fromPart c model rfs lq sql (args @ vs)"
  unfolding fromPart_def by (auto split: option.splits dest: restrictedSQL_more)

lemma cteSQL_ok: "cteSQL n c model cte st = Some (Inr part, st') \<Longrightarrow> ctePart c model (c_rowFilters c) cte part (cs_args st')"
  by (auto simp: cteSQL_def ctePart_def Let_def run_ok split: if_splits dest: compileSubqueryBody_restricted)

lemma buildWithClause_ok:
  assumes "buildWithClause n c model ctes st = Some (Inr sql, st')"
  shows "withPart c model (c_rowFilters c) ctes sql (cs_args st')"
proof (cases "ctes = []")
  case False
  then obtain parts where run: "mapC (cteSQL n c model) ctes st = Some (Inr parts, st')"
    and sql: "sql = ''WITH '' @ Join parts '', '' @ '' ''"
    using assms by (auto simp: buildWithClause_def run_ok)
  have "list_all2 (\<lambda>cte part. ctePart c model (c_rowFilters c) cte part (cs_args st')) ctes parts"
    by (rule mapC_all [OF run, where P = "ctePart c model (c_rowFilters c)"])
       (use cteSQL_ok ctePart_more binding.evolves_nested(2) in blast)+
  then show ?thesis using False sql by (auto simp: withPart_def)
qed (use assms in \<open>simp add: buildWithClause_def withPart_def\<close>)

lemma resolveFromClause_ok:
  "resolveFromClause n c lq model st = Some (Inr sql, st') \<Longrightarrow> fromPart c model (c_rowFilters c) lq sql (cs_args st')"
  by (auto simp: resolveFromClause_def fromPart_def Let_def run_ok split: option.splits if_splits
      dest: compileSubqueryBody_restricted)

lemma Compile_ok:
  assumes "Compile n c lq model st = Some (Inr cq, st')"
  shows "\<exists>cl. restricted c model (c_rowFilters c) (cq_Args cq) cl (cq_SQL cq) \<and>
    withPart c model (c_rowFilters c) (lq_CTEs lq) (cl_with cl) (cq_Args cq) \<and>
    fromPart c model (c_rowFilters c) lq (cl_from cl) (cq_Args cq) \<and>
    cl_limit cl = LimitOffset (c_dialect c) (lq_Limit (ensured lq)) (lq_Offset (ensured lq))"
proof -
  from assms obtain w s1 src s2 where w: "buildWithClause n c model (lq_CTEs lq) st = Some (Inr w, s1)"
    and src: "resolveFromClause n c lq model s1 = Some (Inr src, s2)"
    and stmt: "compileStatement n c lq model src w (c_rowFilters c) s2 = Some (Inr cq, st')" and "cs_err st' = None"
    by (auto simp: Compile_def run_ok)
  from compileStatement_ok [OF stmt] obtain cl where
    cl: "restricted c model (c_rowFilters c) (cq_Args cq) cl (cq_SQL cq)" "cq_Args cq = cs_args st'"
      "cl_from cl = src" "cl_with cl = w"
      "cl_limit cl = LimitOffset (c_dialect c) (lq_Limit (ensured lq)) (lq_Offset (ensured lq))" "cs_err st' = cs_err s2"
    by auto
  from extends_args [OF binding.evolves_nested(4) src] obtain vs1 where vs1: "cs_args s2 = cs_args s1 @ vs1" by blast
  from extends_args [OF binding.evolves_compileStatement stmt] obtain vs2 where vs2: "cs_args st' = cs_args s2 @ vs2" by blast
  have "withPart c model (c_rowFilters c) (lq_CTEs lq) w (cs_args st')"
    using withPart_more [OF buildWithClause_ok [OF w], of "vs1 @ vs2"] by (simp add: vs1 vs2)
  moreover have "fromPart c model (c_rowFilters c) lq src (cs_args st')"
    using fromPart_more [OF resolveFromClause_ok [OF src], of vs2] by (simp add: vs2)
  ultimately show ?thesis using cl by auto
qed

definition example_compiler :: "Dialect \<Rightarrow> Compiler" where
  "example_compiler d = \<lparr>c_dialect = d, c_pii = None, c_rowFilters = [], c_metricDepth = 3, c_rangeOrder = id,
     c_FormatFloat = (\<lambda>_. ''0''), c_Sprint = (\<lambda>_. [])\<rparr>"

definition example_count_model :: SemanticModel where
  "example_count_model = example_model\<lparr>sm_Metrics := [(example_metric ''orders_n'' ''*'')\<lparr>met_Aggregation := ''count''\<rparr>]\<rparr>"

definition example_tenant_filter :: RowFilter where
  "example_tenant_filter = \<lparr>rf_Field = ''status'', rf_Operator = ''eq'', rf_Value = AStr ''mine''\<rparr>"

definition example_count_query :: LogicalQuery where
  "example_count_query = example_query\<lparr>lq_Select := [SelectItem ''metric'' ''orders_n'' [] [] None None None], lq_GroupBy := [],
     lq_Filters := [], lq_Limit := 0\<rparr>"

definition example_nested_query :: LogicalQuery where
  "example_nested_query = example_count_query\<lparr>
     lq_FromSubquery := Some (SubqueryBody [SelectItem ''metric'' ''orders_n'' [] [] None None None] [] [] [] [] 0 0)\<rparr>"

definition example_having_query :: LogicalQuery where
  "example_having_query = example_count_query\<lparr>lq_Having := [Filter ''orders_n'' ''gt'' (AStr ''theirs'') False None]\<rparr>"

section \<open>Properties: row filters\<close>


lemma example_nested_run:
  "case CompileWithPermissions 2 (example_compiler Postgres) example_nested_query example_count_model [example_tenant_filter] None None of
     Some (Inr cq) \<Rightarrow> cq_Args cq = [BVal (AStr ''mine''), BVal (AStr ''mine'')] | _ \<Rightarrow> False"
  by code_simp


text \<open>A filter with a subquery holds a statement under the row filters of the compiler too, selects the one
  field the filter names, and compares against it with the requested membership.\<close>

theorem buildInSubqueryFilter_restricts:
  assumes "buildInSubqueryFilter (compileSubqueryBody n c model) lhs sf positive st = Some (Inr part, st')"
  shows "\<exists>sql sel. restrictedSQL c model (c_rowFilters c) (cs_args st') sql \<and>
    part = lhs @ '' '' @ (if positive then ''IN'' else ''NOT IN'') @ '' ('' @ sql @ '')'' \<and>
    sb_Select (sf_Body sf) = [sel] \<and> sf_ResultField sf \<in> {si_Name sel, si_Alias sel}"
proof -
  have "TrimSpace (sf_ResultField sf) \<noteq> []" 
    by (rule notI) (use assms in \<open>simp add: buildInSubqueryFilter_def del: TrimSpace_eq_Nil\<close>)
  with assms obtain sql s where sub: "compileSubqueryBody n c model (sf_Body sf) st = Some (Inr sql, s)"
    and rest: "(case sb_Select (sf_Body sf) of
            [sel] \<Rightarrow>
              if si_Name sel \<noteq> sf_ResultField sf \<and> si_Alias sel \<noteq> sf_ResultField sf
              then failC (CText (''subquery filter body does not select the required result_field '' @ Quote (sf_ResultField sf)))
              else retC (lhs @ '' '' @ (if positive then ''IN'' else ''NOT IN'') @ '' ('' @ sql @ '')'')
          | _ \<Rightarrow>
              failC (CValidation (validationErrWithCode ''filters'' ''subquery filter body must select exactly one field''
                ''INVALID_SUBQUERY_FILTER'' (sf_ResultField sf) []))) s = Some (Inr part, st')"
    unfolding buildInSubqueryFilter_def by (simp only: if_False bindC_ok) blast
  from rest obtain sel where "sb_Select (sf_Body sf) = [sel]" "sf_ResultField sf \<in> {si_Name sel, si_Alias sel}" "st' = s"
    "part = lhs @ '' '' @ (if positive then ''IN'' else ''NOT IN'') @ '' ('' @ sql @ '')''"
    by (cases "sb_Select (sf_Body sf)" rule: remdups_adj.cases) (auto split: if_splits)
  with compileSubqueryBody_restricted [OF sub] show ?thesis by blast
qed

definition example_in_filter :: SubqueryFilter where
  "example_in_filter = SubqueryFilter
     (SubqueryBody [SelectItem ''dimension'' ''status'' [] [] None None None] [] [] [] [] 0 0) ''status''"

abbreviation example_tenant_compiler :: Compiler where
  "example_tenant_compiler \<equiv> (example_compiler Postgres)\<lparr>c_rowFilters := [example_tenant_filter]\<rparr>"

lemma example_in_run:
  "map_option (map_prod isl cs_args) (buildInSubqueryFilter (compileSubqueryBody 1 example_tenant_compiler example_count_model)
      ''x'' example_in_filter False (initialCState None None)) = Some (False, [BVal (AStr ''mine'')])"
  by code_simp

theorem buildInSubqueryFilter_restricts_witness:
  "\<exists>part st' sql. buildInSubqueryFilter (compileSubqueryBody 1 example_tenant_compiler example_count_model)
        ''x'' example_in_filter False (initialCState None None) = Some (Inr part, st') \<and>
     part = ''x NOT IN ('' @ sql @ '')'' \<and>
     restrictedSQL example_tenant_compiler example_count_model [example_tenant_filter] [BVal (AStr ''mine'')] sql"
proof -
  obtain r st' where "buildInSubqueryFilter (compileSubqueryBody 1 example_tenant_compiler example_count_model)
      ''x'' example_in_filter False (initialCState None None) = Some (r, st')" "\<not> isl r" "cs_args st' = [BVal (AStr ''mine'')]"
    using example_in_run by auto
  then obtain part where run: "buildInSubqueryFilter (compileSubqueryBody 1 example_tenant_compiler example_count_model)
      ''x'' example_in_filter False (initialCState None None) = Some (Inr part, st')"
    and st': "cs_args st' = [BVal (AStr ''mine'')]"
    by (cases r) auto
  from buildInSubqueryFilter_restricts [OF run] run show ?thesis by (auto simp: st')
qed

section \<open>Properties: the row limit\<close>

text \<open>How the dialects write a limit of at least one row.\<close>

definition limitText :: "Dialect \<Rightarrow> int \<Rightarrow> int \<Rightarrow> string" where
  "limitText d limit offset =
     (case d_kind d of
        SQLServerDialect \<Rightarrow> ''OFFSET '' @ Itoa offset @ '' ROWS FETCH NEXT '' @ Itoa limit @ '' ROWS ONLY''
      | OracleDialect \<Rightarrow>
          (if offset > 0 then ''OFFSET '' @ Itoa offset @ '' ROWS FETCH NEXT '' else ''FETCH FIRST '') @ Itoa limit @ '' ROWS ONLY''
      | _ \<Rightarrow> ''LIMIT '' @ Itoa limit @ (if offset > 0 then '' OFFSET '' @ Itoa offset else []))"

lemma LimitOffset_limited: "0 < limit \<Longrightarrow> LimitOffset d limit offset = limitText d limit offset"
  by (cases "d_kind d")
     (simp_all add: LimitOffset_def limitText_def StandardLimitOffset_def sqlServerLimitOffset_def oracleLimitOffset_def)

lemma limitText_nonempty: "limitText d limit offset \<noteq> []"
  by (cases "d_kind d") (simp_all add: limitText_def)

lemma ensured_limit [simp]: "lq_Limit (ensured lq) = lq_Limit lq" "lq_Offset (ensured lq) = lq_Offset lq"
  by (simp_all add: ensured_def EnsureGroupBySelected_eq)

lemma CompileWithPermissions_limit:
  assumes "CompileWithPermissions n c lq model rfs pii applied = Some (Inr cq)" and "0 < lq_Limit lq"
  shows "\<exists>prefix. cq_SQL cq = prefix @ '' '' @ limitText (c_dialect c) (lq_Limit lq) (lq_Offset lq)"
proof -
  from assms obtain c' st0 cq' st where run: "Compile n c' lq model st0 = Some (Inr cq', st)"
    and cq: "cq_SQL cq = cq_SQL cq'" "c_dialect c' = c_dialect c"
    by (auto simp: CompileWithPermissions_def Let_def split: if_splits option.splits prod.splits sum.splits)
  from Compile_ok [OF run] obtain cl where "cq_SQL cq = assembleSQL (c_dialect c) cl"
    and "cl_limit cl = limitText (c_dialect c) (lq_Limit lq) (lq_Offset lq)"
    by (auto simp: restricted_def cq LimitOffset_limited [OF assms(2)])
  then show ?thesis by (simp add: assembleSQL_def clause_def limitText_nonempty)
qed

text \<open>C13. The validator and the compiler together bound the result: when the validator accepts a query and the
  compiler compiles what it returns, the statement ends with a limit clause for at least one row and at
  most the configured number, in the spelling of the dialect.\<close>

theorem validated_statement_is_limited:
  assumes "Validate v lq model order = (lq', [])" and "0 < maxRows v"
    and "CompileWithPermissions n c lq' model rfs pii applied = Some (Inr cq)"
  shows "\<exists>prefix limit. cq_SQL cq = prefix @ '' '' @ limitText (c_dialect c) limit (lq_Offset lq) \<and> 0 < limit \<and> limit \<le> maxRows v"
proof -
  have "0 < lq_Limit lq' \<and> lq_Limit lq' \<le> maxRows v \<and> lq_Offset lq' = lq_Offset lq"
    using assms(1,2) by (auto simp: Validate_ok Let_def validateLimitOffset_ok)
  then show ?thesis using CompileWithPermissions_limit [OF assms(3)] by auto
qed

lemma example_count_accepted:
  "Validate example_validator example_count_query example_count_model [] = (example_count_query\<lparr>lq_Limit := 1000\<rparr>, [])"
proof -
  have "snd (Validate example_validator example_count_query example_count_model []) = []" by code_simp
  moreover have "fst (Validate example_validator example_count_query example_count_model []) = example_count_query\<lparr>lq_Limit := 1000\<rparr>"
    unfolding fst_Validate
    by (simp add: validateLimitOffset_def example_validator_def example_count_query_def example_query_def Let_def require_def)
  ultimately show ?thesis by (simp add: prod_eq_iff)
qed

lemma example_count_run:
  "case CompileWithPermissions 1 (example_compiler Postgres) (example_count_query\<lparr>lq_Limit := 1000\<rparr>) example_count_model [] None None of
     Some (Inr cq) \<Rightarrow> True | _ \<Rightarrow> False"
  by code_simp

theorem validated_statement_is_limited_witness:
  "\<exists>cq prefix limit. CompileWithPermissions 1 (example_compiler Postgres) (example_count_query\<lparr>lq_Limit := 1000\<rparr>) example_count_model [] None None = Some (Inr cq) \<and>
     cq_SQL cq = prefix @ '' '' @ limitText Postgres limit 0 \<and> 0 < limit \<and> limit \<le> 1000"
  using example_count_run
    validated_statement_is_limited [OF example_count_accepted, of 1 "example_compiler Postgres" "[]" None None]
  by (fastforce simp: example_validator_def example_compiler_def example_count_query_def example_query_def split: option.splits sum.splits)

section \<open>Properties: positional placeholders\<close>

text \<open>What a driver of a dialect with \<open>?\<close> placeholders executes: the arguments in the order of the question marks.\<close>

fun bindPositional :: "string \<Rightarrow> string list \<Rightarrow> string" where
  "bindPositional [] vs = []"
| "bindPositional (x # s) vs =
     (if x = CHR ''?'' then (case vs of [] \<Rightarrow> x # bindPositional s [] | v # vs' \<Rightarrow> v @ bindPositional s vs')
      else x # bindPositional s vs)"

definition valueText :: "bind_value \<Rightarrow> string" where
  "valueText v = (case v of BVal (AStr s) \<Rightarrow> Quote s | BVal (AInt n) \<Rightarrow> Itoa n | _ \<Rightarrow> ''...'')"

definition executedSQL :: "CompiledQuery \<Rightarrow> string" where
  "executedSQL cq = bindPositional (cq_SQL cq) (map valueText (cq_Args cq))"


section \<open>Properties: the error field\<close>

definition keeps_err :: "'a comp \<Rightarrow> bool" where
  "keeps_err m \<longleftrightarrow> (\<forall>st r st'. m st = Some (r, st') \<longrightarrow> cs_err st' = cs_err st)"

lemma keeps_err_bindC: "keeps_err m \<Longrightarrow> (\<And>a. keeps_err (k a)) \<Longrightarrow> keeps_err (bindC m k)"
  by (fastforce simp: keeps_err_def bindC_def split: option.splits prod.splits sum.splits)

lemma keeps_err_basic: "keeps_err (retC a)" "keeps_err (failC e)" "keeps_err exhausted" "keeps_err (onCopy m)"
  by (auto simp: keeps_err_def retC_def failC_def exhausted_def onCopy_def)

lemma keeps_err_wrapC: "keeps_err m \<Longrightarrow> keeps_err (wrapC l m)"
  by (fastforce simp: keeps_err_def wrapC_def split: option.splits prod.splits sum.splits)

lemma keeps_err_mapC: "(\<And>x. keeps_err (f x)) \<Longrightarrow> keeps_err (mapC f xs)"
  by (induction xs) (auto intro!: keeps_err_bindC keeps_err_basic)

lemma keeps_err_compileStatement: "keeps_err (compileStatement n c lq model src w rfs)"
  by (cases n) (auto intro!: keeps_err_basic simp: keeps_err_basic)

lemmas keeping = keeps_err_bindC keeps_err_basic keeps_err_wrapC keeps_err_mapC keeps_err_compileStatement

lemma keeps_err_nested:
  "keeps_err (buildWithClause n c model ctes)" "keeps_err (resolveFromClause n c lq model)"
  unfolding buildWithClause_def resolveFromClause_def cteSQL_def compileSubqueryBody_def Let_def
  by (auto intro!: keeping split: option.split)

definition example_median_model :: SemanticModel where
  "example_median_model = example_count_model\<lparr>sm_Metrics := sm_Metrics example_count_model @
     [(example_metric ''typical'' ''*'')\<lparr>met_Aggregation := ''median''\<rparr>,
      (example_metric ''custom_one'' ''1; drop table orders'')\<lparr>met_Aggregation := ''custom''\<rparr>]\<rparr>"

definition example_lost_query :: LogicalQuery where
  "example_lost_query = example_count_query\<lparr>lq_Having :=
     [Filter ''typical'' ''gt'' (AInt 5) False None, Filter ''custom_one'' ''gt'' (AInt 6) False None]\<rparr>"

text \<open>C11. Errors the compiler records in its error field instead of returning them are lost. Statements are
  compiled by a copy of the compiler object, so the check of the field after \<open>compileStatement\<close> can never
  fail: \<open>Compile\<close> behaves as if it were not there. A HAVING clause on a metric with an unsupported
  aggregation compiles to a comparison without a left-hand side, and because the read-only check of raw
  metric expressions is skipped while the field is set, the next metric goes into the text unchecked.\<close>

theorem recorded_errors_are_lost:
  "Compile n c lq model (initialCState pii applied) =
     bindC (buildWithClause n c model (lq_CTEs lq)) (\<lambda>w. bindC (resolveFromClause n c lq model) (\<lambda>src.
       compileStatement n c lq model src w (c_rowFilters c))) (initialCState pii applied) \<and>
   map_option (map_sum id cq_SQL)
     (CompileWithPermissions 1 (example_compiler Postgres) example_lost_query example_median_model [] None None) =
   Some (Inr ''SELECT COUNT(*) AS \"orders_n\" FROM \"public\".\"orders\" HAVING  > $1 AND 1; drop table orders > $2'')"
proof
  let ?st = "initialCState pii applied"
  let ?m = "\<lambda>w src. compileStatement n c lq model src w (c_rowFilters c)"
  have dead: "bindC (?m w src) checkErr s = ?m w src s" if "cs_err s = None" for w src s
    using keeps_err_compileStatement [of n c lq model src w "c_rowFilters c"] that
    by (auto simp: keeps_err_def bindC_def checkErr_def split: option.splits prod.splits sum.splits)
  have none: "cs_err ?st = None" by (simp add: initialCState_def)
  show "Compile n c lq model ?st =
    bindC (buildWithClause n c model (lq_CTEs lq)) (\<lambda>w. bindC (resolveFromClause n c lq model) (\<lambda>src. ?m w src)) ?st"
    unfolding Compile_def bindC_def [of "buildWithClause n c model (lq_CTEs lq)"] bindC_def [of "resolveFromClause n c lq model"]
    using keeps_err_nested(1) [of n c model "lq_CTEs lq"] keeps_err_nested(2) [of n c lq model] none
    by (auto simp: keeps_err_def dead split: option.splits prod.splits sum.splits)
qed code_simp

section \<open>Properties: hidden and masked columns\<close>

lemma mapC_member:
  assumes "mapC f xs st = Some (Inr ys, st')" and "x \<in> set xs" and R: "evolution R" and f: "\<And>z. evolves R (f z)"
  shows "\<exists>s y s'. f x s = Some (Inr y, s') \<and> y \<in> set ys \<and> R st s \<and> R s' st'"
  using assms(1,2)
proof (induction xs arbitrary: ys st)
  case (Cons z xs)
  then obtain y ys' s where run: "f z st = Some (Inr y, s)" "mapC f xs s = Some (Inr ys', st')" "ys = y # ys'"
    by (auto simp: run_ok)
  show ?case
  proof (cases "x = z")
    case True
    have "R s st'" "R st st" using evolvesD [OF evolution.evolves_mapC [OF R f] run(2)] evolution.refl [OF R] by simp_all
    with True run show ?thesis by auto
  next
    case False
    with Cons.prems Cons.IH [OF run(2)] run(3) evolvesD [OF f run(1)] evolution.trans [OF R] show ?thesis by fastforce
  qed
qed simp

text \<open>What a policy makes of a column that is not open: the text that stands for it, and the entry in the
  record of decisions.\<close>

definition protectedSQL :: "Compiler \<Rightarrow> Scope \<Rightarrow> Dimension \<Rightarrow> string option" where
  "protectedSQL c sc d =
     (case piiAccessForDim c sc d of
        None \<Rightarrow> None
      | Some (access, piiType) \<Rightarrow>
          if access = AccessRaw then None
          else if access = AccessMasked then
            Some (maskSQL c (QuoteIdent (c_dialect c) (PhysicalColumnRef (sc_resolver sc) (dim_ColumnRef d))) piiType)
          else Some HiddenLiteral)"

definition decided :: "string \<Rightarrow> AppliedPII option \<Rightarrow> bool" where
  "decided ref applied \<longleftrightarrow> (case applied of None \<Rightarrow> False | Some a \<Rightarrow> ref \<in> set (ap_Masked a) \<union> set (ap_Hidden a))"

lemma decided_grows: "decided ref a \<Longrightarrow> applied_grows a b \<Longrightarrow> decided ref b"
  by (cases a; cases b) (auto simp: decided_def applied_grows_def)

lemma buildSelectDimension_protected:
  assumes "buildSelectDimension c sc item st = Some (Inr part, st')" and "sc_dimMap sc (si_Name item) = Some d"
    and "\<not> sc_derivedSource sc" and "protectedSQL c sc d = Some sql"
  shows "part = selectItemSQL sql (selectItemAlias (si_Alias item) (dim_Name d)) (c_dialect c) \<and>
    (cs_applied st \<noteq> None \<longrightarrow> decided (PhysicalColumnRef (sc_resolver sc) (dim_ColumnRef d)) (cs_applied st'))"
  using assms
  by (auto simp: buildSelectDimension_def protectedSQL_def dimensionOutputSQL_def Let_def run_ok recordMaskedC_def recordHiddenC_def
      decided_def recordMasked_def recordHidden_def split: option.splits if_splits prod.splits)

lemma buildPolicyDecisions_decided:
  assumes "decided ref applied"
  shows "\<exists>pd. buildPolicyDecisions rfs model (Some cfg) applied = Some pd \<and> ref \<in> set (pd_MaskedColumns pd) \<union> set (pd_HiddenColumns pd)"
proof -
  from assms obtain a where a: "applied = Some a" "ref \<in> set (ap_Masked a) \<or> ref \<in> set (ap_Hidden a)"
    by (auto simp: decided_def split: option.splits)
  then have "\<not> (ap_Masked a = [] \<and> ap_Hidden a = [])" by auto
  then show ?thesis using a by (auto simp: buildPolicyDecisions_def Let_def)
qed

lemma statementClauses_select:
  assumes run: "statementClauses sub c sc lq src w rfs st = Some (Inr cl, s)" and sub: "\<And>b. evolves decisions_grow (sub b)"
  shows "\<exists>s1 parts s2. buildSelect sub c sc (lq_Select lq) s1 = Some (Inr parts, s2) \<and> cl_select cl = parts \<and>
    decisions_grow st s1 \<and> decisions_grow s2 s"
proof -
  from run obtain js s1 parts s2 wh s3 gb s4 hav s5 preds s6 ob where
    js: "statementJoins c sc lq st = Some (Inr js, s1)" and sel: "buildSelect sub c sc (lq_Select lq) s1 = Some (Inr parts, s2)"
    and wh: "buildFilterConjunction sub c sc (lq_Filters lq) s2 = Some (Inr wh, s3)"
    and gb: "buildGroupBy c sc (lq_GroupBy lq) s3 = Some (Inr gb, s4)" and hav: "buildHaving c sc (lq_Having lq) s4 = Some (Inr hav, s5)"
    and preds: "buildRowFilterPreds c (sc_model sc) rfs s5 = Some (Inr preds, s6)"
    and ob: "buildOrderBy c sc (lq_OrderBy lq) s6 = Some (Inr ob, s)" and cl: "cl_select cl = parts"
    unfolding statementClauses_def run_ok buildWhere_def by auto
  note grow = deciding.evolves_buildFilterConjunction [OF sub, THEN evolvesD, OF wh] deciding.evolves_clauses(2) [THEN evolvesD, OF gb]
    deciding.evolves_clauses(1) [THEN evolvesD, OF hav] deciding.evolves_buildRowFilterPreds [THEN evolvesD, OF preds]
    deciding.evolves_clauses(3) [THEN evolvesD, OF ob]
  have "decisions_grow s2 s"
    by (intro deciding.trans [OF grow(1)] deciding.trans [OF grow(2)] deciding.trans [OF grow(3)] deciding.trans [OF grow(4)] grow(5))
  moreover have "decisions_grow st s1" by (rule deciding.evolves_statementJoins [THEN evolvesD, OF js])
  ultimately show ?thesis using sel cl by blast
qed

lemma buildSelect_member:
  assumes run: "buildSelect sub c sc items st = Some (Inr parts, st')" and "item \<in> set items"
    and sub: "\<And>b. evolves decisions_grow (sub b)"
  shows "\<exists>s part s'. buildSelectItem sub c sc item s = Some (Inr part, s') \<and> (part = [] \<or> part \<in> set parts) \<and>
    decisions_grow st s \<and> decisions_grow s' st'"
proof -
  have items: "evolves decisions_grow (buildSelectItem sub c sc i)" for i
    unfolding buildSelectItem_def by (auto intro!: evolving sub)
  from run obtain ys where "mapC (buildSelectItem sub c sc) items st = Some (Inr ys, st')" and "parts = filter (\<lambda>p. p \<noteq> []) ys"
    by (auto simp: buildSelect_def run_ok)
  with mapC_member [OF this(1) assms(2) deciding.evolution_axioms items] show ?thesis by fastforce
qed


text \<open>The statement of a query with a protected dimension.\<close>

lemma statement_protects:
  assumes run: "compileStatement n c lq model src w rfs st = Some (Inr cq, st')" and "cs_applied st \<noteq> None"
    and item: "item \<in> set (lq_Select (ensured lq))" "si_Type item = ''dimension''"
    and d: "sc_dimMap (scopeOf lq model) (si_Name item) = Some d" "\<not> sc_derivedSource (scopeOf lq model)"
    and sql: "protectedSQL c (scopeOf lq model) d = Some sql"
  shows "\<exists>cl. cq_SQL cq = assembleSQL (c_dialect c) cl \<and>
    selectItemSQL sql (selectItemAlias (si_Alias item) (dim_Name d)) (c_dialect c) \<in> set (cl_select cl) \<and>
    decided (PhysicalColumnRef (sc_resolver (scopeOf lq model)) (dim_ColumnRef d)) (cs_applied st')"
proof (cases n)
  case (Suc m)
  let ?sc = "scopeOf lq model"
  let ?sub = "\<lambda>body. bindC (compileStatement m c (logicalQueryFromBody body) model (buildFrom c model) [] (c_rowFilters c)) (\<lambda>cq. retC (cq_SQL cq))"
  have sub: "evolves decisions_grow (?sub b)" for b by (intro evolving)
  from run obtain cl s where cl: "statementClauses ?sub c ?sc (ensured lq) src w rfs st = Some (Inr cl, s)"
    and cq: "cq_SQL cq = assembleSQL (c_dialect c) cl" and st': "cs_applied st' = cs_applied s"
    unfolding Suc compileStatement.simps run_ok by auto
  from statementClauses_select [OF cl sub] obtain s1 s2 where
    select: "buildSelect ?sub c ?sc (lq_Select (ensured lq)) s1 = Some (Inr (cl_select cl), s2)"
    and grow: "decisions_grow st s1" "decisions_grow s2 s" by auto
  from buildSelect_member [OF select item(1) sub] obtain s3 part s4 where
    part: "buildSelectItem ?sub c ?sc item s3 = Some (Inr part, s4)" "part = [] \<or> part \<in> set (cl_select cl)"
    and grow': "decisions_grow s1 s3" "decisions_grow s4 s2" by auto
  from part(1) item(2) have dim: "buildSelectDimension c ?sc item s3 = Some (Inr part, s4)" by (simp add: buildSelectItem_def)
  have "cs_applied s3 \<noteq> None"
    using deciding.trans [OF grow(1) grow'(1)] assms(2)
    by (cases "cs_applied s3") (auto simp: decisions_grow_def applied_grows_def)
  with buildSelectDimension_protected [OF dim d sql]
  have shown: "part = selectItemSQL sql (selectItemAlias (si_Alias item) (dim_Name d)) (c_dialect c)"
    and dec: "decided (PhysicalColumnRef (sc_resolver ?sc) (dim_ColumnRef d)) (cs_applied s4)" by auto
  have "decided (PhysicalColumnRef (sc_resolver ?sc) (dim_ColumnRef d)) (cs_applied s)"
    using decided_grows [OF dec] deciding.trans [OF grow'(2) grow(2)] by (simp add: decisions_grow_def)
  moreover have "part \<noteq> []" by (simp add: shown selectItemSQL_def)
  ultimately show ?thesis using part(2) shown cq st' by auto
qed (use run in simp)

text \<open>C3. A policy on columns holds in the projection, and is on record. When a query that selects a dimension
  on a masked or hidden column compiles, the item in the text is the masking expression of the column or
  the constant for hidden columns, under the alias of the item, and the policy decisions returned with the
  query list the column.\<close>

theorem CompileWithPermissions_protects_columns:
  assumes run: "CompileWithPermissions n c lq model rfs (Some cfg) applied = Some (Inr cq)"
    and item: "item \<in> set (lq_Select (ensured lq))" "si_Type item = ''dimension''"
    and d: "sc_dimMap (scopeOf lq model) (si_Name item) = Some d" "\<not> sc_derivedSource (scopeOf lq model)"
    and sql: "protectedSQL (c\<lparr>c_pii := Some cfg\<rparr>) (scopeOf lq model) d = Some sql"
  shows "\<exists>cl pd. cq_SQL cq = assembleSQL (c_dialect c) cl \<and>
    selectItemSQL sql (selectItemAlias (si_Alias item) (dim_Name d)) (c_dialect c) \<in> set (cl_select cl) \<and>
    cq_Policy cq = Some pd \<and>
    PhysicalColumnRef (sc_resolver (scopeOf lq model)) (dim_ColumnRef d) \<in> set (pd_MaskedColumns pd) \<union> set (pd_HiddenColumns pd)"
proof -
  let ?c = "c\<lparr>c_pii := Some cfg, c_rowFilters := rfs\<rparr>"
  let ?ref = "PhysicalColumnRef (sc_resolver (scopeOf lq model)) (dim_ColumnRef d)"
  from run obtain cq' st where comp: "Compile n ?c lq model (initialCState (Some cfg) applied) = Some (Inr cq', st)"
    and cq: "cq = cq'\<lparr>cq_Policy := buildPolicyDecisions rfs model (Some cfg) (cs_applied st)\<rparr>"
    by (auto simp: CompileWithPermissions_def Let_def split: option.splits prod.splits sum.splits)
  from comp obtain w s1 src s2 where w: "buildWithClause n ?c model (lq_CTEs lq) (initialCState (Some cfg) applied) = Some (Inr w, s1)"
    and src: "resolveFromClause n ?c lq model s1 = Some (Inr src, s2)"
    and stmt: "compileStatement n ?c lq model src w rfs s2 = Some (Inr cq', st)"
    by (auto simp: Compile_def run_ok)
  have "decisions_grow (initialCState (Some cfg) applied) s2"
    by (rule deciding.trans [OF deciding.evolves_nested(3) [THEN evolvesD, OF w] deciding.evolves_nested(4) [THEN evolvesD, OF src]])
  then have some: "cs_applied s2 \<noteq> None"
    by (cases "cs_applied s2") (auto simp: decisions_grow_def applied_grows_def initialCState_def split: option.splits)
  have "protectedSQL ?c (scopeOf lq model) d = Some sql"
    using sql
    by (auto simp: protectedSQL_def piiAccessForDim_def maskSQL_def split: option.splits prod.splits if_splits)
  from statement_protects [OF stmt some item d this] obtain cl where
    "cq_SQL cq' = assembleSQL (c_dialect c) cl" "selectItemSQL sql (selectItemAlias (si_Alias item) (dim_Name d)) (c_dialect c) \<in> set (cl_select cl)"
    and dec: "decided ?ref (cs_applied st)" by auto
  moreover obtain pd where "buildPolicyDecisions rfs model (Some cfg) (cs_applied st) = Some pd"
    and "?ref \<in> set (pd_MaskedColumns pd) \<union> set (pd_HiddenColumns pd)"
    using buildPolicyDecisions_decided [OF dec] by blast
  ultimately show ?thesis by (auto simp: cq)
qed

definition example_hidden_status :: PIIMaskingConfig where
  "example_hidden_status = \<lparr>pc_ColumnInfo = (\<lambda>_. None), pc_ColumnAccess = [''orders.status'' \<mapsto> ''hidden''],
     pc_ColumnTypes = (\<lambda>_. None), pc_ColumnStrategies = (\<lambda>_. None), pc_Strategy = None\<rparr>"

definition example_status_item :: SelectItem where
  "example_status_item = SelectItem ''dimension'' ''status'' [] [] None None None"

definition example_status_query :: LogicalQuery where
  "example_status_query = example_count_query\<lparr>lq_Select := [example_status_item]\<rparr>"

lemma example_status_run:
  "map_option isl (CompileWithPermissions 1 (example_compiler Postgres) example_status_query example_count_model [] (Some example_hidden_status) None) = Some False"
  by code_simp

theorem CompileWithPermissions_protects_columns_witness:
  "\<exists>cq pd cl. CompileWithPermissions 1 (example_compiler Postgres) example_status_query example_count_model [] (Some example_hidden_status) None = Some (Inr cq) \<and>
     cq_SQL cq = assembleSQL Postgres cl \<and> HiddenLiteral @ '' AS \"status\"'' \<in> set (cl_select cl) \<and>
     cq_Policy cq = Some pd \<and> ''orders.status'' \<in> set (pd_MaskedColumns pd) \<union> set (pd_HiddenColumns pd)"
proof -
  let ?sc = "scopeOf example_status_query example_count_model"
  let ?d = "the (sc_dimMap ?sc ''status'')"
  obtain cq where run: "CompileWithPermissions 1 (example_compiler Postgres) example_status_query example_count_model [] (Some example_hidden_status) None = Some (Inr cq)"
    using example_status_run by (auto simp: isl_def) (metis sum.exhaust)
  have item: "example_status_item \<in> set (lq_Select (ensured example_status_query))" "si_Type example_status_item = ''dimension''" by code_simp+
  have d: "sc_dimMap ?sc (si_Name example_status_item) = Some ?d" "\<not> sc_derivedSource ?sc" by code_simp+
  have sql: "protectedSQL ((example_compiler Postgres)\<lparr>c_pii := Some example_hidden_status\<rparr>) ?sc ?d = Some HiddenLiteral" by code_simp
  have shape: "selectItemSQL HiddenLiteral (selectItemAlias (si_Alias example_status_item) (dim_Name ?d)) (c_dialect (example_compiler Postgres)) =
      HiddenLiteral @ '' AS \"status\"''" "PhysicalColumnRef (sc_resolver ?sc) (dim_ColumnRef ?d) = ''orders.status''" by code_simp+
  show ?thesis
    using CompileWithPermissions_protects_columns [OF run item d sql] run unfolding shape
    by (fastforce simp: example_compiler_def)
qed

definition example_case_item :: SelectItem where
  "example_case_item = SelectItem ''case'' ''leak'' [] []
     (Some (QueryCaseExpr [CaseBranch [Filter ''country'' ''eq'' (AStr ''TR'') False None]
        \<lparr>ct_Type = ''dimension'', ct_Dimension = ''status'', ct_Literal = ANil\<rparr>] None)) None None"

end
