(* ===== verification/Metric_Graph.thy ===== *)
theory Metric_Graph
  imports Semantic_Model
begin

text \<open>The metric dependency graph of \<open>internal/semantic/metric_graph.go\<close>: which metrics an expression
  refers to, the graph built from a composite model and its resolved model, and the depth-first search
  that reports circular dependencies. The search is recursive, so the model carries a bound on the
  recursion depth; the value \<open>None\<close> means that the bound was exceeded, and it is proved that the bound
  \<open>DetectCircularDependencies\<close> chooses is never exceeded. A Go map is iterated in an arbitrary order:
  the order is an argument.\<close>

section \<open>Tokens and references\<close>

definition isSimpleColumnRef :: "string \<Rightarrow> bool" where
  "isSimpleColumnRef ref =
     list_all (\<lambda>r. is_lower r \<or> is_upper r \<or> is_digit r \<or> r = CHR ''_'' \<or> r = CHR ''.'') ref"

definition tokenChar :: "char \<Rightarrow> bool" where
  "tokenChar c = (is_lower c \<or> is_upper c \<or> is_digit c \<or> c = CHR ''_'')"

definition isTokenBoundary :: "string \<Rightarrow> int \<Rightarrow> bool" where
  "isTokenBoundary s i = (if i < 0 \<or> i \<ge> int (length s) then True else \<not> tokenChar (s ! nat i))"

definition tableOfRef :: "string \<Rightarrow> string" where
  "tableOfRef ref =
     (if \<not> isSimpleColumnRef ref then []
      else
        (case Split (TrimSpace ref) CHR ''.'' of
           [_, t, _] \<Rightarrow> t
         | [t, _] \<Rightarrow> t
         | _ \<Rightarrow> []))"

text \<open>The scan of \<open>referencedMetricNames\<close>: \<open>start\<close> is the index where the current token begins, if
  there is one (the code's -1 is \<open>None\<close>); the set of names seen is the set of names already in \<open>out\<close>.\<close>

definition flush ::
  "(string \<rightharpoonup> string) \<Rightarrow> string \<Rightarrow> string \<Rightarrow> nat option \<Rightarrow> nat \<Rightarrow> string list \<Rightarrow> string list" where
  "flush metricNames self expr start stop out =
     (case start of
        None \<Rightarrow> out
      | Some b \<Rightarrow>
          (case metricNames (ToLower (take (stop - b) (drop b expr))) of
             None \<Rightarrow> out
           | Some name \<Rightarrow> if name = self then out else append_new out name))"

fun scanTokens ::
  "(string \<rightharpoonup> string) \<Rightarrow> string \<Rightarrow> string \<Rightarrow> nat list \<Rightarrow> nat option \<Rightarrow> string list \<Rightarrow> string list" where
  "scanTokens metricNames self expr [] start out =
     flush metricNames self expr start (length expr) out"
| "scanTokens metricNames self expr (i # is) start out =
     (if isTokenBoundary expr (int i) then
        scanTokens metricNames self expr is None (flush metricNames self expr start i out)
      else scanTokens metricNames self expr is (if start = None then Some i else start) out)"

definition referencedMetricNames :: "string \<Rightarrow> (string \<rightharpoonup> string) \<Rightarrow> string \<Rightarrow> string list" where
  "referencedMetricNames expr metricNames self =
     scanTokens metricNames self expr [0..<length expr] None []"

section \<open>The graph\<close>

definition MetricEdgeDerivesFrom :: string where "MetricEdgeDerivesFrom = ''derives_from''"
definition MetricEdgeSharesDimension :: string where "MetricEdgeSharesDimension = ''shares_dimension''"

record MetricNode =
  mn_Name :: string
  mn_SourceModelAlias :: string
  mn_DependsOn :: "string list"

record MetricEdge =
  me_From :: string
  me_To :: string
  me_Type :: string

record MetricDependencyGraph =
  Nodes :: "string \<rightharpoonup> MetricNode"
  Edges :: "MetricEdge list"

definition componentAliasByTable :: "CompositeModel \<Rightarrow> SemanticModel \<Rightarrow> (string \<rightharpoonup> string)" where
  "componentAliasByTable composite resolved =
     foldl (\<lambda>out c. out(cmr_Alias c \<mapsto> cmr_Alias c)) (\<lambda>_. None) (cm_Components composite)"

definition metricNameMap :: "Metric list \<Rightarrow> (string \<rightharpoonup> string)" where
  "metricNameMap ms = foldl (\<lambda>out m. out(ToLower (met_Name m) \<mapsto> met_Name m)) (\<lambda>_. None) ms"

definition metricStep ::
  "(string \<rightharpoonup> string) \<Rightarrow> (string \<rightharpoonup> string) \<Rightarrow> MetricDependencyGraph \<Rightarrow> Metric \<Rightarrow> MetricDependencyGraph" where
  "metricStep ownerByTable metricNames graph m =
     (let deps = referencedMetricNames (met_Expression m) metricNames (met_Name m);
          node = \<lparr>mn_Name = met_Name m,
                  mn_SourceModelAlias =
                    (case ownerByTable (tableOfRef (met_Expression m)) of None \<Rightarrow> [] | Some a \<Rightarrow> a),
                  mn_DependsOn = deps\<rparr>
      in graph\<lparr>Edges := Edges graph @
                 map (\<lambda>dep. \<lparr>me_From = met_Name m, me_To = dep, me_Type = MetricEdgeDerivesFrom\<rparr>) deps,
               Nodes := (Nodes graph)(met_Name m \<mapsto> node)\<rparr>)"

definition BuildMetricGraph :: "CompositeModel \<Rightarrow> SemanticModel \<Rightarrow> MetricDependencyGraph" where
  "BuildMetricGraph composite resolved =
     foldl (metricStep (componentAliasByTable composite resolved) (metricNameMap (sm_Metrics resolved)))
       \<lparr>Nodes = (\<lambda>_. None), Edges = []\<rparr> (sm_Metrics resolved)"

section \<open>Circular dependencies\<close>

datatype color = White | Gray | Black

type_synonym colors = "string \<Rightarrow> color"

text \<open>An error carries the stack and the node that closes the cycle.\<close>

type_synonym visit_result = "(string list \<times> string + colors \<times> string list) option"

definition adjacency :: "MetricDependencyGraph \<Rightarrow> string \<Rightarrow> string list" where
  "adjacency graph name =
     map me_To (filter (\<lambda>e. me_Type e = MetricEdgeDerivesFrom \<and> me_From e = name) (Edges graph))"

fun visit :: "nat \<Rightarrow> (string \<Rightarrow> string list) \<Rightarrow> string \<Rightarrow> colors \<Rightarrow> string list \<Rightarrow> visit_result"
  and visitNexts :: "nat \<Rightarrow> (string \<Rightarrow> string list) \<Rightarrow> string list \<Rightarrow> colors \<Rightarrow> string list \<Rightarrow> visit_result" where
  "visit 0 adj name color stack = None"
| "visit (Suc depth) adj name color stack =
     (case visitNexts depth adj (adj name) (color(name := Gray)) (stack @ [name]) of
        None \<Rightarrow> None
      | Some (Inl err) \<Rightarrow> Some (Inl err)
      | Some (Inr (color', stack')) \<Rightarrow> Some (Inr (color'(name := Black), butlast stack')))"
| "visitNexts depth adj [] color stack = Some (Inr (color, stack))"
| "visitNexts depth adj (next # nexts) color stack =
     (case color next of
        Gray \<Rightarrow> Some (Inl (stack, next))
      | White \<Rightarrow>
          (case visit depth adj next color stack of
             None \<Rightarrow> None
           | Some (Inl err) \<Rightarrow> Some (Inl err)
           | Some (Inr (color', stack')) \<Rightarrow> visitNexts depth adj nexts color' stack')
      | Black \<Rightarrow> visitNexts depth adj nexts color stack)"

fun visitRoots :: "nat \<Rightarrow> (string \<Rightarrow> string list) \<Rightarrow> string list \<Rightarrow> colors \<Rightarrow> string list \<Rightarrow> visit_result" where
  "visitRoots depth adj [] color stack = Some (Inr (color, stack))"
| "visitRoots depth adj (name # names) color stack =
     (if color name = White then
        (case visit depth adj name color stack of
           None \<Rightarrow> None
         | Some (Inl err) \<Rightarrow> Some (Inl err)
         | Some (Inr (color', stack')) \<Rightarrow> visitRoots depth adj names color' stack')
      else visitRoots depth adj names color stack)"

text \<open>\<open>order\<close> is the order in which the node map is iterated.\<close>

definition DetectCircularDependencies ::
  "MetricDependencyGraph \<Rightarrow> string list \<Rightarrow> (string list \<times> string) option option" where
  "DetectCircularDependencies graph order =
     (case visitRoots (length order + length (Edges graph)) (adjacency graph) order (\<lambda>_. White) [] of
        None \<Rightarrow> None
      | Some (Inl err) \<Rightarrow> Some (Some err)
      | Some (Inr _) \<Rightarrow> Some None)"

section \<open>Lemmas: the search\<close>

definition derives :: "(string \<Rightarrow> string list) \<Rightarrow> (string \<times> string) set" where
  "derives adj = {(a, b). b \<in> set (adj a)}"

text \<open>What a successful visit leaves unchanged.\<close>

definition settled :: "colors \<Rightarrow> colors \<Rightarrow> bool" where
  "settled c c' = (\<forall>v. if c v = White then c' v \<noteq> Gray else c' v = c v)"

lemma settled_refl [simp]: "settled c c"
  by (simp add: settled_def)

lemma settled_trans: "settled c c' \<Longrightarrow> settled c' c'' \<Longrightarrow> settled c c''"
  unfolding settled_def by (metis color.exhaust)

lemma settled_Black: "settled c c' \<Longrightarrow> c v = Black \<Longrightarrow> c' v = Black"
  unfolding settled_def by (metis color.distinct(3))

lemma settled_Gray: "settled c c' \<Longrightarrow> c' v = Gray \<longleftrightarrow> c v = Gray"
  unfolding settled_def by (metis color.distinct(1))

lemma settled_finish:
  "settled (c(n := Gray)) c' \<Longrightarrow> c n = White \<Longrightarrow> settled c (c'(n := Black))"
  unfolding settled_def by (auto split: if_splits)

lemma visit_frame:
  "c n = White \<Longrightarrow> visit d adj n c st = Some (Inr (c', st')) \<Longrightarrow> st' = st \<and> settled c c' \<and> c' n = Black"
  "visitNexts d adj ns c st = Some (Inr (c', st')) \<Longrightarrow>
     st' = st \<and> settled c c' \<and> (\<forall>m\<in>set ns. c' m = Black)"
proof (induction d adj n c st and d adj ns c st arbitrary: c' st' and c' st' rule: visit_visitNexts.induct)
  case (2 d adj n c st)
  then obtain c1 st1 where v: "visitNexts d adj (adj n) (c(n := Gray)) (st @ [n]) = Some (Inr (c1, st1))"
    and r: "c' = c1(n := Black)" "st' = butlast st1"
    by (auto split: option.splits sum.splits)
  have "st1 = st @ [n] \<and> settled (c(n := Gray)) c1"
    using 2(1) [of c1 st1] v by (simp add: fun_upd_def)
  with r show ?case using settled_finish [of c n c1] 2(2) by (simp add: fun_upd_def)
next
  case (4 d adj m ns c st)
  show ?case
  proof (cases "c m")
    case White
    then obtain c1 st1 where v: "visit d adj m c st = Some (Inr (c1, st1))"
      and w: "visitNexts d adj ns c1 st1 = Some (Inr (c', st'))"
      using 4(4) by (auto split: option.splits sum.splits)
    have "st1 = st \<and> settled c c1 \<and> c1 m = Black" using 4(1) [OF White White v] .
    moreover have "st' = st1 \<and> settled c1 c' \<and> (\<forall>m\<in>set ns. c' m = Black)"
      using 4(2) [OF White v refl refl w] .
    ultimately show ?thesis using settled_trans settled_Black by auto
  next
    case Gray
    then show ?thesis using 4(4) by simp
  next
    case Black
    then show ?thesis using 4(3) [OF Black, of c' st'] 4(4) settled_Black by auto
  qed
qed auto

text \<open>The recursion depth is bounded by the number of white nodes.\<close>

definition whites :: "string set \<Rightarrow> colors \<Rightarrow> string set" where
  "whites V c = {v \<in> V. c v = White}"

lemma whites_settled: "settled c c' \<Longrightarrow> finite V \<Longrightarrow> card (whites V c') \<le> card (whites V c)"
  by (rule card_mono) (auto simp: whites_def settled_def split: if_splits)

lemma whites_enter:
  "finite V \<Longrightarrow> n \<in> V \<Longrightarrow> c n = White \<Longrightarrow> card (whites V c) = Suc (card (whites V (c(n := Gray))))"
proof -
  assume "finite V" "n \<in> V" "c n = White"
  then have "whites V c = insert n (whites V (c(n := Gray)))" "n \<notin> whites V (c(n := Gray))"
    by (auto simp: whites_def)
  then show ?thesis using \<open>finite V\<close> by (simp add: whites_def)
qed

lemma visit_returns:
  assumes V: "finite V" "\<And>v. v \<in> V \<Longrightarrow> set (adj v) \<subseteq> V"
  shows "n \<in> V \<Longrightarrow> c n = White \<Longrightarrow> card (whites V c) \<le> d \<Longrightarrow> visit d adj n c st \<noteq> None"
    and "set ns \<subseteq> V \<Longrightarrow> card (whites V c) \<le> d \<Longrightarrow> visitNexts d adj ns c st \<noteq> None"
  using V
proof (induction d adj n c st and d adj ns c st rule: visit_visitNexts.induct)
  case (1 adj n c st)
  then show ?case using whites_enter [of V n c] by simp
next
  case (2 d adj n c st)
  then have "visitNexts d adj (adj n) (c(n := Gray)) (st @ [n]) \<noteq> None"
    using whites_enter [of V n c] by (auto simp: fun_upd_def)
  then show ?case by (auto split: sum.splits)
next
  case (4 d adj m ns c st)
  show ?case
  proof (cases "c m")
    case White
    then have "visit d adj m c st \<noteq> None" using 4(4-) by (intro 4(1)) auto
    then obtain r where r: "visit d adj m c st = Some r" by blast
    show ?thesis
    proof (cases r)
      case (Inl e)
      then show ?thesis using White r by simp
    next
      case (Inr cs)
      obtain c1 st1 where cs: "cs = (c1, st1)" by (cases cs)
      have "card (whites V c1) \<le> d"
        using visit_frame(1) [OF White r [unfolded Inr cs]] whites_settled [of c c1 V] 4(4-) by auto
      then have "visitNexts d adj ns c1 st1 \<noteq> None"
        using 4(4-) by (intro 4(2) [OF White r Inr cs [symmetric]]) auto
      then show ?thesis using White r Inr cs by simp
    qed
  next
    case Black
    then show ?thesis using 4(3) [OF Black] 4(4-) by auto
  qed simp
qed auto

text \<open>The black nodes are closed under dependencies and free of cycles.\<close>

definition blackOK :: "(string \<Rightarrow> string list) \<Rightarrow> colors \<Rightarrow> bool" where
  "blackOK adj c =
     ((\<forall>b. c b = Black \<longrightarrow> (\<forall>s\<in>set (adj b). c s = Black)) \<and> acyclic {(a, b). b \<in> set (adj a) \<and> c a = Black})"

lemma acyclic_source:
  assumes E: "acyclic E" "\<And>a b. (a, b) \<in> E \<Longrightarrow> b \<noteq> n" and D: "\<And>a b. (a, b) \<in> D \<Longrightarrow> a = n \<and> b \<noteq> n"
  shows "acyclic (E \<union> D)"
proof -
  have "y \<noteq> n \<and> (x \<noteq> n \<longrightarrow> (x, y) \<in> E\<^sup>+)" if "(x, y) \<in> (E \<union> D)\<^sup>+" for x y
    using that
  proof (induction rule: trancl_induct)
    case (base y)
    then show ?case using E(2) D by blast
  next
    case (step y z)
    then have "(y, z) \<in> E" using D by blast
    then show ?case using step E(2) by (auto intro: trancl_into_trancl)
  qed
  then show ?thesis using E(1) by (auto simp: acyclic_def)
qed

lemma blackOK_finish:
  assumes "blackOK adj c" "c n \<noteq> Black" "\<forall>s\<in>set (adj n). c s = Black"
  shows "blackOK adj (c(n := Black))"
proof -
  let ?E = "{(a, b). b \<in> set (adj a) \<and> c a = Black}" and ?D = "{(a, b). b \<in> set (adj a) \<and> a = n}"
  have "acyclic (?E \<union> ?D)"
    using assms by (intro acyclic_source [of _ n]) (auto simp: blackOK_def)
  moreover have "{(a, b). b \<in> set (adj a) \<and> (c(n := Black)) a = Black} = ?E \<union> ?D" by auto
  ultimately show ?thesis using assms by (auto simp: blackOK_def)
qed

lemma blackOK_enter: "c n = White \<Longrightarrow> blackOK adj c \<Longrightarrow> blackOK adj (c(n := Gray))"
proof -
  assume c: "c n = White" "blackOK adj c"
  then have "(c(n := Gray)) v = Black \<longleftrightarrow> c v = Black" for v by auto
  then show ?thesis using c(2) unfolding blackOK_def by presburger
qed

lemma visit_blackOK:
  "c n = White \<Longrightarrow> visit d adj n c st = Some (Inr (c', st')) \<Longrightarrow> blackOK adj c \<Longrightarrow> blackOK adj c'"
  "visitNexts d adj ns c st = Some (Inr (c', st')) \<Longrightarrow> blackOK adj c \<Longrightarrow> blackOK adj c'"
proof (induction d adj n c st and d adj ns c st arbitrary: c' st' and c' st' rule: visit_visitNexts.induct)
  case (2 d adj n c st)
  then obtain c1 st1 where v: "visitNexts d adj (adj n) (c(n := Gray)) (st @ [n]) = Some (Inr (c1, st1))"
    and r: "c' = c1(n := Black)"
    by (auto split: option.splits sum.splits)
  have frame: "settled (c(n := Gray)) c1" "\<forall>m\<in>set (adj n). c1 m = Black"
    using visit_frame(2) [OF v] by auto
  have "c1 n = Gray" using settled_Gray [OF frame(1), of n] by simp
  moreover have "blackOK adj c1"
    using 2(1) [of c1 st1] v blackOK_enter [of c n adj] 2(2,4) by (simp add: fun_upd_def)
  ultimately show ?case using r frame(2) blackOK_finish [of adj c1 n] by (simp add: fun_upd_def)
next
  case (4 d adj m ns c st)
  show ?case
  proof (cases "c m")
    case White
    then obtain c1 st1 where v: "visit d adj m c st = Some (Inr (c1, st1))"
      and w: "visitNexts d adj ns c1 st1 = Some (Inr (c', st'))"
      using 4(4) by (auto split: option.splits sum.splits)
    have "blackOK adj c1" using 4(1) [OF White White v 4(5)] .
    then show ?thesis using 4(2) [OF White v refl refl w] by simp
  qed (use 4 in \<open>auto\<close>)
qed auto

text \<open>The stack is the path of gray nodes, so an error is a cycle.\<close>

definition pathOK :: "(string \<Rightarrow> string list) \<Rightarrow> colors \<Rightarrow> string list \<Rightarrow> bool" where
  "pathOK adj c st = ((\<forall>v. c v = Gray \<longleftrightarrow> v \<in> set st) \<and> successively (\<lambda>a b. b \<in> set (adj a)) st)"

definition isCycle :: "(string \<Rightarrow> string list) \<Rightarrow> string list \<times> string \<Rightarrow> bool" where
  "isCycle adj err = (snd err \<in> set (fst err) \<and> successively (\<lambda>a b. b \<in> set (adj a)) (fst err @ [snd err]))"

lemma pathOK_enter:
  assumes "pathOK adj c st" "st \<noteq> [] \<longrightarrow> n \<in> set (adj (last st))"
  shows "pathOK adj (c(n := Gray)) (st @ [n])"
  using assms by (auto simp: pathOK_def successively_append_iff)

lemma pathOK_settled: "pathOK adj c st \<Longrightarrow> settled c c' \<Longrightarrow> pathOK adj c' st"
  by (simp add: pathOK_def settled_Gray)

lemma visit_error:
  "visit d adj n c st = Some (Inl err) \<Longrightarrow> pathOK adj c st \<Longrightarrow> st \<noteq> [] \<longrightarrow> n \<in> set (adj (last st)) \<Longrightarrow> isCycle adj err"
  "visitNexts d adj ns c st = Some (Inl err) \<Longrightarrow> pathOK adj c st \<Longrightarrow> st \<noteq> [] \<Longrightarrow> set ns \<subseteq> set (adj (last st)) \<Longrightarrow>
     isCycle adj err"
proof (induction d adj n c st and d adj ns c st rule: visit_visitNexts.induct)
  case (2 d adj n c st)
  then have "visitNexts d adj (adj n) (c(n := Gray)) (st @ [n]) = Some (Inl err)"
    by (auto split: option.splits sum.splits)
  then show ?case using 2(1) pathOK_enter [OF 2(3,4)] by (simp add: fun_upd_def)
next
  case (4 d adj m ns c st)
  show ?case
  proof (cases "c m")
    case Gray
    then have "err = (st, m)" using 4(4) by simp
    then show ?thesis
      using Gray 4(5-) by (auto simp: isCycle_def pathOK_def successively_append_iff)
  next
    case Black
    then show ?thesis using 4(3) [OF Black] 4(4-) by auto
  next
    case White
    show ?thesis
    proof (cases "visit d adj m c st = Some (Inl err)")
      case True
      then show ?thesis using 4(1) [OF White True 4(5)] 4(7) by auto
    next
      case False
      then obtain c1 st1 where v: "visit d adj m c st = Some (Inr (c1, st1))"
        and w: "visitNexts d adj ns c1 st1 = Some (Inl err)"
        using White 4(4) by (auto split: option.splits sum.splits)
      have "st1 = st" "pathOK adj c1 st"
        using visit_frame(1) [OF White v] pathOK_settled [OF 4(5)] by auto
      then show ?thesis using 4(2) [OF White v refl refl w] 4(6,7) by auto
    qed
  qed
qed auto

lemma visitRoots_ok:
  "visitRoots d adj order c [] = Some (Inr (c', st')) \<Longrightarrow> blackOK adj c \<Longrightarrow> (\<forall>v. c v \<noteq> Gray) \<Longrightarrow>
   blackOK adj c' \<and> settled c c' \<and> (\<forall>n\<in>set order. c' n = Black)"
proof (induction order arbitrary: c)
  case (Cons n order)
  show ?case
  proof (cases "c n = White")
    case True
    then obtain c1 st1 where v: "visit d adj n c [] = Some (Inr (c1, st1))"
      and w: "visitRoots d adj order c1 st1 = Some (Inr (c', st'))"
      using Cons.prems(1) by (auto split: option.splits sum.splits)
    note frame = visit_frame(1) [OF True v]
    have "blackOK adj c1" "\<forall>v. c1 v \<noteq> Gray"
      using visit_blackOK(1) [OF True v Cons.prems(2)] frame Cons.prems(3) settled_Gray by auto
    then show ?thesis
      using Cons.IH [of c1] w frame settled_trans settled_Black by auto
  next
    case False
    then have "c n = Black" using Cons.prems(3) by (cases "c n") auto
    moreover have "blackOK adj c' \<and> settled c c' \<and> (\<forall>n\<in>set order. c' n = Black)"
      using False Cons.prems by (intro Cons.IH) auto
    ultimately show ?thesis using settled_Black [of c c' n] by simp
  qed
qed auto

lemma visitRoots_error:
  "visitRoots d adj order c [] = Some (Inl err) \<Longrightarrow> (\<forall>v. c v \<noteq> Gray) \<Longrightarrow> isCycle adj err"
proof (induction order arbitrary: c)
  case (Cons n order)
  show ?case
  proof (cases "c n = White")
    case True
    show ?thesis
    proof (cases "visit d adj n c [] = Some (Inl err)")
      case v: True
      show ?thesis by (rule visit_error(1) [OF v]) (use Cons.prems(2) in \<open>auto simp: pathOK_def\<close>)
    next
      case False
      then obtain c1 st1 where v: "visit d adj n c [] = Some (Inr (c1, st1))"
        and w: "visitRoots d adj order c1 st1 = Some (Inl err)"
        using True Cons.prems(1) by (auto split: option.splits sum.splits)
      note frame = visit_frame(1) [OF True v]
      show ?thesis using Cons.IH [of c1] w frame Cons.prems(2) settled_Gray by auto
    qed
  next
    case False
    then show ?thesis using Cons by auto
  qed
qed auto

lemma visitRoots_returns:
  assumes V: "finite V" "\<And>v. v \<in> V \<Longrightarrow> set (adj v) \<subseteq> V"
  shows "set order \<subseteq> V \<Longrightarrow> card (whites V c) \<le> d \<Longrightarrow> visitRoots d adj order c st \<noteq> None"
proof (induction order arbitrary: c st)
  case (Cons n order)
  show ?case
  proof (cases "c n = White")
    case True
    have "visit d adj n c st \<noteq> None" using visit_returns(1) [OF V] Cons.prems True by auto
    then obtain r where r: "visit d adj n c st = Some r" by blast
    show ?thesis
    proof (cases r)
      case (Inl e)
      then show ?thesis using True r by simp
    next
      case (Inr cs)
      obtain c1 st1 where cs: "cs = (c1, st1)" by (cases cs)
      have "card (whites V c1) \<le> d"
        using visit_frame(1) [OF True r [unfolded Inr cs]] whites_settled [of c c1 V] V(1) Cons.prems by auto
      then show ?thesis using Cons.IH [of c1 st1] Cons.prems True r Inr cs by auto
    qed
  qed (use Cons in \<open>auto\<close>)
qed simp

lemma isCycle_trancl: "isCycle adj err \<Longrightarrow> \<exists>x. (x, x) \<in> (derives adj)\<^sup>+"
proof -
  assume c: "isCycle adj err"
  then obtain us vs where st: "fst err = us @ snd err # vs" by (auto simp: isCycle_def dest: split_list)
  have path: "(a, b) \<in> (derives adj)\<^sup>+" if "successively (\<lambda>a b. b \<in> set (adj a)) (a # xs @ [b])" for a b xs
    using that
  proof (induction xs arbitrary: a)
    case Nil
    then show ?case by (auto simp: derives_def)
  next
    case (Cons x xs)
    then have "(a, x) \<in> derives adj" "(x, b) \<in> (derives adj)\<^sup>+" by (auto simp: derives_def)
    then show ?case by (rule trancl_into_trancl2)
  qed
  have "successively (\<lambda>a b. b \<in> set (adj a)) (us @ (snd err # vs @ [snd err]))"
    using c st by (simp add: isCycle_def)
  then have "successively (\<lambda>a b. b \<in> set (adj a)) (snd err # vs @ [snd err])"
    unfolding successively_append_iff [of _ us] by simp
  then show ?thesis using path by blast
qed

section \<open>Lemmas: the graph of a composite model\<close>

text \<open>A graph is well formed when its dependency edges start at its nodes.\<close>

definition graphOK :: "MetricDependencyGraph \<Rightarrow> bool" where
  "graphOK g = (\<forall>e\<in>set (Edges g). me_Type e = MetricEdgeDerivesFrom \<longrightarrow> me_From e \<in> dom (Nodes g))"

definition searchUniverse :: "MetricDependencyGraph \<Rightarrow> string list \<Rightarrow> string set" where
  "searchUniverse g order = set order \<union> me_To ` set (Edges g)"

lemma searchUniverse_closed: "set (adjacency g v) \<subseteq> searchUniverse g order"
  by (auto simp: searchUniverse_def adjacency_def)

lemma finite_searchUniverse [simp]: "finite (searchUniverse g order)"
  by (simp add: searchUniverse_def)

lemma searchUniverse_depth: "card (whites (searchUniverse g order) c) \<le> length order + length (Edges g)"
proof -
  have "card (whites (searchUniverse g order) c) \<le> card (searchUniverse g order)"
    by (rule card_mono) (auto simp: whites_def)
  also have "\<dots> \<le> card (set order) + card (me_To ` set (Edges g))"
    unfolding searchUniverse_def by (rule card_Un_le)
  also have "\<dots> \<le> length order + length (Edges g)"
    using card_length [of order] card_length [of "map me_To (Edges g)"] by simp
  finally show ?thesis .
qed

lemma search_exact:
  assumes g: "graphOK g" and order: "set order = dom (Nodes g)"
  shows "(\<exists>r. DetectCircularDependencies g order = Some r) \<and>
    (DetectCircularDependencies g order = Some None \<longleftrightarrow> acyclic (derives (adjacency g))) \<and>
    (\<forall>err. DetectCircularDependencies g order = Some (Some err) \<longrightarrow> isCycle (adjacency g) err)"
proof -
  let ?adj = "adjacency g" and ?d = "length order + length (Edges g)"
  let ?run = "visitRoots ?d ?adj order (\<lambda>_. White) []"
  have "?run \<noteq> None"
    by (rule visitRoots_returns [OF finite_searchUniverse searchUniverse_closed _ searchUniverse_depth])
      (simp add: searchUniverse_def)
  then consider err where "?run = Some (Inl err)" | c st where "?run = Some (Inr (c, st))"
    by (cases ?run) (auto, metis surj_pair sum.exhaust)
  then show ?thesis
  proof cases
    case 1
    then have "isCycle ?adj err" by (rule visitRoots_error) simp
    moreover have "\<not> acyclic (derives ?adj)"
      using isCycle_trancl [OF \<open>isCycle ?adj err\<close>] by (auto simp: acyclic_def)
    ultimately show ?thesis using 1 by (simp add: DetectCircularDependencies_def)
  next
    case 2
    have "blackOK ?adj (\<lambda>_. White)" by (simp add: blackOK_def acyclic_def)
    then have c: "blackOK ?adj c" "\<forall>n\<in>set order. c n = Black"
      using visitRoots_ok [OF 2] by auto
    have "derives ?adj \<subseteq> {(a, b). b \<in> set (?adj a) \<and> c a = Black}"
      using g order c(2) by (auto simp: derives_def adjacency_def graphOK_def)
    then have "acyclic (derives ?adj)" using c(1) acyclic_subset by (auto simp: blackOK_def)
    then show ?thesis using 2 by (simp add: DetectCircularDependencies_def)
  qed
qed

section \<open>Lemmas: tokens\<close>

definition boundary_before :: "string \<Rightarrow> bool" where
  "boundary_before pre = (pre = [] \<or> \<not> tokenChar (last pre))"

definition boundary_after :: "string \<Rightarrow> bool" where
  "boundary_after post = (post = [] \<or> \<not> tokenChar (hd post))"

text \<open>A token of an expression is a maximal run of identifier characters.\<close>

definition token_of :: "string \<Rightarrow> string \<Rightarrow> bool" where
  "token_of expr tok = (\<exists>pre post. expr = pre @ tok @ post \<and> tok \<noteq> [] \<and> list_all tokenChar tok \<and>
     boundary_before pre \<and> boundary_after post)"

lemma boundary_before_tokens: "boundary_before pre \<Longrightarrow> list_all tokenChar pre \<Longrightarrow> pre = []"
  by (cases pre rule: rev_cases) (auto simp: boundary_before_def)

lemma boundary_after_tokens: "boundary_after post \<Longrightarrow> list_all tokenChar post \<Longrightarrow> post = []"
  by (cases post) (auto simp: boundary_after_def)

fun tokens :: "string \<Rightarrow> string \<Rightarrow> string list" where
  "tokens cur [] = (if cur = [] then [] else [cur])"
| "tokens cur (c # cs) =
     (if tokenChar c then tokens (cur @ [c]) cs else (if cur = [] then [] else [cur]) @ tokens [] cs)"

lemma token_of_boundary:
  assumes cur: "list_all tokenChar cur" and c: "\<not> tokenChar c"
  shows "token_of (cur @ c # cs) tok \<longleftrightarrow> cur \<noteq> [] \<and> tok = cur \<or> token_of cs tok"
proof
  assume "token_of (cur @ c # cs) tok"
  then obtain pre post where e: "cur @ c # cs = (pre @ tok) @ post" "tok \<noteq> []" "list_all tokenChar tok"
    "boundary_before pre" "boundary_after post" unfolding token_of_def by auto
  from e(1) consider (short) us where "cur = (pre @ tok) @ us" "us @ c # cs = post"
    | (long) us where "cur @ us = pre @ tok" "c # cs = us @ post"
    unfolding append_eq_append_conv2 by blast
  then show "cur \<noteq> [] \<and> tok = cur \<or> token_of cs tok"
  proof cases
    case short
    then have "us = []" using e(5) cur by (cases us) (auto simp: boundary_after_def)
    moreover have "pre = []" using e(4) cur short boundary_before_tokens by auto
    ultimately show ?thesis using short e(2) by simp
  next
    case long
    show ?thesis
    proof (cases us)
      case Nil
      then have "pre = []" using e(4) cur long boundary_before_tokens by auto
      then show ?thesis using long Nil e(2) by simp
    next
      case (Cons x us')
      with long have us: "cur @ c # us' = pre @ tok" "cs = us' @ post" by auto
      from us(1) consider vs where "cur = pre @ vs" "vs @ c # us' = tok" | vs where "cur @ vs = pre" "c # us' = vs @ tok"
        unfolding append_eq_append_conv2 by blast
      then show ?thesis
      proof cases
        case 1
        then show ?thesis using e(3) c by auto
      next
        case 2
        have "vs \<noteq> []" using 2 e(3) c by auto
        then obtain vs' where vs: "vs = c # vs'" "us' = vs' @ tok" using 2 by (cases vs) auto
        have "boundary_before vs'" using e(4) 2 vs by (cases vs' rule: rev_cases) (auto simp: boundary_before_def)
        then have "token_of cs tok" using e us(2) vs unfolding token_of_def by auto
        then show ?thesis by simp
      qed
    qed
  qed
next
  assume "cur \<noteq> [] \<and> tok = cur \<or> token_of cs tok"
  then show "token_of (cur @ c # cs) tok"
  proof
    assume "cur \<noteq> [] \<and> tok = cur"
    then show ?thesis using cur c unfolding token_of_def boundary_before_def boundary_after_def
      by (intro exI [of _ "[]"] exI [of _ "c # cs"]) auto
  next
    assume "token_of cs tok"
    then obtain pre post where p: "cs = pre @ tok @ post" "tok \<noteq> []" "list_all tokenChar tok"
      "boundary_before pre" "boundary_after post" unfolding token_of_def by auto
    then have "boundary_before (cur @ c # pre)" using c by (auto simp: boundary_before_def)
    with p show ?thesis unfolding token_of_def
      by (intro exI [of _ "cur @ c # pre"] exI [of _ post]) auto
  qed
qed

lemma token_of_all: "list_all tokenChar cur \<Longrightarrow> token_of cur tok \<longleftrightarrow> cur \<noteq> [] \<and> tok = cur"
proof
  assume cur: "list_all tokenChar cur" and "token_of cur tok"
  then obtain pre post where p: "cur = pre @ tok @ post" "tok \<noteq> []"
    "boundary_before pre" "boundary_after post" unfolding token_of_def by auto
  then have "pre = []" "post = []" using cur boundary_before_tokens boundary_after_tokens by auto
  then show "cur \<noteq> [] \<and> tok = cur" using p by simp
next
  assume "list_all tokenChar cur" "cur \<noteq> [] \<and> tok = cur"
  then show "token_of cur tok" unfolding token_of_def boundary_before_def boundary_after_def
    by (intro exI [of _ "[]"]) auto
qed

lemma tokens_exact: "list_all tokenChar cur \<Longrightarrow> tok \<in> set (tokens cur rest) \<longleftrightarrow> token_of (cur @ rest) tok"
proof (induction cur rest rule: tokens.induct)
  case (1 cur)
  then show ?case by (simp add: token_of_all)
next
  case (2 cur c cs)
  then show ?case by (cases "tokenChar c") (auto simp: token_of_boundary)
qed

text \<open>The scan keeps, of the tokens in order, the metrics they name.\<close>

definition namedMetrics :: "(string \<rightharpoonup> string) \<Rightarrow> string \<Rightarrow> string list \<Rightarrow> string list" where
  "namedMetrics mn self toks = filter (\<lambda>n. n \<noteq> self) (List.map_filter (\<lambda>t. mn (ToLower t)) toks)"

lemma namedMetrics_append [simp]: "namedMetrics mn self (xs @ ys) = namedMetrics mn self xs @ namedMetrics mn self ys"
  by (simp add: namedMetrics_def map_filter_def)

lemma set_namedMetrics: "set (namedMetrics mn self toks) = {n. n \<noteq> self \<and> (\<exists>t\<in>set toks. mn (ToLower t) = Some n)}"
  by (force simp: namedMetrics_def map_filter_def)

lemma flush_eq:
  assumes "start = (if cur = [] then None else Some (length pre))"
  shows "flush mn self ((pre @ cur) @ rest) start (length (pre @ cur)) out =
    collect_new out (namedMetrics mn self (if cur = [] then [] else [cur]))"
  using assms by (auto simp: flush_def namedMetrics_def map_filter_def split: option.splits)

lemma scanTokens_eq:
  assumes "start = (if cur = [] then None else Some (length pre))"
  shows "scanTokens mn self (pre @ cur @ rest) [length (pre @ cur)..<length (pre @ cur @ rest)] start out =
    collect_new out (namedMetrics mn self (tokens cur rest))"
  using assms
proof (induction rest arbitrary: pre cur start out)
  case Nil
  then show ?case using flush_eq [of start cur pre mn self "[]" out] by simp
next
  case (Cons c rest)
  let ?e = "pre @ cur @ c # rest" and ?i = "length (pre @ cur)"
  have upto: "[?i..<length ?e] = ?i # [length (pre @ cur @ [c])..<length ?e]"
    using upt_conv_Cons [of ?i "length ?e"] by simp
  have b: "isTokenBoundary ?e (int ?i) \<longleftrightarrow> \<not> tokenChar c"
    using nth_append_length [of "pre @ cur" c rest] by (simp add: isTokenBoundary_def nat_add_distrib)
  show ?case
  proof (cases "tokenChar c")
    case True
    have "(if start = None then Some ?i else start) = (if cur @ [c] = [] then None else Some (length pre))"
      using Cons.prems by simp
    from Cons.IH [OF this, of out] True b show ?thesis
      by (simp add: upto del: upt_Suc length_append split del: if_split)
  next
    case False
    have "flush mn self ?e start ?i out = collect_new out (namedMetrics mn self (if cur = [] then [] else [cur]))"
      using flush_eq [OF Cons.prems, of mn self "c # rest" out] by simp
    with Cons.IH [of None "[]" "pre @ cur @ [c]"] False b show ?thesis
      by (simp add: upto del: upt_Suc length_append)
  qed
qed

lemma referencedMetricNames_eq: "referencedMetricNames e mn self = collect_new [] (namedMetrics mn self (tokens [] e))"
  using scanTokens_eq [of None "[]" "[]" mn self e "[]"] by (simp add: referencedMetricNames_def)

section \<open>Lemmas: building\<close>

lemma metricSteps_nodes:
  "dom (Nodes (foldl (metricStep own mn) g ms)) = dom (Nodes g) \<union> met_Name ` set ms"
  by (induction ms arbitrary: g) (auto simp: metricStep_def Let_def)

lemma metricSteps_edges:
  "set (Edges (foldl (metricStep own mn) g ms)) = set (Edges g) \<union>
     {\<lparr>me_From = met_Name m, me_To = dep, me_Type = MetricEdgeDerivesFrom\<rparr> |m dep.
        m \<in> set ms \<and> dep \<in> set (referencedMetricNames (met_Expression m) mn (met_Name m))}"
  by (induction ms arbitrary: g) (auto simp: metricStep_def Let_def)

text \<open>Metric \<open>a\<close> depends on metric \<open>b\<close>: an expression of \<open>a\<close> has a token that, up to case, is the name
  under which \<open>b\<close> is registered.\<close>

definition dependsOn :: "Metric list \<Rightarrow> (string \<times> string) set" where
  "dependsOn ms = {(met_Name m, dep) |m dep. m \<in> set ms \<and> dep \<noteq> met_Name m \<and>
     (\<exists>tok. token_of (met_Expression m) tok \<and> metricNameMap ms (ToLower tok) = Some dep)}"

lemma referencedMetricNames_set:
  "set (referencedMetricNames e mn self) = {n. n \<noteq> self \<and> (\<exists>tok. token_of e tok \<and> mn (ToLower tok) = Some n)}"
  using tokens_exact [of "[]" _ e] by (auto simp: referencedMetricNames_eq set_namedMetrics)

lemma adjacency_iff:
  "b \<in> set (adjacency g a) \<longleftrightarrow>
     (\<exists>e\<in>set (Edges g). me_Type e = MetricEdgeDerivesFrom \<and> me_From e = a \<and> me_To e = b)"
  by (auto simp: adjacency_def)

lemma BuildMetricGraph_derives:
  "derives (adjacency (BuildMetricGraph composite resolved)) = dependsOn (sm_Metrics resolved)"
proof -
  have "(a, b) \<in> derives (adjacency (BuildMetricGraph composite resolved)) \<longleftrightarrow>
      (a, b) \<in> dependsOn (sm_Metrics resolved)" for a b
    unfolding derives_def dependsOn_def BuildMetricGraph_def mem_Collect_eq case_prod_conv adjacency_iff
      metricSteps_edges referencedMetricNames_set by fastforce
  then show ?thesis by auto
qed

lemma BuildMetricGraph_OK: "graphOK (BuildMetricGraph composite resolved)"
  by (auto simp: graphOK_def BuildMetricGraph_def metricSteps_edges metricSteps_nodes)

lemma BuildMetricGraph_nodes:
  "dom (Nodes (BuildMetricGraph composite resolved)) = met_Name ` set (sm_Metrics resolved)"
  by (simp add: BuildMetricGraph_def metricSteps_nodes)

section \<open>Properties\<close>

text \<open>C29. Cycle detection on any well-formed graph, whatever the order in which the node map is
  iterated: the search always returns, it reports no error exactly when the dependency relation is
  acyclic, and a reported error is a real cycle: a path of dependencies from a node back to it.\<close>

theorem DetectCircularDependencies_exact:
  assumes "graphOK g" and "set order = dom (Nodes g)"
  shows "(\<exists>r. DetectCircularDependencies g order = Some r) \<and>
    (DetectCircularDependencies g order = Some None \<longleftrightarrow> acyclic (derives (adjacency g))) \<and>
    (\<forall>err. DetectCircularDependencies g order = Some (Some err) \<longrightarrow> isCycle (adjacency g) err)"
  using assms by (rule search_exact)

definition example_graph :: MetricDependencyGraph where
  "example_graph =
     (let n = \<lparr>mn_Name = [], mn_SourceModelAlias = [], mn_DependsOn = []\<rparr>;
          e = (\<lambda>a b. \<lparr>me_From = a, me_To = b, me_Type = MetricEdgeDerivesFrom\<rparr>)
      in \<lparr>Nodes = [''margin'' \<mapsto> n, ''profit'' \<mapsto> n, ''revenue'' \<mapsto> n],
          Edges = [e ''profit'' ''revenue'', e ''margin'' ''profit'', e ''revenue'' ''margin'']\<rparr>)"

theorem DetectCircularDependencies_exact_witness:
  "DetectCircularDependencies example_graph [''margin'', ''profit'', ''revenue''] =
     Some (Some ([''margin'', ''profit'', ''revenue''], ''margin'')) \<and>
   isCycle (adjacency example_graph) ([''margin'', ''profit'', ''revenue''], ''margin'')"
proof -
  have run: "DetectCircularDependencies example_graph [''margin'', ''profit'', ''revenue''] =
     Some (Some ([''margin'', ''profit'', ''revenue''], ''margin''))" by code_simp
  have "graphOK example_graph" "set [''margin'', ''profit'', ''revenue''] = dom (Nodes example_graph)"
    by (auto simp: example_graph_def Let_def graphOK_def)
  from DetectCircularDependencies_exact [OF this] run show ?thesis by blast
qed

text \<open>The references of a metric are found exactly: a metric name is returned, once, if and only
  if some maximal run of identifier characters of the expression is, up to case, the key under which
  that metric is registered, and it is not the metric itself. Names embedded in longer identifiers do
  not count.\<close>

theorem referencedMetricNames_exact:
  "set (referencedMetricNames expr metricNames self) =
     {n. n \<noteq> self \<and> (\<exists>tok. token_of expr tok \<and> metricNames (ToLower tok) = Some n)} \<and>
   distinct (referencedMetricNames expr metricNames self)"
  by (simp add: referencedMetricNames_set) (simp add: referencedMetricNames_eq)

text \<open>End to end: for every composite model, the graph built from its metrics passes the cycle
  check exactly when no metric transitively depends on itself through the metric names its expression
  mentions.\<close>

theorem composite_metrics_acyclic_iff:
  assumes "set order = met_Name ` set (sm_Metrics resolved)"
  shows "DetectCircularDependencies (BuildMetricGraph composite resolved) order = Some None \<longleftrightarrow>
     acyclic (dependsOn (sm_Metrics resolved))"
  using search_exact [OF BuildMetricGraph_OK, of order composite resolved] assms
  by (simp add: BuildMetricGraph_nodes BuildMetricGraph_derives)

theorem composite_metrics_acyclic_iff_witness:
  "\<not> acyclic (dependsOn [example_metric ''a'' ''SUM(B) + 1'', example_metric ''b'' ''a * 2''])"
proof -
  let ?ms = "[example_metric ''a'' ''SUM(B) + 1'', example_metric ''b'' ''a * 2'']"
  let ?sm = "example_model\<lparr>sm_Metrics := ?ms\<rparr>"
  have "set [''a'', ''b''] = met_Name ` set (sm_Metrics ?sm)" by (simp add: example_metric_def)
  note iff = composite_metrics_acyclic_iff [OF this, of example_composite]
  have "DetectCircularDependencies (BuildMetricGraph example_composite ?sm) [''a'', ''b''] \<noteq> Some None"
    by code_simp
  then show ?thesis using iff by simp
qed

end
