(* ===== verification/Compiler_Termination.thy ===== *)
theory Compiler_Termination
  imports Compiler_Safety Metric_Graph
begin

text \<open>
  When the SQL compiler returns. Its two recursions, metrics that name metrics in brackets and statements
  nested in statements, count down depths in the model. Shown here: for metrics that can be ranked, depths
  above the ranks and above the sizes of the nested statements are always enough; for a metric that names
  itself, which no check of the program rejects in a composite model, no depth is.
\<close>

section \<open>The search for joins ends\<close>

lemma pathJoins_ends:
  "search_tree r js base T \<Longrightarrow> \<forall>(v, e)\<in>set T. parent v = Some e \<Longrightarrow> w \<in> insert base (fst ` set T) \<Longrightarrow> length T < n \<Longrightarrow>
   pathJoins n parent base w \<noteq> None"
proof (induction arbitrary: w n rule: search_tree.induct)
  case tree_base
  then show ?case by (cases n) auto
next
  case (tree_found T u v name)
  obtain m where n: "n = Suc m" "length T < m" using tree_found.prems(3) by (cases n) auto
  show ?case
  proof (cases "w = v")
    case True
    have "pathJoins m parent base u \<noteq> None" using tree_found.IH [of u m] tree_found.hyps(2) tree_found.prems(1) n(2) by auto
    moreover have "parent v = Some (u, name)" using tree_found.prems(1) by auto
    ultimately show ?thesis by (simp add: n True)
  next
    case False
    then show ?thesis using tree_found.IH [of w n] tree_found.prems by auto
  qed
qed

lemma requiredJoins_ends:
  assumes tree: "search_tree r js base T" and parent: "bfs_parent s = (base, [], []) # T"
  shows "set ts \<subseteq> insert base (fst ` set T) \<Longrightarrow> requiredJoins s base ts \<noteq> None"
proof (induction ts)
  case (Cons t ts)
  have "\<forall>(v, e)\<in>set T. map_of (bfs_parent s) v = Some e"
    using search_tree_distinct [OF tree] by (auto simp: parent rev_image_eqI)
  then have "pathJoins (Suc (length (bfs_parent s))) (map_of (bfs_parent s)) base t \<noteq> None"
    using pathJoins_ends [OF tree] Cons.prems by (simp add: parent del: pathJoins.simps)
  with Cons show ?case by (auto simp del: pathJoins.simps)
qed simp

lemma determineJoins_ends:
  assumes "distinct (map join_Name (sm_Joins model))"
  shows "determineJoins lq model dimMap metricMap r order \<noteq> None"
proof -
  let ?base = "TableKey (sm_BaseSchema model) (sm_BaseTable model)"
  let ?s = "bfsFrom r (sm_Joins model) ?base"
  obtain T where T: "bfs_parent ?s = (?base, [], []) # T" "search_tree r (sm_Joins model) ?base T"
    using bfsFrom_tree [OF assms] by blast
  have "requiredJoins ?s ?base (filter (\<lambda>t. t \<in> fst ` set (bfs_parent ?s)) ts) \<noteq> None" for ts
    by (rule requiredJoins_ends [OF T(2,1)]) (auto simp: T(1))
  then obtain R where "requiredJoins ?s ?base (filter (\<lambda>t. t \<in> fst ` set (bfs_parent ?s))
      (filter (\<lambda>t. t \<noteq> ?base) (order (tablesReferencedInLogicalQuery lq model dimMap metricMap r)))) = Some R" by blast
  then show ?thesis by (simp add: determineJoins_def Let_def del: filter_filter)
qed

section \<open>Runs that end\<close>

definition ends :: "'a comp \<Rightarrow> bool" where
  "ends m \<longleftrightarrow> (\<forall>st. m st \<noteq> None)"

named_theorems ending

lemma ends_basic [ending]:
  "ends (retC a)" "ends (failC e)" "ends (setErr e)" "ends (checkErr a)" "ends (pushArg c v)"
  by (auto simp: ends_def retC_def failC_def setErr_def checkErr_def pushArg_def split: option.splits)

lemma ends_bindC [ending]:
  assumes "ends m" "\<And>a. ends (k a)"
  shows "ends (bindC m k)"
  using assms by (fastforce simp: ends_def bindC_def split: option.splits prod.splits sum.splits)

lemma ends_wrapC [ending]: "ends m \<Longrightarrow> ends (wrapC l m)"
  by (fastforce simp: ends_def wrapC_def split: option.splits prod.splits sum.splits)

lemma ends_softC [ending]: "ends m \<Longrightarrow> ends (softC m)"
  by (fastforce simp: ends_def softC_def setErr_def split: option.splits prod.splits sum.splits)

lemma ends_mapC [ending]: "(\<And>x. x \<in> set xs \<Longrightarrow> ends (f x)) \<Longrightarrow> ends (mapC f xs)"
  by (induction xs) (auto intro!: ending)

lemma ends_onCopy [ending]: "ends m \<Longrightarrow> ends (onCopy m)"
  by (simp add: ends_def onCopy_def)

lemma ends_leaves [ending]:
  "ends (compileNode c sc b e)" "ends (piiSQLForColumnRef c sc r)" "ends (readOnlyGuard s)"
  "ends (buildRowFilterPreds c model rfs)" "ends (\<lambda>st. Some (f st))"
  by (auto simp: ends_def compileNode_def piiSQLForColumnRef_def readOnlyGuard_def setErr_def buildRowFilterPreds_def Let_def
      split: option.splits prod.splits sum.splits)

lemma ends_dimensionSQL [ending]: "ends (dimensionSQL c sc d)"
  unfolding dimensionSQL_def Let_def
  by (auto intro!: ending simp: ParseExpression_ends split: option.split sum.split prod.split)

lemma ends_dimensionOutputSQL [ending]: "ends (dimensionOutputSQL c sc d)"
  unfolding dimensionOutputSQL_def Let_def by (auto intro!: ending split: option.split prod.split)

section \<open>Metrics that name metrics\<close>

text \<open>The tokens \<open>reBracket\<close> finds in an expression, and the metrics a token can stand for.\<close>

function bracketTokens :: "string \<Rightarrow> string list" where
  "bracketTokens [] = []"
| "bracketTokens (x # s) =
     (let token = takeWhile (\<lambda>y. y \<noteq> CHR '']'') s; rest = dropWhile (\<lambda>y. y \<noteq> CHR '']'') s in
      if x = CHR ''['' \<and> token \<noteq> [] \<and> rest \<noteq> [] then token # bracketTokens (tl rest) else bracketTokens s)"
  by pat_completeness auto
termination
proof (relation "measure length")
  fix x s token rest
  assume "rest = dropWhile (\<lambda>y. y \<noteq> CHR '']'') s"
  then have "length (tl rest) \<le> length s" using length_dropWhile_le [of "\<lambda>y. y \<noteq> CHR '']''" s] by simp
  then show "(tl rest, x # s) \<in> measure length" by simp
qed auto

declare bracketTokens.simps [simp del]

definition namesMetric :: "(string \<rightharpoonup> Metric) \<Rightarrow> string \<Rightarrow> Metric \<Rightarrow> bool" where
  "namesMetric metricMap token m \<longleftrightarrow> (\<exists>name. metricMap name = Some m \<and> EqualFold name (TrimSpace token))"

text \<open>The metrics a metric is computed from are ranked below it, and no rank reaches the depth.\<close>

definition ranked :: "nat \<Rightarrow> (string \<rightharpoonup> Metric) \<Rightarrow> bool" where
  "ranked depth metricMap \<longleftrightarrow>
     (\<exists>rank. \<forall>m\<in>ran metricMap. rank m < depth \<and>
        (\<forall>t\<in>set (bracketTokens (TrimSpace (met_Expression m))). \<forall>m'. namesMetric metricMap t m' \<longrightarrow> rank m' < rank m))"

lemma ends_replaceBrackets: "(\<And>t. t \<in> set (bracketTokens s) \<Longrightarrow> ends (f t)) \<Longrightarrow> ends (replaceBrackets f s)"
  by (induction f s rule: replaceBrackets.induct)
     (auto simp: replaceBrackets.simps bracketTokens.simps Let_def intro!: ending)

lemma ends_resolveCustomToken:
  assumes "\<And>m. namesMetric (sc_metricMap sc) t m \<Longrightarrow> ends (agg m)"
  shows "ends (resolveCustomToken agg c sc t)"
proof -
  have "ends (agg m)" if "find (\<lambda>n. EqualFold n (TrimSpace t)) ns = Some name" "sc_metricMap sc name = Some m" for ns name m
    using assms that by (auto simp: namesMetric_def find_Some_iff)
  then show ?thesis unfolding resolveCustomToken_def Let_def by (auto intro!: ending split: option.split)
qed

lemma ends_resolveBareCustomExpression [ending]: "ends (resolveBareCustomExpression c sc t)"
  unfolding resolveBareCustomExpression_def Let_def by (auto intro!: ending split: option.split)

lemma ends_resolveBracketExpressions:
  assumes "\<And>t m. t \<in> set (bracketTokens s) \<Longrightarrow> namesMetric (sc_metricMap sc) t m \<Longrightarrow> ends (agg m)"
  shows "ends (resolveBracketExpressions agg c sc s)"
  unfolding resolveBracketExpressions_def
  by (auto intro!: ending ends_replaceBrackets ends_resolveCustomToken assms)

lemma ends_metricExpressionRef:
  assumes "\<And>t m. t \<in> set (bracketTokens (TrimSpace s)) \<Longrightarrow> namesMetric (sc_metricMap sc) t m \<Longrightarrow> ends (agg m)"
  shows "ends (metricExpressionRef agg c sc mo s)"
  unfolding metricExpressionRef_def Let_def
  by (auto intro!: ending ends_resolveBracketExpressions assms split: option.split simp del: TrimSpace_eq_Nil)

lemma ends_aggregateExpr [ending]: "ends (aggregateExpr c fn e)"
  unfolding aggregateExpr_def Let_def by (auto intro!: ending)

lemma ends_metricAggregateN:
  assumes "\<And>m t m'. m \<in> ran (sc_metricMap sc) \<Longrightarrow> t \<in> set (bracketTokens (TrimSpace (met_Expression m))) \<Longrightarrow>
    namesMetric (sc_metricMap sc) t m' \<Longrightarrow> rank m' < (rank m :: nat)"
  shows "m \<in> ran (sc_metricMap sc) \<Longrightarrow> rank m < n \<Longrightarrow> ends (metricAggregateN n c sc m)"
proof (induction n arbitrary: m)
  case (Suc n)
  have "ends (metricExpressionRef (metricAggregateN n c sc) c sc (Some m) (met_Expression m))"
  proof (rule ends_metricExpressionRef)
    fix t m' assume t: "t \<in> set (bracketTokens (TrimSpace (met_Expression m)))" and m': "namesMetric (sc_metricMap sc) t m'"
    have "rank m' < rank m" using assms [OF Suc.prems(1) t m'] .
    moreover have "m' \<in> ran (sc_metricMap sc)" using m' by (auto simp: namesMetric_def ran_def)
    ultimately show "ends (metricAggregateN n c sc m')" using Suc.IH Suc.prems(2) by simp
  qed
  then show ?case by (auto intro!: ending)
qed simp

lemma ends_metricAggregate:
  assumes "ranked (c_metricDepth c) (sc_metricMap sc)" "m \<in> ran (sc_metricMap sc)"
  shows "ends (metricAggregate c sc m)"
proof -
  from assms(1) obtain rank where "\<forall>m\<in>ran (sc_metricMap sc). rank m < c_metricDepth c \<and>
      (\<forall>t\<in>set (bracketTokens (TrimSpace (met_Expression m))). \<forall>m'. namesMetric (sc_metricMap sc) t m' \<longrightarrow> rank m' < rank m)"
    unfolding ranked_def by blast
  then show ?thesis unfolding metricAggregate_def using assms(2) by (intro ends_metricAggregateN [where rank = rank]) auto
qed

section \<open>Filters and items\<close>

text \<open>The bodies of the subqueries of a filter list and of a select item.\<close>

definition filterBodies :: "Filter list \<Rightarrow> SubqueryBody set" where
  "filterBodies fs = {sf_Body sf | f sf. f \<in> set fs \<and> f_Subquery f = Some sf}"

definition caseFilters :: "SelectItem \<Rightarrow> Filter list" where
  "caseFilters item = (case si_Case item of None \<Rightarrow> [] | Some ce \<Rightarrow> concat (map cb_When (qc_Branches ce)))"

definition formulaFilters :: "SelectItem \<Rightarrow> Filter list" where
  "formulaFilters item = (case si_Formula item of None \<Rightarrow> [] | Some fs \<Rightarrow> mr_Filters (fs_Left fs) @ mr_Filters (fs_Right fs))"

definition itemBodies :: "SelectItem \<Rightarrow> SubqueryBody set" where
  "itemBodies item = filterBodies (si_Filters item @ caseFilters item @ formulaFilters item)"

lemma filterBodiesI [intro]: "f \<in> set fs \<Longrightarrow> f_Subquery f = Some sf \<Longrightarrow> sf_Body sf \<in> filterBodies fs"
  by (auto simp: filterBodies_def)

lemma filterBodies_append [simp]: "filterBodies (fs @ gs) = filterBodies fs \<union> filterBodies gs"
  by (auto simp: filterBodies_def)

definition grounded :: "Compiler \<Rightarrow> Scope \<Rightarrow> bool" where
  "grounded c sc \<longleftrightarrow> ranked (c_metricDepth c) (sc_metricMap sc)"

lemma ends_metric [ending]: "grounded c sc \<Longrightarrow> m \<in> ran (sc_metricMap sc) \<Longrightarrow> ends (metricAggregate c sc m)"
  unfolding grounded_def by (rule ends_metricAggregate)

lemma namesMetric_ran: "namesMetric f t m \<Longrightarrow> m \<in> ran f"
  by (auto simp: namesMetric_def ran_def)

lemma ends_bracketed [ending]:
  "grounded c sc \<Longrightarrow> ends (resolveBracketExpressions (metricAggregate c sc) c sc s)"
  "grounded c sc \<Longrightarrow> ends (metricExpressionRef (metricAggregate c sc) c sc mo s)"
  by (auto intro!: ends_resolveBracketExpressions ends_metricExpressionRef ends_metric dest: namesMetric_ran)

lemma ends_qualifyMetricExpression [ending]: "grounded c sc \<Longrightarrow> ends (qualifyMetricExpression c sc m e)"
  unfolding qualifyMetricExpression_def Let_def by (auto intro!: ending split: option.split)

lemma ends_filter_builders [ending]:
  "ends (buildEqualityFilter c f l op sj)" "ends (buildComparisonFilter c f l op)" "ends (buildInFilter c l v)"
  "ends (buildNotInFilter c l v)" "ends (buildLikeFilter c f l w)" "ends (buildBetweenFilter c l v)" "ends (comparatorC cop)"
  "ends (dateTruncCompareExpr c p r cop a)" "ends (resolveFilterLHS c sc fld)" if "grounded c sc"
  using that
  unfolding buildEqualityFilter_def buildComparisonFilter_def buildInFilter_def buildNotInFilter_def buildLikeFilter_def
    buildBetweenFilter_def dateTruncCompareExpr_def comparatorC_def resolveFilterLHS_def Let_def
  by (auto intro!: ending split: option.split go_any.split list.split)

lemma ends_buildFilterPart:
  assumes "grounded c sc" "\<And>sf. f_Subquery f = Some sf \<Longrightarrow> ends (sub (sf_Body sf))"
  shows "ends (buildFilterPart sub c f l)"
  using assms unfolding buildFilterPart_def buildInSubqueryFilter_def Let_def
  by (auto intro!: ending ends_filter_builders [OF assms(1)] split: option.split list.split)

lemma ends_filterSQLC:
  assumes "grounded c sc" "\<And>sf. f_Subquery f = Some sf \<Longrightarrow> ends (sub (sf_Body sf))"
  shows "ends (filterSQLC sub c sc f)"
  unfolding filterSQLC_def dayOfMonthGrainFilterExpr_def calendarGrainFilterExpr_def rawDateDayFilterExpr_def
  by (auto intro!: ending ends_filter_builders [OF assms(1)] ends_buildFilterPart [OF assms(1)] assms(2) split: option.split)

lemma ends_buildFilterConjunction:
  assumes "grounded c sc" "\<And>b. b \<in> filterBodies fs \<Longrightarrow> ends (sub b)"
  shows "ends (buildFilterConjunction sub c sc fs)"
  unfolding buildFilterConjunction_def
  by (intro ending ends_filterSQLC [OF assms(1)] assms(2) filterBodiesI)

lemma ends_buildPredicate:
  assumes "grounded c sc" "\<And>b. b \<in> filterBodies fs \<Longrightarrow> ends (sub b)"
  shows "ends (buildPredicate sub c sc fs)"
  unfolding buildPredicate_def
  by (auto intro!: ending ends_filter_builders [OF assms(1)] ends_buildFilterPart [OF assms(1)] assms(2) filterBodiesI)

lemma ends_metricFilteredAggregate:
  assumes "grounded c sc" "m \<in> ran (sc_metricMap sc)" "\<And>b. b \<in> filterBodies fs \<Longrightarrow> ends (sub b)"
  shows "ends (metricFilteredAggregate sub c sc m fs)"
  unfolding metricFilteredAggregate_def Let_def
  using assms by (auto intro!: ending ends_buildFilterConjunction)

lemma ends_measureSQL:
  assumes "grounded c sc" "\<And>b. b \<in> filterBodies (mr_Filters m) \<Longrightarrow> ends (sub b)"
  shows "ends (measureSQL sub c sc m)"
  unfolding measureSQL_def
  using assms by (auto intro!: ending ends_metricFilteredAggregate intro: ranI split: option.split)

lemma ends_buildSelectMetric:
  assumes "grounded c sc" "\<And>b. b \<in> filterBodies (si_Filters item) \<Longrightarrow> ends (sub b)"
  shows "ends (buildSelectMetric sub c sc item)"
  unfolding buildSelectMetric_def Let_def
  using assms by (auto intro!: ending ends_metricFilteredAggregate intro: ranI split: option.split)

lemma ends_buildSelectFormula:
  assumes "grounded c sc" "\<And>b. b \<in> filterBodies (formulaFilters item) \<Longrightarrow> ends (sub b)"
  shows "ends (buildSelectFormula sub c sc item)"
  unfolding buildSelectFormula_def formulaSQL_def Let_def
  using assms by (auto intro!: ending ends_measureSQL simp: formulaFilters_def split: option.split)

lemma ends_buildCaseThen [ending]: "ends (buildCaseThen c sc t)"
  unfolding buildCaseThen_def formatLiteral_def Let_def by (auto intro!: ending split: option.split go_any.split)

lemma ends_buildSelectCase:
  assumes "grounded c sc" "\<And>b. b \<in> filterBodies (caseFilters item) \<Longrightarrow> ends (sub b)"
  shows "ends (buildSelectCase sub c sc item)"
proof -
  have "ends (caseBranchSQL sub c sc ib)" if "si_Case item = Some ce" "ib \<in> set (enumerate 0 (qc_Branches ce))" for ce ib
  proof -
    have "snd ib \<in> snd ` set (enumerate 0 (qc_Branches ce))" using that(2) by (rule imageI)
    then have "snd ib \<in> set (qc_Branches ce)" by (simp flip: set_map)
    then have "filterBodies (cb_When (snd ib)) \<subseteq> filterBodies (caseFilters item)"
      using that(1) by (auto simp: filterBodies_def caseFilters_def)
    then show ?thesis unfolding caseBranchSQL_def Let_def
      using assms(2) by (auto intro!: ending ends_buildPredicate [OF assms(1)] split: prod.split)
  qed
  then show ?thesis unfolding buildSelectCase_def buildCaseExpr_def Let_def by (auto intro!: ending split: option.split)
qed

lemma ends_windows [ending]:
  "ends (windowArgs c agg e b off)" "ends (buildWindowPartitionBy c sc ps)" "ends (inheritWindowMetricFields c sc n a e b)"
  unfolding windowArgs_def buildWindowPartitionBy_def inheritWindowMetricFields_def Let_def by (auto intro!: ending split: option.split)

lemma ends_buildWindowHead [ending]: "ends (buildWindowHead c agg e b off)"
  unfolding buildWindowHead_def by (auto intro!: ending split: option.split)

lemma ends_finishWindowOver [ending]: "grounded c sc \<Longrightarrow> ends (finishWindowOver c sc h w)"
  unfolding finishWindowOver_def buildWindowOrderBy_def windowOrderSQL_def Let_def
  by (auto intro!: ending intro: ranI split: option.split)

lemma ends_buildSelectWindow [ending]: "grounded c sc \<Longrightarrow> ends (buildSelectWindow c sc item)"
  unfolding buildSelectWindow_def buildWindowExpr_def tryBuildNestedMetricWindow_def nestedWindowMetric_def Let_def
  by (auto intro!: ending intro: ranI split: option.split prod.split)

lemma ends_buildSelectItem:
  assumes "grounded c sc" "\<And>b. b \<in> itemBodies item \<Longrightarrow> ends (sub b)"
  shows "ends (buildSelectItem sub c sc item)"
  using assms unfolding buildSelectItem_def buildSelectDimension_def itemBodies_def Let_def
  by (auto intro!: ending ends_buildSelectMetric ends_buildSelectCase ends_buildSelectFormula split: option.split)

lemma ends_clauses [ending]:
  "grounded c sc \<Longrightarrow> ends (buildHaving c sc fs)" "ends (buildGroupBy c sc gbs)" "ends (buildOrderBy c sc obs)"
  unfolding buildHaving_def havingSQL_def buildGroupBy_def groupBySQL_def buildOrderBy_def buildOrderByField_def buildOrderByDimension_def
  by (auto intro!: ending ends_filter_builders intro: ranI split: option.split go_any.split list.split)

section \<open>Statements\<close>

definition queryBodies :: "LogicalQuery \<Rightarrow> SubqueryBody set" where
  "queryBodies lq = filterBodies (lq_Filters lq) \<union> (\<Union>item\<in>set (lq_Select lq). itemBodies item)"

definition nestedBodies :: "LogicalQuery \<Rightarrow> SubqueryBody set" where
  "nestedBodies lq = queryBodies lq \<union> Subquery ` set (lq_CTEs lq) \<union> set_option (lq_FromSubquery lq)"

lemma itemBodies_dimensionItem: "itemBodies (dimensionItem name) = {}"
  by (simp add: itemBodies_def dimensionItem_def caseFilters_def formulaFilters_def filterBodies_def)

lemma itemBodies_missing: "item \<in> set (missingDims gbs sel) \<Longrightarrow> itemBodies item = {}"
  by (induction gbs sel rule: missingDims.induct) (auto simp: itemBodies_dimensionItem split: if_splits)

lemma queryBodies_ensured [simp]: "queryBodies (ensured lq) = queryBodies lq"
proof -
  have "set (lq_Select (ensured lq)) = set (lq_Select lq) \<union> set (missingDims (lq_GroupBy lq) (selectedDims (lq_Select lq)))"
    by (simp add: ensured_def EnsureGroupBySelected_eq groupBySelect_def Let_def set_take_drop_mid del: set_append)
  moreover have "lq_Filters (ensured lq) = lq_Filters lq" by (simp add: ensured_def EnsureGroupBySelected_eq)
  ultimately show ?thesis by (auto simp: queryBodies_def itemBodies_missing)
qed

lemma size_filterBodies: "b \<in> filterBodies fs \<Longrightarrow> size b < size_list size fs"
proof -
  assume "b \<in> filterBodies fs"
  then obtain f sf where f: "f \<in> set fs" "f_Subquery f = Some sf" "b = sf_Body sf" by (auto simp: filterBodies_def)
  have "size b < size f" using f(2,3) by (cases f; cases sf) auto
  also have "size f \<le> size_list size fs" using f(1) by (rule size_list_estimation') simp
  finally show ?thesis .
qed

lemma size_itemBodies: "b \<in> itemBodies item \<Longrightarrow> size b < size item"
proof -
  assume "b \<in> itemBodies item"
  then consider "b \<in> filterBodies (si_Filters item)" | "b \<in> filterBodies (caseFilters item)" | "b \<in> filterBodies (formulaFilters item)"
    by (auto simp: itemBodies_def)
  then show ?thesis
  proof cases
    case 1
    then show ?thesis using size_filterBodies [OF 1] by (cases item) auto
  next
    case 2
    obtain ce where some: "si_Case item = Some ce"
      using 2 by (cases "si_Case item") (auto simp: caseFilters_def filterBodies_def)
    with 2 obtain br where ce: "si_Case item = Some ce" "br \<in> set (qc_Branches ce)" "b \<in> filterBodies (cb_When br)"
      by (auto simp: caseFilters_def filterBodies_def)
    have "size b < size br" using size_filterBodies [OF ce(3)] by (cases br) auto
    also have "size br \<le> size_list size (qc_Branches ce)" using ce(2) by (rule size_list_estimation') simp
    also have "\<dots> < size ce" by (cases ce) auto
    also have "size ce < size item" using ce(1) by (cases item) auto
    finally show ?thesis .
  next
    case 3
    obtain fs where fs: "si_Formula item = Some fs"
      using 3 by (cases "si_Formula item") (auto simp: formulaFilters_def filterBodies_def)
    with 3 have "b \<in> filterBodies (mr_Filters (fs_Left fs)) \<or> b \<in> filterBodies (mr_Filters (fs_Right fs))"
      by (simp add: formulaFilters_def)
    with fs obtain m where fs: "si_Formula item = Some fs" "m = fs_Left fs \<or> m = fs_Right fs" "b \<in> filterBodies (mr_Filters m)"
      by blast
    have "size b < size m" using size_filterBodies [OF fs(3)] by (cases m) auto
    also have "size m < size fs" using fs(2) by (cases fs) auto
    also have "size fs < size item" using fs(1) by (cases item) auto
    finally show ?thesis .
  qed
qed

lemma size_queryBodies: "b' \<in> queryBodies (logicalQueryFromBody b) \<Longrightarrow> size b' < size b"
proof -
  assume "b' \<in> queryBodies (logicalQueryFromBody b)"
  then consider "b' \<in> filterBodies (sb_Filters b)" | item where "item \<in> set (sb_Select b)" "b' \<in> itemBodies item"
    by (auto simp: queryBodies_def logicalQueryFromBody_def)
  then show ?thesis
  proof cases
    case 1
    then show ?thesis using size_filterBodies [OF 1] by (cases b) auto
  next
    case 2
    have "size b' < size item" using size_itemBodies 2(2) .
    also have "size item \<le> size_list size (sb_Select b)" using 2(1) by (rule size_list_estimation') simp
    also have "\<dots> < size b" by (cases b) auto
    finally show ?thesis .
  qed
qed

lemma metricMap_scopeOf [simp]: "sc_metricMap (scopeOf lq model) = snd (buildSemanticFieldMaps model)"
  by (simp add: scopeOf_def buildCompilerMaps_def Let_def)

lemma model_scopeOf [simp]: "sc_model (scopeOf lq model) = model"
  by (simp add: scopeOf_def split: prod.split)

text \<open>Joins have different names, and metrics are ranked within the depth.\<close>

definition compilable :: "Compiler \<Rightarrow> SemanticModel \<Rightarrow> bool" where
  "compilable c model \<longleftrightarrow>
     distinct (map join_Name (sm_Joins model)) \<and> ranked (c_metricDepth c) (snd (buildSemanticFieldMaps model))"

lemma ends_statementClauses:
  assumes "compilable c model" "\<And>b. b \<in> queryBodies q \<Longrightarrow> ends (sub b)"
  shows "ends (statementClauses sub c (scopeOf lq model) q src w rfs)"
proof -
  let ?sc = "scopeOf lq model"
  have g: "grounded c ?sc" using assms(1) by (simp add: compilable_def grounded_def)
  have "determineJoins q model (sc_dimMap ?sc) (sc_metricMap ?sc) (sc_resolver ?sc) (c_rangeOrder c) \<noteq> None"
    using assms(1) by (intro determineJoins_ends) (simp add: compilable_def)
  then have joins: "ends (statementJoins c ?sc q)"
    unfolding statementJoins_def model_scopeOf by (auto intro!: ending split: option.split prod.split)
  have select: "ends (buildSelect sub c ?sc (lq_Select q))"
    unfolding buildSelect_def using assms(2) by (intro ending ends_buildSelectItem [OF g]) (auto simp: queryBodies_def)
  have wh: "ends (buildWhere sub c ?sc (lq_Filters q))"
    unfolding buildWhere_def using assms(2) by (intro ends_buildFilterConjunction [OF g]) (auto simp: queryBodies_def)
  show ?thesis unfolding statementClauses_def by (intro ending joins select wh g)
qed

lemma ends_compileStatement:
  assumes "compilable c model"
  shows "(\<And>b. b \<in> queryBodies lq \<Longrightarrow> size b < n) \<Longrightarrow> ends (compileStatement (Suc n) c lq model src w rfs)"
proof (induction n arbitrary: lq src w rfs)
  case 0
  then have "queryBodies (ensured lq) = {}" by auto
  then show ?case unfolding compileStatement.simps by (intro ending ends_statementClauses [OF assms]) auto
next
  case (Suc n)
  have "ends (compileStatement (Suc n) c (logicalQueryFromBody b) model (buildFrom c model) [] (c_rowFilters c))" if "b \<in> queryBodies lq" for b
  proof (rule Suc.IH)
    fix b' assume "b' \<in> queryBodies (logicalQueryFromBody b)"
    then have "size b' < size b" by (rule size_queryBodies)
    then show "size b' < n" using Suc.prems [OF that] by simp
  qed
  then show ?case
    by (subst compileStatement.simps(2)) (intro ending ends_statementClauses [OF assms]; simp)
qed

lemma ends_compileSubqueryBody:
  assumes "compilable c model" "size b < n"
  shows "ends (compileSubqueryBody n c model b)"
proof -
  obtain k where k: "n = Suc k" using assms(2) by (cases n) auto
  have "ends (compileStatement n c (logicalQueryFromBody b) model (buildFrom c model) [] (c_rowFilters c))"
    unfolding k using assms(2) size_queryBodies [of _ b] by (intro ends_compileStatement [OF assms(1)]) (fastforce simp: k)
  then show ?thesis unfolding compileSubqueryBody_def by (intro ending)
qed

lemma ends_Compile:
  assumes "compilable c model" "\<And>b. b \<in> nestedBodies lq \<Longrightarrow> Suc (size b) < n" "0 < n"
  shows "ends (Compile n c lq model)"
proof -
  obtain k where k: "n = Suc k" using assms(3) by (cases n) auto
  have body: "ends (compileSubqueryBody n c model b)" if "b \<in> nestedBodies lq" for b
    using assms(2) [OF that] by (intro ends_compileSubqueryBody [OF assms(1)]) simp
  have cte: "ends (cteSQL n c model cte)" if "cte \<in> set (lq_CTEs lq)" for cte
    unfolding cteSQL_def Let_def using that by (auto intro!: ending body simp: nestedBodies_def)
  have w: "ends (buildWithClause n c model (lq_CTEs lq))" unfolding buildWithClause_def by (auto intro!: ending cte)
  have src: "ends (resolveFromClause n c lq model)"
    unfolding resolveFromClause_def Let_def by (auto intro!: ending body simp: nestedBodies_def split: option.split)
  have "ends (compileStatement n c lq model s p (c_rowFilters c))" for s p
    unfolding k using assms(2) by (intro ends_compileStatement [OF assms(1)]) (auto simp: k nestedBodies_def)
  then show ?thesis unfolding Compile_def by (intro ending w src)
qed

section \<open>Properties\<close>

text \<open>C10. Compilation always answers, with a statement or an error: when the joins of the model have different
  names and its metrics can be ranked so that a metric is computed only from metrics ranked below it, a
  depth above every rank and above the sizes of the nested statements is enough, whatever the query, the
  row filters and the column policy.\<close>

theorem CompileWithPermissions_answers:
  assumes "distinct (map join_Name (sm_Joins model))" and "ranked (c_metricDepth c) (snd (buildSemanticFieldMaps model))"
    and "\<And>b. b \<in> nestedBodies lq \<Longrightarrow> Suc (size b) < n" and "0 < n"
  shows "\<exists>r. CompileWithPermissions n c lq model rfs pii applied = Some r"
proof -
  have "ends (Compile n (c\<lparr>c_pii := pii, c_rowFilters := rfs\<rparr>) lq model)" "ends (Compile n c lq model)"
    using assms by (auto intro!: ends_Compile simp: compilable_def)
  then obtain r1 st1 r2 st2 where "Compile n (c\<lparr>c_pii := pii, c_rowFilters := rfs\<rparr>) lq model (initialCState pii applied) = Some (r1, st1)"
    "Compile n c lq model (initialCState (c_pii c) None) = Some (r2, st2)"
    unfolding ends_def by (metis option.exhaust surj_pair)
  then show ?thesis unfolding CompileWithPermissions_def Let_def by (cases r1) auto
qed

lemma example_ranked: "ranked 1 (snd (buildSemanticFieldMaps example_count_model))"
proof -
  have "TrimSpace ''*'' = ''*''" by code_simp
  then show ?thesis unfolding ranked_def
  by (intro exI [of _ "\<lambda>_. 0"])
     (auto simp: buildSemanticFieldMaps_def example_count_model_def example_metric_def ran_def bracketTokens.simps)
qed

theorem CompileWithPermissions_answers_witness:
  "\<exists>r. CompileWithPermissions 1 ((example_compiler MySQL)\<lparr>c_metricDepth := 1\<rparr>) example_having_query example_count_model
     [example_tenant_filter] (Some example_hidden_status) None = Some r"
proof -
  have "nestedBodies example_having_query = {}"
    by (simp add: nestedBodies_def queryBodies_def itemBodies_def filterBodies_def caseFilters_def formulaFilters_def
        example_having_query_def example_count_query_def example_query_def)
  moreover have "distinct (map join_Name (sm_Joins example_count_model))" by code_simp
  ultimately show ?thesis using example_ranked by (intro CompileWithPermissions_answers) auto
qed

definition example_loop_model :: SemanticModel where
  "example_loop_model = example_count_model\<lparr>sm_Metrics := [(example_metric ''net'' ''[net]'')\<lparr>met_Aggregation := ''custom''\<rparr>]\<rparr>"

definition example_loop_query :: LogicalQuery where
  "example_loop_query = example_count_query\<lparr>lq_Select := [SelectItem ''metric'' ''net'' [] [] None None None]\<rparr>"

abbreviation example_loop_compiler :: "nat \<Rightarrow> Compiler" where
  "example_loop_compiler depth \<equiv> (example_compiler Postgres)\<lparr>c_metricDepth := depth\<rparr>"

abbreviation example_loop_scope :: Scope where
  "example_loop_scope \<equiv> scopeOf example_loop_query example_loop_model"

lemma bindC_none: "m st = None \<Longrightarrow> bindC m k st = None"
  by (simp add: bindC_def)

lemma example_loop_aggregate:
  assumes "m = (example_metric ''net'' ''[net]'')\<lparr>met_Aggregation := ''custom''\<rparr>"
  shows "metricAggregateN n (example_loop_compiler d) example_loop_scope m st = None"
proof (induction n arbitrary: st)
  case (Suc n)
  have trim: "TrimSpace ''[net]'' = ''[net]''" "TrimSpace ''net'' = ''net''" by code_simp+
  have found: "find (\<lambda>name. EqualFold name ''net'') (dimKeys example_loop_scope) = None"
    "find (\<lambda>name. EqualFold name ''net'') (metricKeysOf example_loop_scope) = Some ''net''" by code_simp+
  have "sc_metricMap example_loop_scope ''net'' = Some m"
    by (simp add: assms buildSemanticFieldMaps_def example_loop_model_def example_metric_def)
  with found have "resolveCustomToken (metricAggregateN n (example_loop_compiler d) example_loop_scope) (example_loop_compiler d) example_loop_scope ''net''
     = metricAggregateN n (example_loop_compiler d) example_loop_scope m"
    by (simp add: resolveCustomToken_def trim example_compiler_def)
  then have "replaceBrackets (resolveCustomToken (metricAggregateN n (example_loop_compiler d) example_loop_scope) (example_loop_compiler d)
      example_loop_scope) ''[net]'' st = None"
    using Suc by (simp add: replaceBrackets.simps bindC_none)
  then have "metricExpressionRef (metricAggregateN n (example_loop_compiler d) example_loop_scope) (example_loop_compiler d)
      example_loop_scope (Some m) (met_Expression m) st = None"
    by (simp add: assms example_metric_def metricExpressionRef_def resolveBracketExpressions_def trim bindC_none)
  then show ?case by (simp add: bindC_none)
qed (simp add: exhausted_def)

lemma example_loop_joins:
  "statementJoins (example_loop_compiler d) example_loop_scope (ensured example_loop_query) st = Some (Inr [], st)"
proof -
  have "determineJoins (ensured example_loop_query) example_loop_model (sc_dimMap example_loop_scope) (sc_metricMap example_loop_scope)
      (sc_resolver example_loop_scope) id = Some ([], [])" by code_simp
  then show ?thesis
    by (simp add: statementJoins_def example_compiler_def validateReachableTables_def buildJoins_def retC_def)
qed

lemma example_loop_select:
  "buildSelect sub (example_loop_compiler d) example_loop_scope (lq_Select (ensured example_loop_query)) st = None"
proof -
  let ?m = "(example_metric ''net'' ''[net]'')\<lparr>met_Aggregation := ''custom''\<rparr>"
  have item: "lq_Select (ensured example_loop_query) = [SelectItem ''metric'' ''net'' [] [] None None None]" by code_simp
  have scope: "sc_metricMap example_loop_scope ''net'' = Some ?m" "\<not> sc_derivedSource example_loop_scope"
    by (simp_all add: buildSemanticFieldMaps_def example_loop_model_def example_metric_def scopeOf_def example_loop_query_def
        example_count_query_def example_query_def buildCompilerMaps_def Let_def)
  then show ?thesis
    using example_loop_aggregate [OF refl, of d d st]
    by (simp add: item buildSelect_def buildSelectItem_def buildSelectMetric_def metricAggregate_def bindC_none)
qed

text \<open>C12. A metric that names itself passes every check and then never compiles. The cycle check of composite
  models skips a reference of a metric to itself, and the validator accepts a query for the metric, but
  no depth of the recursion between \<open>metricAggregate\<close> and \<open>resolveCustomToken\<close> is enough: the compiler
  does not return.\<close>

theorem self_reference_never_compiles:
  "DetectCircularDependencies (BuildMetricGraph example_composite example_loop_model) [''net''] = Some None \<and>
   snd (Validate example_validator example_loop_query example_loop_model []) = [] \<and>
   CompileWithPermissions n (example_loop_compiler depth) example_loop_query example_loop_model [] None None = None"
proof (intro conjI)
  let ?c = "example_loop_compiler depth"
  have "compileStatement n ?c example_loop_query example_loop_model src w rfs st = None" for src w rfs st
  proof (cases n)
    case (Suc k)
    have "statementClauses sub ?c example_loop_scope (ensured example_loop_query) src w rfs st = None" for sub
      by (simp add: statementClauses_def bindC_def [of "statementJoins c sc q" for c sc q] example_loop_joins bindC_none
          wrapC_def example_loop_select)
    then show ?thesis by (simp add: Suc onCopy_def bindC_none)
  qed (simp add: exhausted_def)
  then show "CompileWithPermissions n ?c example_loop_query example_loop_model [] None None = None"
    by (simp add: CompileWithPermissions_def Compile_def buildWithClause_def resolveFromClause_def bindC_def retC_def Option.is_none_def
        example_loop_query_def example_count_query_def example_query_def)
qed (code_simp)+

end
