(* ===== verification/Agent_Policy.thy ===== *)
theory Agent_Policy
  imports Go_Prelude
begin

text \<open>The agent's wire contracts (\<open>internal/agent/contracts.go\<close>), the planner's decisions
  (\<open>internal/agent/planner.go\<close>) and the policy engine (\<open>internal/agent/policy.go\<close>). Raw JSON is a
  text. The JSON codec is a third-party package: the record \<open>Codec\<close> holds the decodings and the
  encoding the sources call, and what the code relies on is the hypothesis \<open>codec_roundtrip\<close>.
  Durations are nanoseconds.\<close>

section \<open>Contracts\<close>

definition JobSchemaV1 :: string where "JobSchemaV1 = ''agent-job.v1''"
definition StepSchemaV1 :: string where "StepSchemaV1 = ''agent-step.v1''"
definition ResultSchemaV1 :: string where "ResultSchemaV1 = ''agent-result.v1''"
definition ErrorSchemaV1 :: string where "ErrorSchemaV1 = ''agent-error.v1''"

record Job =
  j_Schema :: string
  j_JobID :: string
  j_RunID :: string
  j_ConversationID :: string
  j_DatasourceID :: string
  j_ModelID :: string
  j_UserID :: string
  j_WorkspaceID :: string
  j_Question :: string
  j_Mode :: string
  j_MaxSteps :: int
  j_MaxClarificationRounds :: int
  j_TimeoutSeconds :: int
  j_MaxRows :: int
  j_CreatedAt :: int

record Step =
  s_Schema :: string
  s_JobID :: string
  s_RunID :: string
  s_Seq :: int
  s_Tool :: string
  s_Status :: string
  s_Attempt :: int
  s_DurationMs :: int
  s_Detail :: string
  s_CreatedAt :: int

record Result =
  r_Schema :: string
  r_JobID :: string
  r_RunID :: string
  r_Status :: string
  r_Confidence :: rat
  r_Answer :: string
  r_RowCount :: int
  r_CreatedAt :: int

record Error =
  e_Schema :: string
  e_JobID :: string
  e_RunID :: string
  e_ReasonCode :: string
  e_Message :: string
  e_Retryable :: bool
  e_CreatedAt :: int

datatype contract_error =
    UnsupportedSchemaVersion string string
  | WrongSchema string string
  | Required string
  | BadMode string
  | OutOfRange string int int int
  | BadSeq int
  | BadConfidence rat

definition IsValidMode :: "string \<Rightarrow> bool" where
  "IsValidMode mode = (mode = ''shadow'' \<or> mode = ''active'')"

text \<open>The text before the last occurrence of \<open>.v\<close>, if there is one.\<close>

fun schemaFamily :: "string \<Rightarrow> string option" where
  "schemaFamily [] = None"
| "schemaFamily (c # s) =
     (case schemaFamily s of
        Some f \<Rightarrow> Some (c # f)
      | None \<Rightarrow> if HasPrefix (c # s) ''.v'' then Some [] else None)"

definition validateSchema :: "string \<Rightarrow> string \<Rightarrow> contract_error option" where
  "validateSchema got want =
     (if got = want then None
      else if schemaFamily got \<noteq> None \<and> schemaFamily want \<noteq> None \<and> schemaFamily got = schemaFamily want
      then Some (UnsupportedSchemaVersion got want)
      else Some (WrongSchema want got))"

definition requireNonEmpty :: "string \<Rightarrow> string \<Rightarrow> contract_error option" where
  "requireNonEmpty field v = (if TrimSpace v = [] then Some (Required field) else None)"

definition requireIntRange :: "string \<Rightarrow> int \<Rightarrow> int \<Rightarrow> int \<Rightarrow> contract_error option" where
  "requireIntRange field v lo hi = (if v < lo \<or> v > hi then Some (OutOfRange field lo hi v) else None)"

text \<open>A sequence of checks that returns at the first error.\<close>

definition checks :: "'e option list \<Rightarrow> 'e option" where
  "checks es = first_err (\<lambda>e. e) es"

definition ValidateJob :: "Job \<Rightarrow> contract_error option" where
  "ValidateJob j = checks
     [validateSchema (j_Schema j) JobSchemaV1,
      requireNonEmpty ''job_id'' (j_JobID j),
      requireNonEmpty ''run_id'' (j_RunID j),
      requireNonEmpty ''datasource_id'' (j_DatasourceID j),
      requireNonEmpty ''user_id'' (j_UserID j),
      (if \<not> IsValidMode (j_Mode j) then Some (BadMode (j_Mode j)) else None),
      requireIntRange ''max_steps'' (j_MaxSteps j) 1 6,
      requireIntRange ''max_clarification_rounds'' (j_MaxClarificationRounds j) 0 2,
      requireIntRange ''timeout_seconds'' (j_TimeoutSeconds j) 1 45,
      requireIntRange ''max_rows'' (j_MaxRows j) 1 1000]"

definition ValidateStep :: "Step \<Rightarrow> contract_error option" where
  "ValidateStep s = checks
     [validateSchema (s_Schema s) StepSchemaV1,
      requireNonEmpty ''job_id'' (s_JobID s),
      requireNonEmpty ''run_id'' (s_RunID s),
      requireNonEmpty ''tool'' (s_Tool s),
      (if s_Seq s < 1 then Some (BadSeq (s_Seq s)) else None)]"

definition ValidateResult :: "Result \<Rightarrow> contract_error option" where
  "ValidateResult r = checks
     [validateSchema (r_Schema r) ResultSchemaV1,
      requireNonEmpty ''job_id'' (r_JobID r),
      requireNonEmpty ''run_id'' (r_RunID r),
      (if r_Confidence r < 0 \<or> r_Confidence r > 1 then Some (BadConfidence (r_Confidence r)) else None)]"

definition ValidateError :: "Error \<Rightarrow> contract_error option" where
  "ValidateError e = checks
     [validateSchema (e_Schema e) ErrorSchemaV1,
      requireNonEmpty ''job_id'' (e_JobID e),
      requireNonEmpty ''run_id'' (e_RunID e),
      requireNonEmpty ''reason_code'' (e_ReasonCode e)]"

section \<open>Tools, proposals and the run context\<close>

type_synonym ToolName = string
type_synonym raw = string

definition ToolCatalog :: ToolName where "ToolCatalog = ''catalog.resolve''"
definition ToolSemantic :: ToolName where "ToolSemantic = ''semantic.resolve''"
definition ToolQueryCompile :: ToolName where "ToolQueryCompile = ''query.compile''"
definition ToolQueryExecute :: ToolName where "ToolQueryExecute = ''query.execute''"
definition ToolMemoryRecall :: ToolName where "ToolMemoryRecall = ''memory.recall''"

definition webAgentTools :: "ToolName list" where
  "webAgentTools =
     [''list_datasources'', ''list_models'', ''list_prompt_templates'', ''run_question'',
      ''run_logical_query'', ''list_skills'', ''run_skill'', ''dry_plan'', ''dry_run'', ''metric_query'',
      ''list_knowledge_files'', ''read_knowledge_file'']"

definition isWebAgentTool :: "ToolName \<Rightarrow> bool" where
  "isWebAgentTool tool = (tool \<in> set webAgentTools)"

record Proposal =
  p_Tool :: ToolName
  p_Arguments :: raw

record Decision =
  Allowed :: bool
  ReasonCode :: string
  Arguments :: raw

record JoinEdge =
  je_Left :: string
  je_Right :: string

definition joinKey :: "JoinEdge \<Rightarrow> string" where
  "joinKey e =
     (let l = ToLower (je_Left e); r = ToLower (je_Right e)
      in if l > r then r @ ''|'' @ l else l @ ''|'' @ r)"

record PriorTurn =
  pt_User :: string
  pt_Assistant :: string
  pt_ResultSummary :: string

record ClarificationExchange =
  ce_Question :: string
  ce_Answer :: string
  ce_AfterSeq :: int

record Credential =
  cr_Authorization :: string
  cr_APIKey :: string

record RunContext =
  rc_TenantID :: string
  rc_UserID :: string
  rc_DatasourceID :: string
  rc_ModelID :: string
  rc_Question :: string
  rc_PriorTurns :: "PriorTurn list"
  rc_ClarificationHistory :: "ClarificationExchange list"
  rc_AllowedTools :: "ToolName list"
  rc_RetryBudget :: "ToolName \<rightharpoonup> int"
  rc_DeploymentMode :: string
  rc_ExternalEgressTools :: "ToolName \<rightharpoonup> bool"
  rc_HiddenColumns :: "string list"
  rc_PIIColumns :: "string list"
  rc_AllowedJoins :: "JoinEdge list"
  rc_RequiredRowFilter :: bool
  rc_MaxRows :: int
  rc_Timeout :: int
  rc_Credential :: Credential
  rc_MaxSteps :: int
  rc_MaxClarificationRounds :: int

record identityArgs =
  id_TenantID :: string
  id_UserID :: string
  id_DatasourceID :: string

record queryProposalArgs =
  qa_identity :: identityArgs
  qa_LogicalQuery :: raw
  qa_Fingerprint :: string
  qa_SQL :: string
  qa_Columns :: "string list"
  qa_MaskedColumns :: "string list"
  qa_Joins :: "JoinEdge list"
  qa_RowFilterSQL :: string
  qa_RowLimit :: int
  qa_TimeoutSeconds :: int

record Codec =
  unmarshalIdentity :: "raw \<Rightarrow> identityArgs option"
  strictDecodeQuery :: "raw \<Rightarrow> queryProposalArgs option"
  marshalQuery :: "queryProposalArgs \<Rightarrow> raw option"

text \<open>What the adapters rely on: an encoded argument record decodes to itself.\<close>

definition codec_roundtrip :: "Codec \<Rightarrow> bool" where
  "codec_roundtrip c = (\<forall>a r. marshalQuery c a = Some r \<longrightarrow> strictDecodeQuery c r = Some a)"

section \<open>The policy rules\<close>

definition deny :: "string \<Rightarrow> Decision" where
  "deny reason = \<lparr>Allowed = False, ReasonCode = reason, Arguments = []\<rparr>"

definition allow :: "raw \<Rightarrow> Decision" where
  "allow args = \<lparr>Allowed = True, ReasonCode = [], Arguments = args\<rparr>"

definition containsTool :: "ToolName list \<Rightarrow> ToolName \<Rightarrow> bool" where
  "containsTool allowlist tool = (tool \<in> set allowlist)"

definition promptInjectionMarkers :: "string list" where
  "promptInjectionMarkers =
     [''ignore previous instructions'', ''ignore all previous instructions'',
      ''disregard the system prompt'', ''you are now'', ''new instructions:'']"

definition containsPromptInjection :: "string \<Rightarrow> bool" where
  "containsPromptInjection s = list_ex (\<lambda>m. Contains (ToLower s) m) promptInjectionMarkers"

definition isMultiStatementSQL :: "string \<Rightarrow> bool" where
  "isMultiStatementSQL sql =
     (let trimmed = TrimRight (TrimSpace sql) '';'' in
      case IndexByte trimmed CHR '';'' of
        None \<Rightarrow> False
      | Some idx \<Rightarrow> TrimSpace (drop (idx + 1) trimmed) \<noteq> [])"

definition writeOrDDLKeywords :: "string list" where
  "writeOrDDLKeywords =
     [''insert'', ''update'', ''delete'', ''drop'', ''alter'', ''create'', ''truncate'', ''grant'', ''revoke'']"

definition isWriteOrDDL :: "string \<Rightarrow> bool" where
  "isWriteOrDDL sql =
     (case Fields (ToLower (TrimSpace sql)) of
        [] \<Rightarrow> False
      | f # _ \<Rightarrow> TrimPrefix f ''('' \<in> set writeOrDDLKeywords)"

definition containsFold :: "string list \<Rightarrow> string \<Rightarrow> bool" where
  "containsFold xs target = list_ex (\<lambda>v. EqualFold v target) xs"

definition firstHiddenColumn :: "string list \<Rightarrow> string list \<Rightarrow> string" where
  "firstHiddenColumn requested hidden =
     (case find (\<lambda>col. containsFold hidden col) requested of None \<Rightarrow> [] | Some col \<Rightarrow> col)"

definition firstUnmaskedPIIColumn :: "string list \<Rightarrow> string list \<Rightarrow> string list \<Rightarrow> string" where
  "firstUnmaskedPIIColumn requested masked pii =
     (case find (\<lambda>col. containsFold pii col \<and> \<not> containsFold masked col) requested of
        None \<Rightarrow> [] | Some col \<Rightarrow> col)"

definition firstInvalidJoin :: "JoinEdge list \<Rightarrow> JoinEdge list \<Rightarrow> JoinEdge option" where
  "firstInvalidJoin requested allowed =
     (if allowed = [] then None
      else find (\<lambda>j. joinKey j \<notin> set (map joinKey allowed)) requested)"

text \<open>\<open>int(run.Timeout.Seconds())\<close>: whole seconds, towards zero.\<close>

definition timeoutSeconds :: "RunContext \<Rightarrow> int" where
  "timeoutSeconds run =
     (if rc_Timeout run < 0 then - ((- rc_Timeout run) div 1000000000) else rc_Timeout run div 1000000000)"

definition clampRows :: "RunContext \<Rightarrow> queryProposalArgs \<Rightarrow> queryProposalArgs" where
  "clampRows run args =
     (if rc_MaxRows run > 0 \<and> (qa_RowLimit args \<le> 0 \<or> qa_RowLimit args > rc_MaxRows run)
      then args\<lparr>qa_RowLimit := rc_MaxRows run\<rparr> else args)"

definition clampTimeout :: "RunContext \<Rightarrow> queryProposalArgs \<Rightarrow> queryProposalArgs" where
  "clampTimeout run args =
     (if timeoutSeconds run > 0 \<and> (qa_TimeoutSeconds args \<le> 0 \<or> qa_TimeoutSeconds args > timeoutSeconds run)
      then args\<lparr>qa_TimeoutSeconds := timeoutSeconds run\<rparr> else args)"

definition evaluateQuery :: "Codec \<Rightarrow> RunContext \<Rightarrow> Proposal \<Rightarrow> Decision" where
  "evaluateQuery codec run proposal =
     (case strictDecodeQuery codec (p_Arguments proposal) of
        None \<Rightarrow> deny ''malformed_arguments''
      | Some args \<Rightarrow>
          if isMultiStatementSQL (qa_SQL args) then deny ''multi_statement_sql_denied''
          else if isWriteOrDDL (qa_SQL args) then deny ''write_or_ddl_denied''
          else if firstHiddenColumn (qa_Columns args) (rc_HiddenColumns run) \<noteq> []
          then deny ''hidden_column_denied''
          else if firstUnmaskedPIIColumn (qa_Columns args) (qa_MaskedColumns args) (rc_PIIColumns run) \<noteq> []
          then deny ''pii_masking_required''
          else if firstInvalidJoin (qa_Joins args) (rc_AllowedJoins run) \<noteq> None
          then deny ''invalid_join_denied''
          else if rc_RequiredRowFilter run \<and> TrimSpace (qa_RowFilterSQL args) = []
          then deny ''row_filter_required''
          else
            (case marshalQuery codec (clampTimeout run (clampRows run args)) of
               None \<Rightarrow> deny ''malformed_arguments''
             | Some narrowed \<Rightarrow> allow narrowed))"

text \<open>The switch that ends \<open>Evaluate\<close>.\<close>

definition policyDispatch :: "Codec \<Rightarrow> RunContext \<Rightarrow> Proposal \<Rightarrow> Decision" where
  "policyDispatch codec run p =
     (if p_Tool p = ToolQueryCompile \<or> p_Tool p = ToolQueryExecute then evaluateQuery codec run p
      else if p_Tool p = ToolCatalog \<or> p_Tool p = ToolSemantic \<or> p_Tool p = ToolMemoryRecall
      then allow (p_Arguments p)
      else if p_Tool p \<in> set webAgentTools then allow (p_Arguments p)
      else deny ''tool_not_allowlisted'')"

text \<open>\<open>ctxErr\<close> is the result of \<open>ctx.Err()\<close>.\<close>

definition Evaluate :: "Codec \<Rightarrow> string option \<Rightarrow> RunContext \<Rightarrow> Proposal \<Rightarrow> Decision" where
  "Evaluate codec ctxErr run proposal =
     (let tool = p_Tool proposal;
          args = p_Arguments proposal
      in
      if ctxErr \<noteq> None then deny ''context_canceled''
      else if \<not> containsTool (rc_AllowedTools run) tool then deny ''tool_not_allowlisted''
      else if (case rc_RetryBudget run tool of None \<Rightarrow> False | Some budget \<Rightarrow> budget \<le> 0)
      then deny ''retry_budget_exhausted''
      else if rc_DeploymentMode run = ''airgapped'' \<and> rc_ExternalEgressTools run tool = Some True
      then deny ''airgapped_egress_denied''
      else if isWebAgentTool tool then policyDispatch codec run proposal
      else
        (case unmarshalIdentity codec args of
           None \<Rightarrow> deny ''malformed_arguments''
         | Some ident \<Rightarrow>
             if id_TenantID ident \<noteq> rc_TenantID run \<or> id_UserID ident \<noteq> rc_UserID run \<or>
                id_DatasourceID ident \<noteq> rc_DatasourceID run then deny ''identity_mismatch''
             else if containsPromptInjection args then deny ''prompt_injection_suspected''
             else policyDispatch codec run proposal))"

section \<open>Planner decisions\<close>

record Clarification =
  cl_Question :: string
  cl_Options :: "string list"

record FinalResponse =
  fr_Answer :: string
  fr_Confidence :: rat

record Failure =
  fa_ReasonCode :: string
  fa_Message :: string

definition DecisionTool :: string where "DecisionTool = ''tool''"
definition DecisionClarification :: string where "DecisionClarification = ''clarification''"
definition DecisionFinal :: string where "DecisionFinal = ''final''"
definition DecisionFail :: string where "DecisionFail = ''fail''"

lemmas decision_kinds = DecisionTool_def DecisionClarification_def DecisionFinal_def DecisionFail_def

record PlannerDecision =
  pd_Kind :: string
  pd_Proposal :: "Proposal option"
  pd_Clarification :: "Clarification option"
  pd_Final :: "FinalResponse option"
  pd_Failure :: "Failure option"

definition noDecision :: PlannerDecision where
  "noDecision = \<lparr>pd_Kind = [], pd_Proposal = None, pd_Clarification = None, pd_Final = None, pd_Failure = None\<rparr>"

record plannerDecisionEnvelope =
  env_Tool :: "(ToolName \<times> raw) option"
  env_Clarification :: "Clarification option"
  env_Final :: "FinalResponse option"
  env_Fail :: "Failure option"

datatype decode_error = BadEnvelope | NotExactlyOne int

text \<open>\<open>decode\<close> stands for the strict JSON decoding of the envelope (\<open>None\<close> is its error). Each variant
  present overwrites the decision and counts, as in the code.\<close>

definition DecodePlannerDecision ::
  "(raw \<Rightarrow> plannerDecisionEnvelope option) \<Rightarrow> raw \<Rightarrow> decode_error + PlannerDecision" where
  "DecodePlannerDecision decode r =
     (case decode r of
        None \<Rightarrow> Inl BadEnvelope
      | Some env \<Rightarrow>
          (let (n0, d0) = (0 :: int, noDecision);
               (n1, d1) = (case env_Tool env of
                   None \<Rightarrow> (n0, d0)
                 | Some (name, args) \<Rightarrow>
                     (n0 + 1, noDecision\<lparr>pd_Kind := DecisionTool,
                        pd_Proposal := Some \<lparr>p_Tool = name, p_Arguments = args\<rparr>\<rparr>));
               (n2, d2) = (case env_Clarification env of
                   None \<Rightarrow> (n1, d1)
                 | Some c \<Rightarrow> (n1 + 1, noDecision\<lparr>pd_Kind := DecisionClarification, pd_Clarification := Some c\<rparr>));
               (n3, d3) = (case env_Final env of
                   None \<Rightarrow> (n2, d2)
                 | Some f \<Rightarrow> (n2 + 1, noDecision\<lparr>pd_Kind := DecisionFinal, pd_Final := Some f\<rparr>));
               (n4, d4) = (case env_Fail env of
                   None \<Rightarrow> (n3, d3)
                 | Some f \<Rightarrow> (n3 + 1, noDecision\<lparr>pd_Kind := DecisionFail, pd_Failure := Some f\<rparr>))
           in if n4 \<noteq> 1 then Inl (NotExactlyOne n4) else Inr d4))"

section \<open>Lemmas\<close>

lemma checks_None [err_simps]: "checks es = None \<longleftrightarrow> (\<forall>e\<in>set es. e = None)"
  by (simp add: checks_def first_err_None)

text \<open>The interface every envelope validator offers: the schema gate first, then its own rules.\<close>

locale envelope =
  fixes validate :: "'e \<Rightarrow> contract_error option"
    and schemaOf :: "'e \<Rightarrow> string"
    and want :: string
    and rules :: "'e \<Rightarrow> contract_error option list"
  assumes validate_eq: "validate e = checks (validateSchema (schemaOf e) want # rules e)"
begin

lemma accepts_iff: "validate e = None \<longleftrightarrow> schemaOf e = want \<and> (\<forall>r\<in>set (rules e). r = None)"
  by (auto simp: validate_eq checks_None validateSchema_def)

lemma other_version:
  assumes "schemaOf e \<noteq> want" "schemaFamily (schemaOf e) = schemaFamily want" "schemaFamily want \<noteq> None"
  shows "validate e = Some (UnsupportedSchemaVersion (schemaOf e) want)"
  using assms by (simp add: validate_eq checks_def validateSchema_def)

end

interpretation job: envelope ValidateJob j_Schema JobSchemaV1
  "\<lambda>j. [requireNonEmpty ''job_id'' (j_JobID j), requireNonEmpty ''run_id'' (j_RunID j),
       requireNonEmpty ''datasource_id'' (j_DatasourceID j), requireNonEmpty ''user_id'' (j_UserID j),
       (if \<not> IsValidMode (j_Mode j) then Some (BadMode (j_Mode j)) else None),
       requireIntRange ''max_steps'' (j_MaxSteps j) 1 6,
       requireIntRange ''max_clarification_rounds'' (j_MaxClarificationRounds j) 0 2,
       requireIntRange ''timeout_seconds'' (j_TimeoutSeconds j) 1 45,
       requireIntRange ''max_rows'' (j_MaxRows j) 1 1000]"
  by unfold_locales (rule ValidateJob_def)

interpretation stepEnv: envelope ValidateStep s_Schema StepSchemaV1
  "\<lambda>s. [requireNonEmpty ''job_id'' (s_JobID s), requireNonEmpty ''run_id'' (s_RunID s),
       requireNonEmpty ''tool'' (s_Tool s), (if s_Seq s < 1 then Some (BadSeq (s_Seq s)) else None)]"
  by unfold_locales (rule ValidateStep_def)

interpretation resultEnv: envelope ValidateResult r_Schema ResultSchemaV1
  "\<lambda>r. [requireNonEmpty ''job_id'' (r_JobID r), requireNonEmpty ''run_id'' (r_RunID r),
       (if r_Confidence r < 0 \<or> r_Confidence r > 1 then Some (BadConfidence (r_Confidence r)) else None)]"
  by unfold_locales (rule ValidateResult_def)

interpretation errorEnv: envelope ValidateError e_Schema ErrorSchemaV1
  "\<lambda>e. [requireNonEmpty ''job_id'' (e_JobID e), requireNonEmpty ''run_id'' (e_RunID e),
       requireNonEmpty ''reason_code'' (e_ReasonCode e)]"
  by unfold_locales (rule ValidateError_def)

lemmas require_defs = requireNonEmpty_def requireIntRange_def IsValidMode_def

lemma deny_simps [simp]: "\<not> Allowed (deny r)" "ReasonCode (deny r) = r"
  by (simp_all add: deny_def)

lemma allow_simps [simp]: "Allowed (allow a)" "Arguments (allow a) = a"
  by (simp_all add: allow_def)

lemma joinKey_swap: "joinKey \<lparr>je_Left = a, je_Right = b\<rparr> = joinKey \<lparr>je_Left = b, je_Right = a\<rparr>"
  by (auto simp: joinKey_def Let_def)

lemma containsFold_iff: "containsFold xs t \<longleftrightarrow> (\<exists>v\<in>set xs. EqualFold v t)"
  by (simp add: containsFold_def list_ex_iff)

lemma containsFold_Nil: "[] \<notin> set xs \<Longrightarrow> \<not> containsFold xs []"
  by (auto simp: containsFold_iff EqualFold_def ToLower_def)

lemma find_reported:
  "\<not> P [] \<Longrightarrow> (case find P xs of None \<Rightarrow> [] | Some x \<Rightarrow> x) = [] \<longleftrightarrow> (\<forall>x\<in>set xs. \<not> P x)"
  using find_Some [of P xs] by (auto simp: find_None_iff split: option.splits)

text \<open>What the query rules demand of decoded arguments.\<close>

definition queryPermitted :: "RunContext \<Rightarrow> queryProposalArgs \<Rightarrow> bool" where
  "queryPermitted run a =
     (\<not> isMultiStatementSQL (qa_SQL a) \<and> \<not> isWriteOrDDL (qa_SQL a) \<and>
      (\<forall>c\<in>set (qa_Columns a). \<not> containsFold (rc_HiddenColumns run) c \<and>
         (containsFold (rc_PIIColumns run) c \<longrightarrow> containsFold (qa_MaskedColumns a) c)) \<and>
      (rc_AllowedJoins run \<noteq> [] \<longrightarrow>
         (\<forall>j\<in>set (qa_Joins a). \<exists>k\<in>set (rc_AllowedJoins run). joinKey j = joinKey k)) \<and>
      (rc_RequiredRowFilter run \<longrightarrow> TrimSpace (qa_RowFilterSQL a) \<noteq> []))"

definition narrow :: "RunContext \<Rightarrow> queryProposalArgs \<Rightarrow> queryProposalArgs" where
  "narrow run a = clampTimeout run (clampRows run a)"

lemma firstInvalidJoin_None:
  "firstInvalidJoin req allowed = None \<longleftrightarrow>
     (allowed \<noteq> [] \<longrightarrow> (\<forall>j\<in>set req. \<exists>k\<in>set allowed. joinKey j = joinKey k))"
  by (auto simp: firstInvalidJoin_def find_None_iff)

lemma evaluateQuery_decision:
  assumes "[] \<notin> set (rc_HiddenColumns run)" "[] \<notin> set (rc_PIIColumns run)"
    and "strictDecodeQuery codec (p_Arguments p) = Some a"
  shows "Allowed (evaluateQuery codec run p) \<longleftrightarrow>
      queryPermitted run a \<and> marshalQuery codec (narrow run a) \<noteq> None"
    and "Allowed (evaluateQuery codec run p) \<Longrightarrow>
      marshalQuery codec (narrow run a) = Some (Arguments (evaluateQuery codec run p))"
proof -
  have hidden: "firstHiddenColumn (qa_Columns a) (rc_HiddenColumns run) = [] \<longleftrightarrow>
      (\<forall>c\<in>set (qa_Columns a). \<not> containsFold (rc_HiddenColumns run) c)"
    unfolding firstHiddenColumn_def using containsFold_Nil [OF assms(1)] by (rule find_reported)
  have masked: "firstUnmaskedPIIColumn (qa_Columns a) (qa_MaskedColumns a) (rc_PIIColumns run) = [] \<longleftrightarrow>
      (\<forall>c\<in>set (qa_Columns a). containsFold (rc_PIIColumns run) c \<longrightarrow> containsFold (qa_MaskedColumns a) c)"
    unfolding firstUnmaskedPIIColumn_def using containsFold_Nil [OF assms(2)] by (subst find_reported) auto
  show "Allowed (evaluateQuery codec run p) \<longleftrightarrow>
      queryPermitted run a \<and> marshalQuery codec (narrow run a) \<noteq> None"
    using hidden masked firstInvalidJoin_None [of "qa_Joins a" "rc_AllowedJoins run"]
    by (auto simp: evaluateQuery_def assms(3) queryPermitted_def narrow_def split: option.splits)
  show "marshalQuery codec (narrow run a) = Some (Arguments (evaluateQuery codec run p))"
    if "Allowed (evaluateQuery codec run p)"
    using that by (auto simp: evaluateQuery_def assms(3) narrow_def split: if_splits option.splits)
qed

definition knownTools :: "ToolName list" where
  "knownTools = [ToolQueryCompile, ToolQueryExecute, ToolCatalog, ToolSemantic, ToolMemoryRecall] @ webAgentTools"

definition queryTools :: "ToolName list" where
  "queryTools = [ToolQueryCompile, ToolQueryExecute]"

lemmas tool_names = ToolCatalog_def ToolSemantic_def ToolQueryCompile_def ToolQueryExecute_def
  ToolMemoryRecall_def webAgentTools_def

lemma queryTools_not_web: "t \<in> set queryTools \<Longrightarrow> \<not> isWebAgentTool t"
  by (auto simp: queryTools_def isWebAgentTool_def tool_names)

definition identityMatches :: "Codec \<Rightarrow> RunContext \<Rightarrow> raw \<Rightarrow> bool" where
  "identityMatches codec run args =
     (\<exists>i. unmarshalIdentity codec args = Some i \<and> id_TenantID i = rc_TenantID run \<and>
        id_UserID i = rc_UserID run \<and> id_DatasourceID i = rc_DatasourceID run)"

definition gatePassed :: "Codec \<Rightarrow> string option \<Rightarrow> RunContext \<Rightarrow> Proposal \<Rightarrow> bool" where
  "gatePassed codec ctxErr run p =
     (ctxErr = None \<and> p_Tool p \<in> set (rc_AllowedTools run) \<and> p_Tool p \<in> set knownTools \<and>
      (\<forall>b. rc_RetryBudget run (p_Tool p) = Some b \<longrightarrow> 0 < b) \<and>
      \<not> (rc_DeploymentMode run = ''airgapped'' \<and> rc_ExternalEgressTools run (p_Tool p) = Some True) \<and>
      (\<not> isWebAgentTool (p_Tool p) \<longrightarrow>
         identityMatches codec run (p_Arguments p) \<and> \<not> containsPromptInjection (p_Arguments p)))"

lemma policyDispatch_known:
  "p_Tool p \<in> set knownTools \<Longrightarrow>
   policyDispatch codec run p =
     (if p_Tool p \<in> set queryTools then evaluateQuery codec run p else allow (p_Arguments p))"
  unfolding policyDispatch_def knownTools_def queryTools_def by auto

lemma policyDispatch_unknown: "p_Tool p \<notin> set knownTools \<Longrightarrow> \<not> Allowed (policyDispatch codec run p)"
  unfolding policyDispatch_def knownTools_def by auto

lemma Evaluate_passed:
  assumes "gatePassed codec ctxErr run p"
  shows "Evaluate codec ctxErr run p = policyDispatch codec run p"
proof (cases "isWebAgentTool (p_Tool p)")
  case True
  with assms show ?thesis
    unfolding Evaluate_def Let_def
    by (simp add: gatePassed_def containsTool_def split: option.split) force
next
  case False
  with assms show ?thesis
    unfolding Evaluate_def Let_def
    by (simp add: gatePassed_def identityMatches_def containsTool_def split: option.split) force
qed

lemma Evaluate_refused:
  assumes "\<not> gatePassed codec ctxErr run p"
  shows "\<not> Allowed (Evaluate codec ctxErr run p)"
proof
  assume a: "Allowed (Evaluate codec ctxErr run p)"
  then have "Allowed (policyDispatch codec run p)"
    unfolding Evaluate_def Let_def
    by (simp split: if_splits option.splits)
  then have "p_Tool p \<in> set knownTools" using policyDispatch_unknown by blast
  moreover from a have "ctxErr = None" "p_Tool p \<in> set (rc_AllowedTools run)"
    "\<forall>b. rc_RetryBudget run (p_Tool p) = Some b \<longrightarrow> 0 < b"
    "\<not> (rc_DeploymentMode run = ''airgapped'' \<and> rc_ExternalEgressTools run (p_Tool p) = Some True)"
    "\<not> isWebAgentTool (p_Tool p) \<longrightarrow>
       identityMatches codec run (p_Arguments p) \<and> \<not> containsPromptInjection (p_Arguments p)"
    unfolding Evaluate_def Let_def
    by (simp_all add: identityMatches_def containsTool_def split: if_splits option.splits)
  ultimately show False using assms by (simp add: gatePassed_def)
qed

section \<open>Properties\<close>

definition example_run :: RunContext where
  "example_run =
     \<lparr>rc_TenantID = ''t'', rc_UserID = ''u'', rc_DatasourceID = ''ds'', rc_ModelID = [], rc_Question = ''q'',
      rc_PriorTurns = [], rc_ClarificationHistory = [],
      rc_AllowedTools = [ToolQueryCompile, ToolQueryExecute, ''list_models''], rc_RetryBudget = (\<lambda>_. None),
      rc_DeploymentMode = ''cloud'', rc_ExternalEgressTools = (\<lambda>_. None), rc_HiddenColumns = [''users.ssn''],
      rc_PIIColumns = [''users.email''], rc_AllowedJoins = [], rc_RequiredRowFilter = False, rc_MaxRows = 100,
      rc_Timeout = 30000000000, rc_Credential = \<lparr>cr_Authorization = [], cr_APIKey = []\<rparr>, rc_MaxSteps = 3,
      rc_MaxClarificationRounds = 1\<rparr>"

definition example_args :: "int \<Rightarrow> int \<Rightarrow> queryProposalArgs" where
  "example_args rows secs =
     \<lparr>qa_identity = \<lparr>id_TenantID = ''t'', id_UserID = ''u'', id_DatasourceID = ''ds''\<rparr>, qa_LogicalQuery = [],
      qa_Fingerprint = ''f'', qa_SQL = ''SELECT 1;'', qa_Columns = [''users.id''], qa_MaskedColumns = [], qa_Joins = [],
      qa_RowFilterSQL = [], qa_RowLimit = rows, qa_TimeoutSeconds = secs\<rparr>"

text \<open>A codec that knows two texts, \<open>p\<close> for the proposed arguments and \<open>n\<close> for the narrowed ones.\<close>

definition example_codec :: Codec where
  "example_codec =
     \<lparr>unmarshalIdentity = (\<lambda>r. Some \<lparr>id_TenantID = ''t'', id_UserID = ''u'', id_DatasourceID = ''ds''\<rparr>),
      strictDecodeQuery = (\<lambda>r. if r = ''p'' then Some (example_args 5000 10)
                               else if r = ''n'' then Some (example_args 100 10) else None),
      marshalQuery = (\<lambda>a. if a = example_args 100 10 then Some ''n'' else None)\<rparr>"

definition example_proposal :: Proposal where
  "example_proposal = \<lparr>p_Tool = ToolQueryExecute, p_Arguments = ''p''\<rparr>"

lemma example_codec_roundtrip: "codec_roundtrip example_codec"
  by (auto simp: codec_roundtrip_def example_codec_def split: if_splits)

lemma example_run_columns: "[] \<notin> set (rc_HiddenColumns example_run)" "[] \<notin> set (rc_PIIColumns example_run)"
  by (simp_all add: example_run_def)

lemma example_allowed: "Evaluate example_codec None example_run example_proposal = allow ''n''"
  by code_simp

text \<open>C7. The policy engine allows exactly the proposals that satisfy every rule: the run is not
  cancelled, the tool is on the run's allowlist and is one the engine knows, its retry budget (when it
  has one) is positive, an airgapped run does not call an egress tool; a tool that is not a web tool
  carries the run's identity and no injection marker; and a query tool carries well-formed arguments
  with a single read statement, no hidden column, only masked PII columns, only declared joins and the
  required row filter.\<close>

theorem Evaluate_allows_iff:
  assumes "[] \<notin> set (rc_HiddenColumns run)" and "[] \<notin> set (rc_PIIColumns run)"
  shows "Allowed (Evaluate codec ctxErr run p) \<longleftrightarrow>
    gatePassed codec ctxErr run p \<and>
    (p_Tool p \<in> set queryTools \<longrightarrow>
       (\<exists>a. strictDecodeQuery codec (p_Arguments p) = Some a \<and> queryPermitted run a \<and>
            marshalQuery codec (narrow run a) \<noteq> None))"
proof (cases "gatePassed codec ctxErr run p")
  case True
  then have known: "p_Tool p \<in> set knownTools" by (simp add: gatePassed_def)
  have "Allowed (evaluateQuery codec run p) \<longleftrightarrow>
      (\<exists>a. strictDecodeQuery codec (p_Arguments p) = Some a \<and> queryPermitted run a \<and>
            marshalQuery codec (narrow run a) \<noteq> None)"
  proof (cases "strictDecodeQuery codec (p_Arguments p)")
    case None
    then show ?thesis by (simp add: evaluateQuery_def)
  next
    case (Some a)
    then show ?thesis using evaluateQuery_decision(1) [OF assms Some] by simp
  qed
  then show ?thesis
    using True by (simp add: Evaluate_passed [OF True] policyDispatch_known [OF known])
next
  case False
  then show ?thesis using Evaluate_refused by blast
qed

theorem Evaluate_allows_iff_witness:
  "gatePassed example_codec None example_run example_proposal \<and>
   \<not> Allowed (Evaluate example_codec None (example_run\<lparr>rc_AllowedTools := []\<rparr>) example_proposal)"
proof -
  have "Allowed (Evaluate example_codec None example_run example_proposal)"
    using example_allowed by simp
  then have "gatePassed example_codec None example_run example_proposal"
    using Evaluate_allows_iff [OF example_run_columns] by blast
  moreover have "[] \<notin> set (rc_HiddenColumns (example_run\<lparr>rc_AllowedTools := []\<rparr>))"
      "[] \<notin> set (rc_PIIColumns (example_run\<lparr>rc_AllowedTools := []\<rparr>))"
    using example_run_columns by simp_all
  from Evaluate_allows_iff [OF this, of example_codec None example_proposal]
  have "\<not> Allowed (Evaluate example_codec None (example_run\<lparr>rc_AllowedTools := []\<rparr>) example_proposal)"
    by (simp add: gatePassed_def)
  ultimately show ?thesis by blast
qed

text \<open>C36. Policy narrows and never broadens: what a query tool receives decodes to the proposed
  arguments with at most the row limit and the timeout changed; under a positive ceiling both end up
  positive and within the ceiling, and a positive proposed value is never increased.\<close>

theorem Evaluate_narrows:
  assumes "codec_roundtrip codec" and "p_Tool p \<in> set queryTools"
    and "[] \<notin> set (rc_HiddenColumns run)" and "[] \<notin> set (rc_PIIColumns run)"
    and "Allowed (Evaluate codec ctxErr run p)"
  shows "\<exists>a b. strictDecodeQuery codec (p_Arguments p) = Some a \<and>
      strictDecodeQuery codec (Arguments (Evaluate codec ctxErr run p)) = Some b \<and>
      b = a\<lparr>qa_RowLimit := qa_RowLimit b, qa_TimeoutSeconds := qa_TimeoutSeconds b\<rparr> \<and>
      (0 < rc_MaxRows run \<longrightarrow> 0 < qa_RowLimit b \<and> qa_RowLimit b \<le> rc_MaxRows run) \<and>
      (0 < qa_RowLimit a \<longrightarrow> qa_RowLimit b \<le> qa_RowLimit a) \<and>
      (0 < timeoutSeconds run \<longrightarrow> 0 < qa_TimeoutSeconds b \<and> qa_TimeoutSeconds b \<le> timeoutSeconds run) \<and>
      (0 < qa_TimeoutSeconds a \<longrightarrow> qa_TimeoutSeconds b \<le> qa_TimeoutSeconds a)"
proof -
  have gate: "gatePassed codec ctxErr run p" using Evaluate_refused assms(5) by blast
  then have "p_Tool p \<in> set knownTools" by (simp add: gatePassed_def)
  then have e: "Evaluate codec ctxErr run p = evaluateQuery codec run p"
    using Evaluate_passed [OF gate] policyDispatch_known assms(2) by simp
  obtain a where a: "strictDecodeQuery codec (p_Arguments p) = Some a"
    using assms(5) e by (cases "strictDecodeQuery codec (p_Arguments p)") (auto simp: evaluateQuery_def)
  have "marshalQuery codec (narrow run a) = Some (Arguments (Evaluate codec ctxErr run p))"
    using evaluateQuery_decision(2) [OF assms(3,4) a] assms(5) e by simp
  then have b: "strictDecodeQuery codec (Arguments (Evaluate codec ctxErr run p)) = Some (narrow run a)"
    using assms(1) by (simp add: codec_roundtrip_def)
  show ?thesis
    by (rule exI [of _ a], rule exI [of _ "narrow run a"], intro conjI, rule a, rule b)
       (auto simp: narrow_def clampRows_def clampTimeout_def)
qed

theorem Evaluate_narrows_witness:
  "Arguments (Evaluate example_codec None example_run example_proposal) = ''n'' \<and>
   strictDecodeQuery example_codec ''n'' = Some (example_args 100 10) \<and> qa_RowLimit (example_args 100 10) \<le> 100"
proof -
  have tool: "p_Tool example_proposal \<in> set queryTools" by (simp add: example_proposal_def queryTools_def)
  have allowed: "Allowed (Evaluate example_codec None example_run example_proposal)"
    using example_allowed by simp
  have "strictDecodeQuery example_codec ''n'' = Some (example_args 100 10)" by code_simp
  then show ?thesis
    using Evaluate_narrows [OF example_codec_roundtrip tool example_run_columns allowed] example_allowed
    by (auto simp: example_run_def)
qed

text \<open>The wire contracts: each envelope is accepted exactly when its schema is the supported
  version, its required identifiers are not blank and its bounded fields are within the documented
  bounds; and a job whose schema names another version of the job family is refused as an unsupported
  version.\<close>

theorem contracts_accept_iff:
  "(ValidateJob j = None \<longleftrightarrow>
      j_Schema j = JobSchemaV1 \<and>
      (\<forall>v\<in>{j_JobID j, j_RunID j, j_DatasourceID j, j_UserID j}. TrimSpace v \<noteq> []) \<and>
      j_Mode j \<in> {''shadow'', ''active''} \<and>
      j_MaxSteps j \<in> {1..6} \<and> j_MaxClarificationRounds j \<in> {0..2} \<and>
      j_TimeoutSeconds j \<in> {1..45} \<and> j_MaxRows j \<in> {1..1000}) \<and>
   (ValidateStep s = None \<longleftrightarrow>
      s_Schema s = StepSchemaV1 \<and> (\<forall>v\<in>{s_JobID s, s_RunID s, s_Tool s}. TrimSpace v \<noteq> []) \<and> 1 \<le> s_Seq s) \<and>
   (ValidateResult r = None \<longleftrightarrow>
      r_Schema r = ResultSchemaV1 \<and> (\<forall>v\<in>{r_JobID r, r_RunID r}. TrimSpace v \<noteq> []) \<and> r_Confidence r \<in> {0..1}) \<and>
   (ValidateError e = None \<longleftrightarrow>
      e_Schema e = ErrorSchemaV1 \<and> (\<forall>v\<in>{e_JobID e, e_RunID e, e_ReasonCode e}. TrimSpace v \<noteq> [])) \<and>
   (j_Schema j \<noteq> JobSchemaV1 \<and> schemaFamily (j_Schema j) = Some ''agent-job'' \<longrightarrow>
      ValidateJob j = Some (UnsupportedSchemaVersion (j_Schema j) JobSchemaV1))"
proof (intro conjI impI)
  assume a: "j_Schema j \<noteq> JobSchemaV1 \<and> schemaFamily (j_Schema j) = Some ''agent-job''"
  have "schemaFamily JobSchemaV1 = Some ''agent-job''" by code_simp
  with a show "ValidateJob j = Some (UnsupportedSchemaVersion (j_Schema j) JobSchemaV1)"
    by (intro job.other_version) simp_all
qed (auto simp: job.accepts_iff stepEnv.accepts_iff resultEnv.accepts_iff errorEnv.accepts_iff require_defs)

theorem contracts_accept_iff_witness:
  "ValidateJob \<lparr>j_Schema = ''agent-job.v1'', j_JobID = ''j'', j_RunID = ''r'', j_ConversationID = [],
      j_DatasourceID = ''d'', j_ModelID = [], j_UserID = ''u'', j_WorkspaceID = [], j_Question = [],
      j_Mode = ''active'', j_MaxSteps = 6, j_MaxClarificationRounds = 0, j_TimeoutSeconds = 45,
      j_MaxRows = 1000, j_CreatedAt = 0\<rparr> = None"
proof -
  have "TrimSpace ''j'' \<noteq> []" "TrimSpace ''r'' \<noteq> []" "TrimSpace ''d'' \<noteq> []" "TrimSpace ''u'' \<noteq> []"
    by code_simp+
  then show ?thesis by (simp only: contracts_accept_iff) (simp add: JobSchemaV1_def)
qed

text \<open>The shape of a decision: exactly one variant is set, and it is the one the kind names.\<close>

definition wellFormedDecision :: "PlannerDecision \<Rightarrow> bool" where
  "wellFormedDecision d =
     ((pd_Kind d = DecisionTool \<longleftrightarrow> pd_Proposal d \<noteq> None) \<and>
      (pd_Kind d = DecisionClarification \<longleftrightarrow> pd_Clarification d \<noteq> None) \<and>
      (pd_Kind d = DecisionFinal \<longleftrightarrow> pd_Final d \<noteq> None) \<and>
      (pd_Kind d = DecisionFail \<longleftrightarrow> pd_Failure d \<noteq> None) \<and>
      pd_Kind d \<in> {DecisionTool, DecisionClarification, DecisionFinal, DecisionFail})"

definition variants :: "plannerDecisionEnvelope \<Rightarrow> nat" where
  "variants env = length (filter id [env_Tool env \<noteq> None, env_Clarification env \<noteq> None,
     env_Final env \<noteq> None, env_Fail env \<noteq> None])"

text \<open>Strict decoding of planner output: decoding succeeds exactly when the envelope is decodable
  and carries exactly one variant, and then the decision is well formed: its kind names the one variant
  that is set, which is the variant of the envelope.\<close>

theorem DecodePlannerDecision_exact:
  "case DecodePlannerDecision decode r of
     Inl _ \<Rightarrow> (\<forall>env. decode r = Some env \<longrightarrow> variants env \<noteq> 1)
   | Inr d \<Rightarrow> wellFormedDecision d \<and>
       (\<exists>env. decode r = Some env \<and> variants env = 1 \<and>
          pd_Proposal d = map_option (\<lambda>(n, a). \<lparr>p_Tool = n, p_Arguments = a\<rparr>) (env_Tool env) \<and>
          pd_Clarification d = env_Clarification env \<and> pd_Final d = env_Final env \<and> pd_Failure d = env_Fail env)"
proof (cases "decode r")
  case None
  then show ?thesis by (simp add: DecodePlannerDecision_def)
next
  case (Some env)
  then show ?thesis
    by (cases "env_Tool env"; cases "env_Clarification env"; cases "env_Final env"; cases "env_Fail env")
       (simp_all add: DecodePlannerDecision_def noDecision_def wellFormedDecision_def decision_kinds variants_def
         split: prod.split)
qed

theorem DecodePlannerDecision_exact_witness:
  "variants \<lparr>env_Tool = Some (''query.compile'', []), env_Clarification = None, env_Final = None, env_Fail = None\<rparr> = 1 \<and>
   (\<exists>d. DecodePlannerDecision (\<lambda>_. Some \<lparr>env_Tool = Some (''query.compile'', []), env_Clarification = None,
      env_Final = None, env_Fail = None\<rparr>) [] = Inr d \<and> wellFormedDecision d)"
proof -
  let ?env = "\<lparr>env_Tool = Some (''query.compile'', []), env_Clarification = None, env_Final = None, env_Fail = None\<rparr>
    :: plannerDecisionEnvelope"
  have "variants ?env = 1" by (simp add: variants_def)
  then show ?thesis using DecodePlannerDecision_exact [of "\<lambda>_. Some ?env" "[]"]
    by (cases "DecodePlannerDecision (\<lambda>_. Some ?env) []") auto
qed

end
