(* ===== verification/Agent_Runtime.thy ===== *)
theory Agent_Runtime
  imports Agent_Policy
begin

text \<open>The tool registry (\<open>internal/agent/tools.go\<close>) and the run loop
  (\<open>internal/agent/runtime.go\<close>). The interfaces the runtime is built over (the planner, the tools,
  the state store), the clock and the context's cancellation are the record \<open>Env\<close>: each is a function
  of the outside world \<open>'w\<close> that returns its result and the world after the call. Every effect the
  runtime has is also recorded in order in an event list, so that what happens before what can be
  stated; the event list is never read. Nil pointers are \<open>None\<close>; a nil dereference is the error
  \<open>NilDereference\<close>. The loop is a total function: its recursion ends because every iteration that
  continues adds a step.\<close>

section \<open>State\<close>

record Observation =
  ob_Tool :: ToolName
  ob_Payload :: raw

record RuntimeStep =
  st_Seq :: int
  st_Proposal :: Proposal
  st_Observation :: "Observation option"
  st_DeniedReason :: string
  st_Error :: string
  st_DurationMs :: int

record TerminalResult =
  tr_Kind :: string
  tr_Final :: "FinalResponse option"
  tr_Failure :: "Failure option"

record RuntimeState =
  Steps :: "RuntimeStep list"
  ClarificationRounds :: int
  QueryExecuteStarted :: bool
  Terminal :: "TerminalResult option"
  PendingClarification :: "Clarification option"
  ClarificationHistory :: "ClarificationExchange list"

definition initialState :: RuntimeState where
  "initialState = \<lparr>Steps = [], ClarificationRounds = 0, QueryExecuteStarted = False, Terminal = None,
     PendingClarification = None, ClarificationHistory = []\<rparr>"

definition toolStepCount :: "RuntimeState \<Rightarrow> int" where
  "toolStepCount s = int (length (Steps s))"

definition nextSeq :: "RuntimeState \<Rightarrow> int" where
  "nextSeq s = int (length (Steps s)) + 1"

text \<open>Errors of a tool call and of the runtime.\<close>

datatype tool_error =
    PolicyDenied ToolName string
  | ToolNotRegistered ToolName
  | ToolFailed bool string

fun toolErrorText :: "tool_error \<Rightarrow> string" where
  "toolErrorText (PolicyDenied t r) = ''tool '' @ t @ '' denied by policy: '' @ r"
| "toolErrorText (ToolNotRegistered t) = t @ '': tool not registered''"
| "toolErrorText (ToolFailed transient msg) = msg"

datatype rt_error =
    LoadError string
  | RunAlreadyTerminal
  | SaveError string
  | SaveBeforeDispatchError string
  | SaveAfterDenialError string
  | SaveAfterDispatchError string
  | Cause string
  | NilDereference

datatype event =
    Saved bool RuntimeState bool
  | Dispatched ToolName raw
  | Notified RuntimeStep
  | RunTerminalMetric string
  | TerminalFailureMetric string
  | ClarificationRoundMetric int
  | StepDurationMetric ToolName int
  | PolicyDenialMetric string

text \<open>\<open>e_Save\<close> takes, beside the run and the state, whether it is called with the run's own context
  (\<open>True\<close>) or with a context detached from its cancellation (\<open>False\<close>). \<open>e_Tools\<close> is the registry's map
  of adapters.\<close>

record 'w Env =
  e_CtxErr :: "'w \<Rightarrow> string option \<times> 'w"
  e_Now :: "'w \<Rightarrow> int \<times> 'w"
  e_Decide :: "'w \<Rightarrow> RunContext \<Rightarrow> RuntimeStep list \<Rightarrow> (string + PlannerDecision) \<times> 'w"
  e_Tools :: "ToolName \<rightharpoonup> ('w \<Rightarrow> RunContext \<Rightarrow> raw \<Rightarrow> (tool_error + Observation) \<times> 'w)"
  e_Save :: "'w \<Rightarrow> bool \<Rightarrow> string \<Rightarrow> RuntimeState \<Rightarrow> string option \<times> 'w"
  e_Load :: "'w \<Rightarrow> string \<Rightarrow> (string + RuntimeState option) \<times> 'w"
  e_Codec :: Codec

record 'w Sys =
  world :: 'w
  trace :: "event list"

definition emit :: "event \<Rightarrow> 'w Sys \<Rightarrow> 'w Sys" where
  "emit e s = s\<lparr>trace := trace s @ [e]\<rparr>"

definition doCtxErr :: "'w Env \<Rightarrow> 'w Sys \<Rightarrow> string option \<times> 'w Sys" where
  "doCtxErr env s = (let (r, w) = e_CtxErr env (world s) in (r, s\<lparr>world := w\<rparr>))"

definition doNow :: "'w Env \<Rightarrow> 'w Sys \<Rightarrow> int \<times> 'w Sys" where
  "doNow env s = (let (r, w) = e_Now env (world s) in (r, s\<lparr>world := w\<rparr>))"

definition doDecide ::
  "'w Env \<Rightarrow> RunContext \<Rightarrow> RuntimeStep list \<Rightarrow> 'w Sys \<Rightarrow> (string + PlannerDecision) \<times> 'w Sys" where
  "doDecide env run history s = (let (r, w) = e_Decide env (world s) run history in (r, s\<lparr>world := w\<rparr>))"

definition doSave :: "'w Env \<Rightarrow> bool \<Rightarrow> string \<Rightarrow> RuntimeState \<Rightarrow> 'w Sys \<Rightarrow> string option \<times> 'w Sys" where
  "doSave env own runID st s =
     (let (r, w) = e_Save env (world s) own runID st
      in (r, emit (Saved own st (r = None)) (s\<lparr>world := w\<rparr>)))"

definition doLoad :: "'w Env \<Rightarrow> string \<Rightarrow> 'w Sys \<Rightarrow> (string + RuntimeState option) \<times> 'w Sys" where
  "doLoad env runID s = (let (r, w) = e_Load env (world s) runID in (r, s\<lparr>world := w\<rparr>))"

section \<open>The registry\<close>

fun isTransient :: "tool_error \<Rightarrow> bool" where
  "isTransient (ToolFailed transient msg) = transient"
| "isTransient _ = False"

text \<open>\<open>fn\<close> is the call, a function of the system.\<close>

definition callWithSingleRetry ::
  "'w Env \<Rightarrow> ('w Sys \<Rightarrow> (tool_error + 'r) \<times> 'w Sys) \<Rightarrow> 'w Sys \<Rightarrow> (tool_error + 'r) \<times> 'w Sys" where
  "callWithSingleRetry env fn s =
     (let (r, s1) = fn s in
      case r of
        Inr _ \<Rightarrow> (r, s1)
      | Inl err \<Rightarrow>
          (let (cerr, s2) = doCtxErr env s1 in
           if cerr \<noteq> None \<or> \<not> isTransient err then (r, s2) else fn s2))"

definition Execute :: "'w Env \<Rightarrow> RunContext \<Rightarrow> Proposal \<Rightarrow> 'w Sys \<Rightarrow> (tool_error + Observation) \<times> 'w Sys" where
  "Execute env run proposal s =
     (let (cerr, s1) = doCtxErr env s;
          decision = Evaluate (e_Codec env) cerr run proposal
      in
      if \<not> Allowed decision then (Inl (PolicyDenied (p_Tool proposal) (ReasonCode decision)), s1)
      else
        (case e_Tools env (p_Tool proposal) of
           None \<Rightarrow> (Inl (ToolNotRegistered (p_Tool proposal)), s1)
         | Some tool \<Rightarrow>
             (let (r, w) = tool (world s1) run (Arguments decision)
              in (r, emit (Dispatched (p_Tool proposal) (Arguments decision)) (s1\<lparr>world := w\<rparr>)))))"

section \<open>Ending a run\<close>

definition finalizeOK ::
  "'w Env \<Rightarrow> string \<Rightarrow> RuntimeState \<Rightarrow> FinalResponse option \<Rightarrow> 'w Sys \<Rightarrow> RuntimeState \<times> rt_error option \<times> 'w Sys" where
  "finalizeOK env runID state final s =
     (let state' = state\<lparr>Terminal := Some \<lparr>tr_Kind = DecisionFinal, tr_Final = final, tr_Failure = None\<rparr>\<rparr>;
          (err, s1) = doSave env True runID state' s
      in case err of
           Some e \<Rightarrow> (state', Some (SaveError e), s1)
         | None \<Rightarrow> (state', None, emit (RunTerminalMetric ''completed'') s1))"

definition finalizeFail ::
  "'w Env \<Rightarrow> bool \<Rightarrow> string \<Rightarrow> RuntimeState \<Rightarrow> string \<Rightarrow> string \<Rightarrow> 'w Sys \<Rightarrow> RuntimeState \<times> rt_error option \<times> 'w Sys" where
  "finalizeFail env own runID state reasonCode message s =
     (let state' = state\<lparr>Terminal := Some \<lparr>tr_Kind = DecisionFail, tr_Final = None,
                           tr_Failure = Some \<lparr>fa_ReasonCode = reasonCode, fa_Message = message\<rparr>\<rparr>\<rparr>;
          (err, s1) = doSave env own runID state' s
      in case err of
           Some e \<Rightarrow> (state', Some (SaveError e), s1)
         | None \<Rightarrow> (state', None,
             emit (TerminalFailureMetric reasonCode) (emit (RunTerminalMetric ''failed'') s1)))"

definition abandonOrFail ::
  "'w Env \<Rightarrow> string \<Rightarrow> RuntimeState \<Rightarrow> string \<Rightarrow> string \<Rightarrow> 'w Sys \<Rightarrow> RuntimeState \<times> rt_error option \<times> 'w Sys" where
  "abandonOrFail env runID state reason cause s =
     (if \<not> QueryExecuteStarted state then (state, Some (Cause cause), s)
      else finalizeFail env False runID state reason cause s)"

text \<open>A step returns the state, whether the loop is done, an error and the system.\<close>

type_synonym 'w step_result = "RuntimeState \<times> bool \<times> rt_error option \<times> 'w Sys"

definition terminal :: "RuntimeState \<times> rt_error option \<times> 'w Sys \<Rightarrow> 'w step_result" where
  "terminal r = (case r of (state, err, s) \<Rightarrow> (state, True, err, s))"

section \<open>One step\<close>

definition queryExecutionTools :: "ToolName list" where
  "queryExecutionTools = [ToolQueryExecute, ''run_question'', ''run_logical_query'', ''run_skill'']"

definition toolStartsQueryExecution :: "ToolName \<Rightarrow> bool" where
  "toolStartsQueryExecution tool = (tool \<in> set queryExecutionTools)"

definition runClarificationStep ::
  "'w Env \<Rightarrow> RunContext \<Rightarrow> string \<Rightarrow> RuntimeState \<Rightarrow> Clarification option \<Rightarrow> 'w Sys \<Rightarrow> 'w step_result" where
  "runClarificationStep env run runID state0 clarification s0 =
     (let state = state0\<lparr>ClarificationRounds := ClarificationRounds state0 + 1\<rparr>;
          s = emit (ClarificationRoundMetric (ClarificationRounds state)) s0
      in
      if ClarificationRounds state > rc_MaxClarificationRounds run then
        terminal (finalizeFail env True runID (state\<lparr>PendingClarification := None\<rparr>)
          ''max_clarification_rounds_exceeded'' ''exceeded the maximum number of clarification rounds'' s)
      else
        (let state' = state\<lparr>PendingClarification := clarification\<rparr>;
             (err, s1) = doSave env True runID state' s
         in (state', True, map_option SaveError err, s1)))"

definition setLast :: "(RuntimeStep \<Rightarrow> RuntimeStep) \<Rightarrow> RuntimeState \<Rightarrow> RuntimeState" where
  "setLast f state = state\<lparr>Steps := (Steps state)[length (Steps state) - 1 := f (last (Steps state))]\<rparr>"

text \<open>The outcome of the dispatch, after the proposal has been recorded.\<close>

definition recordOutcome ::
  "'w Env \<Rightarrow> string \<Rightarrow> RuntimeState \<Rightarrow> (tool_error + Observation) \<Rightarrow> 'w Sys \<Rightarrow> 'w step_result" where
  "recordOutcome env runID state outcome s =
     (case outcome of
        Inl (PolicyDenied t reason) \<Rightarrow>
          (let state' = setLast (\<lambda>x. x\<lparr>st_DeniedReason := reason\<rparr>) state;
               (err, s1) = doSave env True runID state' (emit (PolicyDenialMetric reason) s)
           in case err of
                Some e \<Rightarrow> (state', True, Some (SaveAfterDenialError e), s1)
              | None \<Rightarrow> (state', False, None, emit (Notified (last (Steps state'))) s1))
      | Inl err \<Rightarrow>
          (let state' = setLast (\<lambda>x. x\<lparr>st_Error := toolErrorText err\<rparr>) state
           in terminal (finalizeFail env True runID state' ''tool_error'' (toolErrorText err)
                (emit (Notified (last (Steps state'))) s)))
      | Inr obs \<Rightarrow>
          (let state' = setLast (\<lambda>x. x\<lparr>st_Observation := Some obs\<rparr>) state;
               (err, s1) = doSave env True runID state' s
           in case err of
                Some e \<Rightarrow> (state', True, Some (SaveAfterDispatchError e), s1)
              | None \<Rightarrow> (state', False, None, emit (Notified (last (Steps state'))) s1)))"

definition newStep :: "RuntimeState \<Rightarrow> Proposal \<Rightarrow> RuntimeStep" where
  "newStep state proposal = \<lparr>st_Seq = nextSeq state, st_Proposal = proposal, st_Observation = None,
     st_DeniedReason = [], st_Error = [], st_DurationMs = 0\<rparr>"

definition recordProposal :: "RuntimeState \<Rightarrow> Proposal \<Rightarrow> RuntimeState" where
  "recordProposal state proposal =
     state\<lparr>Steps := Steps state @ [newStep state proposal],
           QueryExecuteStarted := (toolStartsQueryExecution (p_Tool proposal) \<or> QueryExecuteStarted state)\<rparr>"

text \<open>\<open>Duration.Milliseconds\<close>, towards zero.\<close>

definition milliseconds :: "int \<Rightarrow> int" where
  "milliseconds ns = (if ns < 0 then - ((- ns) div 1000000) else ns div 1000000)"

definition runToolStep ::
  "'w Env \<Rightarrow> RunContext \<Rightarrow> string \<Rightarrow> RuntimeState \<Rightarrow> Proposal option \<Rightarrow> 'w Sys \<Rightarrow> 'w step_result" where
  "runToolStep env run runID state0 proposalPtr s0 =
     (if toolStepCount state0 \<ge> rc_MaxSteps run then
        terminal (finalizeFail env True runID state0 ''max_steps_exceeded''
          ''exceeded the maximum number of planner steps'' s0)
      else
        (case proposalPtr of
           None \<Rightarrow> (state0, True, Some NilDereference, s0)
         | Some proposal \<Rightarrow>
             (let state = recordProposal state0 proposal;
                  (err, s1) = doSave env True runID state s0
              in case err of
                   Some e \<Rightarrow> (state, True, Some (SaveBeforeDispatchError e), s1)
                 | None \<Rightarrow>
                     (let (start, s2) = doNow env (emit (Notified (newStep state0 proposal)) s1);
                          (outcome, s3) = Execute env run proposal s2;
                          (stop, s4) = doNow env s3;
                          elapsed = stop - start;
                          state' = setLast (\<lambda>x. x\<lparr>st_DurationMs := milliseconds elapsed\<rparr>) state
                      in recordOutcome env runID state' outcome
                           (emit (StepDurationMetric (p_Tool proposal) elapsed) s4)))))"

definition failDecision ::
  "'w Env \<Rightarrow> string \<Rightarrow> RuntimeState \<Rightarrow> Failure option \<Rightarrow> 'w Sys \<Rightarrow> 'w step_result" where
  "failDecision env runID state failure s =
     (let state' = state\<lparr>Terminal := Some \<lparr>tr_Kind = DecisionFail, tr_Final = None, tr_Failure = failure\<rparr>\<rparr>;
          (err, s1) = doSave env True runID state' s
      in case err of
           Some e \<Rightarrow> (state', True, Some (SaveError e), s1)
         | None \<Rightarrow>
             (let s2 = emit (RunTerminalMetric ''failed'') s1
              in (state', True, None,
                  (case failure of None \<Rightarrow> s2 | Some f \<Rightarrow> emit (TerminalFailureMetric (fa_ReasonCode f)) s2))))"

definition dispatchDecision ::
  "'w Env \<Rightarrow> RunContext \<Rightarrow> string \<Rightarrow> RuntimeState \<Rightarrow> PlannerDecision \<Rightarrow> 'w Sys \<Rightarrow> 'w step_result" where
  "dispatchDecision env run runID state decision s =
     (if pd_Kind decision = DecisionClarification then
        runClarificationStep env run runID state (pd_Clarification decision) s
      else if pd_Kind decision = DecisionFinal then
        terminal (finalizeOK env runID state (pd_Final decision) s)
      else if pd_Kind decision = DecisionFail then failDecision env runID state (pd_Failure decision) s
      else if pd_Kind decision = DecisionTool then
        runToolStep env run runID state (pd_Proposal decision) s
      else
        terminal (finalizeFail env True runID state ''invalid_decision_kind''
          (''planner returned unknown decision kind '' @ Quote (pd_Kind decision)) s))"

text \<open>One planning attempt and, after an error, a second one.\<close>

definition planOnce ::
  "'w Env \<Rightarrow> RunContext \<Rightarrow> RuntimeState \<Rightarrow> 'w Sys \<Rightarrow> (string + PlannerDecision) \<times> 'w Sys" where
  "planOnce env run state s =
     (let (r, s1) = doDecide env run (Steps state) s in
      case r of
        Inr _ \<Rightarrow> (r, s1)
      | Inl _ \<Rightarrow> doDecide env run (Steps state) s1)"

definition pastDeadline :: "'w Env \<Rightarrow> int option \<Rightarrow> 'w Sys \<Rightarrow> bool \<times> 'w Sys" where
  "pastDeadline env deadline s =
     (case deadline of
        None \<Rightarrow> (False, s)
      | Some d \<Rightarrow> (let (now, s1) = doNow env s in (now \<ge> d, s1)))"

definition step ::
  "'w Env \<Rightarrow> RunContext \<Rightarrow> string \<Rightarrow> int option \<Rightarrow> RuntimeState \<Rightarrow> 'w Sys \<Rightarrow> 'w step_result" where
  "step env run runID deadline state s0 =
     (let (cerr, s1) = doCtxErr env s0 in
      case cerr of
        Some e \<Rightarrow> terminal (abandonOrFail env runID state ''context_canceled'' e s1)
      | None \<Rightarrow>
          (let (late, s2) = pastDeadline env deadline s1 in
           if late then
             terminal (finalizeFail env True runID state ''timeout'' ''run exceeded its time budget'' s2)
           else
             (let (r, s3) = planOnce env run state s2 in
              case r of
                Inl derr \<Rightarrow> terminal (abandonOrFail env runID state ''planner_error'' derr s3)
              | Inr decision \<Rightarrow> dispatchDecision env run runID state decision s3)))"

section \<open>The step relation\<close>

text \<open>What one step may do, as a relation: the state and the events before, the events it adds, the state
  after, whether the loop is done and the error. \<open>quiet\<close> events are the ones that neither persist nor
  dispatch.\<close>

fun quiet :: "event \<Rightarrow> bool" where
  "quiet (Saved own st ok) = False"
| "quiet (Dispatched t a) = False"
| "quiet _ = True"

definition dispatchOf :: "Codec \<Rightarrow> RunContext \<Rightarrow> Proposal \<Rightarrow> event list \<Rightarrow> bool" where
  "dispatchOf codec run p evs =
     (evs = [] \<or>
      (\<exists>cerr. Allowed (Evaluate codec cerr run p) \<and>
         evs = [Dispatched (p_Tool p) (Arguments (Evaluate codec cerr run p))]))"

definition sameRun :: "RuntimeState \<Rightarrow> RuntimeState \<Rightarrow> bool" where
  "sameRun st st' = (QueryExecuteStarted st' = QueryExecuteStarted st \<and>
     ClarificationRounds st' = ClarificationRounds st \<and> PendingClarification st' = PendingClarification st \<and>
     ClarificationHistory st' = ClarificationHistory st)"

definition closes :: "RuntimeState \<Rightarrow> RuntimeState \<Rightarrow> bool" where
  "closes st st' = (\<exists>t. tr_Kind t \<in> {DecisionFinal, DecisionFail} \<and> st' = st\<lparr>Terminal := Some t\<rparr>)"

definition givingUp :: "RuntimeState \<Rightarrow> RuntimeState" where
  "givingUp st = st\<lparr>ClarificationRounds := ClarificationRounds st + 1, PendingClarification := None\<rparr>"

inductive outcome ::
  "Codec \<Rightarrow> RunContext \<Rightarrow> RuntimeState \<Rightarrow> event list \<Rightarrow> RuntimeState \<Rightarrow> bool \<Rightarrow> rt_error option \<Rightarrow> bool"
  for codec run st where
  abandoned: "\<not> QueryExecuteStarted st \<Longrightarrow> outcome codec run st [] st True (Some (Cause c))"
| nilProposal: "int (length (Steps st)) < rc_MaxSteps run \<Longrightarrow> outcome codec run st [] st True (Some NilDereference)"
| finished: "base = st \<or> base = givingUp st \<Longrightarrow> closes base st' \<Longrightarrow> list_all quiet pre \<Longrightarrow> list_all quiet post \<Longrightarrow>
    err = (if ok then None else Some (SaveError m)) \<Longrightarrow>
    outcome codec run st (pre @ Saved own st' ok # post) st' True err"
| paused: "st' = st\<lparr>ClarificationRounds := ClarificationRounds st + 1, PendingClarification := c\<rparr> \<Longrightarrow>
    list_all quiet pre \<Longrightarrow> ClarificationRounds st' \<le> rc_MaxClarificationRounds run \<Longrightarrow>
    err = (if ok then None else Some (SaveError m)) \<Longrightarrow>
    outcome codec run st (pre @ [Saved True st' ok]) st' True err"
| unrecorded: "int (length (Steps st)) < rc_MaxSteps run \<Longrightarrow> st' = recordProposal st p \<Longrightarrow>
    outcome codec run st [Saved True st' False] st' True (Some (SaveBeforeDispatchError m))"
| dispatched: "int (length (Steps st)) < rc_MaxSteps run \<Longrightarrow> dispatchOf codec run p disp \<Longrightarrow>
    st_Seq x = nextSeq st \<Longrightarrow> st_Proposal x = p \<Longrightarrow>
    Steps st' = Steps st @ [x] \<Longrightarrow> sameRun (recordProposal st p) st' \<Longrightarrow>
    list_all quiet pre \<Longrightarrow> list_all quiet mid \<Longrightarrow> list_all quiet post \<Longrightarrow>
    Terminal st' = Terminal st \<and> done = (\<not> ok) \<or> closes (st'\<lparr>Terminal := Terminal st\<rparr>) st' \<and> done \<Longrightarrow>
    (if ok then err = None else err \<noteq> None \<and> err \<noteq> Some NilDereference \<and> (\<forall>c. err \<noteq> Some (Cause c))) \<Longrightarrow>
    outcome codec run st
      (Saved True (recordProposal st p) True # pre @ disp @ mid @ Saved True st' ok # post) st' done err"

inductive_cases outcomeE: "outcome codec run st evs st' done err"

section \<open>The steps of the code refine the relation\<close>

lemma trace_emit [simp]: "trace (emit e s) = trace s @ [e]"
  by (simp add: emit_def)

lemma trace_doCtxErr: "doCtxErr env s = (r, s') \<Longrightarrow> trace s' = trace s"
  by (auto simp: doCtxErr_def split: prod.splits)

lemma trace_doNow: "doNow env s = (r, s') \<Longrightarrow> trace s' = trace s"
  by (auto simp: doNow_def split: prod.splits)

lemma trace_doDecide: "doDecide env run h s = (r, s') \<Longrightarrow> trace s' = trace s"
  by (auto simp: doDecide_def split: prod.splits)

lemma trace_planOnce: "planOnce env run st s = (r, s') \<Longrightarrow> trace s' = trace s"
  by (auto simp: planOnce_def dest!: trace_doDecide split: prod.splits sum.splits)

lemma trace_pastDeadline: "pastDeadline env dl s = (r, s') \<Longrightarrow> trace s' = trace s"
  by (auto simp: pastDeadline_def dest!: trace_doNow split: prod.splits option.splits)

lemma trace_doLoad: "doLoad env runID s = (r, s') \<Longrightarrow> trace s' = trace s"
  by (auto simp: doLoad_def split: prod.splits)

lemma trace_doSave: "doSave env own runID st s = (r, s') \<Longrightarrow> trace s' = trace s @ [Saved own st (r = None)]"
  by (auto simp: doSave_def split: prod.splits)

lemmas trace_calls = trace_doCtxErr trace_doNow trace_doDecide trace_planOnce trace_pastDeadline trace_doSave

text \<open>The shape shared by everything that ends a run: persist the closed state, then only metrics.\<close>

definition endsWith ::
  "RuntimeState \<Rightarrow> bool \<Rightarrow> 'w Sys \<Rightarrow> RuntimeState \<Rightarrow> rt_error option \<Rightarrow> 'w Sys \<Rightarrow> bool" where
  "endsWith st own s st' err s' =
     (closes st st' \<and>
      (\<exists>ok post m. trace s' = trace s @ Saved own st' ok # post \<and> list_all quiet post \<and>
         err = (if ok then None else Some (SaveError m))))"

lemma endsWithI:
  "closes st st' \<Longrightarrow> trace s' = trace s @ Saved own st' ok # post \<Longrightarrow> list_all quiet post \<Longrightarrow>
   err = (if ok then None else Some (SaveError m)) \<Longrightarrow> endsWith st own s st' err s'"
  unfolding endsWith_def by blast

lemma closesI: "tr_Kind t \<in> {DecisionFinal, DecisionFail} \<Longrightarrow> closes st (st\<lparr>Terminal := Some t\<rparr>)"
  unfolding closes_def by blast

lemma finalizeFail_ends: "finalizeFail env own runID st rc msg s = (st', err, s') \<Longrightarrow> endsWith st own s st' err s'"
  by (auto simp: finalizeFail_def Let_def dest!: trace_doSave split: prod.splits option.splits
      intro!: endsWithI closesI)

lemma finalizeOK_ends: "finalizeOK env runID st f s = (st', err, s') \<Longrightarrow> endsWith st True s st' err s'"
  by (auto simp: finalizeOK_def Let_def dest!: trace_doSave split: prod.splits option.splits
      intro!: endsWithI closesI)

lemma failDecision_ends:
  "failDecision env runID st f s = (st', done, err, s') \<Longrightarrow> done \<and> endsWith st True s st' err s'"
  by (auto simp: failDecision_def Let_def dest!: trace_doSave split: prod.splits option.splits
      intro!: endsWithI closesI)

text \<open>The refinement statement for a part of a step.\<close>

definition refines ::
  "Codec \<Rightarrow> RunContext \<Rightarrow> RuntimeState \<Rightarrow> 'w Sys \<Rightarrow> 'w step_result \<Rightarrow> bool" where
  "refines codec run st s r =
     (case r of (st', done, err, s') \<Rightarrow>
        \<exists>evs. trace s' = trace s @ evs \<and> outcome codec run st evs st' done err)"

lemma refinesI:
  "trace s' = trace s @ evs \<Longrightarrow> outcome codec run st evs st' done err \<Longrightarrow>
   refines codec run st s (st', done, err, s')"
  unfolding refines_def by blast

lemma refines_trace: "trace s = trace s0 \<Longrightarrow> refines codec run st s r \<Longrightarrow> refines codec run st s0 r"
  by (simp add: refines_def)

lemma endsWith_refines:
  assumes "endsWith base own s st' err s'" "base = st \<or> base = givingUp st" "trace s = trace s0 @ pre" "list_all quiet pre"
  shows "refines codec run st s0 (st', True, err, s')"
proof -
  obtain ok post m where e: "closes base st'" "trace s' = trace s @ Saved own st' ok # post" "list_all quiet post"
    "err = (if ok then None else Some (SaveError m))"
    using assms(1) unfolding endsWith_def by auto
  show ?thesis
    by (rule refinesI [of _ _ "pre @ Saved own st' ok # post"], simp add: e(2) assms(3),
        rule outcome.finished [OF assms(2) e(1) assms(4) e(3,4)])
qed

lemma terminal_finalizeFail_refines:
  "base = st \<or> base = givingUp st \<Longrightarrow> trace s = trace s0 @ pre \<Longrightarrow> list_all quiet pre \<Longrightarrow>
   refines codec run st s0 (terminal (finalizeFail env own runID base rc msg s))"
  by (cases "finalizeFail env own runID base rc msg s")
     (auto simp: terminal_def intro: endsWith_refines [OF finalizeFail_ends])

lemma terminal_finalizeOK_refines: "refines codec run st s (terminal (finalizeOK env runID st f s))"
  by (cases "finalizeOK env runID st f s")
     (auto simp: terminal_def intro: endsWith_refines [OF finalizeOK_ends, of _ _ _ _ _ _ _ _ _ _ "[]"])

lemma failDecision_refines: "refines codec run st s (failDecision env runID st f s)"
proof -
  obtain st' fin err s' where r: "failDecision env runID st f s = (st', fin, err, s')" by (rule prod_cases4)
  show ?thesis
    using failDecision_ends [OF r] endsWith_refines [of st True s st' err s' st s "[]" codec run] r by simp
qed

lemma abandonOrFail_refines: "refines codec run st s (terminal (abandonOrFail env runID st r c s))"
proof (cases "QueryExecuteStarted st")
  case True
  then show ?thesis
    using terminal_finalizeFail_refines [of st st s s "[]"] by (simp add: abandonOrFail_def)
next
  case False
  then show ?thesis
    by (simp add: abandonOrFail_def terminal_def) (rule refinesI [of _ _ "[]"], simp, rule outcome.abandoned)
qed

lemma runClarificationStep_refines: "refines codec run st s (runClarificationStep env run runID st c s)"
proof (cases "ClarificationRounds st + 1 > rc_MaxClarificationRounds run")
  case True
  then show ?thesis
    using terminal_finalizeFail_refines
      [of "givingUp st" st "emit (ClarificationRoundMetric (ClarificationRounds st + 1)) s" s
          "[ClarificationRoundMetric (ClarificationRounds st + 1)]"]
    by (simp add: runClarificationStep_def givingUp_def)
next
  case False
  let ?st' = "st\<lparr>ClarificationRounds := ClarificationRounds st + 1, PendingClarification := c\<rparr>"
  let ?m = "ClarificationRoundMetric (ClarificationRounds st + 1)"
  obtain e s1 where save: "doSave env True runID ?st' (emit ?m s) = (e, s1)" by (cases "doSave env True runID ?st' (emit ?m s)")
  have "outcome codec run st ([?m] @ [Saved True ?st' (e = None)]) ?st' True (map_option SaveError e)"
    by (rule outcome.paused [OF refl, where m = "the e"]) (use False in \<open>auto split: option.splits\<close>)
  then have "refines codec run st s (?st', True, map_option SaveError e, s1)"
    by (rule refinesI [rotated]) (simp add: trace_doSave [OF save])
  then show ?thesis using False save by (simp add: runClarificationStep_def Let_def)
qed

lemma setLast_Steps: "Steps st = xs @ [x] \<Longrightarrow> Steps (setLast f st) = xs @ [f x]"
  by (simp add: setLast_def)

lemma setLast_other [simp]:
  "Terminal (setLast f st) = Terminal st" "sameRun st0 (setLast f st) = sameRun st0 st"
  by (simp_all add: setLast_def sameRun_def)

lemma Execute_dispatch:
  assumes "Execute env run p s = (r, s')"
  shows "\<exists>disp. trace s' = trace s @ disp \<and> dispatchOf (e_Codec env) run p disp"
proof -
  obtain cerr s1 where c: "doCtxErr env s = (cerr, s1)" by (cases "doCtxErr env s")
  let ?d = "Evaluate (e_Codec env) cerr run p"
  show ?thesis
  proof (cases "Allowed ?d \<and> e_Tools env (p_Tool p) \<noteq> None")
    case True
    then have "trace s' = trace s @ [Dispatched (p_Tool p) (Arguments ?d)]"
      using assms trace_doCtxErr [OF c] by (auto simp: Execute_def c Let_def split: prod.splits)
    then show ?thesis using True unfolding dispatchOf_def by blast
  next
    case False
    then have "trace s' = trace s @ []"
      using assms trace_doCtxErr [OF c] by (auto simp: Execute_def c Let_def split: if_splits)
    then show ?thesis unfolding dispatchOf_def by blast
  qed
qed

text \<open>A step whose proposal has been recorded and dispatched, up to the moment its outcome is known.\<close>

definition inFlight ::
  "Codec \<Rightarrow> RunContext \<Rightarrow> RuntimeState \<Rightarrow> Proposal \<Rightarrow> RuntimeState \<Rightarrow> event list \<Rightarrow> bool" where
  "inFlight codec run st p cur evs =
     (int (length (Steps st)) < rc_MaxSteps run \<and>
      (\<exists>x. Steps cur = Steps st @ [x] \<and> st_Seq x = nextSeq st \<and> st_Proposal x = p) \<and>
      sameRun (recordProposal st p) cur \<and> Terminal cur = Terminal st \<and>
      (\<exists>pre disp mid. evs = Saved True (recordProposal st p) True # pre @ disp @ mid \<and>
         list_all quiet pre \<and> list_all quiet mid \<and> dispatchOf codec run p disp))"

lemma inFlight_quiet:
  assumes "inFlight codec run st p cur evs" "quiet e"
  shows "inFlight codec run st p cur (evs @ [e])"
proof -
  obtain pre disp mid where e: "evs = Saved True (recordProposal st p) True # pre @ disp @ mid"
    "list_all quiet pre" "list_all quiet mid" "dispatchOf codec run p disp"
    using assms(1) unfolding inFlight_def by blast
  then have "evs @ [e] = Saved True (recordProposal st p) True # pre @ disp @ (mid @ [e])" "list_all quiet (mid @ [e])"
    using assms(2) by simp_all
  then show ?thesis using assms(1) e(2,4) unfolding inFlight_def by blast
qed

lemma inFlight_setLast:
  assumes "inFlight codec run st p cur evs" "\<And>x. st_Seq (f x) = st_Seq x \<and> st_Proposal (f x) = st_Proposal x"
  shows "inFlight codec run st p (setLast f cur) evs"
proof -
  obtain x where "Steps cur = Steps st @ [x]" "st_Seq x = nextSeq st" "st_Proposal x = p"
    using assms(1) unfolding inFlight_def by blast
  then have "Steps (setLast f cur) = Steps st @ [f x]" "st_Seq (f x) = nextSeq st" "st_Proposal (f x) = p"
    using setLast_Steps assms(2) by auto
  then show ?thesis using assms(1) unfolding inFlight_def by auto
qed

lemma inFlight_ends:
  assumes f: "inFlight codec run st p cur evs"
    and t: "trace s' = trace s0 @ evs @ Saved True st' ok # post" "list_all quiet post"
    and e: "if ok then err = None else err \<noteq> None \<and> err \<noteq> Some NilDereference \<and> (\<forall>c. err \<noteq> Some (Cause c))"
    and r: "st' = cur \<and> fin = (\<not> ok) \<or> closes cur st' \<and> fin"
  shows "refines codec run st s0 (st', fin, err, s')"
proof -
  obtain x where x: "Steps cur = Steps st @ [x]" "st_Seq x = nextSeq st" "st_Proposal x = p"
    using f unfolding inFlight_def by blast
  obtain pre disp mid where v: "evs = Saved True (recordProposal st p) True # pre @ disp @ mid"
    "list_all quiet pre" "list_all quiet mid" "dispatchOf codec run p disp"
    using f unfolding inFlight_def by blast
  have cur: "int (length (Steps st)) < rc_MaxSteps run" "sameRun (recordProposal st p) cur" "Terminal cur = Terminal st"
    using f unfolding inFlight_def by blast+
  have st': "Steps st' = Steps st @ [x]" "sameRun (recordProposal st p) st'"
    using r x(1) cur(2) by (auto simp: closes_def sameRun_def)
  have "Terminal st' = Terminal st \<and> fin = (\<not> ok) \<or> closes (st'\<lparr>Terminal := Terminal st\<rparr>) st' \<and> fin"
    using r cur(3) by (auto simp: closes_def)
  then have "outcome codec run st (Saved True (recordProposal st p) True # pre @ disp @ mid @ Saved True st' ok # post)
      st' fin err"
    by (rule outcome.dispatched [OF cur(1) v(4) x(2,3) st' v(2,3) t(2) _ e])
  then show ?thesis by (rule refinesI [rotated]) (simp add: t(1) v(1))
qed

lemma recordOutcome_refines:
  assumes f: "inFlight codec run st p cur evs" and t: "trace s = trace s0 @ evs"
  shows "refines codec run st s0 (recordOutcome env runID cur out s)"
proof (cases "\<exists>tool reason. out = Inl (PolicyDenied tool reason)")
  case True
  then obtain tool reason where out: "out = Inl (PolicyDenied tool reason)" by blast
  let ?cur = "setLast (\<lambda>x. x\<lparr>st_DeniedReason := reason\<rparr>) cur" and ?m = "PolicyDenialMetric reason"
  have f': "inFlight codec run st p ?cur (evs @ [?m])"
    by (rule inFlight_quiet, rule inFlight_setLast [OF f]) simp_all
  obtain e s1 where save: "doSave env True runID ?cur (emit ?m s) = (e, s1)"
    by (cases "doSave env True runID ?cur (emit ?m s)")
  show ?thesis
    using trace_doSave [OF save] t
    by (cases e) (auto simp: recordOutcome_def out save Let_def intro!: inFlight_ends [OF f', where ok = "e = None"])
next
  case denied: False
  show ?thesis
  proof (cases out)
    case (Inl err)
    let ?cur = "setLast (\<lambda>x. x\<lparr>st_Error := toolErrorText err\<rparr>) cur"
    let ?n = "Notified (last (Steps ?cur))"
    have f': "inFlight codec run st p ?cur (evs @ [?n])"
      by (rule inFlight_quiet, rule inFlight_setLast [OF f]) simp_all
    obtain st' e s' where r: "finalizeFail env True runID ?cur ''tool_error'' (toolErrorText err) (emit ?n s) = (st', e, s')"
      by (rule prod_cases3)
    have eq: "recordOutcome env runID cur out s = (st', True, e, s')"
      using denied Inl r by (cases err) (simp_all add: recordOutcome_def terminal_def Let_def)
    obtain ok post m where v: "closes ?cur st'" "trace s' = trace (emit ?n s) @ Saved True st' ok # post"
      "list_all quiet post" "e = (if ok then None else Some (SaveError m))"
      using finalizeFail_ends [OF r] unfolding endsWith_def by blast
    show ?thesis
      unfolding eq by (rule inFlight_ends [OF f' _ v(3), where ok = ok]) (use v t in auto)
  next
    case (Inr obs)
    let ?cur = "setLast (\<lambda>x. x\<lparr>st_Observation := Some obs\<rparr>) cur"
    have f': "inFlight codec run st p ?cur evs" by (rule inFlight_setLast [OF f]) simp
    obtain e s1 where save: "doSave env True runID ?cur s = (e, s1)" by (cases "doSave env True runID ?cur s")
    show ?thesis
      using trace_doSave [OF save] t
      by (cases e) (auto simp: recordOutcome_def Inr save Let_def intro!: inFlight_ends [OF f', where ok = "e = None"])
  qed
qed

lemma runToolStep_refines: "refines (e_Codec env) run st s (runToolStep env run runID st pp s)"
proof (cases "toolStepCount st \<ge> rc_MaxSteps run")
  case True
  then show ?thesis
    using terminal_finalizeFail_refines [of st st s s "[]"] by (simp add: runToolStep_def)
next
  case False
  then have n: "int (length (Steps st)) < rc_MaxSteps run" by (simp add: toolStepCount_def)
  show ?thesis
  proof (cases pp)
    case None
    have "refines (e_Codec env) run st s (st, True, Some NilDereference, s)"
      by (rule refinesI [of _ _ "[]"], simp, rule outcome.nilProposal [OF n])
    then show ?thesis using False None by (simp add: runToolStep_def)
  next
    case (Some p)
    let ?rec = "recordProposal st p" and ?n = "Notified (newStep st p)"
    obtain e s1 where save: "doSave env True runID ?rec s = (e, s1)" by (cases "doSave env True runID ?rec s")
    show ?thesis
    proof (cases e)
      case (Some m)
      have "refines (e_Codec env) run st s (?rec, True, Some (SaveBeforeDispatchError m), s1)"
        by (rule refinesI, simp add: trace_doSave [OF save] Some, rule outcome.unrecorded [OF n refl])
      then show ?thesis using False \<open>pp = Some p\<close> Some save by (simp add: runToolStep_def)
    next
      case None
      obtain start s2 where s2: "doNow env (emit ?n s1) = (start, s2)" by (cases "doNow env (emit ?n s1)")
      obtain out s3 where s3: "Execute env run p s2 = (out, s3)" by (cases "Execute env run p s2")
      obtain stop s4 where s4: "doNow env s3 = (stop, s4)" by (cases "doNow env s3")
      let ?cur = "setLast (\<lambda>x. x\<lparr>st_DurationMs := milliseconds (stop - start)\<rparr>) ?rec"
      let ?d = "StepDurationMetric (p_Tool p) (stop - start)"
      obtain disp where d: "trace s3 = trace s2 @ disp" "dispatchOf (e_Codec env) run p disp"
        using Execute_dispatch [OF s3] by blast
      have "inFlight (e_Codec env) run st p ?rec (Saved True ?rec True # [?n] @ disp @ [?d])"
        unfolding inFlight_def
      proof (intro conjI exI)
        show "Steps ?rec = Steps st @ [newStep st p]" by (simp add: recordProposal_def)
        show "Saved True ?rec True # [?n] @ disp @ [?d] = Saved True ?rec True # [?n] @ disp @ [?d]" by (rule refl)
      qed (use n d(2) in \<open>simp_all add: newStep_def recordProposal_def sameRun_def\<close>)
      then have f: "inFlight (e_Codec env) run st p ?cur (Saved True ?rec True # [?n] @ disp @ [?d])"
        by (rule inFlight_setLast) simp
      have "trace (emit ?d s4) = trace s @ Saved True ?rec True # [?n] @ disp @ [?d]"
        using trace_doSave [OF save] None trace_doNow [OF s2] trace_doNow [OF s4] d(1) by simp
      from recordOutcome_refines [OF f this, of env runID out] show ?thesis
        using False \<open>pp = Some p\<close> None save s2 s3 s4 by (simp add: runToolStep_def Let_def)
    qed
  qed
qed

lemma dispatchDecision_refines: "refines (e_Codec env) run st s (dispatchDecision env run runID st d s)"
  using runClarificationStep_refines [of "e_Codec env" run st s env runID "pd_Clarification d"]
    terminal_finalizeOK_refines [of "e_Codec env" run st s env runID "pd_Final d"]
    failDecision_refines [of "e_Codec env" run st s env runID "pd_Failure d"]
    runToolStep_refines [of env run st s runID "pd_Proposal d"]
    terminal_finalizeFail_refines [of st st s s "[]" "e_Codec env" run env True runID]
  by (simp add: dispatchDecision_def)

lemma step_refines: "refines (e_Codec env) run st s (step env run runID dl st s)"
proof -
  obtain cerr s1 where c: "doCtxErr env s = (cerr, s1)" by (cases "doCtxErr env s")
  obtain late s2 where l: "pastDeadline env dl s1 = (late, s2)" by (cases "pastDeadline env dl s1")
  obtain r s3 where p: "planOnce env run st s2 = (r, s3)" by (cases "planOnce env run st s2")
  note t = trace_doCtxErr [OF c] trace_pastDeadline [OF l] trace_planOnce [OF p]
  show ?thesis
  proof (cases cerr)
    case (Some e)
    then show ?thesis
      using refines_trace [OF t(1) abandonOrFail_refines] by (simp add: step_def c)
  next
    case None
    show ?thesis
    proof (cases late)
      case True
      then show ?thesis
        using None t terminal_finalizeFail_refines [of st st s2 s "[]"] by (simp add: step_def c l)
    next
      case False
      then show ?thesis
        using None t refines_trace [of s3 s, OF _ abandonOrFail_refines]
          refines_trace [of s3 s, OF _ dispatchDecision_refines]
        by (cases r) (simp_all add: step_def c l p)
    qed
  qed
qed

section \<open>The loop\<close>

lemma outcome_continues:
  "outcome codec run st evs st' False err \<Longrightarrow>
   length (Steps st') = Suc (length (Steps st)) \<and> int (length (Steps st)) < rc_MaxSteps run \<and> err = None \<and>
   Terminal st' = Terminal st"
  by (erule outcomeE) (auto split: if_splits)

lemma step_continues:
  assumes "step env run runID dl st s = (st', False, err, s')"
  shows "length (Steps st') = Suc (length (Steps st)) \<and> int (length (Steps st)) < rc_MaxSteps run"
  using step_refines [of env run st s runID dl] outcome_continues assms by (auto simp: refines_def)

function runLoop ::
  "'w Env \<Rightarrow> RunContext \<Rightarrow> string \<Rightarrow> int option \<Rightarrow> RuntimeState \<Rightarrow> 'w Sys \<Rightarrow> RuntimeState \<times> rt_error option \<times> 'w Sys" where
  "runLoop env run runID deadline state s =
     (case step env run runID deadline state s of
        (nxt, fin, err, s') \<Rightarrow>
          if fin \<or> err \<noteq> None then (nxt, err, s') else runLoop env run runID deadline nxt s')"
  by pat_completeness auto
termination
  by (relation "measure (\<lambda>(env, run, runID, dl, st, s). nat (rc_MaxSteps run - int (length (Steps st))))")
     (auto dest!: sym [of _ "step _ _ _ _ _ _"] step_continues)

declare runLoop.simps [simp del]

definition startState :: "RunContext \<Rightarrow> RuntimeState \<Rightarrow> RuntimeState" where
  "startState run state =
     (let state' = state\<lparr>PendingClarification := None\<rparr>
      in if rc_ClarificationHistory run \<noteq> []
         then state'\<lparr>ClarificationHistory := rc_ClarificationHistory run\<rparr> else state')"

definition Run ::
  "'w Env \<Rightarrow> RunContext \<Rightarrow> string \<Rightarrow> 'w Sys \<Rightarrow> RuntimeState \<times> rt_error option \<times> 'w Sys" where
  "Run env run runID s0 =
     (let (loaded, s1) = doLoad env runID s0 in
      case loaded of
        Inl e \<Rightarrow> (initialState, Some (LoadError e), s1)
      | Inr found \<Rightarrow>
          (let state = (case found of None \<Rightarrow> initialState | Some st \<Rightarrow> st) in
           if Terminal state \<noteq> None then (state, Some RunAlreadyTerminal, s1)
           else if rc_Timeout run > 0 then
             (let (now, s2) = doNow env s1
              in runLoop env run runID (Some (now + rc_Timeout run)) (startState run state) s2)
           else runLoop env run runID None (startState run state) s1))"

text \<open>The relation of a whole run: steps that continue, then one that ends it.\<close>

inductive runs ::
  "Codec \<Rightarrow> RunContext \<Rightarrow> RuntimeState \<Rightarrow> event list \<Rightarrow> RuntimeState \<Rightarrow> rt_error option \<Rightarrow> bool"
  for codec run where
  last: "outcome codec run st evs st' True err \<Longrightarrow> runs codec run st evs st' err"
| more: "outcome codec run st evs st1 False None \<Longrightarrow> runs codec run st1 evs' st' err \<Longrightarrow>
    runs codec run st (evs @ evs') st' err"

lemma runLoop_runs:
  "runLoop env run runID dl st s = (st', err, s') \<Longrightarrow>
   \<exists>evs. trace s' = trace s @ evs \<and> runs (e_Codec env) run st evs st' err"
proof (induction env run runID dl st s rule: runLoop.induct)
  case (1 env run runID dl st s)
  obtain nxt fin e s1 where st: "step env run runID dl st s = (nxt, fin, e, s1)" by (rule prod_cases4)
  obtain evs where o: "trace s1 = trace s @ evs" "outcome (e_Codec env) run st evs nxt fin e"
    using step_refines [of env run st s runID dl] st by (auto simp: refines_def)
  show ?case
  proof (cases "fin")
    case True
    then have "st' = nxt" "err = e" "s' = s1"
      using 1(2) st by (simp_all add: runLoop.simps [of env])
    then show ?thesis using o True runs.last by auto
  next
    case False
    then have "e = None" using outcome_continues o(2) by auto
    then have "runLoop env run runID dl nxt s1 = (st', err, s')"
      using 1(2) st False by (simp add: runLoop.simps [of env run runID dl st s])
    from 1(1) [OF st [symmetric] refl refl _ this] False \<open>e = None\<close>
    obtain evs' where "trace s' = trace s1 @ evs'" "runs (e_Codec env) run nxt evs' st' err" by auto
    then show ?thesis using o False \<open>e = None\<close> runs.more [of "e_Codec env" run st evs nxt evs' st' err] by auto
  qed
qed

section \<open>Invariants of runs\<close>

text \<open>Reading a trace: the last persisted state and whether persisting it succeeded.\<close>

fun savedAfter :: "(RuntimeState \<times> bool) option \<Rightarrow> event list \<Rightarrow> (RuntimeState \<times> bool) option" where
  "savedAfter ls [] = ls"
| "savedAfter ls (Saved own st ok # es) = savedAfter (Some (st, ok)) es"
| "savedAfter ls (e # es) = savedAfter ls es"

text \<open>A dispatch is covered by a persisted state that ends in the proposal being dispatched, with no
  outcome yet, and that says so when the tool runs a query.\<close>

definition covers :: "(RuntimeState \<times> bool) option \<Rightarrow> ToolName \<Rightarrow> bool" where
  "covers ls t =
     (case ls of
        None \<Rightarrow> False
      | Some (st, ok) \<Rightarrow>
          ok \<and> Steps st \<noteq> [] \<and> p_Tool (st_Proposal (last (Steps st))) = t \<and>
          st_Observation (last (Steps st)) = None \<and> (toolStartsQueryExecution t \<longrightarrow> QueryExecuteStarted st))"

fun ordered :: "(RuntimeState \<times> bool) option \<Rightarrow> event list \<Rightarrow> bool" where
  "ordered ls [] = True"
| "ordered ls (Saved own st ok # es) = ordered (Some (st, ok)) es"
| "ordered ls (Dispatched t a # es) = (covers ls t \<and> ordered ls es)"
| "ordered ls (e # es) = ordered ls es"

lemma savedAfter_append [simp]: "savedAfter ls (xs @ ys) = savedAfter (savedAfter ls xs) ys"
  by (induction ls xs rule: savedAfter.induct) auto

lemma ordered_append [simp]: "ordered ls (xs @ ys) = (ordered ls xs \<and> ordered (savedAfter ls xs) ys)"
  by (induction ls xs rule: ordered.induct) auto

lemma quiet_trace [simp]: "list_all quiet es \<Longrightarrow> savedAfter ls es = ls \<and> ordered ls es"
  by (induction ls es rule: ordered.induct) auto

lemma dispatchOf_trace:
  "dispatchOf codec run p disp \<Longrightarrow> savedAfter ls disp = ls \<and> (covers ls (p_Tool p) \<longrightarrow> ordered ls disp)"
  by (auto simp: dispatchOf_def)

lemma recordProposal_covers: "covers (Some (recordProposal st p, True)) (p_Tool p)"
  by (simp add: covers_def recordProposal_def newStep_def)

lemma outcome_ordered: "outcome codec run st evs st' fin err \<Longrightarrow> ordered ls evs"
  by (erule outcomeE) (auto simp: dispatchOf_trace recordProposal_covers)

lemma outcome_durable: "outcome codec run st evs st' fin None \<Longrightarrow> savedAfter ls evs = Some (st', True)"
  by (erule outcomeE) (auto simp: dispatchOf_trace split: if_splits)

text \<open>A call the policy engine approved, with the arguments it returned.\<close>

definition approved :: "Codec \<Rightarrow> RunContext \<Rightarrow> ToolName \<Rightarrow> raw \<Rightarrow> bool" where
  "approved codec run t a =
     (\<exists>p cerr. p_Tool p = t \<and> Allowed (Evaluate codec cerr run p) \<and> a = Arguments (Evaluate codec cerr run p))"

lemma approvedI: "Allowed (Evaluate codec cerr run p) \<Longrightarrow> approved codec run (p_Tool p) (Arguments (Evaluate codec cerr run p))"
  unfolding approved_def by blast

lemma quiet_no_dispatch: "list_all quiet es \<Longrightarrow> Dispatched t a \<notin> set es"
  by (induction es) auto

lemma dispatchOf_approved: "dispatchOf codec run p disp \<Longrightarrow> Dispatched t a \<in> set disp \<Longrightarrow> approved codec run t a"
  by (auto simp: dispatchOf_def intro: approvedI)

lemma outcome_allowed:
  "outcome codec run st evs st' fin err \<Longrightarrow> Dispatched t a \<in> set evs \<Longrightarrow> approved codec run t a"
  by (erule outcomeE) (auto simp: quiet_no_dispatch dest: dispatchOf_approved)

fun numberedFrom :: "nat \<Rightarrow> RuntimeStep list \<Rightarrow> bool" where
  "numberedFrom n [] = True"
| "numberedFrom n (x # xs) = (st_Seq x = int n + 1 \<and> numberedFrom (Suc n) xs)"

lemma outcome_steps:
  "outcome codec run st evs st' fin err \<Longrightarrow>
   \<exists>new. Steps st' = Steps st @ new \<and> numberedFrom (length (Steps st)) new \<and>
     (new \<noteq> [] \<longrightarrow> int (length (Steps st')) \<le> rc_MaxSteps run)"
  by (erule outcomeE)
     (auto simp: closes_def givingUp_def recordProposal_def newStep_def nextSeq_def)

lemma numberedFrom_append:
  "numberedFrom n xs \<Longrightarrow> numberedFrom (n + length xs) ys \<Longrightarrow> numberedFrom n (xs @ ys)"
  by (induction xs arbitrary: n) auto

lemma closes_Terminal: "closes st st' \<Longrightarrow> Terminal st' \<noteq> None"
  by (auto simp: closes_def)

text \<open>How a run may end once a query has been started.\<close>

definition settledEnd :: "RuntimeState \<Rightarrow> RuntimeState \<Rightarrow> rt_error option \<Rightarrow> bool" where
  "settledEnd st st' err = (err = None \<and> (Terminal st' \<noteq> None \<or> ClarificationRounds st' > ClarificationRounds st))"

lemma outcome_settled:
  "outcome codec run st evs st' True err \<Longrightarrow> QueryExecuteStarted st' \<Longrightarrow> err \<noteq> Some NilDereference \<Longrightarrow>
   (\<forall>own x. Saved own x False \<notin> set evs) \<Longrightarrow> settledEnd st st' err"
  by (erule outcomeE) (auto simp: settledEnd_def dest!: closes_Terminal split: if_splits)

lemma outcome_rounds: "outcome codec run st evs st' fin err \<Longrightarrow> ClarificationRounds st \<le> ClarificationRounds st'"
  by (erule outcomeE) (auto simp: closes_def givingUp_def recordProposal_def sameRun_def)

lemma runs_ordered: "runs codec run st evs st' err \<Longrightarrow> ordered ls evs"
  by (induction arbitrary: ls rule: runs.induct) (auto intro: outcome_ordered)

lemma runs_durable: "runs codec run st evs st' err \<Longrightarrow> err = None \<Longrightarrow> savedAfter ls evs = Some (st', True)"
  by (induction arbitrary: ls rule: runs.induct) (auto intro: outcome_durable)

lemma runs_allowed: "runs codec run st evs st' err \<Longrightarrow> Dispatched t a \<in> set evs \<Longrightarrow> approved codec run t a"
  by (induction rule: runs.induct) (auto dest: outcome_allowed)

lemma runs_steps:
  "runs codec run st evs st' err \<Longrightarrow>
   \<exists>new. Steps st' = Steps st @ new \<and> numberedFrom (length (Steps st)) new \<and>
     (new \<noteq> [] \<longrightarrow> int (length (Steps st')) \<le> rc_MaxSteps run)"
proof (induction rule: runs.induct)
  case (last st evs st' err)
  then show ?case by (rule outcome_steps)
next
  case (more st evs st1 evs' st' err)
  obtain a where a: "Steps st1 = Steps st @ a" "numberedFrom (length (Steps st)) a"
    "a \<noteq> [] \<longrightarrow> int (length (Steps st1)) \<le> rc_MaxSteps run"
    using outcome_steps [OF more(1)] by blast
  obtain b where b: "Steps st' = Steps st1 @ b" "numberedFrom (length (Steps st1)) b"
    "b \<noteq> [] \<longrightarrow> int (length (Steps st')) \<le> rc_MaxSteps run"
    using more.IH by blast
  show ?case
    by (rule exI [of _ "a @ b"]) (use a b numberedFrom_append in \<open>auto split: if_splits\<close>)
qed

lemma runs_settled:
  "runs codec run st evs st' err \<Longrightarrow> QueryExecuteStarted st' \<Longrightarrow> err \<noteq> Some NilDereference \<Longrightarrow>
   (\<forall>own x. Saved own x False \<notin> set evs) \<Longrightarrow> settledEnd st st' err"
proof (induction rule: runs.induct)
  case (last st evs st' err)
  then show ?case by (rule outcome_settled)
next
  case (more st evs st1 evs' st' err)
  then have "settledEnd st1 st' err" by auto
  then show ?case using outcome_rounds [OF more(1)] by (auto simp: settledEnd_def)
qed

text \<open>Invariants that every step keeps hold after every run; the interface names the one obligation.\<close>

locale state_invariant =
  fixes inv :: "RuntimeState \<Rightarrow> bool"
  assumes step_keeps: "outcome codec run st evs st' fin err \<Longrightarrow> inv st \<Longrightarrow> inv st'"
begin

lemma runs_keep: "runs codec run st evs st' err \<Longrightarrow> inv st \<Longrightarrow> inv st'"
  by (induction rule: runs.induct) (auto dest: step_keeps)

end

definition stepsNumbered :: "RuntimeState \<Rightarrow> bool" where
  "stepsNumbered st = numberedFrom 0 (Steps st)"

definition terminalKindOK :: "RuntimeState \<Rightarrow> bool" where
  "terminalKindOK st = (\<forall>t. Terminal st = Some t \<longrightarrow> tr_Kind t \<in> {DecisionFinal, DecisionFail})"

lemma closes_kind: "closes st st' \<Longrightarrow> \<exists>t. Terminal st' = Some t \<and> tr_Kind t \<in> {DecisionFinal, DecisionFail}"
  by (auto simp: closes_def)

interpretation numbering: state_invariant stepsNumbered
proof
  show "stepsNumbered st'" if "outcome codec run st evs st' fin err" "stepsNumbered st" for codec run st evs st' fin err
    using outcome_steps [OF that(1)] that(2) numberedFrom_append [of 0 "Steps st"] by (auto simp: stepsNumbered_def)
qed

interpretation kinds: state_invariant terminalKindOK
proof
  show "terminalKindOK st'" if "outcome codec run st evs st' fin err" "terminalKindOK st" for codec run st evs st' fin err
    using that by (elim outcomeE) (auto simp: terminalKindOK_def recordProposal_def dest!: closes_kind)
qed

section \<open>From the relation back to \<open>Run\<close>\<close>

definition loadedState :: "'w Env \<Rightarrow> string \<Rightarrow> 'w Sys \<Rightarrow> RuntimeState option" where
  "loadedState env runID s =
     (case fst (doLoad env runID s) of
        Inl e \<Rightarrow> None
      | Inr None \<Rightarrow> Some initialState
      | Inr (Some st) \<Rightarrow> Some st)"

lemma Run_loaded:
  assumes "Run env run runID s0 = (st', err, s')" and "loadedState env runID s0 = Some st" and "Terminal st = None"
  shows "\<exists>evs. trace s' = trace s0 @ evs \<and> runs (e_Codec env) run (startState run st) evs st' err"
proof -
  obtain l s1 where l: "doLoad env runID s0 = (l, s1)" by (cases "doLoad env runID s0")
  obtain found where f: "l = Inr found" "(case found of None \<Rightarrow> initialState | Some x \<Rightarrow> x) = st"
    using assms(2) l by (cases l) (auto simp: loadedState_def split: option.splits)
  obtain now s2 where n: "doNow env s1 = (now, s2)" by (cases "doNow env s1")
  have run: "Run env run runID s0 =
      (if rc_Timeout run > 0 then runLoop env run runID (Some (now + rc_Timeout run)) (startState run st) s2
       else runLoop env run runID None (startState run st) s1)"
    using l f n assms(3) by (simp add: Run_def Let_def)
  have t: "trace s1 = trace s0" "trace s2 = trace s0" using trace_doLoad [OF l] trace_doNow [OF n] by simp_all
  show ?thesis
  proof (cases "rc_Timeout run > 0")
    case True
    then show ?thesis using assms(1) run t runLoop_runs [of env run runID "Some (now + rc_Timeout run)" "startState run st" s2 st' err s'] by simp
  next
    case False
    then show ?thesis using assms(1) run t runLoop_runs [of env run runID None "startState run st" s1 st' err s'] by simp
  qed
qed

lemma Run_not_loaded:
  assumes "Run env run runID s0 = (st', err, s')" and "loadedState env runID s0 = None"
  shows "trace s' = trace s0 \<and> st' = initialState \<and> err \<noteq> None"
proof -
  obtain l s1 where l: "doLoad env runID s0 = (l, s1)" by (cases "doLoad env runID s0")
  then obtain e where "l = Inl e" using assms(2) by (cases l) (auto simp: loadedState_def split: option.splits)
  then show ?thesis using assms(1) l trace_doLoad [OF l] by (auto simp: Run_def)
qed

lemma Run_terminal:
  assumes "loadedState env runID s0 = Some st" and "Terminal st \<noteq> None"
  shows "\<exists>s'. Run env run runID s0 = (st, Some RunAlreadyTerminal, s') \<and> trace s' = trace s0"
proof -
  obtain l s1 where l: "doLoad env runID s0 = (l, s1)" by (cases "doLoad env runID s0")
  obtain found where f: "l = Inr found" "(case found of None \<Rightarrow> initialState | Some x \<Rightarrow> x) = st"
    using assms(1) l by (cases l) (auto simp: loadedState_def split: option.splits)
  show ?thesis using l f assms(2) trace_doLoad [OF l] by (simp add: Run_def Let_def)
qed

text \<open>What holds of the events of every run, whatever was loaded.\<close>

lemma Run_events:
  assumes "Run env run runID s0 = (st', err, s')"
  shows "\<exists>evs. trace s' = trace s0 @ evs \<and>
    (evs = [] \<or> (\<exists>st. runs (e_Codec env) run st evs st' err))"
proof (cases "loadedState env runID s0")
  case None
  then show ?thesis using Run_not_loaded [OF assms None] by simp
next
  case (Some st)
  show ?thesis
  proof (cases "Terminal st")
    case None
    then show ?thesis using Run_loaded [OF assms Some] by blast
  next
    case t: (Some t)
    then show ?thesis using Run_terminal [OF Some, of run] assms by auto
  qed
qed

lemma startState_simps [simp]:
  "Steps (startState run st) = Steps st" "ClarificationRounds (startState run st) = ClarificationRounds st"
  "QueryExecuteStarted (startState run st) = QueryExecuteStarted st" "Terminal (startState run st) = Terminal st"
  by (simp_all add: startState_def Let_def)

section \<open>A concrete run\<close>

definition toolDecision :: "Proposal \<Rightarrow> PlannerDecision" where
  "toolDecision p = noDecision\<lparr>pd_Kind := DecisionTool, pd_Proposal := Some p\<rparr>"

definition finalDecision :: PlannerDecision where
  "finalDecision = noDecision\<lparr>pd_Kind := DecisionFinal, pd_Final := Some \<lparr>fr_Answer = ''42'', fr_Confidence = 1\<rparr>\<rparr>"

text \<open>The world is a clock. The planner calls the query tool once and then answers.\<close>

definition example_env :: "int Env" where
  "example_env =
     \<lparr>e_CtxErr = (\<lambda>w. (None, w)), e_Now = (\<lambda>w. (w, w + 1000000)),
      e_Decide = (\<lambda>w run h. (Inr (if h = [] then toolDecision example_proposal else finalDecision), w)),
      e_Tools = [ToolQueryExecute \<mapsto> (\<lambda>w run a. (Inr \<lparr>ob_Tool = ToolQueryExecute, ob_Payload = a\<rparr>, w))],
      e_Save = (\<lambda>w own r st. (None, w)), e_Load = (\<lambda>w r. (Inr None, w)), e_Codec = example_codec\<rparr>"

definition example_sys :: "'w \<Rightarrow> 'w Sys" where
  "example_sys w = \<lparr>world = w, trace = []\<rparr>"

definition example_end :: RuntimeState where
  "example_end =
     \<lparr>Steps = [\<lparr>st_Seq = 1, st_Proposal = example_proposal,
                st_Observation = Some \<lparr>ob_Tool = ToolQueryExecute, ob_Payload = ''n''\<rparr>, st_DeniedReason = [],
                st_Error = [], st_DurationMs = 1\<rparr>],
      ClarificationRounds = 0, QueryExecuteStarted = True,
      Terminal = Some \<lparr>tr_Kind = DecisionFinal, tr_Final = Some \<lparr>fr_Answer = ''42'', fr_Confidence = 1\<rparr>, tr_Failure = None\<rparr>,
      PendingClarification = None, ClarificationHistory = []\<rparr>"

definition example_result :: "RuntimeState \<times> rt_error option \<times> int Sys" where
  "example_result = Run example_env example_run ''r'' (example_sys 0)"

lemma example_result_state: "fst example_result = example_end \<and> fst (snd example_result) = None"
  by code_simp

lemma example_result_trace:
  "filter (\<lambda>e. \<not> quiet e) (trace (snd (snd example_result))) =
     [Saved True (recordProposal initialState example_proposal) True, Dispatched ToolQueryExecute ''n'',
      Saved True (example_end\<lparr>Terminal := None\<rparr>) True, Saved True example_end True]"
  by code_simp

lemma example_Run:
  "Run example_env example_run ''r'' (example_sys 0) = (example_end, None, snd (snd example_result))"
  using example_result_state by (metis example_result_def prod.collapse)

lemma example_loaded: "loadedState example_env ''r'' (example_sys 0) = Some initialState"
  by code_simp

section \<open>Properties\<close>

text \<open>A run is append-only and bounded: whatever the planner, the tools, the store and the clock do,
  \<open>Run\<close> returns, and the steps of the returned state are the steps it loaded followed by new steps
  numbered consecutively after them; if there is a new step the total does not exceed the run's
  step budget.\<close>

theorem Run_appends_numbered_steps:
  assumes "Run env run runID s0 = (st', err, s')" and "loadedState env runID s0 = Some st"
  shows "\<exists>new. Steps st' = Steps st @ new \<and> numberedFrom (length (Steps st)) new \<and>
    (new \<noteq> [] \<longrightarrow> int (length (Steps st')) \<le> rc_MaxSteps run)"
proof (cases "Terminal st")
  case None
  then show ?thesis using Run_loaded [OF assms None] runs_steps by fastforce
next
  case (Some t)
  then have "st' = st" using Run_terminal [OF assms(2), of run] assms(1) by auto
  then show ?thesis by simp
qed

theorem Run_appends_numbered_steps_witness:
  "\<exists>new. Steps example_end = Steps initialState @ new \<and> numberedFrom 0 new \<and>
    (new \<noteq> [] \<longrightarrow> int (length (Steps example_end)) \<le> rc_MaxSteps example_run)"
  using Run_appends_numbered_steps [OF example_Run example_loaded] by (simp add: initialState_def)

text \<open>C32. Only approved calls reach a tool: every dispatch of a run is of a tool on the run's
  allowlist, for a proposal the policy engine allowed, with exactly the arguments the engine
  returned.\<close>

theorem Run_dispatches_only_approved:
  assumes "Run env run runID s0 = (st', err, s')" and "trace s0 = []" and "Dispatched t a \<in> set (trace s')"
  shows "t \<in> set (rc_AllowedTools run) \<and> approved (e_Codec env) run t a"
proof -
  obtain evs where e: "trace s' = evs" "evs = [] \<or> (\<exists>st. runs (e_Codec env) run st evs st' err)"
    using Run_events [OF assms(1)] assms(2) by auto
  then have a: "approved (e_Codec env) run t a" using assms(3) runs_allowed by auto
  then show ?thesis using Evaluate_refused unfolding approved_def gatePassed_def by blast
qed

theorem Run_dispatches_only_approved_witness:
  "ToolQueryExecute \<in> set (rc_AllowedTools example_run) \<and> approved example_codec example_run ToolQueryExecute ''n''"
proof -
  have "Dispatched ToolQueryExecute ''n'' \<in> set (trace (snd (snd example_result)))"
  proof -
    have "Dispatched ToolQueryExecute ''n'' \<in> set (filter (\<lambda>e. \<not> quiet e) (trace (snd (snd example_result))))"
      unfolding example_result_trace by simp
    then show ?thesis by simp
  qed
  from Run_dispatches_only_approved [OF example_Run _ this] show ?thesis
    by (simp add: example_sys_def example_env_def)
qed

text \<open>C6. Persist before dispatch: at every dispatch the last persisted state was persisted
  successfully, ends in the proposal being dispatched with no observation yet, and, when the tool runs a
  query, already records that a query has been started. A crash at any point therefore resumes with
  the proposal on record.\<close>

theorem Run_persists_before_dispatch:
  assumes "Run env run runID s0 = (st', err, s')" and "trace s0 = []"
  shows "ordered None (trace s')"
proof -
  obtain evs where "trace s' = evs" "evs = [] \<or> (\<exists>st. runs (e_Codec env) run st evs st' err)"
    using Run_events [OF assms(1)] assms(2) by auto
  then show ?thesis using runs_ordered by auto
qed

theorem Run_persists_before_dispatch_witness: "ordered None (trace (snd (snd example_result)))"
  using Run_persists_before_dispatch [OF example_Run] by (simp add: example_sys_def)

text \<open>C35. A nil error is a promise of durability: when \<open>Run\<close> returns without error, the last state it
  persisted is the state it returns, and persisting it succeeded.\<close>

theorem Run_durable:
  assumes "Run env run runID s0 = (st', None, s')" and "trace s0 = []"
  shows "savedAfter None (trace s') = Some (st', True)"
proof (cases "loadedState env runID s0")
  case None
  then show ?thesis using Run_not_loaded [OF assms(1) None] by simp
next
  case (Some st)
  then have "Terminal st = None" using Run_terminal [OF Some, of run] assms(1) by (cases "Terminal st") auto
  then obtain evs where "trace s' = evs" "runs (e_Codec env) run (startState run st) evs st' None"
    using Run_loaded [OF assms(1) Some] assms(2) by auto
  then show ?thesis using runs_durable by blast
qed

theorem Run_durable_witness: "savedAfter None (trace (snd (snd example_result))) = Some (example_end, True)"
  using Run_durable [OF example_Run] by (simp add: example_sys_def)



text \<open>Terminal results are immutable: running a run whose stored state is terminal returns that
  state unchanged with the already-terminal error, and persists and dispatches nothing.\<close>

theorem Run_terminal_immutable:
  assumes "loadedState env runID s0 = Some st" and "Terminal st \<noteq> None"
  shows "\<exists>s'. Run env run runID s0 = (st, Some RunAlreadyTerminal, s') \<and> trace s' = trace s0"
  using assms by (rule Run_terminal)

theorem Run_terminal_immutable_witness:
  "\<exists>s'. Run (example_env\<lparr>e_Load := (\<lambda>w r. (Inr (Some example_end), w))\<rparr>) example_run ''r'' (example_sys 0) =
      (example_end, Some RunAlreadyTerminal, s') \<and> trace s' = []"
proof -
  let ?env = "example_env\<lparr>e_Load := (\<lambda>w r. (Inr (Some example_end), w))\<rparr>"
  have "loadedState ?env ''r'' (example_sys 0) = Some example_end"
    by (simp add: loadedState_def doLoad_def)
  moreover have "Terminal example_end \<noteq> None" by (simp add: example_end_def)
  ultimately show ?thesis using Run_terminal_immutable [of ?env "''r''" "example_sys 0"]
    by (simp add: example_sys_def)
qed

section \<open>A failed tool call under a cancelled context\<close>

text \<open>The world is whether the context has been cancelled. The query tool is interrupted by the
  cancellation, and the store refuses to write under the cancelled context.\<close>

definition cancelled_env :: "bool Env" where
  "cancelled_env =
     \<lparr>e_CtxErr = (\<lambda>w. (if w then Some ''context canceled'' else None, w)), e_Now = (\<lambda>w. (0, w)),
      e_Decide = (\<lambda>w run h. (Inr (toolDecision example_proposal), w)),
      e_Tools = [ToolQueryExecute \<mapsto> (\<lambda>w run a. (Inl (ToolFailed False ''context canceled''), True))],
      e_Save = (\<lambda>w own r st. (if w \<and> own then Some ''context canceled'' else None, w)),
      e_Load = (\<lambda>w r. (Inr None, w)), e_Codec = example_codec\<rparr>"

definition lastPersisted :: "event list \<Rightarrow> RuntimeState option" where
  "lastPersisted evs =
     (case filter (\<lambda>e. case e of Saved own st ok \<Rightarrow> ok | _ \<Rightarrow> False) evs of
        [] \<Rightarrow> None
      | es \<Rightarrow> (case last es of Saved own st ok \<Rightarrow> Some st | _ \<Rightarrow> None))"


end
