(* ===== verification/Account_Store.thy ===== *)
theory Account_Store
  imports Go_Prelude "HOL-Library.Product_Lexorder"
begin

text \<open>
  The account database of the authentication service and the statements that run on it:
  \<open>internal/auth/session.go\<close>, \<open>account_state.go\<close>, \<open>pat.go\<close>, \<open>magiclink.go\<close> and the users, tokens and
  email changes of \<open>repository.go\<close>.

  A table is a list of rows; a statement is a function on the tables. Every statement can fail for a
  reason outside the program: the state holds the outcomes of the coming calls, and a failed call leaves
  the tables as they were. \<open>RunInTx\<close> restores them when it fails. The theorems hold for every
  sequence of outcomes. \<open>time.Now()\<close> of the process and \<open>NOW()\<close> of the database are two clocks, constant
  during one operation of the service. Random tokens and row identifiers are drawn from two supplies; the
  one-way hash, the password hash and \<open>net.SplitHostPort\<close> are parameters.
\<close>

type_synonym moment = int
type_synonym duration = int

section \<open>Rows and tables\<close>

record User =
  u_ID :: string
  u_Email :: string
  u_Username :: "string option"
  u_DisplayName :: "string option"
  u_AvatarURL :: "string option"
  u_PasswordHash :: "string option"
  u_IsActive :: bool
  u_EmailVerified :: bool
  u_LastLoginAt :: "moment option"
  u_FrozenAt :: "moment option"
  u_DeletedAt :: "moment option"
  u_PurgeAfter :: "moment option"
  u_PasswordChangedAt :: "moment option"

record Session =
  s_ID :: string
  s_UserID :: string
  s_RefreshToken :: string
  s_UserAgent :: "string option"
  s_IPAddress :: "string option"
  s_DeviceFingerprint :: "string option"
  s_CreatedAt :: moment
  s_ExpiresAt :: moment
  s_LastActiveAt :: moment
  s_AbsoluteExpiresAt :: moment
  s_RevokedAt :: "moment option"

record PersonalAccessToken =
  pat_ID :: string
  pat_UserID :: string
  pat_Name :: string
  pat_TokenHash :: string
  pat_TokenPrefix :: string
  pat_CreatedAt :: moment
  pat_ExpiresAt :: "moment option"
  pat_LastUsedAt :: "moment option"
  pat_RevokedAt :: "moment option"

record MagicLink =
  ml_TokenHash :: string
  ml_Email :: string
  ml_UserID :: "string option"
  ml_IPAddress :: "string option"
  ml_ExpiresAt :: moment
  ml_ConsumedAt :: "moment option"

text \<open>The rows of \<open>account_unlock_tokens\<close>, \<open>password_reset_tokens\<close> and \<open>email_verification_tokens\<close>.\<close>

record OneTimeToken =
  ot_Token :: string
  ot_UserID :: string
  ot_ExpiresAt :: moment
  ot_UsedAt :: "moment option"

record EmailChangeRequest =
  ec_ID :: string
  ec_UserID :: string
  ec_OldEmail :: string
  ec_NewEmail :: string
  ec_OldEmailToken :: string
  ec_NewEmailToken :: string
  ec_OldEmailConfirmedAt :: "moment option"
  ec_NewEmailConfirmedAt :: "moment option"
  ec_RequestedAt :: moment
  ec_NotBefore :: moment
  ec_ExpiresAt :: moment
  ec_CompletedAt :: "moment option"

record OAuthAccount =
  oa_UserID :: string
  oa_Provider :: string
  oa_ProviderUID :: string

record PasswordHistory =
  ph_UserID :: string
  ph_PasswordHash :: string

record KnownDevice =
  kd_UserID :: string
  kd_Fingerprint :: string
  kd_LastSeenAt :: moment

text \<open>A row of \<open>user_mfa\<close>: \<open>internal/auth/mfa/mfa_repository.go\<close>.\<close>

record Enrollment =
  en_UserID :: string
  en_Method :: string
  en_Secret :: string
  en_RecoveryCodes :: "string list"
  en_BypassCodes :: "string list"
  en_Enabled :: bool
  en_VerifiedAt :: "moment option"
  en_LastUsedAt :: "moment option"
  en_LastTOTPStep :: int

text \<open>\<open>t_history\<close> is kept newest first.\<close>

record UserRole =
  ur_UserID :: string
  ur_Role :: string

record AuthDB =
  t_users :: "User list"
  t_userRoles :: "UserRole list"
  t_sessions :: "Session list"
  t_pats :: "PersonalAccessToken list"
  t_magicLinks :: "MagicLink list"
  t_unlocks :: "OneTimeToken list"
  t_resets :: "OneTimeToken list"
  t_verifications :: "OneTimeToken list"
  t_emailChanges :: "EmailChangeRequest list"
  t_oauth :: "OAuthAccount list"
  t_history :: "PasswordHistory list"
  t_devices :: "KnownDevice list"
  t_mfa :: "Enrollment list"

section \<open>State, errors, calls\<close>

datatype auth_error =
    DatabaseError
  | RedisError
  | ErrUserNotFound | ErrUserAlreadyExists | ErrOAuthAccountNotFound
  | ErrSessionNotFound | ErrSessionExpired | ErrSessionRevoked | ErrSessionAbsoluteExpired | ErrSessionIdleExpired
  | ErrAccountFrozen | ErrAccountDeleted | ErrUnlockTokenInvalid | ErrAccountAlreadyFrozen | ErrAccountNotFrozen
  | ErrPersonalAccessTokenNotFound | ErrPersonalAccessTokenInvalid
  | ErrMagicLinkInvalid | ErrMagicLinkUsed
  | ErrInvalidCredentials | ErrInactiveUser | ErrAccountLocked | ErrMFARequired | ErrEmailChangePending
  | ErrPasswordReused | ErrNoPasswordSet | ErrSuperAdminRequired | ErrSelfSignupDisabled | ErrMFANotEnabled
  | ErrMFAVerificationLocked | ErrEmailAlreadyVerified
  | ErrMFANotEnrolled | ErrMFACodeInvalid | ErrTOTPCodeAlreadyUsed
  | TextError string
  | External string
  | Wrapped string auth_error

text \<open>\<open>w_faults\<close> says which of the coming calls fail; calls after the end of the list succeed. A counter
  in Redis holds a count and the moment it is dropped, if it has one.\<close>

record World =
  w_db :: AuthDB
  w_redis :: "string \<rightharpoonup> int \<times> moment option"
  w_faults :: "bool list"
  w_tokens :: nat
  w_ids :: nat

record Clock =
  now :: moment
  dbNow :: moment

text \<open>What the code gets from elsewhere; \<open>RandomToken\<close> is what the text encoding of the drawn bytes is.\<close>

record Primitives =
  HashToken :: "string \<Rightarrow> string"
  RandomToken :: "nat \<Rightarrow> string"
  RandomID :: "nat \<Rightarrow> string"
  SplitHost :: "string \<Rightarrow> string option"
  HashPassword :: "string \<Rightarrow> string option"
  VerifyPassword :: "string \<Rightarrow> string \<Rightarrow> bool"
  Tie :: "string \<Rightarrow> int"

type_synonym 'a act = "World \<Rightarrow> (auth_error + 'a) \<times> World"

definition retA :: "'a \<Rightarrow> 'a act" where
  "retA a w = (Inr a, w)"

definition failA :: "auth_error \<Rightarrow> 'a act" where
  "failA e w = (Inl e, w)"

definition bindA :: "'a act \<Rightarrow> ('a \<Rightarrow> 'b act) \<Rightarrow> 'b act" where
  "bindA m k w = (case m w of (Inl e, w') \<Rightarrow> (Inl e, w') | (Inr a, w') \<Rightarrow> k a w')"

abbreviation thenA :: "'a act \<Rightarrow> 'b act \<Rightarrow> 'b act" where
  "thenA m k \<equiv> bindA m (\<lambda>_. k)"

abbreviation unlessA :: "bool \<Rightarrow> auth_error \<Rightarrow> 'a act \<Rightarrow> 'a act" where
  "unlessA c e k \<equiv> (if c then k else failA e)"

text \<open>\<open>if err := m; err != nil { _ = err }\<close> and its variants that only log.\<close>

definition ignoreA :: "'a act \<Rightarrow> unit act" where
  "ignoreA m w = (Inr (), snd (m w))"

definition catchA :: "'a act \<Rightarrow> (auth_error + 'a) act" where
  "catchA m w = (case m w of (r, w') \<Rightarrow> (Inr r, w'))"

definition wrapA :: "string \<Rightarrow> 'a act \<Rightarrow> 'a act" where
  "wrapA label m w = (case m w of (Inl e, w') \<Rightarrow> (Inl (Wrapped label e), w') | r \<Rightarrow> r)"

definition outcomeA :: "auth_error \<Rightarrow> 'a act \<Rightarrow> 'a act" where
  "outcomeA e m w =
     (case w_faults w of
        True # fs \<Rightarrow> (Inl e, w\<lparr>w_faults := fs\<rparr>)
      | fs \<Rightarrow> m (w\<lparr>w_faults := tl fs\<rparr>))"

text \<open>A statement, one that only reads, and one that only writes.\<close>

definition statement :: "(AuthDB \<Rightarrow> 'a \<times> AuthDB) \<Rightarrow> 'a act" where
  "statement f = outcomeA DatabaseError (\<lambda>w. (Inr (fst (f (w_db w))), w\<lparr>w_db := snd (f (w_db w))\<rparr>))"

abbreviation query :: "(AuthDB \<Rightarrow> 'a) \<Rightarrow> 'a act" where
  "query f \<equiv> statement (\<lambda>db. (f db, db))"

abbreviation exec :: "(AuthDB \<Rightarrow> AuthDB) \<Rightarrow> unit act" where
  "exec f \<equiv> statement (\<lambda>db. ((), f db))"

definition drawToken :: "Primitives \<Rightarrow> string act" where
  "drawToken p w = (Inr (RandomToken p (w_tokens w)), w\<lparr>w_tokens := Suc (w_tokens w)\<rparr>)"

definition drawID :: "Primitives \<Rightarrow> string act" where
  "drawID p w = (Inr (RandomID p (w_ids w)), w\<lparr>w_ids := Suc (w_ids w)\<rparr>)"

text \<open>\<open>RunInTx\<close>: the transaction is begun, the body runs, the changes are committed; an error of any of the
  three restores the tables.\<close>

definition rollingBack :: "'a act \<Rightarrow> 'a act" where
  "rollingBack m w = (case m w of (Inl e, w') \<Rightarrow> (Inl e, w'\<lparr>w_db := w_db w\<rparr>) | r \<Rightarrow> r)"

definition inTx :: "'a act \<Rightarrow> 'a act" where
  "inTx m = rollingBack
     (thenA (wrapA ''begin tx'' (query (\<lambda>db. ())))
     (bindA m (\<lambda>a. thenA (wrapA ''commit tx'' (query (\<lambda>db. ()))) (retA a))))"

fun eachA :: "('a \<Rightarrow> unit act) \<Rightarrow> 'a list \<Rightarrow> unit act" where
  "eachA f [] = retA ()"
| "eachA f (x # xs) = thenA (f x) (eachA f xs)"

text \<open>\<open>UPDATE ... WHERE\<close>, and the row a key selects.\<close>

definition updateWhere :: "('r \<Rightarrow> bool) \<Rightarrow> ('r \<Rightarrow> 'r) \<Rightarrow> 'r list \<Rightarrow> 'r list" where
  "updateWhere P f rows = map (\<lambda>r. if P r then f r else r) rows"

definition deleteWhere :: "('r \<Rightarrow> bool) \<Rightarrow> 'r list \<Rightarrow> 'r list" where
  "deleteWhere P rows = filter (\<lambda>r. \<not> P r) rows"

section \<open>Sessions\<close>

record SessionManager =
  m_absoluteTTL :: duration
  m_idleTTL :: duration

definition NewSessionManager :: SessionManager where
  "NewSessionManager = \<lparr>m_absoluteTTL = 0, m_idleTTL = 0\<rparr>"

definition SetLifecycleTTLs :: "SessionManager \<Rightarrow> duration \<Rightarrow> duration \<Rightarrow> SessionManager" where
  "SetLifecycleTTLs m absolute idle = m\<lparr>m_absoluteTTL := absolute, m_idleTTL := idle\<rparr>"

definition normalizeIP :: "Primitives \<Rightarrow> string option \<Rightarrow> string option" where
  "normalizeIP p ip =
     (case ip of
        None \<Rightarrow> None
      | Some s \<Rightarrow> if s = [] then ip else (case SplitHost p s of Some host \<Rightarrow> Some host | None \<Rightarrow> ip))"

definition absoluteTTLOrDefault :: "SessionManager \<Rightarrow> duration \<Rightarrow> duration" where
  "absoluteTTLOrDefault m fallback = (if m_absoluteTTL m > 0 then m_absoluteTTL m else fallback)"

text \<open>\<open>refresh_token\<close> is unique: a duplicate is an error of the database.\<close>

definition insertSession :: "Session \<Rightarrow> unit act" where
  "insertSession row w =
     (if \<exists>s\<in>set (t_sessions (w_db w)). s_RefreshToken s = s_RefreshToken row then failA DatabaseError w
      else exec (\<lambda>db. db\<lparr>t_sessions := t_sessions db @ [row]\<rparr>) w)"

definition sessionRow ::
    "Primitives \<Rightarrow> Clock \<Rightarrow> string \<Rightarrow> string \<Rightarrow> string \<Rightarrow> string option \<Rightarrow> string option \<Rightarrow> string \<Rightarrow> moment \<Rightarrow> moment \<Rightarrow> Session" where
  "sessionRow p t rowID userID token userAgent ipAddress fingerprint expiresAt absoluteExpiresAt =
     \<lparr>s_ID = rowID, s_UserID = userID, s_RefreshToken = HashToken p token, s_UserAgent = userAgent,
      s_IPAddress = normalizeIP p ipAddress,
      s_DeviceFingerprint = (if fingerprint = [] then None else Some fingerprint),
      s_CreatedAt = dbNow t, s_ExpiresAt = expiresAt, s_LastActiveAt = dbNow t,
      s_AbsoluteExpiresAt = absoluteExpiresAt, s_RevokedAt = None\<rparr>"

definition createSession ::
    "Primitives \<Rightarrow> Clock \<Rightarrow> string \<Rightarrow> string option \<Rightarrow> string option \<Rightarrow> string \<Rightarrow> moment \<Rightarrow> moment \<Rightarrow> string act" where
  "createSession p t userID userAgent ipAddress fingerprint expiresAt absoluteExpiresAt =
     bindA (drawToken p) (\<lambda>token.
     bindA (drawID p) (\<lambda>rowID.
     thenA (wrapA ''insert session''
       (insertSession (sessionRow p t rowID userID token userAgent ipAddress fingerprint expiresAt absoluteExpiresAt)))
     (retA token)))"

definition CreateSessionWithFingerprint ::
    "Primitives \<Rightarrow> SessionManager \<Rightarrow> Clock \<Rightarrow> string \<Rightarrow> string option \<Rightarrow> string option \<Rightarrow> string \<Rightarrow> duration \<Rightarrow> string act" where
  "CreateSessionWithFingerprint p m t userID userAgent ipAddress fingerprint ttl =
     createSession p t userID userAgent ipAddress fingerprint (now t + ttl) (now t + absoluteTTLOrDefault m ttl)"

definition CreateSession ::
    "Primitives \<Rightarrow> SessionManager \<Rightarrow> Clock \<Rightarrow> string \<Rightarrow> string option \<Rightarrow> string option \<Rightarrow> duration \<Rightarrow> string act" where
  "CreateSession p m t userID userAgent ipAddress ttl = CreateSessionWithFingerprint p m t userID userAgent ipAddress [] ttl"

text \<open>\<open>revoked_at IS NULL AND expires_at > NOW()\<close> for a user.\<close>

definition isActiveSession :: "Clock \<Rightarrow> string \<Rightarrow> Session \<Rightarrow> bool" where
  "isActiveSession t userID s \<longleftrightarrow> s_UserID s = userID \<and> s_RevokedAt s = None \<and> s_ExpiresAt s > dbNow t"

definition revoke :: "Clock \<Rightarrow> Session \<Rightarrow> Session" where
  "revoke t s = s\<lparr>s_RevokedAt := Some (dbNow t)\<rparr>"

text \<open>\<open>ORDER BY last_active_at DESC, created_at DESC\<close>; SQL leaves the order of equal rows open (\<open>Tie\<close>).\<close>

definition recency :: "Primitives \<Rightarrow> Session \<Rightarrow> int \<times> int \<times> int" where
  "recency p s = (- s_LastActiveAt s, - s_CreatedAt s, Tie p (s_ID s))"

definition overLimit :: "Primitives \<Rightarrow> Clock \<Rightarrow> string \<Rightarrow> int \<Rightarrow> AuthDB \<Rightarrow> string list" where
  "overLimit p t userID maxSessions db =
     map s_ID (drop (nat maxSessions) (sort_key (recency p) (filter (isActiveSession t userID) (t_sessions db))))"

definition EnforceMaxSessions :: "Primitives \<Rightarrow> Clock \<Rightarrow> string \<Rightarrow> int \<Rightarrow> string list act" where
  "EnforceMaxSessions p t userID maxSessions =
     (if maxSessions \<le> 0 then retA []
      else wrapA ''evict sessions''
        (statement (\<lambda>db. let evicted = overLimit p t userID maxSessions db in
          (evicted, db\<lparr>t_sessions := updateWhere (\<lambda>s. s_ID s \<in> set evicted) (revoke t) (t_sessions db)\<rparr>))))"

definition ListActiveSessions :: "Primitives \<Rightarrow> Clock \<Rightarrow> string \<Rightarrow> Session list act" where
  "ListActiveSessions p t userID =
     query (\<lambda>db. sort_key (\<lambda>s. (- s_LastActiveAt s, Tie p (s_ID s))) (filter (isActiveSession t userID) (t_sessions db)))"

text \<open>\<open>UPDATE sessions SET revoked_at = NOW() WHERE ... AND revoked_at IS NULL\<close>.\<close>

definition revokeWhere :: "Clock \<Rightarrow> (Session \<Rightarrow> bool) \<Rightarrow> AuthDB \<Rightarrow> AuthDB" where
  "revokeWhere t P db = db\<lparr>t_sessions := updateWhere (\<lambda>s. P s \<and> s_RevokedAt s = None) (revoke t) (t_sessions db)\<rparr>"

definition RevokeSession :: "Primitives \<Rightarrow> Clock \<Rightarrow> string \<Rightarrow> unit act" where
  "RevokeSession p t token = exec (revokeWhere t (\<lambda>s. s_RefreshToken s = HashToken p token))"

definition RevokeAllUserSessions :: "Clock \<Rightarrow> string \<Rightarrow> unit act" where
  "RevokeAllUserSessions t userID = exec (revokeWhere t (\<lambda>s. s_UserID s = userID))"

definition RevokeSessionByID :: "Clock \<Rightarrow> string \<Rightarrow> string \<Rightarrow> unit act" where
  "RevokeSessionByID t userID sessionID =
     (let hit = (\<lambda>s. s_ID s = sessionID \<and> s_UserID s = userID)
      in bindA (statement (\<lambda>db. (filter (\<lambda>s. hit s \<and> s_RevokedAt s = None) (t_sessions db), revokeWhere t hit db)))
           (\<lambda>rows. unlessA (rows \<noteq> []) ErrSessionNotFound (retA ())))"

text \<open>\<open>RotateSession\<close> in its two parts: the row read first, and what is done with it.\<close>

definition rotateRead :: "Primitives \<Rightarrow> string \<Rightarrow> Session act" where
  "rotateRead p oldToken =
     bindA (query (\<lambda>db. find (\<lambda>s. s_RefreshToken s = HashToken p oldToken) (t_sessions db))) (\<lambda>row.
       case row of None \<Rightarrow> failA ErrSessionNotFound | Some s \<Rightarrow> retA s)"

definition rotateRow ::
    "Primitives \<Rightarrow> SessionManager \<Rightarrow> Clock \<Rightarrow> string \<Rightarrow> duration \<Rightarrow> string option \<Rightarrow> string option \<Rightarrow> Session \<Rightarrow> string act" where
  "rotateRow p m t oldToken ttl userAgent ipAddress s =
     (if s_RevokedAt s \<noteq> None then thenA (ignoreA (RevokeAllUserSessions t (s_UserID s))) (failA ErrSessionRevoked)
      else if now t > s_ExpiresAt s then failA ErrSessionExpired
      else if now t > s_AbsoluteExpiresAt s then thenA (ignoreA (RevokeSession p t oldToken)) (failA ErrSessionAbsoluteExpired)
      else if m_idleTTL m > 0 \<and> now t - s_LastActiveAt s > m_idleTTL m then
        thenA (ignoreA (RevokeSession p t oldToken)) (failA ErrSessionIdleExpired)
      else thenA (wrapA ''revoke old session''
             (exec (\<lambda>db. db\<lparr>t_sessions := updateWhere (\<lambda>r. s_ID r = s_ID s) (revoke t) (t_sessions db)\<rparr>)))
           (wrapA ''create rotated session''
             (createSession p t (s_UserID s) userAgent ipAddress []
               (if now t + ttl > s_AbsoluteExpiresAt s then s_AbsoluteExpiresAt s else now t + ttl)
               (s_AbsoluteExpiresAt s))))"

definition RotateSession ::
    "Primitives \<Rightarrow> SessionManager \<Rightarrow> Clock \<Rightarrow> string \<Rightarrow> duration \<Rightarrow> string option \<Rightarrow> string option \<Rightarrow> string act" where
  "RotateSession p m t oldToken ttl userAgent ipAddress =
     bindA (rotateRead p oldToken) (rotateRow p m t oldToken ttl userAgent ipAddress)"

section \<open>Users and account states\<close>

definition GetUserByID :: "string \<Rightarrow> User act" where
  "GetUserByID userID =
     bindA (query (\<lambda>db. find (\<lambda>u. u_ID u = userID) (t_users db)))
       (\<lambda>row. case row of None \<Rightarrow> failA ErrUserNotFound | Some u \<Rightarrow> retA u)"

definition GetUserByEmail :: "string \<Rightarrow> User act" where
  "GetUserByEmail email =
     bindA (query (\<lambda>db. find (\<lambda>u. u_Email u = email) (t_users db)))
       (\<lambda>row. case row of None \<Rightarrow> failA ErrUserNotFound | Some u \<Rightarrow> retA u)"

record AccountState =
  as_FrozenAt :: "moment option"
  as_DeletedAt :: "moment option"
  as_PurgeAfter :: "moment option"
  as_PasswordChangedAt :: "moment option"

definition IsFrozen :: "AccountState \<Rightarrow> bool" where
  "IsFrozen s \<longleftrightarrow> as_FrozenAt s \<noteq> None"

definition IsDeleted :: "AccountState \<Rightarrow> bool" where
  "IsDeleted s \<longleftrightarrow> as_DeletedAt s \<noteq> None"

definition GetAccountState :: "string \<Rightarrow> AccountState act" where
  "GetAccountState userID =
     bindA (query (\<lambda>db. find (\<lambda>u. u_ID u = userID) (t_users db)))
       (\<lambda>row. case row of None \<Rightarrow> failA ErrUserNotFound
          | Some u \<Rightarrow> retA \<lparr>as_FrozenAt = u_FrozenAt u, as_DeletedAt = u_DeletedAt u,
                           as_PurgeAfter = u_PurgeAfter u, as_PasswordChangedAt = u_PasswordChangedAt u\<rparr>)"

text \<open>\<open>UPDATE users ... WHERE id = $1 AND ...\<close> and the number of rows it changed.\<close>

definition updateUsers :: "(User \<Rightarrow> bool) \<Rightarrow> (User \<Rightarrow> User) \<Rightarrow> AuthDB \<Rightarrow> AuthDB" where
  "updateUsers P f db = db\<lparr>t_users := updateWhere P f (t_users db)\<rparr>"

definition updateUserCount :: "(User \<Rightarrow> bool) \<Rightarrow> (User \<Rightarrow> User) \<Rightarrow> nat act" where
  "updateUserCount P f = statement (\<lambda>db. (length (filter P (t_users db)), updateUsers P f db))"

definition repoFreezeAccount :: "Clock \<Rightarrow> string \<Rightarrow> unit act" where
  "repoFreezeAccount t userID =
     bindA (wrapA ''freeze account''
       (updateUserCount (\<lambda>u. u_ID u = userID \<and> u_FrozenAt u = None \<and> u_DeletedAt u = None)
          (\<lambda>u. u\<lparr>u_FrozenAt := Some (dbNow t)\<rparr>)))
       (\<lambda>rows. unlessA (rows \<noteq> 0) ErrAccountAlreadyFrozen (retA ()))"

definition UnfreezeAccount :: "string \<Rightarrow> unit act" where
  "UnfreezeAccount userID =
     bindA (wrapA ''unfreeze account''
       (updateUserCount (\<lambda>u. u_ID u = userID \<and> u_FrozenAt u \<noteq> None) (\<lambda>u. u\<lparr>u_FrozenAt := None\<rparr>)))
       (\<lambda>rows. unlessA (rows \<noteq> 0) ErrAccountNotFrozen (retA ()))"

definition day :: duration where
  "day = 24 * 3600 * 1000000000"

definition SoftDeleteAccount :: "Clock \<Rightarrow> string \<Rightarrow> int \<Rightarrow> moment act" where
  "SoftDeleteAccount t userID purgeAfterDays =
     (let purgeAt = now t + (if purgeAfterDays \<le> 0 then 30 else purgeAfterDays) * day
      in thenA (wrapA ''soft delete account''
           (exec (updateUsers (\<lambda>u. u_ID u = userID \<and> u_DeletedAt u = None)
              (\<lambda>u. u\<lparr>u_DeletedAt := Some (dbNow t), u_PurgeAfter := Some purgeAt, u_IsActive := False\<rparr>))))
         (retA purgeAt))"

definition repoRestoreAccount :: "string \<Rightarrow> unit act" where
  "repoRestoreAccount userID =
     bindA (wrapA ''restore account''
       (updateUserCount (\<lambda>u. u_ID u = userID \<and> u_DeletedAt u \<noteq> None)
          (\<lambda>u. u\<lparr>u_DeletedAt := None, u_PurgeAfter := None, u_IsActive := True\<rparr>)))
       (\<lambda>rows. unlessA (rows \<noteq> 0) ErrUserNotFound (retA ()))"

definition UpdateUserActiveStatus :: "string \<Rightarrow> bool \<Rightarrow> unit act" where
  "UpdateUserActiveStatus userID isActive =
     exec (updateUsers (\<lambda>u. u_ID u = userID) (\<lambda>u. u\<lparr>u_IsActive := isActive\<rparr>))"

definition UpdateLastLogin :: "Clock \<Rightarrow> string \<Rightarrow> unit act" where
  "UpdateLastLogin t userID =
     exec (updateUsers (\<lambda>u. u_ID u = userID) (\<lambda>u. u\<lparr>u_LastLoginAt := Some (dbNow t)\<rparr>))"

definition stubEmail :: "string \<Rightarrow> string" where
  "stubEmail userID = ''purged-'' @ userID @ ''@example.invalid''"

definition scrub :: "string \<Rightarrow> User \<Rightarrow> User" where
  "scrub userID u = u\<lparr>u_Email := stubEmail userID, u_Username := None, u_DisplayName := None, u_AvatarURL := None,
     u_PasswordHash := None, u_IsActive := False, u_EmailVerified := False, u_FrozenAt := None, u_PurgeAfter := None\<rparr>"

text \<open>Setting an address that another user has is an error of the database (\<open>email TEXT NOT NULL UNIQUE\<close>).\<close>

definition setUserRow :: "string \<Rightarrow> string \<Rightarrow> (User \<Rightarrow> User) \<Rightarrow> unit act" where
  "setUserRow userID email f w =
     (if \<exists>u\<in>set (t_users (w_db w)). u_Email u = email \<and> u_ID u \<noteq> userID then failA DatabaseError w
      else exec (updateUsers (\<lambda>u. u_ID u = userID) f) w)"

text \<open>The table of passkeys, which \<open>purgeUser\<close> also empties, is not modelled.\<close>

definition purgeUser :: "string \<Rightarrow> unit act" where
  "purgeUser userID = inTx
     (thenA (wrapA ''scrub user row'' (setUserRow userID (stubEmail userID) (scrub userID)))
     (thenA (exec (\<lambda>db. db\<lparr>t_oauth := deleteWhere (\<lambda>r. oa_UserID r = userID) (t_oauth db)\<rparr>))
     (thenA (exec (\<lambda>db. db\<lparr>t_sessions := deleteWhere (\<lambda>r. s_UserID r = userID) (t_sessions db)\<rparr>))
     (thenA (exec (\<lambda>db. db\<lparr>t_verifications := deleteWhere (\<lambda>r. ot_UserID r = userID) (t_verifications db)\<rparr>))
     (thenA (exec (\<lambda>db. db\<lparr>t_resets := deleteWhere (\<lambda>r. ot_UserID r = userID) (t_resets db)\<rparr>))
     (thenA (exec (\<lambda>db. db\<lparr>t_history := deleteWhere (\<lambda>r. ph_UserID r = userID) (t_history db)\<rparr>))
     (thenA (exec (\<lambda>db. db\<lparr>t_emailChanges := deleteWhere (\<lambda>r. ec_UserID r = userID) (t_emailChanges db)\<rparr>))
     (thenA (exec (\<lambda>db. db\<lparr>t_devices := deleteWhere (\<lambda>r. kd_UserID r = userID) (t_devices db)\<rparr>))
     (thenA (exec (\<lambda>db. db\<lparr>t_unlocks := deleteWhere (\<lambda>r. ot_UserID r = userID) (t_unlocks db)\<rparr>))
     (exec (\<lambda>db. db\<lparr>t_mfa := deleteWhere (\<lambda>r. en_UserID r = userID) (t_mfa db)\<rparr>)))))))))))"

definition dueForPurge :: "moment \<Rightarrow> User \<Rightarrow> bool" where
  "dueForPurge limit u \<longleftrightarrow>
     (case u_PurgeAfter u of None \<Rightarrow> False | Some m \<Rightarrow> m \<le> limit) \<and> \<not> HasPrefix (u_Email u) ''purged-''"

definition PurgeExpiredAccounts :: "moment \<Rightarrow> string list act" where
  "PurgeExpiredAccounts limit =
     bindA (wrapA ''list expired accounts'' (query (\<lambda>db. map u_ID (filter (dueForPurge limit) (t_users db))))) (\<lambda>ids.
     thenA (eachA (\<lambda>i. wrapA (''purge user '' @ i) (purgeUser i)) ids)
     (retA ids))"

definition MarkPasswordChanged :: "Clock \<Rightarrow> string \<Rightarrow> unit act" where
  "MarkPasswordChanged t userID =
     exec (updateUsers (\<lambda>u. u_ID u = userID) (\<lambda>u. u\<lparr>u_PasswordChangedAt := Some (dbNow t)\<rparr>))"

text \<open>\<open>strings.LastIndex(ip, ".")\<close> and the truncation of addresses to a network prefix.\<close>

definition networkPrefix :: "string \<Rightarrow> string" where
  "networkPrefix ip =
     (let dots = length (filter (\<lambda>c. c = CHR ''.'') ip);
          parts = Split ip CHR ''.'';
          segs = Split ip CHR '':''
      in if dots = 3 \<and> length (Join (butlast parts) ''.'') > 0 then Join (butlast parts) ''.'' @ ''.0''
         else if CHR '':'' \<in> set ip then (if length segs > 3 then Join (take 3 segs) '':'' else ip)
         else ip)"

definition DeviceFingerprint :: "Primitives \<Rightarrow> string \<Rightarrow> string \<Rightarrow> string" where
  "DeviceFingerprint p userAgent ipAddress =
     take 16 (HashToken p (TrimSpace userAgent @ ''|'' @ networkPrefix (TrimSpace ipAddress)))"

definition RecordKnownDevice :: "Clock \<Rightarrow> string \<Rightarrow> string \<Rightarrow> bool act" where
  "RecordKnownDevice t userID fingerprint =
     wrapA ''record known device'' (statement (\<lambda>db.
       let mine = (\<lambda>k. kd_UserID k = userID \<and> kd_Fingerprint k = fingerprint) in
       if \<exists>k\<in>set (t_devices db). mine k
       then (False, db\<lparr>t_devices := updateWhere mine (\<lambda>k. k\<lparr>kd_LastSeenAt := dbNow t\<rparr>) (t_devices db)\<rparr>)
       else (True, db\<lparr>t_devices := t_devices db @
               [\<lparr>kd_UserID = userID, kd_Fingerprint = fingerprint, kd_LastSeenAt = dbNow t\<rparr>]\<rparr>)))"

section \<open>One-time tokens\<close>

text \<open>Issue, and the \<open>UPDATE ... RETURNING user_id\<close> that uses a token up; \<open>token\<close> is what the table stores.\<close>

definition issued :: "string \<Rightarrow> string \<Rightarrow> moment \<Rightarrow> OneTimeToken" where
  "issued token userID expiresAt = \<lparr>ot_Token = token, ot_UserID = userID, ot_ExpiresAt = expiresAt, ot_UsedAt = None\<rparr>"

definition usable :: "Clock \<Rightarrow> string \<Rightarrow> OneTimeToken \<Rightarrow> bool" where
  "usable t token r \<longleftrightarrow> ot_Token r = token \<and> ot_UsedAt r = None \<and> ot_ExpiresAt r > dbNow t"

definition useUp :: "Clock \<Rightarrow> OneTimeToken \<Rightarrow> OneTimeToken" where
  "useUp t r = r\<lparr>ot_UsedAt := Some (dbNow t)\<rparr>"

definition CreateUnlockToken :: "Primitives \<Rightarrow> Clock \<Rightarrow> string \<Rightarrow> duration \<Rightarrow> string act" where
  "CreateUnlockToken p t userID ttl =
     bindA (drawToken p) (\<lambda>tok.
     thenA (wrapA ''insert unlock token''
       (exec (\<lambda>db. db\<lparr>t_unlocks := t_unlocks db @ [issued (HashToken p tok) userID (now t + ttl)]\<rparr>)))
     (retA tok))"

definition ConsumeUnlockToken :: "Primitives \<Rightarrow> Clock \<Rightarrow> string \<Rightarrow> string act" where
  "ConsumeUnlockToken p t token =
     bindA (wrapA ''consume unlock token'' (statement (\<lambda>db.
       let use = usable t (HashToken p token) in
       (find use (t_unlocks db), db\<lparr>t_unlocks := updateWhere use (useUp t) (t_unlocks db)\<rparr>))))
     (\<lambda>row. case row of None \<Rightarrow> failA ErrUnlockTokenInvalid | Some r \<Rightarrow> retA (ot_UserID r))"

definition CreateEmailVerificationToken :: "string \<Rightarrow> string \<Rightarrow> moment \<Rightarrow> unit act" where
  "CreateEmailVerificationToken userID token expiresAt = inTx
     (thenA (exec (\<lambda>db. db\<lparr>t_verifications := deleteWhere (\<lambda>r. ot_UserID r = userID) (t_verifications db)\<rparr>))
        (exec (\<lambda>db. db\<lparr>t_verifications := t_verifications db @ [issued token userID expiresAt]\<rparr>)))"

definition VerifyEmailToken :: "Clock \<Rightarrow> string \<Rightarrow> string act" where
  "VerifyEmailToken t token =
     bindA (query (\<lambda>db. find (\<lambda>r. ot_Token r = token) (t_verifications db))) (\<lambda>row.
     case row of
       None \<Rightarrow> failA (TextError ''invalid verification token'')
     | Some r \<Rightarrow>
         if ot_UsedAt r \<noteq> None then failA (TextError ''verification token already used'')
         else if now t > ot_ExpiresAt r then failA (TextError ''verification token expired'')
         else thenA (inTx (thenA
             (exec (\<lambda>db. db\<lparr>t_verifications := updateWhere (\<lambda>r. ot_Token r = token) (useUp t) (t_verifications db)\<rparr>))
             (exec (updateUsers (\<lambda>u. u_ID u = ot_UserID r) (\<lambda>u. u\<lparr>u_EmailVerified := True\<rparr>)))))
           (retA (ot_UserID r)))"

definition CreatePasswordResetToken :: "string \<Rightarrow> string \<Rightarrow> moment \<Rightarrow> unit act" where
  "CreatePasswordResetToken userID token expiresAt = inTx
     (thenA (exec (\<lambda>db. db\<lparr>t_resets := deleteWhere (\<lambda>r. ot_UserID r = userID) (t_resets db)\<rparr>))
        (exec (\<lambda>db. db\<lparr>t_resets := t_resets db @ [issued token userID expiresAt]\<rparr>)))"

definition VerifyPasswordResetToken :: "Clock \<Rightarrow> string \<Rightarrow> string act" where
  "VerifyPasswordResetToken t token =
     bindA (query (\<lambda>db. find (\<lambda>r. ot_Token r = token) (t_resets db))) (\<lambda>row.
     case row of
       None \<Rightarrow> failA (TextError ''invalid password reset token'')
     | Some r \<Rightarrow>
         if ot_UsedAt r \<noteq> None then failA (TextError ''password reset token already used'')
         else if now t > ot_ExpiresAt r then failA (TextError ''password reset token expired'')
         else retA (ot_UserID r))"

definition insertPasswordHistory :: "string \<Rightarrow> string \<Rightarrow> unit act" where
  "insertPasswordHistory userID hash =
     (if hash = [] then retA ()
      else exec (\<lambda>db. db\<lparr>t_history := \<lparr>ph_UserID = userID, ph_PasswordHash = hash\<rparr> # t_history db\<rparr>))"

definition setPassword :: "Clock \<Rightarrow> string \<Rightarrow> string \<Rightarrow> unit act" where
  "setPassword t userID hash =
     thenA (exec (updateUsers (\<lambda>u. u_ID u = userID) (\<lambda>u. u\<lparr>u_PasswordHash := Some hash, u_PasswordChangedAt := Some (dbNow t)\<rparr>)))
       (insertPasswordHistory userID hash)"

definition UpdateUserPassword :: "Clock \<Rightarrow> string \<Rightarrow> string \<Rightarrow> unit act" where
  "UpdateUserPassword t userID hash = inTx (setPassword t userID hash)"

definition ConsumePasswordResetAndUpdatePassword :: "Clock \<Rightarrow> string \<Rightarrow> string \<Rightarrow> unit act" where
  "ConsumePasswordResetAndUpdatePassword t token hash = inTx
     (bindA (statement (\<lambda>db.
        (find (usable t token) (t_resets db), db\<lparr>t_resets := updateWhere (usable t token) (useUp t) (t_resets db)\<rparr>)))
     (\<lambda>row. case row of
        None \<Rightarrow> failA (TextError ''invalid or expired password reset token'')
      | Some r \<Rightarrow> setPassword t (ot_UserID r) hash))"

definition PasswordWasUsed :: "Primitives \<Rightarrow> string \<Rightarrow> string \<Rightarrow> int \<Rightarrow> bool act" where
  "PasswordWasUsed p userID password limit =
     (if limit \<le> 0 then retA False
      else query (\<lambda>db. list_ex (\<lambda>r. VerifyPassword p password (ph_PasswordHash r))
             (take (nat limit) (filter (\<lambda>r. ph_UserID r = userID) (t_history db)))))"

section \<open>Magic links\<close>

definition Issue :: "Primitives \<Rightarrow> string \<Rightarrow> string \<Rightarrow> string \<Rightarrow> string \<Rightarrow> moment \<Rightarrow> unit act" where
  "Issue p plaintext email userID ipAddress expiresAt w =
     (if \<exists>r\<in>set (t_magicLinks (w_db w)). ml_TokenHash r = HashToken p plaintext then failA DatabaseError w
      else exec (\<lambda>db. db\<lparr>t_magicLinks := t_magicLinks db @
        [\<lparr>ml_TokenHash = HashToken p plaintext, ml_Email = email,
          ml_UserID = (if userID = [] then None else Some userID),
          ml_IPAddress = (if ipAddress = [] then None else Some ipAddress),
          ml_ExpiresAt = expiresAt, ml_ConsumedAt = None\<rparr>]\<rparr>) w)"

definition Consume :: "Primitives \<Rightarrow> Clock \<Rightarrow> string \<Rightarrow> string act" where
  "Consume p t plaintext = inTx
     (bindA (query (\<lambda>db. find (\<lambda>r. ml_TokenHash r = HashToken p plaintext) (t_magicLinks db))) (\<lambda>row.
     case row of
       None \<Rightarrow> failA ErrMagicLinkInvalid
     | Some r \<Rightarrow>
         if ml_ConsumedAt r \<noteq> None then failA ErrMagicLinkUsed
         else if now t > ml_ExpiresAt r then failA ErrMagicLinkInvalid
         else (case ml_UserID r of
             None \<Rightarrow> failA ErrMagicLinkInvalid
           | Some userID \<Rightarrow>
               if userID = [] then failA ErrMagicLinkInvalid
               else thenA (exec (\<lambda>db. db\<lparr>t_magicLinks :=
                      updateWhere (\<lambda>r. ml_TokenHash r = HashToken p plaintext)
                        (\<lambda>r. r\<lparr>ml_ConsumedAt := Some (dbNow t)\<rparr>) (t_magicLinks db)\<rparr>))
                    (retA userID))))"

section \<open>Personal access tokens\<close>

definition personalAccessTokenPrefix :: string where
  "personalAccessTokenPrefix = ''bqpat_''"

definition CreateToken :: "Primitives \<Rightarrow> Clock \<Rightarrow> string \<Rightarrow> string \<Rightarrow> moment option \<Rightarrow> (string \<times> PersonalAccessToken) act" where
  "CreateToken p t userID name expiresAt =
     bindA (drawToken p) (\<lambda>secret.
     bindA (drawID p) (\<lambda>rowID.
     let plaintext = personalAccessTokenPrefix @ secret;
         rec = \<lparr>pat_ID = rowID, pat_UserID = userID, pat_Name = name, pat_TokenHash = HashToken p plaintext,
                pat_TokenPrefix = take (length personalAccessTokenPrefix + 4) plaintext, pat_CreatedAt = dbNow t,
                pat_ExpiresAt = expiresAt, pat_LastUsedAt = None, pat_RevokedAt = None\<rparr>
     in thenA (wrapA ''insert personal access token'' (exec (\<lambda>db. db\<lparr>t_pats := t_pats db @ [rec]\<rparr>)))
          (retA (plaintext, rec))))"

definition ListActiveTokens :: "string \<Rightarrow> PersonalAccessToken list act" where
  "ListActiveTokens userID =
     query (\<lambda>db. sort_key (\<lambda>r. - pat_CreatedAt r) (filter (\<lambda>r. pat_UserID r = userID \<and> pat_RevokedAt r = None) (t_pats db)))"

definition RevokeTokenByID :: "Clock \<Rightarrow> string \<Rightarrow> string \<Rightarrow> unit act" where
  "RevokeTokenByID t userID tokenID =
     (let hit = (\<lambda>r. pat_ID r = tokenID \<and> pat_UserID r = userID \<and> pat_RevokedAt r = None) in
      bindA (statement (\<lambda>db. (filter hit (t_pats db),
               db\<lparr>t_pats := updateWhere hit (\<lambda>r. r\<lparr>pat_RevokedAt := Some (dbNow t)\<rparr>) (t_pats db)\<rparr>)))
        (\<lambda>rows. unlessA (rows \<noteq> []) ErrPersonalAccessTokenNotFound (retA ())))"

definition FindActiveByHash :: "Primitives \<Rightarrow> Clock \<Rightarrow> string \<Rightarrow> PersonalAccessToken act" where
  "FindActiveByHash p t plaintext =
     bindA (query (\<lambda>db. find (\<lambda>r. pat_TokenHash r = HashToken p plaintext \<and> pat_RevokedAt r = None \<and>
         (case pat_ExpiresAt r of None \<Rightarrow> True | Some m \<Rightarrow> m > dbNow t)) (t_pats db))) (\<lambda>row.
     case row of
       None \<Rightarrow> failA ErrPersonalAccessTokenInvalid
     | Some r \<Rightarrow>
         thenA (ignoreA (exec (\<lambda>db. db\<lparr>t_pats :=
             updateWhere (\<lambda>x. pat_ID x = pat_ID r) (\<lambda>x. x\<lparr>pat_LastUsedAt := Some (dbNow t)\<rparr>) (t_pats db)\<rparr>)))
           (retA r))"

section \<open>Email changes\<close>

text \<open>The identifier is the primary key.\<close>

definition insertRequest :: "EmailChangeRequest \<Rightarrow> unit act" where
  "insertRequest req w =
     (if \<exists>r\<in>set (t_emailChanges (w_db w)). ec_ID r = ec_ID req then failA DatabaseError w
      else exec (\<lambda>db. db\<lparr>t_emailChanges := t_emailChanges db @ [req]\<rparr>) w)"

definition CreateEmailChangeRequest ::
    "Primitives \<Rightarrow> Clock \<Rightarrow> string \<Rightarrow> string \<Rightarrow> string \<Rightarrow> string \<Rightarrow> string \<Rightarrow> moment \<Rightarrow> moment \<Rightarrow> EmailChangeRequest act" where
  "CreateEmailChangeRequest p t userID oldEmail newEmail oldToken newToken notBefore expiresAt = inTx
     (thenA (exec (\<lambda>db. db\<lparr>t_emailChanges :=
         deleteWhere (\<lambda>r. ec_UserID r = userID \<and> ec_CompletedAt r = None) (t_emailChanges db)\<rparr>))
     (bindA (drawID p) (\<lambda>rowID.
      let req = \<lparr>ec_ID = rowID, ec_UserID = userID, ec_OldEmail = oldEmail, ec_NewEmail = newEmail,
                 ec_OldEmailToken = oldToken, ec_NewEmailToken = newToken,
                 ec_OldEmailConfirmedAt = None, ec_NewEmailConfirmedAt = None, ec_RequestedAt = dbNow t,
                 ec_NotBefore = notBefore, ec_ExpiresAt = expiresAt, ec_CompletedAt = None\<rparr>
      in thenA (insertRequest req) (retA req))))"

definition loadEmailChangeRequestForToken :: "string \<Rightarrow> EmailChangeRequest act" where
  "loadEmailChangeRequestForToken token =
     bindA (query (\<lambda>db. find (\<lambda>r. ec_OldEmailToken r = token \<or> ec_NewEmailToken r = token) (t_emailChanges db)))
       (\<lambda>row. case row of None \<Rightarrow> failA (TextError ''invalid email change token'') | Some r \<Rightarrow> retA r)"

definition validateEmailChangeRequest :: "EmailChangeRequest \<Rightarrow> moment \<Rightarrow> auth_error option" where
  "validateEmailChangeRequest req m =
     (if ec_CompletedAt req \<noteq> None then Some (TextError ''email change already completed'')
      else if m > ec_ExpiresAt req then Some (TextError ''email change token expired'')
      else None)"

text \<open>\<open>COALESCE(confirmed_at, $1)\<close>.\<close>

definition coalesce :: "'a option \<Rightarrow> 'a \<Rightarrow> 'a option" where
  "coalesce x d = (case x of None \<Rightarrow> Some d | Some y \<Rightarrow> Some y)"

definition confirmOld :: "moment \<Rightarrow> EmailChangeRequest \<Rightarrow> EmailChangeRequest" where
  "confirmOld m r = r\<lparr>ec_OldEmailConfirmedAt := coalesce (ec_OldEmailConfirmedAt r) m\<rparr>"

definition confirmNew :: "moment \<Rightarrow> EmailChangeRequest \<Rightarrow> EmailChangeRequest" where
  "confirmNew m r = r\<lparr>ec_NewEmailConfirmedAt := coalesce (ec_NewEmailConfirmedAt r) m\<rparr>"

definition updateRequest :: "string \<Rightarrow> (EmailChangeRequest \<Rightarrow> EmailChangeRequest) \<Rightarrow> unit act" where
  "updateRequest i f = exec (\<lambda>db. db\<lparr>t_emailChanges := updateWhere (\<lambda>r. ec_ID r = i) f (t_emailChanges db)\<rparr>)"

definition recordEmailChangeTokenConfirmation :: "string \<Rightarrow> EmailChangeRequest \<Rightarrow> moment \<Rightarrow> EmailChangeRequest act" where
  "recordEmailChangeTokenConfirmation token req m =
     (if token = ec_OldEmailToken req then thenA (updateRequest (ec_ID req) (confirmOld m)) (retA (confirmOld m req))
      else if token = ec_NewEmailToken req then thenA (updateRequest (ec_ID req) (confirmNew m)) (retA (confirmNew m req))
      else failA (TextError ''invalid email change token''))"

definition finalizeEmailChangeIfReady :: "EmailChangeRequest \<Rightarrow> moment \<Rightarrow> EmailChangeRequest act" where
  "finalizeEmailChangeIfReady req m =
     (if ec_OldEmailConfirmedAt req = None \<or> ec_NewEmailConfirmedAt req = None \<or> m < ec_NotBefore req then retA req
      else thenA (setUserRow (ec_UserID req) (ec_NewEmail req)
                    (\<lambda>u. u\<lparr>u_Email := ec_NewEmail req, u_EmailVerified := True\<rparr>))
          (thenA (updateRequest (ec_ID req) (\<lambda>r. r\<lparr>ec_CompletedAt := Some m\<rparr>))
                 (retA (req\<lparr>ec_CompletedAt := Some m\<rparr>))))"

definition ConfirmEmailChangeToken :: "string \<Rightarrow> moment \<Rightarrow> EmailChangeRequest act" where
  "ConfirmEmailChangeToken token m = inTx
     (bindA (loadEmailChangeRequestForToken token) (\<lambda>req.
      case validateEmailChangeRequest req m of
        Some e \<Rightarrow> failA e
      | None \<Rightarrow>
          bindA (recordEmailChangeTokenConfirmation token req m) (\<lambda>req'.
          finalizeEmailChangeIfReady req' m)))"

section \<open>External identities\<close>

definition GetOAuthAccount :: "string \<Rightarrow> string \<Rightarrow> string act" where
  "GetOAuthAccount provider uid =
     bindA (query (\<lambda>db. find (\<lambda>r. oa_Provider r = provider \<and> oa_ProviderUID r = uid) (t_oauth db)))
       (\<lambda>row. case row of None \<Rightarrow> failA ErrOAuthAccountNotFound | Some r \<Rightarrow> retA (oa_UserID r))"

text \<open>\<open>ON CONFLICT (provider, provider_uid) DO UPDATE\<close> changes the encrypted provider tokens only, which
  are not modelled: the row keeps its user.\<close>

definition upsertOAuthAccount :: "string \<Rightarrow> string \<Rightarrow> string \<Rightarrow> unit act" where
  "upsertOAuthAccount userID provider uid = exec (\<lambda>db.
     if \<exists>r\<in>set (t_oauth db). oa_Provider r = provider \<and> oa_ProviderUID r = uid then db
     else db\<lparr>t_oauth := t_oauth db @ [\<lparr>oa_UserID = userID, oa_Provider = provider, oa_ProviderUID = uid\<rparr>]\<rparr>)"

definition UnlinkOAuthAccount :: "string \<Rightarrow> string \<Rightarrow> unit act" where
  "UnlinkOAuthAccount userID provider =
     exec (\<lambda>db. db\<lparr>t_oauth := deleteWhere (\<lambda>r. oa_UserID r = userID \<and> oa_Provider r = provider) (t_oauth db)\<rparr>)"

text \<open>A new row of \<open>users\<close> with the defaults of the table. Of what \<open>bootstrapUserWorkspace\<close> adds in the
  same transaction only the global role is kept; the personal workspace belongs to another component.\<close>

definition newUser :: "string \<Rightarrow> string \<Rightarrow> string option \<Rightarrow> string \<Rightarrow> bool \<Rightarrow> moment option \<Rightarrow> User" where
  "newUser i email hash displayName verified changed =
     \<lparr>u_ID = i, u_Email = email, u_Username = None, u_DisplayName = Some displayName, u_AvatarURL = None,
      u_PasswordHash = hash, u_IsActive = True, u_EmailVerified = verified, u_LastLoginAt = None,
      u_FrozenAt = None, u_DeletedAt = None, u_PurgeAfter = None, u_PasswordChangedAt = changed\<rparr>"

definition insertUser :: "User \<Rightarrow> unit act" where
  "insertUser u = exec (\<lambda>db. db\<lparr>t_users := t_users db @ [u]\<rparr>)"

definition RoleSuperAdmin :: string where
  "RoleSuperAdmin = ''super_admin''"

text \<open>The advisory lock that precedes the read makes the transaction exclusive.\<close>

definition firstUserGlobalRoleName :: "string act" where
  "firstUserGlobalRoleName =
     wrapA ''check first user bootstrap'' (query (\<lambda>db. if t_users db = [] then RoleSuperAdmin else ''viewer''))"

definition bootstrapUserWorkspace :: "string \<Rightarrow> string \<Rightarrow> unit act" where
  "bootstrapUserWorkspace userID globalRoleName =
     wrapA ''assign default role'' (exec (\<lambda>db.
       db\<lparr>t_userRoles := t_userRoles db @ [\<lparr>ur_UserID = userID, ur_Role = globalRoleName\<rparr>]\<rparr>))"

definition emailTaken :: "string \<Rightarrow> bool act" where
  "emailTaken email = wrapA ''check user existence'' (query (\<lambda>db. \<exists>u\<in>set (t_users db). u_Email u = email))"

definition CreateUser :: "Primitives \<Rightarrow> Clock \<Rightarrow> string \<Rightarrow> string \<Rightarrow> string \<Rightarrow> User act" where
  "CreateUser p t email hash displayName = inTx
     (bindA firstUserGlobalRoleName (\<lambda>role.
      bindA (emailTaken email) (\<lambda>taken.
      if taken then failA ErrUserAlreadyExists
      else bindA (drawID p) (\<lambda>i.
        let u = newUser i email (Some hash) displayName False (Some (dbNow t)) in
        thenA (wrapA ''insert user'' (insertUser u))
        (thenA (wrapA ''insert password history'' (insertPasswordHistory i hash))
        (thenA (bootstrapUserWorkspace i role) (retA u)))))))"

definition CreateDirectoryUser :: "Primitives \<Rightarrow> string \<Rightarrow> string \<Rightarrow> User act" where
  "CreateDirectoryUser p email displayName = inTx
     (bindA firstUserGlobalRoleName (\<lambda>role.
      bindA (emailTaken email) (\<lambda>taken.
      if taken then failA ErrUserAlreadyExists
      else bindA (drawID p) (\<lambda>i.
        let u = newUser i email None displayName True None in
        thenA (wrapA ''insert directory user'' (insertUser u)) (thenA (bootstrapUserWorkspace i role) (retA u))))))"

definition existingOrNewUser :: "Primitives \<Rightarrow> string \<Rightarrow> string \<Rightarrow> string \<Rightarrow> User act" where
  "existingOrNewUser p role email displayName =
     bindA (wrapA ''check user existence'' (query (\<lambda>db. find (\<lambda>u. u_Email u = email) (t_users db)))) (\<lambda>found.
     case found of
       Some u \<Rightarrow> retA u
     | None \<Rightarrow> bindA (drawID p) (\<lambda>i.
         let u = newUser i email None displayName True None in
         thenA (wrapA ''insert user'' (insertUser u)) (thenA (bootstrapUserWorkspace i role) (retA u))))"

definition CreateUserWithOAuth :: "Primitives \<Rightarrow> string \<Rightarrow> string \<Rightarrow> string \<Rightarrow> string \<Rightarrow> User act" where
  "CreateUserWithOAuth p email displayName provider uid = inTx
     (bindA firstUserGlobalRoleName (\<lambda>role.
      bindA (existingOrNewUser p role email displayName) (\<lambda>u.
      thenA (wrapA ''link oauth account'' (upsertOAuthAccount (u_ID u) provider uid)) (retA u))))"

end
