(* ===== verification/MFA.thy ===== *)
theory MFA
  imports Account_Store "HOL-Library.Word"
begin

text \<open>
  The second factor: \<open>internal/auth/mfa/totp.go\<close>, \<open>mfa.go\<close> and \<open>mfa_repository.go\<close>. One-time codes with
  their machine integers, recovery and bypass codes, and the enrolment of a user. HMAC-SHA1 of the decoded
  secret, bcrypt, encryption at rest and the drawn codes are parameters.
\<close>

unbundle bit_operations_syntax

section \<open>One-time codes\<close>

definition totpDigits :: nat where "totpDigits = 6"
definition totpPeriod :: "64 word" where "totpPeriod = 30"
definition totpSkewSteps :: nat where "totpSkewSteps = 1"

text \<open>The four bytes at the offset in the last nibble, without the sign bit.\<close>

definition truncateMac :: "8 word list \<Rightarrow> 32 word" where
  "truncateMac s =
     (let offset = unat (s ! (length s - 1) AND 0x0f)
      in push_bit 24 (ucast (s ! offset) AND 0x7f) OR push_bit 16 (ucast (s ! (offset + 1)) AND 0xff) OR
         push_bit 8 (ucast (s ! (offset + 2)) AND 0xff) OR (ucast (s ! (offset + 3)) AND 0xff))"

text \<open>\<open>fmt.Sprintf("%0*d", width, n)\<close>.\<close>

definition padded :: "nat \<Rightarrow> nat \<Rightarrow> string" where
  "padded width n = replicate (width - length (nat_digits n)) CHR ''0'' @ nat_digits n"

text \<open>\<open>mac secret counter\<close> is HMAC-SHA1 of the counter in big-endian bytes under the decoded secret, \<open>None\<close> when
  the secret is not base32.\<close>

type_synonym totp_mac = "string \<Rightarrow> 64 word \<Rightarrow> 8 word list option"

definition codeModulus :: "32 word" where
  "codeModulus = fold (\<lambda>_ m. m * 10) [0..<totpDigits] 1"

definition generateTOTPCode :: "totp_mac \<Rightarrow> string \<Rightarrow> 64 word \<Rightarrow> string option" where
  "generateTOTPCode mac secret counter =
     (case mac secret counter of
        None \<Rightarrow> None
      | Some s \<Rightarrow> Some (padded totpDigits (unat (truncateMac s mod codeModulus))))"

text \<open>\<open>now.Unix()\<close> and the counter of the period; the conversion to \<open>uint64\<close> is exact for times since 1970.\<close>

definition totpCounter :: "int \<Rightarrow> 64 word option" where
  "totpCounter unix = (if unix < 0 then None else Some (word_of_int unix div totpPeriod))"

definition totpCounterWithSkew :: "64 word \<Rightarrow> int \<Rightarrow> 64 word option" where
  "totpCounterWithSkew counter skew =
     (if skew < 0 then
        let neg = word_of_int (- skew) in if counter < neg then None else Some (counter - neg)
      else Some (counter + word_of_int skew))"

definition skews :: "int list" where
  "skews = map (\<lambda>i. int i - int totpSkewSteps) [0..<2 * totpSkewSteps + 1]"

fun trySkews :: "totp_mac \<Rightarrow> string \<Rightarrow> string \<Rightarrow> 64 word \<Rightarrow> int list \<Rightarrow> 64 word option" where
  "trySkews mac secret code counter [] = None"
| "trySkews mac secret code counter (skew # rest) =
     (case totpCounterWithSkew counter skew of
        None \<Rightarrow> trySkews mac secret code counter rest
      | Some s \<Rightarrow>
          (case generateTOTPCode mac secret s of
             None \<Rightarrow> None
           | Some generated \<Rightarrow> if generated = code then Some s else trySkews mac secret code counter rest))"

definition VerifyTOTPStep :: "totp_mac \<Rightarrow> string \<Rightarrow> string \<Rightarrow> int \<Rightarrow> 64 word option" where
  "VerifyTOTPStep mac secret code unix =
     (let code = TrimSpace code in
      if length code \<noteq> totpDigits then None
      else (case totpCounter unix of
          None \<Rightarrow> None
        | Some counter \<Rightarrow> trySkews mac secret code counter skews))"

definition VerifyTOTP :: "totp_mac \<Rightarrow> string \<Rightarrow> string \<Rightarrow> int \<Rightarrow> bool" where
  "VerifyTOTP mac secret code unix \<longleftrightarrow> VerifyTOTPStep mac secret code unix \<noteq> None"

section \<open>The repository\<close>

record MfaConfig =
  mf_mac :: totp_mac
  mf_encrypt :: "string \<Rightarrow> string option"
  mf_decrypt :: "string \<Rightarrow> string option"

definition fromOption :: "auth_error \<Rightarrow> 'a option \<Rightarrow> 'a act" where
  "fromOption e x = (case x of None \<Rightarrow> failA e | Some a \<Rightarrow> retA a)"

definition mfaRow :: "string \<Rightarrow> AuthDB \<Rightarrow> Enrollment option" where
  "mfaRow userID db = find (\<lambda>r. en_UserID r = userID) (t_mfa db)"

definition updateMfa :: "string \<Rightarrow> (Enrollment \<Rightarrow> Enrollment) \<Rightarrow> AuthDB \<Rightarrow> AuthDB" where
  "updateMfa userID f db = db\<lparr>t_mfa := updateWhere (\<lambda>r. en_UserID r = userID) f (t_mfa db)\<rparr>"

text \<open>A conflict on the user keeps \<open>last_used_at\<close> and \<open>last_totp_step\<close>.\<close>

definition pendingRow :: "string \<Rightarrow> string \<Rightarrow> string \<Rightarrow> string list \<Rightarrow> Enrollment" where
  "pendingRow userID method secret hashes =
     \<lparr>en_UserID = userID, en_Method = method, en_Secret = secret, en_RecoveryCodes = hashes, en_BypassCodes = [],
      en_Enabled = False, en_VerifiedAt = None, en_LastUsedAt = None, en_LastTOTPStep = 0\<rparr>"

definition Upsert :: "MfaConfig \<Rightarrow> string \<Rightarrow> string \<Rightarrow> string \<Rightarrow> string list \<Rightarrow> unit act" where
  "Upsert c userID method secret hashes =
     bindA (fromOption (External ''encrypt'') (mf_encrypt c secret)) (\<lambda>sealed.
     exec (\<lambda>db.
       if mfaRow userID db = None then db\<lparr>t_mfa := t_mfa db @ [pendingRow userID method sealed hashes]\<rparr>
       else updateMfa userID (\<lambda>r. r\<lparr>en_Method := method, en_Secret := sealed, en_RecoveryCodes := hashes,
              en_BypassCodes := [], en_Enabled := False, en_VerifiedAt := None\<rparr>) db))"

definition mfaGet :: "MfaConfig \<Rightarrow> string \<Rightarrow> Enrollment act" where
  "mfaGet c userID =
     bindA (query (mfaRow userID)) (\<lambda>row.
     case row of
       None \<Rightarrow> failA ErrMFANotEnrolled
     | Some r \<Rightarrow>
         bindA (fromOption (External ''decrypt'') (mf_decrypt c (en_Secret r))) (\<lambda>secret.
         retA (r\<lparr>en_Secret := secret\<rparr>)))"

definition Enable :: "Clock \<Rightarrow> string \<Rightarrow> unit act" where
  "Enable t userID = exec (updateMfa userID (\<lambda>r. r\<lparr>en_Enabled := True, en_VerifiedAt := coalesce (en_VerifiedAt r) (dbNow t)\<rparr>))"

definition mfaDisable :: "string \<Rightarrow> unit act" where
  "mfaDisable userID = exec (\<lambda>db. db\<lparr>t_mfa := deleteWhere (\<lambda>r. en_UserID r = userID) (t_mfa db)\<rparr>)"

definition MarkUsed :: "Clock \<Rightarrow> string \<Rightarrow> unit act" where
  "MarkUsed t userID = exec (updateMfa userID (\<lambda>r. r\<lparr>en_LastUsedAt := Some (dbNow t)\<rparr>))"

text \<open>\<open>UPDATE user_mfa ... WHERE user_id = $1 AND ...\<close>; the result says whether a row changed.\<close>

definition consumeWhere :: "string \<Rightarrow> (Enrollment \<Rightarrow> bool) \<Rightarrow> (Enrollment \<Rightarrow> Enrollment) \<Rightarrow> bool act" where
  "consumeWhere userID P f = statement (\<lambda>db.
     let hit = (\<lambda>r. en_UserID r = userID \<and> P r)
     in (\<exists>r\<in>set (t_mfa db). hit r, db\<lparr>t_mfa := updateWhere hit f (t_mfa db)\<rparr>))"

definition ConsumeTOTPStep :: "Clock \<Rightarrow> string \<Rightarrow> 64 word \<Rightarrow> bool act" where
  "ConsumeTOTPStep t userID step =
     consumeWhere userID (\<lambda>r. en_LastTOTPStep r < uint step)
       (\<lambda>r. r\<lparr>en_LastTOTPStep := uint step, en_LastUsedAt := Some (dbNow t)\<rparr>)"

definition ConsumeRecoveryCode :: "string \<Rightarrow> string \<Rightarrow> bool act" where
  "ConsumeRecoveryCode userID hash =
     consumeWhere userID (\<lambda>r. hash \<in> set (en_RecoveryCodes r))
       (\<lambda>r. r\<lparr>en_RecoveryCodes := removeAll hash (en_RecoveryCodes r)\<rparr>)"

definition ConsumeBypassCode :: "string \<Rightarrow> string \<Rightarrow> bool act" where
  "ConsumeBypassCode userID hash =
     consumeWhere userID (\<lambda>r. hash \<in> set (en_BypassCodes r))
       (\<lambda>r. r\<lparr>en_BypassCodes := removeAll hash (en_BypassCodes r)\<rparr>)"

definition ReplaceRecoveryCodes :: "string \<Rightarrow> string list \<Rightarrow> unit act" where
  "ReplaceRecoveryCodes userID hashes = exec (updateMfa userID (\<lambda>r. r\<lparr>en_RecoveryCodes := hashes\<rparr>))"

definition AddBypassCode :: "string \<Rightarrow> string \<Rightarrow> unit act" where
  "AddBypassCode userID hash = exec (updateMfa userID (\<lambda>r. r\<lparr>en_BypassCodes := en_BypassCodes r @ [hash]\<rparr>))"

section \<open>The service\<close>

definition unixTime :: "moment \<Rightarrow> int" where
  "unixTime m = m div 1000000000"

definition normalizeRecoveryCode :: "string \<Rightarrow> string" where
  "normalizeRecoveryCode code = ToUpper (filter (\<lambda>ch. ch \<noteq> CHR ''-'') (TrimSpace code))"

fun groupsOfFour :: "string \<Rightarrow> string list" where
  "groupsOfFour [] = []"
| "groupsOfFour (a # s) = take 4 (a # s) # groupsOfFour (drop 3 s)"

text \<open>The case of sixteen characters is the general one.\<close>

definition formatRecoveryCode :: "string \<Rightarrow> string" where
  "formatRecoveryCode code = Join (groupsOfFour (ToUpper code)) ''-''"

fun generateRecoveryCodes :: "Primitives \<Rightarrow> nat \<Rightarrow> (string list \<times> string list) act" where
  "generateRecoveryCodes p 0 = retA ([], [])"
| "generateRecoveryCodes p (Suc n) =
     bindA (drawToken p) (\<lambda>code.
     bindA (fromOption (Wrapped ''hash recovery code'' (External ''bcrypt''))
              (HashPassword p (normalizeRecoveryCode (formatRecoveryCode code)))) (\<lambda>h.
     bindA (generateRecoveryCodes p n) (\<lambda>(plain, hashes).
     retA (formatRecoveryCode code # plain, h # hashes))))"

definition recoveryCodeCount :: nat where "recoveryCodeCount = 10"

text \<open>The secret and the plain recovery codes of an enrolment; the URL of the QR code is not kept.\<close>

definition Enroll :: "Primitives \<Rightarrow> MfaConfig \<Rightarrow> string \<Rightarrow> (string \<times> string list) act" where
  "Enroll p c userID =
     bindA (drawToken p) (\<lambda>secret.
     bindA (generateRecoveryCodes p recoveryCodeCount) (\<lambda>(plain, hashes).
     thenA (Upsert c userID ''totp'' secret hashes)
     (retA (secret, plain))))"

definition mfaVerify :: "MfaConfig \<Rightarrow> Clock \<Rightarrow> string \<Rightarrow> string \<Rightarrow> unit act" where
  "mfaVerify c t userID code =
     bindA (mfaGet c userID) (\<lambda>enrol.
     case VerifyTOTPStep (mf_mac c) (en_Secret enrol) code (unixTime (now t)) of
       None \<Rightarrow> failA ErrMFACodeInvalid
     | Some step \<Rightarrow>
         thenA (if en_Enabled enrol then retA () else Enable t userID)
         (bindA (ConsumeTOTPStep t userID step) (\<lambda>consumed.
          unlessA consumed ErrTOTPCodeAlreadyUsed (retA ()))))"

text \<open>The loops over the stored hashes: the first hash the code matches and that could be removed.\<close>

fun tryCodes :: "(string \<Rightarrow> bool) \<Rightarrow> (string \<Rightarrow> bool act) \<Rightarrow> string list \<Rightarrow> bool act" where
  "tryCodes matches use [] = retA False"
| "tryCodes matches use (h # hs) =
     (if matches h then bindA (use h) (\<lambda>used. if used then retA True else tryCodes matches use hs)
      else tryCodes matches use hs)"

definition VerifyCode :: "Primitives \<Rightarrow> MfaConfig \<Rightarrow> Clock \<Rightarrow> string \<Rightarrow> string \<Rightarrow> unit act" where
  "VerifyCode p c t userID code =
     bindA (mfaGet c userID) (\<lambda>enrol.
     if \<not> en_Enabled enrol then failA ErrMFANotEnabled
     else (case VerifyTOTPStep (mf_mac c) (en_Secret enrol) code (unixTime (now t)) of
         Some step \<Rightarrow>
           bindA (ConsumeTOTPStep t userID step) (\<lambda>consumed. unlessA consumed ErrTOTPCodeAlreadyUsed (retA ()))
       | None \<Rightarrow>
           bindA (tryCodes (VerifyPassword p (normalizeRecoveryCode code)) (ConsumeRecoveryCode userID)
                    (en_RecoveryCodes enrol)) (\<lambda>recovered.
           if recovered then MarkUsed t userID
           else
             bindA (tryCodes (VerifyPassword p (ToUpper (TrimSpace code))) (ConsumeBypassCode userID)
                      (en_BypassCodes enrol)) (\<lambda>bypassed.
             if bypassed then MarkUsed t userID else failA ErrMFACodeInvalid))))"

definition GenerateBypassCode :: "Primitives \<Rightarrow> MfaConfig \<Rightarrow> string \<Rightarrow> string act" where
  "GenerateBypassCode p c userID =
     bindA (mfaGet c userID) (\<lambda>enrol.
     if \<not> en_Enabled enrol then failA ErrMFANotEnabled
     else bindA (drawToken p) (\<lambda>code.
       bindA (fromOption (Wrapped ''hash bypass code'' (External ''bcrypt'')) (HashPassword p (''BYPASS-'' @ code))) (\<lambda>h.
       thenA (AddBypassCode userID h) (retA (''BYPASS-'' @ code)))))"

definition mfaStatus :: "MfaConfig \<Rightarrow> string \<Rightarrow> Enrollment option act" where
  "mfaStatus c userID =
     bindA (catchA (mfaGet c userID)) (\<lambda>r.
     case r of Inl ErrMFANotEnrolled \<Rightarrow> retA None | Inl e \<Rightarrow> failA e | Inr enrol \<Rightarrow> retA (Some enrol))"

definition RegenerateRecoveryCodes :: "Primitives \<Rightarrow> MfaConfig \<Rightarrow> string \<Rightarrow> string list act" where
  "RegenerateRecoveryCodes p c userID =
     bindA (mfaGet c userID) (\<lambda>enrol.
     if \<not> en_Enabled enrol then failA ErrMFANotEnabled
     else bindA (generateRecoveryCodes p recoveryCodeCount) (\<lambda>(plain, hashes).
       thenA (ReplaceRecoveryCodes userID hashes) (retA plain)))"

definition IsEnabled :: "MfaConfig \<Rightarrow> string \<Rightarrow> bool act" where
  "IsEnabled c userID =
     bindA (catchA (mfaGet c userID)) (\<lambda>r.
     case r of Inl ErrMFANotEnrolled \<Rightarrow> retA False | Inl e \<Rightarrow> failA e | Inr enrol \<Rightarrow> retA (en_Enabled enrol))"

end
