(* ===== verification/Account_Service.thy ===== *)
theory Account_Service
  imports MFA
begin

text \<open>
  The authentication service: \<open>internal/auth/service.go\<close>, \<open>service_oauth.go\<close>, \<open>service_magic_link.go\<close>,
  \<open>service_pat.go\<close>, \<open>service_password.go\<close>, \<open>service_profile.go\<close>, \<open>service_email.go\<close>,
  \<open>service_sessions.go\<close>, \<open>service_account_lifecycle.go\<close> and \<open>tryLDAP\<close>. Every way to a session is composed
  of the statements of \<open>Account_Store\<close> the way the code composes them.

  Roles, workspaces and their second-factor policy, the token signer, the directory, the normalisation of
  addresses and names and the password policy are parameters; each can fail. Messages sent, metrics and the
  audit trail are left out, except that a message that cannot be sent is an error where the code returns it.
\<close>

record DirectoryEntry =
  de_Email :: string
  de_DisplayName :: string

record Service =
  sv_prims :: Primitives
  sv_sessions :: SessionManager
  sv_mfa :: "MfaConfig option"
  sv_redis :: bool
  sv_mailer :: bool
  sv_magicLinks :: bool
  sv_pats :: bool
  sv_RefreshTTL :: duration
  sv_MaxActiveSessions :: int
  sv_PasswordMaxAgeDays :: int
  sv_GDPRPurgeAfterDays :: int
  sv_roles :: "string \<Rightarrow> string list option"
  sv_workspace :: "string \<Rightarrow> string option"
  sv_mfaRequired :: "(string \<Rightarrow> bool option) option"
  sv_sign :: "User \<Rightarrow> string list \<Rightarrow> string \<Rightarrow> string option"
  sv_signChallenge :: "string \<Rightarrow> string option"
  sv_readChallenge :: "string \<Rightarrow> string option"
  sv_directory :: "string \<Rightarrow> string \<Rightarrow> auth_error + DirectoryEntry option"
  sv_autoCreate :: bool
  sv_NormalizeEmail :: "string \<Rightarrow> string option"
  sv_SanitizeName :: "string \<Rightarrow> string option"
  sv_Policy :: "string \<Rightarrow> string list \<Rightarrow> string option"
  sv_SelfSignup :: "bool option"

record TokenResponse =
  tr_AccessToken :: string
  tr_RefreshToken :: string
  tr_UserID :: string
  tr_Email :: string
  tr_Roles :: "string list"
  tr_MFARequired :: bool
  tr_MFAToken :: string
  tr_PasswordExpired :: bool
  tr_VerificationPending :: bool

definition emptyResponse :: TokenResponse where
  "emptyResponse = \<lparr>tr_AccessToken = [], tr_RefreshToken = [], tr_UserID = [], tr_Email = [], tr_Roles = [],
     tr_MFARequired = False, tr_MFAToken = [], tr_PasswordExpired = False, tr_VerificationPending = False\<rparr>"

definition tokens :: "string \<Rightarrow> string \<Rightarrow> User \<Rightarrow> string list \<Rightarrow> TokenResponse" where
  "tokens access refresh u roles = emptyResponse\<lparr>tr_AccessToken := access, tr_RefreshToken := refresh,
     tr_UserID := u_ID u, tr_Email := u_Email u, tr_Roles := roles\<rparr>"

definition second :: duration where "second = 1000000000"
definition minute :: duration where "minute = 60 * second"
definition hour :: duration where "hour = 60 * minute"

text \<open>Errors of parameters.\<close>

definition need :: "string \<Rightarrow> 'a option \<Rightarrow> 'a act" where
  "need what x = fromOption (External what) x"

text \<open>A message: an operation outside the program that can fail.\<close>

definition sendMail :: "Service \<Rightarrow> unit act" where
  "sendMail sv = (if sv_mailer sv then outcomeA (External ''mail'') (retA ()) else retA ())"

section \<open>Counters in Redis\<close>

definition live :: "Clock \<Rightarrow> int \<times> moment option \<Rightarrow> bool" where
  "live t e \<longleftrightarrow> (case snd e of None \<Rightarrow> True | Some m \<Rightarrow> now t < m)"

definition redisValue :: "Clock \<Rightarrow> World \<Rightarrow> string \<Rightarrow> int option" where
  "redisValue t w key = (case w_redis w key of Some e \<Rightarrow> if live t e then Some (fst e) else None | None \<Rightarrow> None)"

definition redisGet :: "Clock \<Rightarrow> string \<Rightarrow> int option act" where
  "redisGet t key = outcomeA RedisError (\<lambda>w. (Inr (redisValue t w key), w))"

definition redisIncr :: "Clock \<Rightarrow> string \<Rightarrow> int act" where
  "redisIncr t key = outcomeA RedisError (\<lambda>w.
     case w_redis w key of
       Some e \<Rightarrow>
         if live t e then (Inr (fst e + 1), w\<lparr>w_redis := (w_redis w)(key \<mapsto> (fst e + 1, snd e))\<rparr>)
         else (Inr 1, w\<lparr>w_redis := (w_redis w)(key \<mapsto> (1, None))\<rparr>)
     | None \<Rightarrow> (Inr 1, w\<lparr>w_redis := (w_redis w)(key \<mapsto> (1, None))\<rparr>))"

definition redisExpire :: "Clock \<Rightarrow> string \<Rightarrow> duration \<Rightarrow> unit act" where
  "redisExpire t key d = outcomeA RedisError (\<lambda>w.
     case w_redis w key of
       Some e \<Rightarrow> (Inr (), if live t e then w\<lparr>w_redis := (w_redis w)(key \<mapsto> (fst e, Some (now t + d)))\<rparr> else w)
     | None \<Rightarrow> (Inr (), w))"

definition redisDel :: "string \<Rightarrow> unit act" where
  "redisDel key = outcomeA RedisError (\<lambda>w. (Inr (), w\<lparr>w_redis := (w_redis w)(key := None)\<rparr>))"

text \<open>A count of five or more locks; an error of Redis or a missing key does not.\<close>

definition checkLockout :: "Service \<Rightarrow> Clock \<Rightarrow> string \<Rightarrow> auth_error \<Rightarrow> unit act" where
  "checkLockout sv t key locked =
     (if \<not> sv_redis sv then retA ()
      else bindA (catchA (redisGet t key)) (\<lambda>r.
        case r of Inr (Some val) \<Rightarrow> if val \<ge> 5 then failA locked else retA () | _ \<Rightarrow> retA ()))"

definition loginKey :: "string \<Rightarrow> string" where
  "loginKey email = ''login_failures:'' @ email"

definition mfaKey :: "string \<Rightarrow> string" where
  "mfaKey userID = ''mfa_failures:'' @ userID"

definition checkLoginLockout :: "Service \<Rightarrow> Clock \<Rightarrow> string \<Rightarrow> unit act" where
  "checkLoginLockout sv t email = checkLockout sv t (loginKey email) ErrAccountLocked"

definition CheckMFALockout :: "Service \<Rightarrow> Clock \<Rightarrow> string \<Rightarrow> unit act" where
  "CheckMFALockout sv t userID = checkLockout sv t (mfaKey userID) ErrMFAVerificationLocked"

definition sendUnlock :: "Service \<Rightarrow> Clock \<Rightarrow> User \<Rightarrow> unit act" where
  "sendUnlock sv t u =
     bindA (catchA (CreateUnlockToken (sv_prims sv) t (u_ID u) hour)) (\<lambda>r.
     case r of Inl _ \<Rightarrow> retA () | Inr _ \<Rightarrow> ignoreA (sendMail sv))"

definition recordLoginFailure :: "Service \<Rightarrow> Clock \<Rightarrow> string \<Rightarrow> User option \<Rightarrow> unit act" where
  "recordLoginFailure sv t email user =
     (if \<not> sv_redis sv then retA ()
      else bindA (catchA (redisIncr t (loginKey email))) (\<lambda>r.
        case r of
          Inl _ \<Rightarrow> retA ()
        | Inr count \<Rightarrow>
            thenA (ignoreA (redisExpire t (loginKey email) (15 * minute)))
              (case user of
                 Some u \<Rightarrow> if count = 5 \<and> sv_mailer sv then sendUnlock sv t u else retA ()
               | None \<Rightarrow> retA ())))"

definition RecordMFAFailure :: "Service \<Rightarrow> Clock \<Rightarrow> string \<Rightarrow> unit act" where
  "RecordMFAFailure sv t userID =
     (if \<not> sv_redis sv then retA ()
      else bindA (catchA (redisIncr t (mfaKey userID))) (\<lambda>r.
        case r of Inl _ \<Rightarrow> retA () | Inr _ \<Rightarrow> ignoreA (redisExpire t (mfaKey userID) (15 * minute))))"

definition ClearMFAFailures :: "Service \<Rightarrow> string \<Rightarrow> unit act" where
  "ClearMFAFailures sv userID = (if sv_redis sv then ignoreA (redisDel (mfaKey userID)) else retA ())"

definition clearLoginFailures :: "Service \<Rightarrow> string \<Rightarrow> unit act" where
  "clearLoginFailures sv email = (if sv_redis sv then ignoreA (redisDel (loginKey email)) else retA ())"

section \<open>Password login\<close>

definition lowerTrim :: "string \<Rightarrow> string" where
  "lowerTrim raw = TrimSpace (ToLower raw)"

definition normalizeLoginEmail :: "Service \<Rightarrow> string \<Rightarrow> string" where
  "normalizeLoginEmail sv raw = (case sv_NormalizeEmail sv raw of Some email \<Rightarrow> email | None \<Rightarrow> lowerTrim raw)"

text \<open>The local user of a directory entry, created when that is configured.\<close>

definition directoryUser :: "Service \<Rightarrow> DirectoryEntry \<Rightarrow> string \<Rightarrow> User option act" where
  "directoryUser sv entry normEmail =
     bindA (catchA (GetUserByEmail normEmail)) (\<lambda>r.
     case r of
       Inr u \<Rightarrow> retA (Some u)
     | Inl e \<Rightarrow>
         if e \<noteq> ErrUserNotFound then failA e
         else if \<not> sv_autoCreate sv then retA None
         else bindA (CreateDirectoryUser (sv_prims sv) normEmail
                (case sv_SanitizeName sv (de_DisplayName entry) of
                   Some n \<Rightarrow> if TrimSpace n = [] then normEmail else n | None \<Rightarrow> normEmail))
              (\<lambda>u. retA (Some u)))"

text \<open>The directory may answer with an error, with nothing (disabled, or invalid credentials) or with an entry.\<close>

definition tryLDAP :: "Service \<Rightarrow> string \<Rightarrow> string \<Rightarrow> User option act" where
  "tryLDAP sv username password =
     (case sv_directory sv username password of
        Inl e \<Rightarrow> failA e
      | Inr None \<Rightarrow> retA None
      | Inr (Some entry) \<Rightarrow>
          let email = TrimSpace (de_Email entry)
          in directoryUser sv entry (normalizeLoginEmail sv (if email = [] then username else email)))"

text \<open>The user, whether the credentials are right, and whether the directory said so.\<close>

definition passwordMatches :: "Service \<Rightarrow> string \<Rightarrow> User \<Rightarrow> bool" where
  "passwordMatches sv password u =
     (case u_PasswordHash u of Some h \<Rightarrow> VerifyPassword (sv_prims sv) password h | None \<Rightarrow> False)"

definition userOrNone :: "string \<Rightarrow> User option act" where
  "userOrNone email =
     bindA (catchA (GetUserByEmail email)) (\<lambda>r.
     case r of
       Inr u \<Rightarrow> retA (Some u)
     | Inl e \<Rightarrow> if e = ErrUserNotFound then retA None else failA e)"

definition authenticateLogin :: "Service \<Rightarrow> string \<Rightarrow> string \<Rightarrow> string \<Rightarrow> (User option \<times> bool) act" where
  "authenticateLogin sv rawEmail password email =
     bindA (userOrNone email) (\<lambda>user.
     if (case user of Some u \<Rightarrow> passwordMatches sv password u | None \<Rightarrow> False) then retA (user, True)
     else bindA (catchA (tryLDAP sv rawEmail password)) (\<lambda>l.
       case l of Inr (Some u) \<Rightarrow> retA (Some u, True) | _ \<Rightarrow> retA (user, False)))"

definition rejectInvalidLogin :: "Service \<Rightarrow> Clock \<Rightarrow> User option \<Rightarrow> bool \<Rightarrow> string \<Rightarrow> User act" where
  "rejectInvalidLogin sv t user passwordOK email =
     (case user of
        None \<Rightarrow> thenA (recordLoginFailure sv t email None) (failA ErrInvalidCredentials)
      | Some u \<Rightarrow>
          if \<not> u_IsActive u then failA ErrInactiveUser
          else if \<not> passwordOK then thenA (recordLoginFailure sv t email (Some u)) (failA ErrInvalidCredentials)
          else retA u)"

definition validateLoginAccountState :: "User \<Rightarrow> unit act" where
  "validateLoginAccountState u =
     bindA (GetAccountState (u_ID u)) (\<lambda>state.
     if IsDeleted state then failA ErrAccountDeleted
     else if IsFrozen state then failA ErrAccountFrozen
     else retA ())"

definition activeWorkspaceRequiresMFA :: "Service \<Rightarrow> User \<Rightarrow> bool act" where
  "activeWorkspaceRequiresMFA sv u =
     (case sv_mfaRequired sv of
        None \<Rightarrow> retA False
      | Some required \<Rightarrow>
          bindA (need ''get active workspace'' (sv_workspace sv (u_ID u))) (\<lambda>ws.
          need ''check workspace mfa policy'' (required ws)))"

text \<open>The result is the challenge of the second factor, or nothing when the login goes on.\<close>

definition loginMFAGate :: "Service \<Rightarrow> User \<Rightarrow> TokenResponse option act" where
  "loginMFAGate sv u =
     bindA (activeWorkspaceRequiresMFA sv u) (\<lambda>workspaceMFARequired.
     bindA (case sv_mfa sv of None \<Rightarrow> retA False | Some c \<Rightarrow> wrapA ''check mfa'' (MFA.IsEnabled c (u_ID u))) (\<lambda>enabled.
     if enabled then
       bindA (need ''generate mfa challenge'' (sv_signChallenge sv (u_ID u))) (\<lambda>challenge.
       retA (Some (emptyResponse\<lparr>tr_MFARequired := True, tr_MFAToken := challenge\<rparr>)))
     else if workspaceMFARequired then failA ErrMFARequired
     else retA None))"

definition text_of :: "string option \<Rightarrow> string" where
  "text_of s = (case s of None \<Rightarrow> [] | Some x \<Rightarrow> x)"

definition isPasswordExpired :: "Service \<Rightarrow> Clock \<Rightarrow> string \<Rightarrow> bool act" where
  "isPasswordExpired sv t userID =
     (if sv_PasswordMaxAgeDays sv \<le> 0 then retA False
      else bindA (catchA (GetAccountState userID)) (\<lambda>r.
        retA (case r of
            Inl _ \<Rightarrow> False
          | Inr state \<Rightarrow> (case as_PasswordChangedAt state of
                None \<Rightarrow> False | Some m \<Rightarrow> now t - m > sv_PasswordMaxAgeDays sv * day))))"

definition accessToken :: "Service \<Rightarrow> User \<Rightarrow> (string \<times> string list) act" where
  "accessToken sv u =
     bindA (need ''get user roles'' (sv_roles sv (u_ID u))) (\<lambda>roles.
     bindA (need ''get active workspace'' (sv_workspace sv (u_ID u))) (\<lambda>ws.
     bindA (need ''generate access token'' (sv_sign sv u roles ws)) (\<lambda>access.
     retA (access, roles))))"

definition issueSession :: "Service \<Rightarrow> Clock \<Rightarrow> User \<Rightarrow> string option \<Rightarrow> string option \<Rightarrow> TokenResponse act" where
  "issueSession sv t u userAgent ipAddress =
     bindA (accessToken sv u) (\<lambda>(access, roles).
     let fingerprint = DeviceFingerprint (sv_prims sv) (text_of userAgent) (text_of ipAddress) in
     bindA (wrapA ''create session'' (CreateSessionWithFingerprint (sv_prims sv) (sv_sessions sv) t (u_ID u)
              userAgent ipAddress fingerprint (sv_RefreshTTL sv))) (\<lambda>refresh.
     thenA (ignoreA (UpdateLastLogin t (u_ID u)))
     (thenA (if sv_MaxActiveSessions sv > 0
             then ignoreA (EnforceMaxSessions (sv_prims sv) t (u_ID u) (sv_MaxActiveSessions sv)) else retA ())
     (bindA (catchA (RecordKnownDevice t (u_ID u) fingerprint)) (\<lambda>r.
      thenA (case r of Inr True \<Rightarrow> ignoreA (sendMail sv) | _ \<Rightarrow> retA ())
      (bindA (isPasswordExpired sv t (u_ID u)) (\<lambda>expired.
       retA ((tokens access refresh u roles)\<lparr>tr_PasswordExpired := expired\<rparr>))))))))"

definition Login :: "Service \<Rightarrow> Clock \<Rightarrow> string \<Rightarrow> string \<Rightarrow> string option \<Rightarrow> string option \<Rightarrow> TokenResponse act" where
  "Login sv t rawEmail password userAgent ipAddress =
     (let email = normalizeLoginEmail sv rawEmail in
      thenA (checkLoginLockout sv t email)
      (bindA (authenticateLogin sv rawEmail password email) (\<lambda>(user, passwordOK).
       bindA (rejectInvalidLogin sv t user passwordOK email) (\<lambda>u.
       thenA (validateLoginAccountState u)
       (thenA (clearLoginFailures sv email)
       (bindA (loginMFAGate sv u) (\<lambda>mfaResp.
        case mfaResp of Some resp \<Rightarrow> retA resp | None \<Rightarrow> issueSession sv t u userAgent ipAddress)))))))"

definition CompleteMFALogin :: "Service \<Rightarrow> Clock \<Rightarrow> string \<Rightarrow> string \<Rightarrow> string option \<Rightarrow> string option \<Rightarrow> TokenResponse act" where
  "CompleteMFALogin sv t mfaToken code userAgent ipAddress =
     (case sv_mfa sv of
        None \<Rightarrow> failA ErrMFANotEnabled
      | Some c \<Rightarrow>
          (case sv_readChallenge sv mfaToken of
             None \<Rightarrow> failA ErrInvalidCredentials
           | Some userID \<Rightarrow>
               thenA (VerifyCode (sv_prims sv) c t userID code)
               (bindA (GetUserByID userID) (\<lambda>u.
                if \<not> u_IsActive u then failA ErrInactiveUser
                else issueSession sv t u userAgent ipAddress))))"

definition Refresh :: "Service \<Rightarrow> Clock \<Rightarrow> string \<Rightarrow> string option \<Rightarrow> string option \<Rightarrow> TokenResponse act" where
  "Refresh sv t refreshToken userAgent ipAddress =
     bindA (RotateSession (sv_prims sv) (sv_sessions sv) t refreshToken (sv_RefreshTTL sv) userAgent ipAddress) (\<lambda>newToken.
     bindA (wrapA ''query session user''
       (bindA (query (\<lambda>db. find (\<lambda>s. s_RefreshToken s = HashToken (sv_prims sv) newToken) (t_sessions db)))
         (\<lambda>row. fromOption DatabaseError (map_option s_UserID row)))) (\<lambda>userID.
     bindA (GetUserByID userID) (\<lambda>u.
     if \<not> u_IsActive u then failA ErrInactiveUser
     else thenA (validateLoginAccountState u)
       (bindA (accessToken sv u) (\<lambda>(access, roles). retA (tokens access newToken u roles))))))"

definition Logout :: "Service \<Rightarrow> Clock \<Rightarrow> string \<Rightarrow> unit act" where
  "Logout sv t token = RevokeSession (sv_prims sv) t token"

section \<open>Other ways in\<close>

definition CreateTokenResponseForUser :: "Service \<Rightarrow> Clock \<Rightarrow> User \<Rightarrow> string option \<Rightarrow> string option \<Rightarrow> TokenResponse act" where
  "CreateTokenResponseForUser sv t u userAgent ipAddress =
     bindA (accessToken sv u) (\<lambda>(access, roles).
     bindA (wrapA ''create session'' (CreateSession (sv_prims sv) (sv_sessions sv) t (u_ID u) userAgent ipAddress (sv_RefreshTTL sv)))
       (\<lambda>refresh. retA (tokens access refresh u roles)))"

text \<open>The end of \<open>handlePasskeyLoginFinish\<close>: \<open>FinishLogin\<close> has verified the assertion of the passkey of a user,
  read the row of the user and recorded the login.\<close>

definition passkeyLogin :: "Service \<Rightarrow> Clock \<Rightarrow> string \<Rightarrow> string option \<Rightarrow> string option \<Rightarrow> TokenResponse act" where
  "passkeyLogin sv t userID userAgent ipAddress =
     bindA (GetUserByID userID) (\<lambda>u.
     thenA (UpdateLastLogin t (u_ID u))
     (CreateTokenResponseForUser sv t u userAgent ipAddress))"

record OAuthUserInfo =
  oi_Sub :: string
  oi_Email :: string
  oi_Name :: string
  oi_EmailVerified :: bool

definition oauthUser :: "Service \<Rightarrow> string \<Rightarrow> OAuthUserInfo \<Rightarrow> string \<Rightarrow> string \<Rightarrow> User act" where
  "oauthUser sv provider info email displayName =
     bindA (catchA (GetOAuthAccount provider (oi_Sub info))) (\<lambda>r.
     case r of
       Inl ErrOAuthAccountNotFound \<Rightarrow>
         bindA (need ''platform settings'' (sv_SelfSignup sv)) (\<lambda>enabled.
         if \<not> enabled then failA ErrSelfSignupDisabled
         else CreateUserWithOAuth (sv_prims sv) email displayName provider (oi_Sub info))
     | Inl e \<Rightarrow> failA e
     | Inr userID \<Rightarrow>
         bindA (GetUserByID userID) (\<lambda>u.
         thenA (wrapA ''link oauth account'' (upsertOAuthAccount userID provider (oi_Sub info))) (retA u)))"

definition LoginOrRegisterOAuth ::
    "Service \<Rightarrow> Clock \<Rightarrow> string \<Rightarrow> OAuthUserInfo \<Rightarrow> string option \<Rightarrow> string option \<Rightarrow> TokenResponse act" where
  "LoginOrRegisterOAuth sv t provider info userAgent ipAddress =
     bindA (need ''invalid email address format'' (sv_NormalizeEmail sv (oi_Email info))) (\<lambda>email.
     bindA (need ''display name'' (sv_SanitizeName sv (oi_Name info))) (\<lambda>displayName.
     if \<not> oi_EmailVerified info then failA (TextError ''oauth provider email is not verified'')
     else bindA (oauthUser sv provider info email displayName) (\<lambda>u.
       if \<not> u_IsActive u then failA ErrInactiveUser
       else bindA (accessToken sv u) (\<lambda>(access, roles).
         bindA (wrapA ''create session'' (CreateSession (sv_prims sv) (sv_sessions sv) t (u_ID u) userAgent ipAddress (sv_RefreshTTL sv)))
           (\<lambda>refresh.
         thenA (ignoreA (UpdateLastLogin t (u_ID u))) (retA (tokens access refresh u roles)))))))"

definition MagicLinkTokenTTL :: duration where "MagicLinkTokenTTL = 10 * minute"
definition MagicLinkRequestCooldown :: duration where "MagicLinkRequestCooldown = 60 * second"

text \<open>\<open>SET NX\<close> with an expiry: whether the key was free.\<close>

definition redisSetNX :: "Clock \<Rightarrow> string \<Rightarrow> duration \<Rightarrow> bool act" where
  "redisSetNX t key d = outcomeA RedisError (\<lambda>w.
     if redisValue t w key = None then (Inr True, w\<lparr>w_redis := (w_redis w)(key \<mapsto> (1, Some (now t + d)))\<rparr>)
     else (Inr False, w))"

definition cooldownActive :: "Service \<Rightarrow> Clock \<Rightarrow> string \<Rightarrow> bool act" where
  "cooldownActive sv t email =
     (if \<not> sv_redis sv then retA False
      else bindA (catchA (redisSetNX t (''magic_link_cooldown:'' @ email) MagicLinkRequestCooldown))
        (\<lambda>r. retA (r = Inr False)))"

definition RequestMagicLink :: "Service \<Rightarrow> Clock \<Rightarrow> string \<Rightarrow> string \<Rightarrow> unit act" where
  "RequestMagicLink sv t rawEmail ipAddress =
     bindA (need ''invalid email address format'' (sv_NormalizeEmail sv rawEmail)) (\<lambda>email.
     if \<not> sv_magicLinks sv then retA ()
     else bindA (cooldownActive sv t email) (\<lambda>cooling.
       if cooling then retA ()
       else bindA (catchA (GetUserByEmail email)) (\<lambda>r.
         case r of
           Inl ErrUserNotFound \<Rightarrow> retA ()
         | Inl e \<Rightarrow> failA e
         | Inr u \<Rightarrow>
             if \<not> u_IsActive u then retA ()
             else bindA (drawToken (sv_prims sv)) (\<lambda>plain.
               thenA (Issue (sv_prims sv) plain email (u_ID u) ipAddress (now t + MagicLinkTokenTTL))
               (ignoreA (sendMail sv))))))"

definition ConsumeMagicLink :: "Service \<Rightarrow> Clock \<Rightarrow> string \<Rightarrow> string option \<Rightarrow> string option \<Rightarrow> TokenResponse act" where
  "ConsumeMagicLink sv t plain userAgent ipAddress =
     (if \<not> sv_magicLinks sv \<or> plain = [] then failA ErrMagicLinkInvalid
      else bindA (Consume (sv_prims sv) t plain) (\<lambda>userID.
        bindA (GetUserByID userID) (\<lambda>u.
        if \<not> u_IsActive u then failA ErrInactiveUser
        else thenA (validateLoginAccountState u) (issueSession sv t u userAgent ipAddress))))"

record PATIdentity =
  pi_UserID :: string
  pi_Email :: string
  pi_EmailVerified :: bool
  pi_Roles :: "string list"
  pi_WorkspaceID :: string

definition VerifyAccessToken :: "Service \<Rightarrow> Clock \<Rightarrow> string \<Rightarrow> PATIdentity act" where
  "VerifyAccessToken sv t plaintext =
     (if \<not> sv_pats sv then failA (TextError ''personal access tokens are not available'')
      else bindA (FindActiveByHash (sv_prims sv) t plaintext) (\<lambda>rec.
        bindA (GetUserByID (pat_UserID rec)) (\<lambda>u.
        if \<not> u_IsActive u then failA ErrInactiveUser
        else wrapA ''resolve identity for personal access token''
          (bindA (need ''get user roles'' (sv_roles sv (u_ID u))) (\<lambda>roles.
           bindA (need ''get active workspace'' (sv_workspace sv (u_ID u))) (\<lambda>ws.
           retA \<lparr>pi_UserID = u_ID u, pi_Email = u_Email u, pi_EmailVerified = u_EmailVerified u,
                 pi_Roles = roles, pi_WorkspaceID = ws\<rparr>))))))"

definition sendRegisterVerification :: "Service \<Rightarrow> Clock \<Rightarrow> User \<Rightarrow> unit act" where
  "sendRegisterVerification sv t u =
     bindA (drawToken (sv_prims sv)) (\<lambda>token.
     thenA (ignoreA (CreateEmailVerificationToken (u_ID u) token (now t + 24 * hour)))
     (ignoreA (sendMail sv)))"

definition registrationAllowed :: "Service \<Rightarrow> bool act" where
  "registrationAllowed sv =
     bindA (need ''platform settings'' (sv_SelfSignup sv)) (\<lambda>enabled.
     if enabled then retA True
     else wrapA ''check user bootstrap state'' (query (\<lambda>db. t_users db = [])))"

definition Register :: "Service \<Rightarrow> Clock \<Rightarrow> string \<Rightarrow> string \<Rightarrow> string \<Rightarrow> string option \<Rightarrow> string option \<Rightarrow> TokenResponse act" where
  "Register sv t rawEmail password rawName userAgent ipAddress =
     bindA (registrationAllowed sv) (\<lambda>enabled.
     if \<not> enabled then failA ErrSelfSignupDisabled
     else bindA (need ''invalid email address format'' (sv_NormalizeEmail sv rawEmail)) (\<lambda>email.
       bindA (need ''display name'' (sv_SanitizeName sv rawName)) (\<lambda>displayName.
       case sv_Policy sv password [email, displayName] of
         Some e \<Rightarrow> failA (TextError e)
       | None \<Rightarrow>
           bindA (need ''hash password'' (HashPassword (sv_prims sv) password)) (\<lambda>hash.
           bindA (catchA (CreateUser (sv_prims sv) t email hash displayName)) (\<lambda>r.
           case r of
             Inl ErrUserAlreadyExists \<Rightarrow>
               thenA (ignoreA (sendMail sv)) (retA (emptyResponse\<lparr>tr_VerificationPending := True\<rparr>))
           | Inl e \<Rightarrow> failA e
           | Inr u \<Rightarrow>
               bindA (accessToken sv u) (\<lambda>(access, roles).
               bindA (wrapA ''create session''
                 (CreateSession (sv_prims sv) (sv_sessions sv) t (u_ID u) userAgent ipAddress (sv_RefreshTTL sv))) (\<lambda>refresh.
               thenA (if sv_mailer sv then sendRegisterVerification sv t u else retA ())
               (retA ((tokens access refresh u roles)\<lparr>tr_VerificationPending := True\<rparr>)))))))))"

section \<open>Passwords and addresses\<close>

definition PasswordHistoryLimit :: int where "PasswordHistoryLimit = 5"

definition identityFields :: "User \<Rightarrow> string list" where
  "identityFields u = u_Email u # (case u_DisplayName u of Some n \<Rightarrow> [n] | None \<Rightarrow> []) @
     (case u_Username u of Some n \<Rightarrow> [n] | None \<Rightarrow> [])"

text \<open>The checks of a new password and its hash, shared by \<open>ResetPassword\<close> and \<open>ChangePassword\<close>.\<close>

definition newPasswordHash :: "Service \<Rightarrow> User \<Rightarrow> string \<Rightarrow> string \<Rightarrow> string act" where
  "newPasswordHash sv u userID newPassword =
     (case sv_Policy sv newPassword (identityFields u) of
        Some e \<Rightarrow> failA (TextError e)
      | None \<Rightarrow>
          bindA (PasswordWasUsed (sv_prims sv) userID newPassword PasswordHistoryLimit) (\<lambda>reused.
          if reused then failA ErrPasswordReused else need ''hash password'' (HashPassword (sv_prims sv) newPassword)))"

definition ForgotPassword :: "Service \<Rightarrow> Clock \<Rightarrow> string \<Rightarrow> unit act" where
  "ForgotPassword sv t rawEmail =
     bindA (need ''invalid email address format'' (sv_NormalizeEmail sv rawEmail)) (\<lambda>email.
     bindA (catchA (GetUserByEmail email)) (\<lambda>r.
     case r of
       Inl ErrUserNotFound \<Rightarrow> retA ()
     | Inl e \<Rightarrow> failA e
     | Inr u \<Rightarrow>
         bindA (drawToken (sv_prims sv)) (\<lambda>token.
         thenA (CreatePasswordResetToken (u_ID u) token (now t + hour)) (sendMail sv))))"

definition ResetPassword :: "Service \<Rightarrow> Clock \<Rightarrow> string \<Rightarrow> string \<Rightarrow> unit act" where
  "ResetPassword sv t token newPassword =
     bindA (VerifyPasswordResetToken t token) (\<lambda>userID.
     bindA (GetUserByID userID) (\<lambda>u.
     bindA (newPasswordHash sv u userID newPassword) (\<lambda>hash.
     thenA (ConsumePasswordResetAndUpdatePassword t token hash)
     (wrapA ''revoke user sessions on password reset'' (RevokeAllUserSessions t userID)))))"

definition ChangePassword :: "Service \<Rightarrow> Clock \<Rightarrow> string \<Rightarrow> string \<Rightarrow> string \<Rightarrow> unit act" where
  "ChangePassword sv t userID currentPassword newPassword =
     bindA (GetUserByID userID) (\<lambda>u.
     if u_PasswordHash u = None then failA ErrNoPasswordSet
     else if \<not> passwordMatches sv currentPassword u then failA ErrInvalidCredentials
     else bindA (newPasswordHash sv u userID newPassword) (\<lambda>hash.
       thenA (UpdateUserPassword t userID hash)
       (wrapA ''revoke user sessions on password change'' (RevokeAllUserSessions t userID))))"

definition EmailChangeWaitPeriod :: duration where "EmailChangeWaitPeriod = 24 * hour"
definition EmailChangeTokenTTL :: duration where "EmailChangeTokenTTL = 48 * hour"

definition RequestEmailChange :: "Service \<Rightarrow> Clock \<Rightarrow> string \<Rightarrow> string \<Rightarrow> EmailChangeRequest act" where
  "RequestEmailChange sv t userID newEmail =
     bindA (need ''invalid email address format'' (sv_NormalizeEmail sv newEmail)) (\<lambda>email.
     bindA (GetUserByID userID) (\<lambda>u.
     if EqualFold (u_Email u) email then failA (TextError ''new email must be different'')
     else bindA (catchA (GetUserByEmail email)) (\<lambda>r.
       case r of
         Inr _ \<Rightarrow> failA ErrUserAlreadyExists
       | Inl ErrUserNotFound \<Rightarrow>
           bindA (drawToken (sv_prims sv)) (\<lambda>oldToken.
           bindA (drawToken (sv_prims sv)) (\<lambda>newToken.
           bindA (CreateEmailChangeRequest (sv_prims sv) t (u_ID u) (u_Email u) email oldToken newToken
                    (now t + EmailChangeWaitPeriod) (now t + EmailChangeTokenTTL)) (\<lambda>req.
           thenA (sendMail sv) (thenA (sendMail sv) (retA req)))))
       | Inl e \<Rightarrow> failA e)))"

text \<open>The Go function returns the request together with \<open>ErrEmailChangePending\<close>.\<close>

definition ConfirmEmailChange :: "Clock \<Rightarrow> string \<Rightarrow> (EmailChangeRequest \<times> auth_error option) act" where
  "ConfirmEmailChange t token =
     (if TrimSpace token = [] then failA (TextError ''token is required'')
      else bindA (ConfirmEmailChangeToken token (now t)) (\<lambda>req.
        retA (req, if ec_CompletedAt req = None then Some ErrEmailChangePending else None)))"

definition VerifyEmail :: "Clock \<Rightarrow> string \<Rightarrow> unit act" where
  "VerifyEmail t token = thenA (VerifyEmailToken t token) (retA ())"

definition ResendVerificationEmail :: "Service \<Rightarrow> Clock \<Rightarrow> string \<Rightarrow> unit act" where
  "ResendVerificationEmail sv t rawEmail =
     bindA (need ''invalid email address format'' (sv_NormalizeEmail sv rawEmail)) (\<lambda>email.
     bindA (catchA (GetUserByEmail email)) (\<lambda>r.
     case r of
       Inl ErrUserNotFound \<Rightarrow> retA ()
     | Inl e \<Rightarrow> failA e
     | Inr u \<Rightarrow>
         if u_EmailVerified u then failA ErrEmailAlreadyVerified
         else bindA (drawToken (sv_prims sv)) (\<lambda>token.
           thenA (CreateEmailVerificationToken (u_ID u) token (now t + 24 * hour)) (sendMail sv))))"

section \<open>The life of an account\<close>

definition FreezeAccount :: "Clock \<Rightarrow> string \<Rightarrow> unit act" where
  "FreezeAccount t userID =
     thenA (repoFreezeAccount t userID)
       (wrapA ''revoke user sessions on freeze'' (RevokeAllUserSessions t userID))"

definition DeleteAccount :: "Service \<Rightarrow> Clock \<Rightarrow> string \<Rightarrow> string \<Rightarrow> moment act" where
  "DeleteAccount sv t userID password =
     bindA (GetUserByID userID) (\<lambda>u.
     if password \<noteq> [] \<and> \<not> passwordMatches sv password u then failA ErrInvalidCredentials
     else bindA (SoftDeleteAccount t userID (sv_GDPRPurgeAfterDays sv)) (\<lambda>purgeAt.
       thenA (wrapA ''revoke user sessions on delete'' (RevokeAllUserSessions t userID))
       (thenA (ignoreA (sendMail sv)) (retA purgeAt))))"

definition requireSuperAdmin :: "Service \<Rightarrow> string \<Rightarrow> 'a act \<Rightarrow> 'a act" where
  "requireSuperAdmin sv actor k =
     bindA (need ''get user roles'' (sv_roles sv actor)) (\<lambda>roles.
     unlessA (RoleSuperAdmin \<in> set roles) ErrSuperAdminRequired k)"

definition RestoreAccount :: "Service \<Rightarrow> string \<Rightarrow> string \<Rightarrow> unit act" where
  "RestoreAccount sv actor target = requireSuperAdmin sv actor (repoRestoreAccount target)"

definition AdminForceLogout :: "Service \<Rightarrow> Clock \<Rightarrow> string \<Rightarrow> string \<Rightarrow> unit act" where
  "AdminForceLogout sv t actor target = requireSuperAdmin sv actor (RevokeAllUserSessions t target)"

definition UnlockAccount :: "Service \<Rightarrow> Clock \<Rightarrow> string \<Rightarrow> string act" where
  "UnlockAccount sv t token =
     bindA (ConsumeUnlockToken (sv_prims sv) t token) (\<lambda>userID.
     bindA (GetUserByID userID) (\<lambda>u.
     thenA (clearLoginFailures sv (u_Email u)) (retA userID)))"

end
