(* ===== verification/Account_State.thy ===== *)
theory Account_State
  imports Account_Service
begin

text \<open>
  What the operations of the authentication service do to the state, whatever their outcome and whatever
  the database and Redis answer. The locales state it once for a reflexive and transitive relation on the
  state (\<open>world_relation\<close>), on the tables (\<open>table_relation\<close>) and on one table (\<open>session_relation\<close>,
  \<open>link_relation\<close>, \<open>change_relation\<close>): an instance only has to look at the statements on its table. \<open>call\<close> has
  one constructor per entry point; \<open>serve\<close> runs a history of calls.
\<close>

section \<open>Relations every composed operation obeys\<close>

definition obeys :: "(World \<Rightarrow> World \<Rightarrow> bool) \<Rightarrow> 'a act \<Rightarrow> bool" where
  "obeys R m \<longleftrightarrow> (\<forall>w. R w (snd (m w)))"

named_theorems obeying

lemma obeysD: "obeys R m \<Longrightarrow> m w = (r, w') \<Longrightarrow> R w w'"
  unfolding obeys_def by (metis snd_conv)

locale world_relation =
  fixes V :: "World \<Rightarrow> World \<Rightarrow> bool"
  assumes V_refl: "V w w"
    and V_trans: "V a b \<Longrightarrow> V b c \<Longrightarrow> V a c"
begin

lemma obeys_pure [obeying]:
  "obeys V (retA a)" "obeys V (failA e)" "obeys V (fromOption e x)" "obeys V (need what x)"
  by (simp_all add: obeys_def retA_def failA_def fromOption_def need_def V_refl split: option.splits)

lemma obeys_bindA [obeying]:
  assumes m: "obeys V m" and k: "\<And>a. obeys V (k a)"
  shows "obeys V (bindA m k)"
  unfolding obeys_def
proof
  fix w
  have 1: "V w (snd (m w))" using m by (simp add: obeys_def)
  show "V w (snd (bindA m k w))"
  proof (cases "m w")
    case (Pair r w')
    show ?thesis
    proof (cases r)
      case (Inl e) then show ?thesis using 1 Pair by (simp add: bindA_def)
    next
      case (Inr a)
      have "V w' (snd (k a w'))" using k by (simp add: obeys_def)
      then show ?thesis using 1 Pair Inr V_trans [of w w'] by (simp add: bindA_def)
    qed
  qed
qed

lemma obeys_wrapping [obeying]:
  assumes "obeys V m"
  shows "obeys V (ignoreA m)" "obeys V (catchA m)" "obeys V (wrapA l m)"
  using assms by (auto simp: obeys_def ignoreA_def catchA_def wrapA_def split: prod.splits sum.splits) (metis snd_conv)+

lemma obeys_if [obeying]: "obeys V a \<Longrightarrow> obeys V b \<Longrightarrow> obeys V (if c then a else b)"
  by simp

lemma obeys_eachA [obeying]: "(\<And>x. obeys V (f x)) \<Longrightarrow> obeys V (eachA f xs)"
  by (induction xs) (simp_all add: obeying)

lemma obeys_tryCodes [obeying]: "(\<And>h. obeys V (use h)) \<Longrightarrow> obeys V (tryCodes matches use hs)"
  by (induction hs) (auto intro!: obeying)

lemma obeys_guardedWrite: "obeys V m \<Longrightarrow> obeys V (\<lambda>w. if c w then failA e w else m w)"
  by (auto simp: obeys_def failA_def V_refl)

end

text \<open>What a relation between tables says of two states; the supply of tokens only grows.\<close>

definition overTables :: "(nat \<Rightarrow> AuthDB \<Rightarrow> AuthDB \<Rightarrow> bool) \<Rightarrow> World \<Rightarrow> World \<Rightarrow> bool" where
  "overTables D w w' \<longleftrightarrow> w_tokens w \<le> w_tokens w' \<and> D (w_tokens w) (w_db w) (w_db w')"

locale table_relation =
  fixes D :: "nat \<Rightarrow> AuthDB \<Rightarrow> AuthDB \<Rightarrow> bool"
  assumes refl: "D n db db"
    and trans: "D n a b \<Longrightarrow> D m b c \<Longrightarrow> n \<le> m \<Longrightarrow> D n a c"

sublocale table_relation \<subseteq> world_relation "overTables D"
proof
  show "overTables D w w" for w by (simp add: overTables_def refl)
  show "overTables D a c" if "overTables D a b" "overTables D b c" for a b c
    using that trans unfolding overTables_def by (meson le_trans)
qed

context table_relation
begin

abbreviation R :: "World \<Rightarrow> World \<Rightarrow> bool" where
  "R \<equiv> overTables D"

lemma obeys_statement: "(\<And>n db. D n db (snd (f db))) \<Longrightarrow> obeys R (statement f)"
  by (auto simp: obeys_def statement_def outcomeA_def overTables_def refl split: list.splits bool.splits)

lemma obeys_draw [obeying]: "obeys R (drawToken p)" "obeys R (drawID p)"
  by (simp_all add: obeys_def drawToken_def drawID_def overTables_def refl)

lemma obeys_query [obeying]: "obeys R (query f)"
  by (rule obeys_statement) (simp add: refl)

lemma obeys_rollingBack:
  assumes "obeys R m"
  shows "obeys R (rollingBack m)"
  unfolding obeys_def
proof
  fix w
  obtain r w' where m: "m w = (r, w')" by fastforce
  then have "R w w'" using assms by (simp add: obeysD)
  then show "R w (snd (rollingBack m w))" using m by (cases r) (auto simp: rollingBack_def overTables_def refl)
qed

lemma obeys_inTx [obeying]: "obeys R m \<Longrightarrow> obeys R (inTx m)"
  unfolding inTx_def by (intro obeys_rollingBack obeying)

lemma obeys_redis [obeying]:
  "obeys R (redisGet t key)" "obeys R (redisIncr t key)" "obeys R (redisExpire t key d)" "obeys R (redisDel key)"
  "obeys R (redisSetNX t key d)" "obeys R (sendMail sv)"
  by (auto simp: obeys_def redisGet_def redisIncr_def redisExpire_def redisDel_def redisSetNX_def sendMail_def
      outcomeA_def overTables_def refl retA_def split: list.splits bool.splits option.splits)

text \<open>Email changes write two tables only.\<close>

lemma obeys_emailChanges:
  assumes stmt: "\<And>f :: AuthDB \<Rightarrow> unit \<times> AuthDB.
      (\<And>db. t_sessions (snd (f db)) = t_sessions db \<and> t_magicLinks (snd (f db)) = t_magicLinks db) \<Longrightarrow> obeys R (statement f)"
  shows "obeys R (CreateEmailChangeRequest p t u old new tok tok' b e)" "obeys R (ConfirmEmailChangeToken tok m)"
proof -
  have insert: "obeys R (insertRequest r)" for r
    unfolding insertRequest_def by (rule obeys_guardedWrite, rule stmt) simp
  have update: "obeys R (updateRequest i f)" for i f
    unfolding updateRequest_def by (rule stmt) simp
  have user: "obeys R (setUserRow i em f)" for i em f
    unfolding setUserRow_def by (rule obeys_guardedWrite, rule stmt) (simp add: updateUsers_def)
  have drop: "obeys R (exec (\<lambda>db. db\<lparr>t_emailChanges := f db\<rparr>))" for f
    by (rule stmt) simp
  show "obeys R (CreateEmailChangeRequest p t u old new tok tok' b e)"
    unfolding CreateEmailChangeRequest_def Let_def by (intro obeying insert drop)
  show "obeys R (ConfirmEmailChangeToken tok m)"
    unfolding ConfirmEmailChangeToken_def loadEmailChangeRequestForToken_def recordEmailChangeTokenConfirmation_def
      finalizeEmailChangeIfReady_def
    by (auto intro!: obeying update user split: option.split)
qed

end

section \<open>The operations of the service\<close>

text \<open>One constructor per entry point of the service, of the token managers and of the repository that the
  handlers and the maintenance jobs call.\<close>

datatype call =
    CallRegister string string string "string option" "string option"
  | CallLogin string string "string option" "string option"
  | CallMFALogin string string "string option" "string option"
  | CallPasskeyLogin string "string option" "string option"
  | CallOAuth string OAuthUserInfo "string option" "string option"
  | CallRequestMagicLink string string
  | CallConsumeMagicLink string "string option" "string option"
  | CallRefresh string "string option" "string option"
  | CallLogout string
  | CallRevokeSession string string
  | CallForceLogout string string
  | CallForgotPassword string
  | CallResetPassword string string
  | CallChangePassword string string string
  | CallRequestEmailChange string string
  | CallConfirmEmailChange string
  | CallVerifyEmail string
  | CallResendVerification string
  | CallFreeze string
  | CallUnfreeze string
  | CallSetActive string bool
  | CallDelete string string
  | CallRestore string string
  | CallUnlock string
  | CallPurge
  | CallCreateAccessToken string string "moment option"
  | CallRevokeAccessToken string string
  | CallVerifyAccessToken string
  | CallEnrollMFA MfaConfig string
  | CallVerifyMFA MfaConfig string string
  | CallVerifyCode MfaConfig string string
  | CallDisableMFA string
  | CallBypassCode MfaConfig string
  | CallRegenerateCodes MfaConfig string
  | CallMFAFailure string
  | CallUnlinkOAuth string string

abbreviation after :: "'a act \<Rightarrow> World \<Rightarrow> World" where
  "after m w \<equiv> snd (m w)"

fun perform :: "Service \<Rightarrow> Clock \<Rightarrow> call \<Rightarrow> World \<Rightarrow> World" where
  "perform sv t (CallRegister e pw n ua ip) = after (Register sv t e pw n ua ip)"
| "perform sv t (CallLogin e pw ua ip) = after (Login sv t e pw ua ip)"
| "perform sv t (CallMFALogin ch code ua ip) = after (CompleteMFALogin sv t ch code ua ip)"
| "perform sv t (CallPasskeyLogin u ua ip) = after (passkeyLogin sv t u ua ip)"
| "perform sv t (CallOAuth prov info ua ip) = after (LoginOrRegisterOAuth sv t prov info ua ip)"
| "perform sv t (CallRequestMagicLink e ip) = after (RequestMagicLink sv t e ip)"
| "perform sv t (CallConsumeMagicLink pl ua ip) = after (ConsumeMagicLink sv t pl ua ip)"
| "perform sv t (CallRefresh tok ua ip) = after (Refresh sv t tok ua ip)"
| "perform sv t (CallLogout tok) = after (Logout sv t tok)"
| "perform sv t (CallRevokeSession u i) = after (RevokeSessionByID t u i)"
| "perform sv t (CallForceLogout a u) = after (AdminForceLogout sv t a u)"
| "perform sv t (CallForgotPassword e) = after (ForgotPassword sv t e)"
| "perform sv t (CallResetPassword tok pw) = after (ResetPassword sv t tok pw)"
| "perform sv t (CallChangePassword u old new) = after (ChangePassword sv t u old new)"
| "perform sv t (CallRequestEmailChange u e) = after (RequestEmailChange sv t u e)"
| "perform sv t (CallConfirmEmailChange tok) = after (ConfirmEmailChange t tok)"
| "perform sv t (CallVerifyEmail tok) = after (VerifyEmail t tok)"
| "perform sv t (CallResendVerification e) = after (ResendVerificationEmail sv t e)"
| "perform sv t (CallFreeze u) = after (FreezeAccount t u)"
| "perform sv t (CallUnfreeze u) = after (UnfreezeAccount u)"
| "perform sv t (CallSetActive u b) = after (UpdateUserActiveStatus u b)"
| "perform sv t (CallDelete u pw) = after (DeleteAccount sv t u pw)"
| "perform sv t (CallRestore a u) = after (RestoreAccount sv a u)"
| "perform sv t (CallUnlock tok) = after (UnlockAccount sv t tok)"
| "perform sv t CallPurge = after (PurgeExpiredAccounts (now t))"
| "perform sv t (CallCreateAccessToken u n e) = after (CreateToken (sv_prims sv) t u n e)"
| "perform sv t (CallRevokeAccessToken u i) = after (RevokeTokenByID t u i)"
| "perform sv t (CallVerifyAccessToken tok) = after (VerifyAccessToken sv t tok)"
| "perform sv t (CallEnrollMFA c u) = after (Enroll (sv_prims sv) c u)"
| "perform sv t (CallVerifyMFA c u code) = after (mfaVerify c t u code)"
| "perform sv t (CallVerifyCode c u code) = after (VerifyCode (sv_prims sv) c t u code)"
| "perform sv t (CallDisableMFA u) = after (mfaDisable u)"
| "perform sv t (CallBypassCode c u) = after (GenerateBypassCode (sv_prims sv) c u)"
| "perform sv t (CallRegenerateCodes c u) = after (RegenerateRecoveryCodes (sv_prims sv) c u)"
| "perform sv t (CallMFAFailure u) = after (RecordMFAFailure sv t u)"
| "perform sv t (CallUnlinkOAuth u prov) = after (UnlinkOAuthAccount u prov)"

text \<open>A history: calls, each at its own time.\<close>

fun serve :: "Service \<Rightarrow> (Clock \<times> call) list \<Rightarrow> World \<Rightarrow> World" where
  "serve sv [] w = w"
| "serve sv ((t, c) # cs) w = serve sv cs (perform sv t c w)"

section \<open>What every call obeys\<close>

text \<open>A relation on the tables of sessions, magic links and email changes; the other tables do not matter. The
  set holds the tokens that are presented to confirm a change of address.\<close>

locale token_relation = table_relation D for D :: "nat \<Rightarrow> AuthDB \<Rightarrow> AuthDB \<Rightarrow> bool" +
  fixes p :: Primitives and S :: "string set"
  assumes elsewhere: "\<lbrakk>t_sessions db' = t_sessions db; t_magicLinks db' = t_magicLinks db; t_emailChanges db' = t_emailChanges db\<rbrakk>
      \<Longrightarrow> D n db db'"
    and revoking: "D n db (db\<lparr>t_sessions := updateWhere P (revoke t) (t_sessions db)\<rparr>)"
    and forgetting: "D n db (db\<lparr>t_sessions := deleteWhere Q (t_sessions db)\<rparr>)"
    and creating: "obeys (overTables D) (createSession p t u ua ip fp e a)"
    and issuing: "obeys (overTables D) (Issue p plain email u addr e)"
    and consuming: "D n db (db\<lparr>t_magicLinks := updateWhere M (\<lambda>r. r\<lparr>ml_ConsumedAt := Some m\<rparr>) (t_magicLinks db)\<rparr>)"
    and requesting: "obeys (overTables D) (CreateEmailChangeRequest p t u old new tok tok' b e)"
    and confirming: "tok \<in> S \<Longrightarrow> obeys (overTables D) (ConfirmEmailChangeToken tok m)"
    and dropping: "D n db (db\<lparr>t_emailChanges := deleteWhere E (t_emailChanges db)\<rparr>)"
begin

lemma obeys_elsewhere:
  "(\<And>db. t_sessions (snd (f db)) = t_sessions db \<and> t_magicLinks (snd (f db)) = t_magicLinks db \<and>
     t_emailChanges (snd (f db)) = t_emailChanges db) \<Longrightarrow> obeys R (statement f)"
  by (rule obeys_statement) (blast intro: elsewhere)

lemma obeys_users [obeying]:
  "obeys R (updateUserCount P f)" "obeys R (exec (updateUsers P f))" "obeys R (insertUser u)" "obeys R (setUserRow i e f)"
  "obeys R (bootstrapUserWorkspace i role)" "obeys R (insertPasswordHistory i h)" "obeys R (upsertOAuthAccount i pr uid)"
  "obeys R (UnlinkOAuthAccount i pr)" "obeys R firstUserGlobalRoleName" "obeys R (emailTaken e)"
  unfolding updateUserCount_def insertUser_def setUserRow_def bootstrapUserWorkspace_def insertPasswordHistory_def
    upsertOAuthAccount_def UnlinkOAuthAccount_def firstUserGlobalRoleName_def emailTaken_def
  by (auto intro!: obeying obeys_guardedWrite obeys_statement elsewhere simp: updateUsers_def)

lemma obeys_otherTables [obeying]:
  "obeys R (exec (\<lambda>db. db\<lparr>t_oauth := f1 db\<rparr>))" "obeys R (exec (\<lambda>db. db\<lparr>t_verifications := f2 db\<rparr>))"
  "obeys R (exec (\<lambda>db. db\<lparr>t_resets := f3 db\<rparr>))" "obeys R (exec (\<lambda>db. db\<lparr>t_history := f4 db\<rparr>))"
  "obeys R (exec (\<lambda>db. db\<lparr>t_devices := f5 db\<rparr>))" "obeys R (exec (\<lambda>db. db\<lparr>t_unlocks := f6 db\<rparr>))"
  "obeys R (exec (\<lambda>db. db\<lparr>t_mfa := f7 db\<rparr>))" "obeys R (exec (\<lambda>db. db\<lparr>t_pats := f8 db\<rparr>))"
  "obeys R (exec (updateMfa i g))" "obeys R (consumeWhere i Q g)"
  "obeys R (statement (\<lambda>db. (r1 db, db\<lparr>t_resets := f3 db\<rparr>)))" "obeys R (statement (\<lambda>db. (r2 db, db\<lparr>t_pats := f8 db\<rparr>)))"
  unfolding consumeWhere_def updateMfa_def
  by (auto intro!: obeying obeys_statement elsewhere simp: Let_def)

lemma obeys_sessions [obeying]:
  "obeys R (exec (revokeWhere t P))" "obeys R (RevokeSession p t tok)" "obeys R (RevokeAllUserSessions t u)"
  "obeys R (RevokeSessionByID t u i)" "obeys R (EnforceMaxSessions p t u k)"
  "obeys R (exec (\<lambda>db. db\<lparr>t_sessions := updateWhere P (revoke t) (t_sessions db)\<rparr>))"
  "obeys R (exec (\<lambda>db. db\<lparr>t_sessions := deleteWhere Q (t_sessions db)\<rparr>))"
  "obeys R (exec (\<lambda>db. db\<lparr>t_emailChanges := deleteWhere E (t_emailChanges db)\<rparr>))"
  unfolding RevokeSession_def RevokeAllUserSessions_def RevokeSessionByID_def EnforceMaxSessions_def revokeWhere_def Let_def
  by (auto intro!: obeying obeys_statement revoking forgetting dropping)

lemma obeys_create [obeying]:
  "obeys R (createSession p t u ua ip fp e a)"
  "obeys R (CreateSession p m t u ua ip ttl)" "obeys R (CreateSessionWithFingerprint p m t u ua ip fp ttl)"
  unfolding CreateSession_def CreateSessionWithFingerprint_def by (rule creating)+

lemma obeys_leaves [obeying]:
  "obeys R (Issue p plain email u addr e)" "obeys R (CreateEmailChangeRequest p t u old new tok tok' b e)"
  "tok \<in> S \<Longrightarrow> obeys R (ConfirmEmailChangeToken tok m)"
  by (rule issuing requesting confirming; assumption)+

lemma obeys_reads [obeying]:
  "obeys R (GetUserByID i)" "obeys R (GetUserByEmail e)" "obeys R (GetAccountState i)" "obeys R (GetOAuthAccount pr uid)"
  "obeys R (mfaGet c i)" "obeys R (loadEmailChangeRequestForToken tok)" "obeys R (PasswordWasUsed p i pw l)"
  "obeys R (VerifyPasswordResetToken t tok)" "obeys R (rotateRead p tok)" "obeys R (validateLoginAccountState v)"
  unfolding GetUserByID_def GetUserByEmail_def GetAccountState_def GetOAuthAccount_def mfaGet_def
    loadEmailChangeRequestForToken_def PasswordWasUsed_def VerifyPasswordResetToken_def rotateRead_def validateLoginAccountState_def
  by (auto intro!: obeying split: option.split)

lemma obeys_accounts [obeying]:
  "obeys R (repoFreezeAccount t i)" "obeys R (UnfreezeAccount i)" "obeys R (SoftDeleteAccount t i n)" "obeys R (repoRestoreAccount i)"
  "obeys R (UpdateUserActiveStatus i b)" "obeys R (UpdateLastLogin t i)"
  unfolding repoFreezeAccount_def UnfreezeAccount_def SoftDeleteAccount_def repoRestoreAccount_def
    UpdateUserActiveStatus_def UpdateLastLogin_def Let_def
  by (auto intro!: obeying)

lemma obeys_device [obeying]: "obeys R (RecordKnownDevice t i fp)"
  unfolding RecordKnownDevice_def Let_def
  by (rule obeys_wrapping, rule obeys_elsewhere) simp

lemma obeys_purge [obeying]: "obeys R (purgeUser i)" "obeys R (PurgeExpiredAccounts m)"
  unfolding purgeUser_def PurgeExpiredAccounts_def by (intro obeying)+

lemma obeys_tokens [obeying]:
  "obeys R (CreateUnlockToken p t i d)" "obeys R (CreateEmailVerificationToken i tok m)"
  "obeys R (VerifyEmailToken t tok)" "obeys R (CreatePasswordResetToken i tok m)" "obeys R (setPassword t i h)"
  "obeys R (UpdateUserPassword t i h)" "obeys R (ConsumePasswordResetAndUpdatePassword t tok h)"
  "obeys R (CreateToken p t i nm e)" "obeys R (RevokeTokenByID t i j)" "obeys R (FindActiveByHash p t tok)"
  unfolding CreateUnlockToken_def CreateEmailVerificationToken_def VerifyEmailToken_def
    CreatePasswordResetToken_def setPassword_def UpdateUserPassword_def ConsumePasswordResetAndUpdatePassword_def
    CreateToken_def RevokeTokenByID_def FindActiveByHash_def Let_def
  by (auto intro!: obeying split: option.split)

lemma obeys_unlock [obeying]: "obeys R (ConsumeUnlockToken p t tok)"
  unfolding ConsumeUnlockToken_def Let_def
  by (auto intro!: obeying obeys_statement elsewhere split: option.split)

lemma obeys_magic [obeying]: "obeys R (Consume p t plain)"
  unfolding Consume_def by (auto intro!: obeying obeys_statement consuming split: option.split)

lemma obeys_newUsers [obeying]:
  "obeys R (CreateUser p t e h nm)" "obeys R (CreateDirectoryUser p e nm)" "obeys R (CreateUserWithOAuth p e nm pr uid)"
  unfolding CreateUser_def CreateDirectoryUser_def CreateUserWithOAuth_def existingOrNewUser_def Let_def
  by (auto intro!: obeying split: option.split)

lemma obeys_rotate [obeying]: "obeys R (rotateRow p m t tok ttl ua ip s)" "obeys R (RotateSession p m t tok ttl ua ip)"
proof -
  show *: "obeys R (rotateRow p m t tok ttl ua ip s)" for s
    unfolding rotateRow_def by (auto intro!: obeying)
  show "obeys R (RotateSession p m t tok ttl ua ip)"
    unfolding RotateSession_def by (intro obeying *)
qed

lemma obeys_codes [obeying]: "obeys R (generateRecoveryCodes p n)"
  by (induction n) (auto intro!: obeying split: prod.split)

lemma obeys_mfa [obeying]:
  "obeys R (Enable t i)" "obeys R (mfaDisable i)" "obeys R (MarkUsed t i)"
  "obeys R (ConsumeTOTPStep t i st)" "obeys R (ConsumeRecoveryCode i h)" "obeys R (ConsumeBypassCode i h)"
  "obeys R (ReplaceRecoveryCodes i hs)" "obeys R (AddBypassCode i h)"
  unfolding Enable_def mfaDisable_def MarkUsed_def ConsumeTOTPStep_def ConsumeRecoveryCode_def
    ConsumeBypassCode_def ReplaceRecoveryCodes_def AddBypassCode_def
  by (auto intro!: obeying)

lemma obeys_upsert [obeying]: "obeys R (Upsert c i m s hs)"
  unfolding Upsert_def by (intro obeying, rule obeys_elsewhere) (simp add: updateMfa_def)

lemma obeys_mfaService [obeying]:
  "obeys R (Enroll p c i)" "obeys R (mfaVerify c t i code)" "obeys R (VerifyCode p c t i code)"
  "obeys R (GenerateBypassCode p c i)" "obeys R (RegenerateRecoveryCodes p c i)" "obeys R (MFA.IsEnabled c i)"
  unfolding Enroll_def mfaVerify_def VerifyCode_def GenerateBypassCode_def RegenerateRecoveryCodes_def MFA.IsEnabled_def
  by (auto intro!: obeying split: option.split prod.split sum.split auth_error.split)

lemma obeys_counters [obeying]:
  "obeys R (checkLockout sv t key e)" "obeys R (clearLoginFailures sv em)" "obeys R (RecordMFAFailure sv t i)"
  unfolding checkLockout_def clearLoginFailures_def RecordMFAFailure_def
  by (auto intro!: obeying split: sum.split option.split)

lemma obeys_session [obeying]:
  assumes "sv_prims sv = p"
  shows "obeys R (recordLoginFailure sv t e u)" "obeys R (tryLDAP sv e pw)" "obeys R (accessToken sv v)"
    "obeys R (issueSession sv t v ua ip)" "obeys R (CreateTokenResponseForUser sv t v ua ip)" "obeys R (loginMFAGate sv v)"
proof -
  have expired: "obeys R (isPasswordExpired sv t i)" for i
    unfolding isPasswordExpired_def by (auto intro!: obeying split: sum.split option.split)
  have unlock: "obeys R (sendUnlock sv t v)" for v
    unfolding sendUnlock_def assms by (auto intro!: obeying split: sum.split)
  show token: "obeys R (accessToken sv v)" for v
    unfolding accessToken_def by (intro obeying)
  show "obeys R (recordLoginFailure sv t e u)"
    unfolding recordLoginFailure_def by (auto intro!: obeying unlock split: sum.split option.split)
  show "obeys R (tryLDAP sv e pw)"
    unfolding tryLDAP_def directoryUser_def assms Let_def by (auto intro!: obeying split: sum.split option.split)
  show "obeys R (issueSession sv t v ua ip)"
    unfolding issueSession_def assms Let_def by (auto intro!: obeying token expired split: sum.split prod.split bool.split)
  show "obeys R (CreateTokenResponseForUser sv t v ua ip)"
    unfolding CreateTokenResponseForUser_def assms by (auto intro!: obeying token split: prod.split)
  show "obeys R (loginMFAGate sv v)"
    unfolding loginMFAGate_def activeWorkspaceRequiresMFA_def by (auto intro!: obeying split: option.split)
qed

lemma obeys_logins [obeying]:
  assumes p: "sv_prims sv = p"
  shows "obeys R (Login sv t e pw ua ip)" "obeys R (CompleteMFALogin sv t ch code ua ip)"
    "obeys R (Refresh sv t tok ua ip)" "obeys R (Logout sv t tok)" "obeys R (passkeyLogin sv t i ua ip)"
    "obeys R (ConsumeMagicLink sv t plain ua ip)" "obeys R (VerifyAccessToken sv t plain)"
proof -
  note session = obeys_session [OF p]
  have authenticate: "obeys R (authenticateLogin sv e pw e')" for e e'
    unfolding authenticateLogin_def userOrNone_def
    by (auto intro!: obeying session split: sum.split option.split)
  have reject: "obeys R (rejectInvalidLogin sv t u ok e)" for u ok e
    unfolding rejectInvalidLogin_def by (auto intro!: obeying session split: option.split)
  show "obeys R (Login sv t e pw ua ip)"
    unfolding Login_def Let_def checkLoginLockout_def
    by (auto intro!: obeying session authenticate reject split: option.split prod.split)
  show "obeys R (CompleteMFALogin sv t ch code ua ip)"
    unfolding CompleteMFALogin_def p by (auto intro!: obeying session split: option.split)
  show "obeys R (Refresh sv t tok ua ip)"
    unfolding Refresh_def p by (auto intro!: obeying session split: prod.split)
  show "obeys R (Logout sv t tok)"
    unfolding Logout_def p by (intro obeying)
  show "obeys R (passkeyLogin sv t i ua ip)"
    unfolding passkeyLogin_def by (intro obeying session)
  show "obeys R (ConsumeMagicLink sv t plain ua ip)"
    unfolding ConsumeMagicLink_def p by (auto intro!: obeying session)
  show "obeys R (VerifyAccessToken sv t plain)"
    unfolding VerifyAccessToken_def p by (auto intro!: obeying)
qed

lemma obeys_registration [obeying]:
  assumes p: "sv_prims sv = p"
  shows "obeys R (Register sv t e pw nm ua ip)" "obeys R (LoginOrRegisterOAuth sv t pr info ua ip)"
    "obeys R (RequestMagicLink sv t e addr)"
proof -
  note session = obeys_session [OF p]
  have user: "obeys R (oauthUser sv pr info e nm)" for e nm
    unfolding oauthUser_def p by (auto intro!: obeying split: sum.split auth_error.split)
  show "obeys R (Register sv t e pw nm ua ip)"
    unfolding Register_def registrationAllowed_def sendRegisterVerification_def p
    by (auto intro!: obeying session split: sum.split option.split auth_error.split prod.split)
  show "obeys R (LoginOrRegisterOAuth sv t pr info ua ip)"
    unfolding LoginOrRegisterOAuth_def p by (auto intro!: obeying session user split: prod.split)
  show "obeys R (RequestMagicLink sv t e addr)"
    unfolding RequestMagicLink_def cooldownActive_def p
    by (auto intro!: obeying split: sum.split auth_error.split)
qed

lemma obeys_passwords [obeying]:
  assumes p: "sv_prims sv = p"
  shows "obeys R (ForgotPassword sv t e)" "obeys R (ResetPassword sv t tok pw)" "obeys R (ChangePassword sv t i old new)"
    "obeys R (RequestEmailChange sv t i e)" "tok \<in> S \<Longrightarrow> obeys R (ConfirmEmailChange t tok)" "obeys R (VerifyEmail t tok)"
    "obeys R (ResendVerificationEmail sv t e)"
proof -
  have hash: "obeys R (newPasswordHash sv u i pw)" for u i pw
    unfolding newPasswordHash_def p by (auto intro!: obeying split: option.split)
  show "obeys R (ForgotPassword sv t e)" "obeys R (ResetPassword sv t tok pw)" "obeys R (ChangePassword sv t i old new)"
    "obeys R (RequestEmailChange sv t i e)" "tok \<in> S \<Longrightarrow> obeys R (ConfirmEmailChange t tok)" "obeys R (VerifyEmail t tok)"
    "obeys R (ResendVerificationEmail sv t e)"
    unfolding ForgotPassword_def ResetPassword_def ChangePassword_def RequestEmailChange_def ConfirmEmailChange_def
      VerifyEmail_def ResendVerificationEmail_def p
    by (auto intro!: obeying hash split: sum.split auth_error.split)
qed

lemma obeys_lifecycle [obeying]:
  assumes p: "sv_prims sv = p"
  shows "obeys R (FreezeAccount t i)" "obeys R (DeleteAccount sv t i pw)" "obeys R (RestoreAccount sv a i)"
    "obeys R (AdminForceLogout sv t a i)" "obeys R (UnlockAccount sv t tok)"
  unfolding FreezeAccount_def DeleteAccount_def RestoreAccount_def AdminForceLogout_def UnlockAccount_def requireSuperAdmin_def p
  by (auto intro!: obeying)

lemma perform_obeys:
  assumes "sv_prims sv = p" and "\<And>tok. c = CallConfirmEmailChange tok \<Longrightarrow> tok \<in> S"
  shows "R w (perform sv t c w)"
  by (cases c) (simp_all add: obeying assms(1) assms(2) obeys_passwords(5,6) [OF assms(1)] obeys_lifecycle(1) [OF assms(1)]
      obeys_def [THEN iffD1, rule_format])

lemma serve_obeys:
  assumes "sv_prims sv = p" and "\<And>t tok. (t, CallConfirmEmailChange tok) \<in> set cs \<Longrightarrow> tok \<in> S"
  shows "R w (serve sv cs w)"
  using assms(2)
proof (induction cs arbitrary: w)
  case (Cons x cs)
  obtain t c where x: "x = (t, c)" by fastforce
  have "R w (perform sv t c w)" using Cons.prems by (intro perform_obeys assms(1)) (auto simp: x)
  then show ?case using V_trans Cons.IH Cons.prems by (simp add: x) blast
qed (simp add: V_refl)

end

section \<open>Relations on one table\<close>

locale session_relation = table_relation D for D :: "nat \<Rightarrow> AuthDB \<Rightarrow> AuthDB \<Rightarrow> bool" +
  fixes p :: Primitives
  assumes same_sessions: "t_sessions db' = t_sessions db \<Longrightarrow> D n db db'"
    and session_revoked: "D n db (db\<lparr>t_sessions := updateWhere P (revoke t) (t_sessions db)\<rparr>)"
    and session_forgotten: "D n db (db\<lparr>t_sessions := deleteWhere Q (t_sessions db)\<rparr>)"
    and session_created: "obeys (overTables D) (createSession p t u ua ip fp e a)"
begin

lemma obeys_sameSessions: "(\<And>db. t_sessions (snd (f db)) = t_sessions db) \<Longrightarrow> obeys R (statement f)"
  by (rule obeys_statement) (blast intro: same_sessions)

lemma obeys_issueLink: "obeys R (Issue p plain email u addr e)"
  unfolding Issue_def by (rule obeys_guardedWrite, rule obeys_sameSessions) simp

lemma obeys_changes:
  "obeys R (CreateEmailChangeRequest p t u old new tok tok' b e)" "obeys R (ConfirmEmailChangeToken tok m)"
  by (rule obeys_emailChanges, rule obeys_sameSessions, simp)+

end

sublocale session_relation \<subseteq> token_relation D p UNIV
  by unfold_locales
    (auto intro: same_sessions session_revoked session_forgotten session_created obeys_issueLink obeys_changes)

locale link_relation = table_relation D for D :: "nat \<Rightarrow> AuthDB \<Rightarrow> AuthDB \<Rightarrow> bool" +
  fixes p :: Primitives
  assumes same_links: "t_magicLinks db' = t_magicLinks db \<Longrightarrow> D n db db'"
    and link_issued: "obeys (overTables D) (Issue p plain email u addr e)"
    and link_consumed: "D n db (db\<lparr>t_magicLinks := updateWhere M (\<lambda>r. r\<lparr>ml_ConsumedAt := Some m\<rparr>) (t_magicLinks db)\<rparr>)"
begin

lemma obeys_sameLinks: "(\<And>db. t_magicLinks (snd (f db)) = t_magicLinks db) \<Longrightarrow> obeys R (statement f)"
  by (rule obeys_statement) (blast intro: same_links)

lemma obeys_createUnlinked: "obeys R (createSession p t u ua ip fp e a)"
proof -
  have "obeys R (insertSession r)" for r
    unfolding insertSession_def by (rule obeys_guardedWrite, rule obeys_sameLinks) simp
  then show ?thesis unfolding createSession_def by (intro obeying)
qed

lemma obeys_unlinkedChanges:
  "obeys R (CreateEmailChangeRequest p t u old new tok tok' b e)" "obeys R (ConfirmEmailChangeToken tok m)"
  by (rule obeys_emailChanges, rule obeys_sameLinks, simp)+

end

sublocale link_relation \<subseteq> token_relation D p UNIV
  by unfold_locales
    (auto intro: same_links link_issued link_consumed obeys_createUnlinked obeys_unlinkedChanges)

text \<open>For email changes only the tokens of \<open>S\<close> may be presented.\<close>

locale change_relation = table_relation D for D :: "nat \<Rightarrow> AuthDB \<Rightarrow> AuthDB \<Rightarrow> bool" +
  fixes p :: Primitives and S :: "string set"
  assumes same_changes: "t_emailChanges db' = t_emailChanges db \<Longrightarrow> D n db db'"
    and change_requested: "obeys (overTables D) (CreateEmailChangeRequest p t u old new tok tok' b e)"
    and change_confirmed: "tok \<in> S \<Longrightarrow> obeys (overTables D) (ConfirmEmailChangeToken tok m)"
    and change_dropped: "D n db (db\<lparr>t_emailChanges := deleteWhere E (t_emailChanges db)\<rparr>)"
begin

lemma obeys_sameChanges: "(\<And>db. t_emailChanges (snd (f db)) = t_emailChanges db) \<Longrightarrow> obeys R (statement f)"
  by (rule obeys_statement) (blast intro: same_changes)

lemma obeys_unchanged: "obeys R (createSession p t u ua ip fp e a)" "obeys R (Issue p plain email u addr e)"
proof -
  have "obeys R (insertSession r)" for r
    unfolding insertSession_def by (rule obeys_guardedWrite, rule obeys_sameChanges) simp
  then show "obeys R (createSession p t u ua ip fp e a)" unfolding createSession_def by (intro obeying)
  show "obeys R (Issue p plain email u addr e)"
    unfolding Issue_def by (rule obeys_guardedWrite, rule obeys_sameChanges) simp
qed

end

sublocale change_relation \<subseteq> token_relation D p S
  by unfold_locales
    (auto intro: same_changes change_requested change_confirmed change_dropped obeys_unchanged)

end
