(* ===== verification/Account_Safety.thy ===== *)
theory Account_Safety
  imports Account_State "HOL-Library.Multiset"
begin

text \<open>
  Sessions over any history of calls and any failures of the database and Redis: a retired refresh token
  stays retired, refreshing never extends a login, the limit on sessions holds; and where the detection of
  reused tokens goes wrong.
\<close>

section \<open>Sessions over time\<close>

lemma t_sessions_after [simp]:
  "t_sessions (revokeWhere t P db) = updateWhere (\<lambda>s. P s \<and> s_RevokedAt s = None) (revoke t) (t_sessions db)"
  by (simp add: revokeWhere_def)

lemma in_updateWhere: "x \<in> set (updateWhere P f rows) \<longleftrightarrow> (\<exists>r\<in>set rows. x = (if P r then f r else r))"
  by (auto simp: updateWhere_def)

lemma in_deleteWhere [simp]: "x \<in> set (deleteWhere P rows) \<longleftrightarrow> x \<in> set rows \<and> \<not> P x"
  by (auto simp: deleteWhere_def)

lemma revoke_simps [simp]:
  "s_RefreshToken (revoke t s) = s_RefreshToken s" "s_UserID (revoke t s) = s_UserID s" "s_ID (revoke t s) = s_ID s"
  "s_AbsoluteExpiresAt (revoke t s) = s_AbsoluteExpiresAt s" "s_ExpiresAt (revoke t s) = s_ExpiresAt s"
  "s_RevokedAt (revoke t s) = Some (dbNow t)" "s_LastActiveAt (revoke t s) = s_LastActiveAt s"
  "s_CreatedAt (revoke t s) = s_CreatedAt s"
  by (simp_all add: revoke_def)

text \<open>Every session row for the hash \<open>h\<close> has the property; and no token still to be drawn has this hash.\<close>

definition rowsSatisfy :: "(Session \<Rightarrow> bool) \<Rightarrow> string \<Rightarrow> AuthDB \<Rightarrow> bool" where
  "rowsSatisfy P h db \<longleftrightarrow> (\<forall>s\<in>set (t_sessions db). s_RefreshToken s = h \<longrightarrow> P s)"

definition unissued :: "Primitives \<Rightarrow> nat \<Rightarrow> string \<Rightarrow> bool" where
  "unissued p n h \<longleftrightarrow> (\<exists>i\<ge>n. HashToken p (RandomToken p i) = h)"

definition rowsKept :: "Primitives \<Rightarrow> (Session \<Rightarrow> bool) \<Rightarrow> nat \<Rightarrow> AuthDB \<Rightarrow> AuthDB \<Rightarrow> bool" where
  "rowsKept p P n db db' \<longleftrightarrow> (\<forall>h. \<not> unissued p n h \<longrightarrow> rowsSatisfy P h db \<longrightarrow> rowsSatisfy P h db')"

lemma unissued_mono: "n \<le> m \<Longrightarrow> unissued p m h \<Longrightarrow> unissued p n h"
  unfolding unissued_def by (elim exE conjE) (rule exI, rule conjI, erule (1) order_trans)

lemma rowsKept_create:
  "obeys (overTables (rowsKept p P)) (createSession p t u ua ip fp e a)"
proof -
  have "rowsSatisfy P h (db\<lparr>t_sessions := t_sessions db @ [row]\<rparr>)"
    if "rowsSatisfy P h db" "s_RefreshToken row \<noteq> h" for h db row
    using that by (auto simp: rowsSatisfy_def)
  moreover have "HashToken p (RandomToken p n) \<noteq> h" if "\<not> unissued p n h" for n h
    using that by (auto simp: unissued_def)
  ultimately show ?thesis
    by (auto simp: obeys_def overTables_def rowsKept_def createSession_def bindA_def drawToken_def drawID_def wrapA_def
        insertSession_def sessionRow_def failA_def retA_def statement_def outcomeA_def split: list.splits bool.splits)
qed

lemma rowsKept_relation:
  assumes "\<And>s t. P s \<Longrightarrow> P (revoke t s)"
  shows "session_relation (rowsKept p P) p"
proof
  show "rowsKept p P n db db" for n db by (simp add: rowsKept_def)
  show "rowsKept p P n a c" if "rowsKept p P n a b" "rowsKept p P m b c" "n \<le> m" for n m a b c
    using that unissued_mono unfolding rowsKept_def by meson
  show "rowsKept p P n db db'" if "t_sessions db' = t_sessions db" for n db db'
    using that by (simp add: rowsKept_def rowsSatisfy_def)
  show "rowsKept p P n db (db\<lparr>t_sessions := updateWhere Q (revoke t) (t_sessions db)\<rparr>)" for n db Q t
    using assms by (auto simp: rowsKept_def rowsSatisfy_def in_updateWhere)
  show "rowsKept p P n db (db\<lparr>t_sessions := deleteWhere Q (t_sessions db)\<rparr>)" for n db Q
    by (simp add: rowsKept_def rowsSatisfy_def)
qed (rule rowsKept_create)

definition isRevoked :: "Session \<Rightarrow> bool" where
  "isRevoked s \<longleftrightarrow> s_RevokedAt s \<noteq> None"

lemma isRevoked_revoke [simp]: "isRevoked (revoke t s)"
  by (simp add: isRevoked_def)

abbreviation dead :: "string \<Rightarrow> AuthDB \<Rightarrow> bool" where
  "dead \<equiv> rowsSatisfy isRevoked"

abbreviation until :: "moment \<Rightarrow> string \<Rightarrow> AuthDB \<Rightarrow> bool" where
  "until a \<equiv> rowsSatisfy (\<lambda>s. s_AbsoluteExpiresAt s = a)"

interpretation retiring: session_relation "rowsKept p isRevoked" p for p
  by (rule rowsKept_relation) simp

interpretation bounding: session_relation "rowsKept p (\<lambda>s. s_AbsoluteExpiresAt s = a)" p for p a
  by (rule rowsKept_relation) simp

lemma serve_tokens_grow: "w_tokens w \<le> w_tokens (serve sv cs w)"
  using retiring.serve_obeys [where sv = sv and p = "sv_prims sv" and cs = cs and w = w] by (simp add: overTables_def)

lemma dead_forever:
  assumes "dead h (w_db w)" "\<not> unissued (sv_prims sv) (w_tokens w) h"
  shows "dead h (w_db (serve sv cs w))"
  using retiring.serve_obeys [where sv = sv and p = "sv_prims sv" and cs = cs and w = w] assms by (simp add: overTables_def rowsKept_def)

lemma until_forever:
  assumes "until a h (w_db w)" "\<not> unissued (sv_prims sv) (w_tokens w) h"
  shows "until a h (w_db (serve sv cs w))"
  using bounding.serve_obeys [where sv = sv and p = "sv_prims sv" and cs = cs and w = w and a = a] assms by (simp add: overTables_def rowsKept_def)

section \<open>What a call that succeeded has done\<close>

lemma bindA_InrE:
  assumes "bindA m k w = (Inr b, w'')"
  obtains a w' where "m w = (Inr a, w')" "k a w' = (Inr b, w'')"
  using assms by (auto simp: bindA_def split: prod.splits sum.splits)

lemma wrapA_Inr [simp]: "wrapA l m w = (Inr a, w') \<longleftrightarrow> m w = (Inr a, w')"
  by (auto simp: wrapA_def split: prod.splits sum.splits)

lemma retA_Inr [simp]: "retA a w = (Inr b, w') \<longleftrightarrow> b = a \<and> w' = w"
  by (auto simp: retA_def)

lemma failA_Inr [simp]: "failA e w \<noteq> (Inr b, w')"
  by (simp add: failA_def)

lemma ignoreA_Inr: "ignoreA m w = (Inr u, w') \<longleftrightarrow> w' = snd (m w)"
  by (auto simp: ignoreA_def)

lemma catchA_Inr: "catchA m w = (Inr r, w') \<longleftrightarrow> m w = (r, w')"
  by (auto simp: catchA_def split: prod.splits)

lemma statement_InrE:
  assumes "statement f w = (Inr a, w')"
  obtains "a = fst (f (w_db w))" "w' = w\<lparr>w_db := snd (f (w_db w)), w_faults := tl (w_faults w)\<rparr>"
  using assms by (auto simp: statement_def outcomeA_def split: list.splits bool.splits)

lemma inTx_InrE:
  assumes "inTx m w = (Inr a, w')"
  obtains w1 w2 where "m w1 = (Inr a, w2)" "w_db w1 = w_db w" "w_tokens w1 = w_tokens w" "w_db w' = w_db w2"
    "w_tokens w' = w_tokens w2"
proof -
  have "thenA (wrapA ''begin tx'' (query (\<lambda>db. ())))
     (bindA m (\<lambda>a. thenA (wrapA ''commit tx'' (query (\<lambda>db. ()))) (retA a))) w = (Inr a, w')"
    using assms by (auto simp: inTx_def rollingBack_def split: prod.splits sum.splits)
  then show ?thesis
    using that [of "w\<lparr>w_faults := tl (w_faults w)\<rparr>"] by (auto elim!: bindA_InrE statement_InrE)
qed

lemma fromOption_Inr [simp]: "fromOption e x w = (Inr a, w') \<longleftrightarrow> x = Some a \<and> w' = w"
  by (auto simp: fromOption_def failA_def retA_def split: option.splits)

lemma need_Inr [simp]: "need l x w = (Inr a, w') \<longleftrightarrow> x = Some a \<and> w' = w"
  by (simp add: need_def)

lemma createSession_InrE:
  assumes "createSession p t u ua ip fp e a w = (Inr tok, w')"
  obtains row where "row = sessionRow p t (RandomID p (w_ids w)) u tok ua ip fp e a" "tok = RandomToken p (w_tokens w)"
    "w_db w' = (w_db w)\<lparr>t_sessions := t_sessions (w_db w) @ [row]\<rparr>" "w_tokens w' = Suc (w_tokens w)"
    "\<forall>s\<in>set (t_sessions (w_db w)). s_RefreshToken s \<noteq> HashToken p tok"
proof -
  let ?row = "\<lambda>i tok. sessionRow p t i u tok ua ip fp e a"
  have "insertSession r v = (Inr (), v') \<longleftrightarrow> (\<forall>s\<in>set (t_sessions (w_db v)). s_RefreshToken s \<noteq> s_RefreshToken r) \<and>
      statement (\<lambda>db. ((), db\<lparr>t_sessions := t_sessions db @ [r]\<rparr>)) v = (Inr (), v')" for r v v'
    by (auto simp: insertSession_def failA_def)
  then have "tok = RandomToken p (w_tokens w)" "w_tokens w' = Suc (w_tokens w)"
    "w_db w' = (w_db w)\<lparr>t_sessions := t_sessions (w_db w) @ [?row (RandomID p (w_ids w)) tok]\<rparr>"
    "\<forall>s\<in>set (t_sessions (w_db w)). s_RefreshToken s \<noteq> s_RefreshToken (?row (RandomID p (w_ids w)) tok)"
    using assms unfolding createSession_def drawToken_def drawID_def by (auto elim!: bindA_InrE statement_InrE)
  then show ?thesis by (intro that) (simp_all add: sessionRow_def)
qed

lemma sessionRow_simps [simp]:
  "s_RefreshToken (sessionRow p t i u tok ua ip fp e a) = HashToken p tok" "s_UserID (sessionRow p t i u tok ua ip fp e a) = u"
  "s_AbsoluteExpiresAt (sessionRow p t i u tok ua ip fp e a) = a" "s_ExpiresAt (sessionRow p t i u tok ua ip fp e a) = e"
  "s_RevokedAt (sessionRow p t i u tok ua ip fp e a) = None" "s_LastActiveAt (sessionRow p t i u tok ua ip fp e a) = dbNow t"
  by (simp_all add: sessionRow_def)

lemma tokens_after_revoking [simp]:
  "(\<forall>s\<in>set (updateWhere P (revoke t) rows). s_RefreshToken s \<noteq> h) \<longleftrightarrow> (\<forall>r\<in>set rows. s_RefreshToken r \<noteq> h)"
  by (induction rows) (auto simp: updateWhere_def)

lemma RotateSession_InrE:
  assumes "RotateSession p m t tok ttl ua ip w = (Inr tok', w')"
  obtains s row where
    "find (\<lambda>s. s_RefreshToken s = HashToken p tok) (t_sessions (w_db w)) = Some s"
    "s_RevokedAt s = None" "now t \<le> s_ExpiresAt s" "now t \<le> s_AbsoluteExpiresAt s"
    "tok' = RandomToken p (w_tokens w)" "s_RefreshToken row = HashToken p tok'" "s_UserID row = s_UserID s"
    "s_AbsoluteExpiresAt row = s_AbsoluteExpiresAt s" "s_ExpiresAt row \<le> s_AbsoluteExpiresAt s"
    "t_sessions (w_db w') = updateWhere (\<lambda>r. s_ID r = s_ID s) (revoke t) (t_sessions (w_db w)) @ [row]"
    "t_users (w_db w') = t_users (w_db w)" "w_tokens w' = Suc (w_tokens w)"
    "\<forall>r\<in>set (t_sessions (w_db w)). s_RefreshToken r \<noteq> HashToken p tok'"
proof -
  obtain s w1 where read: "rotateRead p tok w = (Inr s, w1)" and row: "rotateRow p m t tok ttl ua ip s w1 = (Inr tok', w')"
    using assms unfolding RotateSession_def by (rule bindA_InrE)
  have s: "find (\<lambda>s. s_RefreshToken s = HashToken p tok) (t_sessions (w_db w)) = Some s"
    and w1: "w_db w1 = w_db w" "w_tokens w1 = w_tokens w"
    using read unfolding rotateRead_def by (auto elim!: bindA_InrE statement_InrE split: option.splits)
  have live: "s_RevokedAt s = None" "now t \<le> s_ExpiresAt s" "now t \<le> s_AbsoluteExpiresAt s"
    using row unfolding rotateRow_def by (auto elim!: bindA_InrE split: if_splits)
  obtain w2 where revoked: "statement (\<lambda>db. ((), db\<lparr>t_sessions := updateWhere (\<lambda>r. s_ID r = s_ID s) (revoke t) (t_sessions db)\<rparr>)) w1 = (Inr (), w2)"
    and create: "createSession p t (s_UserID s) ua ip []
       (if now t + ttl > s_AbsoluteExpiresAt s then s_AbsoluteExpiresAt s else now t + ttl) (s_AbsoluteExpiresAt s) w2 = (Inr tok', w')"
    using row live unfolding rotateRow_def by (auto elim!: bindA_InrE split: if_splits)
  from create show ?thesis
    by (rule createSession_InrE)
      (rule that [OF s live]; use revoked w1 in \<open>auto elim!: statement_InrE\<close>)
qed

text \<open>Reads leave the tables and the supply of tokens alone.\<close>

definition sameData :: "World \<Rightarrow> World \<Rightarrow> bool" where
  "sameData w w' \<longleftrightarrow> w_db w' = w_db w \<and> w_tokens w' = w_tokens w"

lemma GetUserByID_InrE:
  assumes "GetUserByID i w = (Inr u, w')"
  obtains "find (\<lambda>v. u_ID v = i) (t_users (w_db w)) = Some u" "u_ID u = i" "sameData w w'"
  using assms unfolding GetUserByID_def
  by (auto simp: sameData_def find_Some_iff elim!: bindA_InrE statement_InrE split: option.splits)

lemma validateLoginAccountState_InrE:
  assumes "validateLoginAccountState u w = (Inr x, w')"
  obtains v where "find (\<lambda>v. u_ID v = u_ID u) (t_users (w_db w)) = Some v" "u_FrozenAt v = None" "u_DeletedAt v = None"
    "sameData w w'"
  using assms unfolding validateLoginAccountState_def GetAccountState_def
  by (auto simp: sameData_def IsDeleted_def IsFrozen_def elim!: bindA_InrE statement_InrE split: option.splits if_splits)

lemma accessToken_InrE:
  assumes "accessToken sv u w = (Inr r, w')"
  obtains "w' = w"
  using assms unfolding accessToken_def by (auto elim!: bindA_InrE)

lemma Refresh_InrE:
  assumes "Refresh sv t tok ua ip w = (Inr resp, w')"
  obtains w1 u where "RotateSession (sv_prims sv) (sv_sessions sv) t tok (sv_RefreshTTL sv) ua ip w = (Inr (tr_RefreshToken resp), w1)"
    "sameData w1 w'" "find (\<lambda>v. u_ID v = u_ID u) (t_users (w_db w1)) = Some u" "tr_UserID resp = u_ID u" "u_IsActive u"
    "u_FrozenAt u = None" "u_DeletedAt u = None"
proof -
  obtain tok' w1 where rotate: "RotateSession (sv_prims sv) (sv_sessions sv) t tok (sv_RefreshTTL sv) ua ip w = (Inr tok', w1)"
    and rest: "bindA (wrapA ''query session user''
       (bindA (statement (\<lambda>db. (find (\<lambda>s. s_RefreshToken s = HashToken (sv_prims sv) tok') (t_sessions db), db)))
         (\<lambda>row. fromOption DatabaseError (map_option s_UserID row)))) (\<lambda>userID.
     bindA (GetUserByID userID) (\<lambda>u.
     if \<not> u_IsActive u then failA ErrInactiveUser
     else thenA (validateLoginAccountState u)
       (bindA (accessToken sv u) (\<lambda>(access, roles). retA (tokens access tok' u roles))))) w1 = (Inr resp, w')"
    using assms unfolding Refresh_def by (rule bindA_InrE)
  from rest obtain userID w2 where owner: "bindA (statement (\<lambda>db. (find (\<lambda>s. s_RefreshToken s = HashToken (sv_prims sv) tok') (t_sessions db), db)))
         (\<lambda>row. fromOption DatabaseError (map_option s_UserID row)) w1 = (Inr userID, w2)"
    and rest: "bindA (GetUserByID userID) (\<lambda>u.
     if \<not> u_IsActive u then failA ErrInactiveUser
     else thenA (validateLoginAccountState u)
       (bindA (accessToken sv u) (\<lambda>(access, roles). retA (tokens access tok' u roles)))) w2 = (Inr resp, w')"
    by (auto elim: bindA_InrE)
  have w2: "sameData w1 w2" using owner by (auto simp: sameData_def elim!: bindA_InrE statement_InrE)
  from rest obtain u w3 where u: "GetUserByID userID w2 = (Inr u, w3)" and rest: "(if \<not> u_IsActive u then failA ErrInactiveUser
     else thenA (validateLoginAccountState u)
       (bindA (accessToken sv u) (\<lambda>(access, roles). retA (tokens access tok' u roles)))) w3 = (Inr resp, w')"
    by (auto elim: bindA_InrE)
  from rest obtain x w4 access roles where state: "u_IsActive u" "validateLoginAccountState u w3 = (Inr x, w4)"
    and fin: "resp = tokens access tok' u roles" "w' = w4"
    by (auto elim!: bindA_InrE accessToken_InrE split: if_splits)
  have resp: "tr_RefreshToken resp = tok'" "tr_UserID resp = u_ID u" by (simp_all add: fin tokens_def emptyResponse_def)
  from u state(2) w2 show ?thesis
    by (elim GetUserByID_InrE validateLoginAccountState_InrE)
      (rule that [of w1 u]; use rotate resp fin state(1) in \<open>auto simp: sameData_def\<close>)
qed

section \<open>Refresh tokens\<close>

lemma isl_fst: "(\<And>b w'. m w \<noteq> (Inr b, w')) \<Longrightarrow> \<exists>e. fst (m w) = Inl e"
  by (metis obj_sumE prod.collapse)

lemma dead_not_refreshed:
  assumes "dead (HashToken (sv_prims sv) tok) (w_db w)"
  shows "\<exists>e. fst (Refresh sv t tok ua ip w) = Inl e"
proof (rule isl_fst, rule notI)
  fix b w' assume "Refresh sv t tok ua ip w = (Inr b, w')"
  then obtain w1 where "RotateSession (sv_prims sv) (sv_sessions sv) t tok (sv_RefreshTTL sv) ua ip w = (Inr (tr_RefreshToken b), w1)"
    by (rule Refresh_InrE)
  then show False
    by (rule RotateSession_InrE) (use assms in \<open>auto simp: rowsSatisfy_def isRevoked_def find_Some_iff dest: nth_mem\<close>)
qed

lemma revokeWhere_satisfies:
  "(\<And>s. s_RefreshToken s = h \<Longrightarrow> P s) \<Longrightarrow> dead h (revokeWhere t P db)"
  by (auto simp: rowsSatisfy_def updateWhere_def isRevoked_def)

lemma Logout_dead:
  assumes "Logout sv t tok w = (Inr (), w')"
  shows "dead (HashToken (sv_prims sv) tok) (w_db w')" "w_tokens w' = w_tokens w"
  using assms unfolding Logout_def RevokeSession_def
  by (auto elim!: statement_InrE intro: revokeWhere_satisfies)

lemma same_row:
  assumes "distinct (map f xs)" "x \<in> set xs" "y \<in> set xs" "f x = f y"
  shows "x = y"
  using assms by (metis distinct_map inj_onD)

lemma find_by_key:
  assumes "distinct (map f xs)" "x \<in> set xs"
  shows "find (\<lambda>y. f y = f x) xs = Some x"
  using assms by (induction xs) (auto simp: image_iff)

lemma Refresh_dead:
  assumes refresh: "Refresh sv t tok ua ip w = (Inr resp, w')"
    and unique: "distinct (map s_RefreshToken (t_sessions (w_db w)))"
    and issued: "\<not> unissued (sv_prims sv) (w_tokens w) (HashToken (sv_prims sv) tok)"
  shows "dead (HashToken (sv_prims sv) tok) (w_db w')" "w_tokens w \<le> w_tokens w'"
proof -
  let ?h = "HashToken (sv_prims sv) tok"
  obtain w1 u where rotate: "RotateSession (sv_prims sv) (sv_sessions sv) t tok (sv_RefreshTTL sv) ua ip w = (Inr (tr_RefreshToken resp), w1)"
    and same: "sameData w1 w'"
    using refresh by (rule Refresh_InrE)
  obtain s row where s: "find (\<lambda>s. s_RefreshToken s = ?h) (t_sessions (w_db w)) = Some s"
    and row: "tr_RefreshToken resp = RandomToken (sv_prims sv) (w_tokens w)"
      "s_RefreshToken row = HashToken (sv_prims sv) (tr_RefreshToken resp)"
    and after_: "t_sessions (w_db w1) = updateWhere (\<lambda>r. s_ID r = s_ID s) (revoke t) (t_sessions (w_db w)) @ [row]"
      "w_tokens w1 = Suc (w_tokens w)"
    using rotate by (rule RotateSession_InrE) blast
  have "s \<in> set (t_sessions (w_db w))" "s_RefreshToken s = ?h"
    using s by (auto simp: find_Some_iff)
  then have only: "r = s" if "r \<in> set (t_sessions (w_db w))" "s_RefreshToken r = ?h" for r
    using same_row [OF unique] that by metis
  have "s_RefreshToken row \<noteq> ?h"
    using issued row by (auto simp: unissued_def)
  then show "dead ?h (w_db w')"
    using only same after_ by (auto simp: rowsSatisfy_def sameData_def in_updateWhere)
  show "w_tokens w \<le> w_tokens w'" using same after_ by (simp add: sameData_def)
qed

text \<open>C15. A refresh token that was signed out or exchanged never works again: whatever calls the service
  serves afterwards, and whichever of them fail in the database or in Redis, refreshing with it is an error.
  (Refresh tokens are unique in the table, and the token is not one that is still to be drawn.)\<close>

theorem retired_token_stays_retired:
  assumes "Logout sv t0 tok w = (Inr (), w0) \<or> Refresh sv t0 tok ua0 ip0 w = (Inr resp0, w0)"
    and "distinct (map s_RefreshToken (t_sessions (w_db w)))"
    and issued: "\<not> unissued (sv_prims sv) (w_tokens w) (HashToken (sv_prims sv) tok)"
  shows "\<exists>e. fst (Refresh sv t tok ua ip (serve sv cs w0)) = Inl e"
proof (rule dead_not_refreshed, rule dead_forever)
  have "dead (HashToken (sv_prims sv) tok) (w_db w0) \<and> w_tokens w \<le> w_tokens w0"
    using assms Logout_dead Refresh_dead by (metis order_refl)
  then show "dead (HashToken (sv_prims sv) tok) (w_db w0)"
    "\<not> unissued (sv_prims sv) (w_tokens w0) (HashToken (sv_prims sv) tok)"
    using issued unissued_mono by blast+
qed

text \<open>The token that a login has become: after other calls, and after being exchanged.\<close>

inductive descends :: "Service \<Rightarrow> string \<Rightarrow> World \<Rightarrow> string \<Rightarrow> World \<Rightarrow> bool" for sv tok w where
  start: "descends sv tok w tok w"
| wait: "descends sv tok w tok' w' \<Longrightarrow> descends sv tok w tok' (serve sv cs w')"
| exchange: "descends sv tok w tok' w' \<Longrightarrow> Refresh sv t tok' ua ip w' = (Inr resp, w'') \<Longrightarrow>
    descends sv tok w (tr_RefreshToken resp) w''"

lemma not_after_absolute:
  assumes "until a (HashToken (sv_prims sv) tok) (w_db w)" and "a < now t"
  shows "\<exists>e. fst (Refresh sv t tok ua ip w) = Inl e"
proof (rule isl_fst, rule notI)
  fix b w' assume "Refresh sv t tok ua ip w = (Inr b, w')"
  then obtain w1 where "RotateSession (sv_prims sv) (sv_sessions sv) t tok (sv_RefreshTTL sv) ua ip w = (Inr (tr_RefreshToken b), w1)"
    by (rule Refresh_InrE)
  then show False
    by (rule RotateSession_InrE) (use assms in \<open>auto simp: rowsSatisfy_def find_Some_iff dest: nth_mem\<close>)
qed

lemma exchange_keeps_absolute:
  assumes refresh: "Refresh sv t tok ua ip w = (Inr resp, w')"
    and a: "until a (HashToken (sv_prims sv) tok) (w_db w)"
    and fresh: "inj (\<lambda>i. HashToken (sv_prims sv) (RandomToken (sv_prims sv) i))"
  shows "until a (HashToken (sv_prims sv) (tr_RefreshToken resp)) (w_db w')"
    and "\<not> unissued (sv_prims sv) (w_tokens w') (HashToken (sv_prims sv) (tr_RefreshToken resp))"
proof -
  obtain w1 where rotate: "RotateSession (sv_prims sv) (sv_sessions sv) t tok (sv_RefreshTTL sv) ua ip w = (Inr (tr_RefreshToken resp), w1)"
    and same: "sameData w1 w'"
    using refresh by (rule Refresh_InrE)
  obtain s row where s: "find (\<lambda>s. s_RefreshToken s = HashToken (sv_prims sv) tok) (t_sessions (w_db w)) = Some s"
    and row: "tr_RefreshToken resp = RandomToken (sv_prims sv) (w_tokens w)" "s_AbsoluteExpiresAt row = s_AbsoluteExpiresAt s"
    and after_: "t_sessions (w_db w1) = updateWhere (\<lambda>r. s_ID r = s_ID s) (revoke t) (t_sessions (w_db w)) @ [row]"
      "w_tokens w1 = Suc (w_tokens w)"
      "\<forall>r\<in>set (t_sessions (w_db w)). s_RefreshToken r \<noteq> HashToken (sv_prims sv) (tr_RefreshToken resp)"
    using rotate by (rule RotateSession_InrE) blast
  have "s_AbsoluteExpiresAt s = a" using a s by (auto simp: rowsSatisfy_def find_Some_iff)
  then show "until a (HashToken (sv_prims sv) (tr_RefreshToken resp)) (w_db w')"
    using row after_ same by (auto simp: rowsSatisfy_def sameData_def in_updateWhere split: if_splits)
  show "\<not> unissued (sv_prims sv) (w_tokens w') (HashToken (sv_prims sv) (tr_RefreshToken resp))"
    using row after_(2) same fresh by (force simp: unissued_def sameData_def dest: injD)
qed

text \<open>C16. Refreshing never extends a login: however often the token is exchanged, and whatever happens in
  between, no refresh succeeds after the absolute expiry that was set when the user signed in.\<close>

theorem no_refresh_after_absolute_expiry:
  assumes chain: "descends sv tok w tok' w'"
    and "until a (HashToken (sv_prims sv) tok) (w_db w)"
    and "\<not> unissued (sv_prims sv) (w_tokens w) (HashToken (sv_prims sv) tok)"
    and fresh: "inj (\<lambda>i. HashToken (sv_prims sv) (RandomToken (sv_prims sv) i))"
    and late: "a < now t"
  shows "\<exists>e. fst (Refresh sv t tok' ua ip w') = Inl e"
proof (rule not_after_absolute [OF _ late])
  from chain have "until a (HashToken (sv_prims sv) tok') (w_db w') \<and>
      \<not> unissued (sv_prims sv) (w_tokens w') (HashToken (sv_prims sv) tok')"
  proof induction
    case (wait tok' w' cs)
    then show ?case using until_forever unissued_mono serve_tokens_grow by metis
  next
    case (exchange tok' w' t ua ip resp w'')
    then show ?case using exchange_keeps_absolute fresh by metis
  qed (use assms in simp)
  then show "until a (HashToken (sv_prims sv) tok') (w_db w')" ..
qed

section \<open>Reuse, eviction and races\<close>

lemma statement_up [simp]:
  "w_faults w = [] \<Longrightarrow> statement f w = (Inr (fst (f (w_db w))), w\<lparr>w_db := snd (f (w_db w))\<rparr>)"
  by (simp add: statement_def outcomeA_def)

lemma bindA_up: "m w = (Inr a, w') \<Longrightarrow> bindA m k w = k a w'"
  by (simp add: bindA_def)

lemma reuse_burns_family:
  assumes up: "w_faults w = []"
    and s: "find (\<lambda>s. s_RefreshToken s = HashToken (sv_prims sv) tok) (t_sessions (w_db w)) = Some s"
    and revoked: "s_RevokedAt s \<noteq> None"
  shows "fst (Refresh sv t tok ua ip w) = Inl ErrSessionRevoked"
    and "\<forall>r\<in>set (t_sessions (w_db (snd (Refresh sv t tok ua ip w)))). s_UserID r = s_UserID s \<longrightarrow> isRevoked r"
proof -
  have same: "w\<lparr>w_db := w_db w\<rparr> = w" by simp
  have run: "Refresh sv t tok ua ip w = (Inl ErrSessionRevoked, w\<lparr>w_db := revokeWhere t (\<lambda>r. s_UserID r = s_UserID s) (w_db w)\<rparr>)"
    using up s revoked
    by (simp add: Refresh_def RotateSession_def rotateRead_def rotateRow_def bindA_def retA_def failA_def ignoreA_def
        RevokeAllUserSessions_def same)
  then show "fst (Refresh sv t tok ua ip w) = Inl ErrSessionRevoked" by simp
  show "\<forall>r\<in>set (t_sessions (w_db (snd (Refresh sv t tok ua ip w)))). s_UserID r = s_UserID s \<longrightarrow> isRevoked r"
    using run by (auto simp: updateWhere_def isRevoked_def)
qed

lemma overLimit_active:
  assumes "i \<in> set (overLimit p t u k db)"
  obtains s where "s \<in> set (t_sessions db)" "isActiveSession t u s" "s_ID s = i"
proof -
  from assms obtain s where "s_ID s = i" "s \<in> set (drop (nat k) (sort_key (recency p) (filter (isActiveSession t u) (t_sessions db))))"
    by (auto simp: overLimit_def)
  from that [OF _ _ this(1)] in_set_dropD [OF this(2)] show ?thesis by auto
qed

lemma EnforceMaxSessions_InrE:
  assumes "EnforceMaxSessions p t u k w = (Inr ids, w')" "k > 0"
  obtains "ids = overLimit p t u k (w_db w)"
    "t_sessions (w_db w') = updateWhere (\<lambda>s. s_ID s \<in> set ids) (revoke t) (t_sessions (w_db w))"
  using assms unfolding EnforceMaxSessions_def Let_def by (auto elim!: statement_InrE)

lemma active_after_eviction:
  "filter (isActiveSession t u) (updateWhere (\<lambda>s. s_ID s \<in> A) (revoke t) rows) =
   filter (\<lambda>s. isActiveSession t u s \<and> s_ID s \<notin> A) rows"
  by (induction rows) (auto simp: updateWhere_def isActiveSession_def)

lemma length_filter_sort: "length (filter P (sort_key f xs)) = length (filter P xs)"
  by (metis mset_filter mset_sort size_mset)

text \<open>Once the limit of sessions is enforced a user has at most that many active sessions, and those that
  were revoked had been idle at least as long as those that stay.\<close>

theorem EnforceMaxSessions_limits:
  assumes run: "EnforceMaxSessions p t u k w = (Inr ids, w')" and k: "k > 0"
  shows "length (filter (isActiveSession t u) (t_sessions (w_db w'))) \<le> nat k \<and>
    (\<forall>e\<in>set (t_sessions (w_db w)). \<forall>s\<in>set (t_sessions (w_db w')).
       distinct (map s_ID (t_sessions (w_db w))) \<and> s_ID e \<in> set ids \<and> isActiveSession t u s \<longrightarrow>
       s_LastActiveAt e \<le> s_LastActiveAt s)"
proof -
  let ?rows = "t_sessions (w_db w)"
  let ?sorted = "sort_key (recency p) (filter (isActiveSession t u) ?rows)"
  obtain ids: "ids = map s_ID (drop (nat k) ?sorted)"
    and after_: "t_sessions (w_db w') = updateWhere (\<lambda>s. s_ID s \<in> set ids) (revoke t) ?rows"
    using EnforceMaxSessions_InrE [OF run k] by (auto simp: overLimit_def)
  have kept: "filter (isActiveSession t u) (t_sessions (w_db w')) =
      filter (\<lambda>s. s_ID s \<notin> set ids) (filter (isActiveSession t u) ?rows)"
    by (simp add: after_ active_after_eviction conj_commute)
  have "length (filter (\<lambda>s. s_ID s \<notin> set ids) (filter (isActiveSession t u) ?rows)) =
      length (filter (\<lambda>s. s_ID s \<notin> set ids) (take (nat k) ?sorted @ drop (nat k) ?sorted))"
    by (simp only: append_take_drop_id length_filter_sort)
  also have "\<dots> \<le> nat k"
  proof -
    have "filter (\<lambda>s. s_ID s \<notin> set ids) (drop (nat k) ?sorted) = []"
      by (auto simp: ids filter_empty_conv)
    moreover have "length (filter (\<lambda>s. s_ID s \<notin> set ids) (take (nat k) ?sorted)) \<le> nat k"
      by (rule order_trans [OF length_filter_le]) simp
    ultimately show ?thesis by (simp only: filter_append append_Nil2)
  qed
  finally have 1: "length (filter (isActiveSession t u) (t_sessions (w_db w'))) \<le> nat k" by (simp only: kept)
  have 2: "s_LastActiveAt e \<le> s_LastActiveAt s"
    if e: "e \<in> set ?rows" "s_ID e \<in> set ids" and s: "s \<in> set (t_sessions (w_db w'))" "isActiveSession t u s"
      and d: "distinct (map s_ID ?rows)" for e s
  proof -
    have "s \<in> set (filter (isActiveSession t u) (t_sessions (w_db w')))" using s by simp
    then have "s \<in> set (filter (\<lambda>s. s_ID s \<notin> set ids) (filter (isActiveSession t u) ?rows))" by (simp only: kept)
    then have "s \<in> set ?sorted" and "s_ID s \<notin> set ids" by auto
    then have "s \<in> set (take (nat k) ?sorted)"
      by (metis Un_iff append_take_drop_id ids image_eqI list.set_map set_append)
    moreover have "e \<in> set (drop (nat k) ?sorted)"
    proof -
      obtain e' where e': "e' \<in> set (drop (nat k) ?sorted)" "s_ID e' = s_ID e" using e(2) by (auto simp: ids)
      then have "e' \<in> set ?rows" by (auto dest: in_set_dropD)
      then show ?thesis using same_row [OF d] e(1) e' by metis
    qed
    moreover have "sorted (map (recency p) (take (nat k) ?sorted @ drop (nat k) ?sorted))"
      by (simp only: append_take_drop_id sorted_sort_key)
    ultimately have "recency p s \<le> recency p e"
      by (auto simp: sorted_append simp del: append_take_drop_id)
    then show ?thesis by (auto simp: recency_def)
  qed
  show ?thesis using 1 2 by blast
qed

text \<open>C24. An evicted device signs everybody out: when the limit on sessions has revoked a session, the next
  refresh from that device is taken for theft and revokes all sessions of the user, the new one included.\<close>

theorem evicted_device_signs_user_out:
  assumes run: "EnforceMaxSessions (sv_prims sv) t0 u k w = (Inr ids, w1)" "k > 0" and up: "w_faults w1 = []"
    and s: "s \<in> set (t_sessions (w_db w))" "s_ID s \<in> set ids" "s_RefreshToken s = HashToken (sv_prims sv) tok"
    and unique: "distinct (map s_ID (t_sessions (w_db w)))" "distinct (map s_RefreshToken (t_sessions (w_db w)))"
  shows "fst (Refresh sv t tok ua ip w1) = Inl ErrSessionRevoked \<and>
    (\<forall>r\<in>set (t_sessions (w_db (snd (Refresh sv t tok ua ip w1)))). s_UserID r = u \<longrightarrow> isRevoked r)"
proof -
  let ?rows = "t_sessions (w_db w)"
  obtain ids: "ids = overLimit (sv_prims sv) t0 u k (w_db w)"
    and after_: "t_sessions (w_db w1) = updateWhere (\<lambda>s. s_ID s \<in> set ids) (revoke t0) ?rows"
    using EnforceMaxSessions_InrE [OF run] by blast
  have "s_UserID s = u"
    using s(2) unfolding ids
    by (rule overLimit_active) (use s(1) same_row [OF unique(1)] in \<open>auto simp: isActiveSession_def\<close>)
  moreover have row: "revoke t0 s \<in> set (t_sessions (w_db w1))"
    using s by (auto simp: after_ in_updateWhere)
  moreover have "distinct (map s_RefreshToken (t_sessions (w_db w1)))"
  proof -
    have "map s_RefreshToken (t_sessions (w_db w1)) = map s_RefreshToken ?rows"
      by (simp add: after_ updateWhere_def)
    then show ?thesis using unique by simp
  qed
  ultimately have "find (\<lambda>r. s_RefreshToken r = HashToken (sv_prims sv) tok) (t_sessions (w_db w1)) = Some (revoke t0 s)"
    using s(3) find_by_key by fastforce
  from reuse_burns_family [OF up this] show ?thesis using \<open>s_UserID s = u\<close> by simp
qed

definition rotatable :: "SessionManager \<Rightarrow> Clock \<Rightarrow> Session \<Rightarrow> bool" where
  "rotatable m t s \<longleftrightarrow> s_RevokedAt s = None \<and> now t \<le> s_ExpiresAt s \<and> now t \<le> s_AbsoluteExpiresAt s \<and>
     \<not> (m_idleTTL m > 0 \<and> now t - s_LastActiveAt s > m_idleTTL m)"

definition rotatedUntil :: "Clock \<Rightarrow> duration \<Rightarrow> Session \<Rightarrow> moment" where
  "rotatedUntil t ttl s = (if now t + ttl > s_AbsoluteExpiresAt s then s_AbsoluteExpiresAt s else now t + ttl)"

lemma createSession_up:
  assumes "w_faults w = []"
    and "\<forall>r\<in>set (t_sessions (w_db w)). s_RefreshToken r \<noteq> HashToken p (RandomToken p (w_tokens w))"
  shows "createSession p t u ua ip fp e a w = (Inr (RandomToken p (w_tokens w)),
    w\<lparr>w_tokens := Suc (w_tokens w), w_ids := Suc (w_ids w),
      w_db := (w_db w)\<lparr>t_sessions := t_sessions (w_db w) @
        [sessionRow p t (RandomID p (w_ids w)) u (RandomToken p (w_tokens w)) ua ip fp e a]\<rparr>\<rparr>)"
  using assms
  by (simp add: createSession_def insertSession_def bindA_def drawToken_def drawID_def retA_def wrapA_def)

lemma rotateRow_up:
  assumes up: "w_faults w = []" and ok: "rotatable m t s"
    and new: "\<forall>r\<in>set (t_sessions (w_db w)). s_RefreshToken r \<noteq> HashToken p (RandomToken p (w_tokens w))"
  shows "\<exists>w'. rotateRow p m t tok ttl ua ip s w = (Inr (RandomToken p (w_tokens w)), w') \<and>
    w_faults w' = [] \<and> w_tokens w' = Suc (w_tokens w) \<and>
    t_sessions (w_db w') = updateWhere (\<lambda>r. s_ID r = s_ID s) (revoke t) (t_sessions (w_db w)) @
      [sessionRow p t (RandomID p (w_ids w)) (s_UserID s) (RandomToken p (w_tokens w)) ua ip []
        (rotatedUntil t ttl s) (s_AbsoluteExpiresAt s)]"
proof -
  let ?w = "w\<lparr>w_db := (w_db w)\<lparr>t_sessions := updateWhere (\<lambda>r. s_ID r = s_ID s) (revoke t) (t_sessions (w_db w))\<rparr>\<rparr>"
  have "rotateRow p m t tok ttl ua ip s w =
      wrapA ''create rotated session'' (createSession p t (s_UserID s) ua ip [] (rotatedUntil t ttl s) (s_AbsoluteExpiresAt s)) ?w"
    using ok up by (auto simp: rotateRow_def rotatable_def rotatedUntil_def bindA_def wrapA_def)
  moreover have "createSession p t (s_UserID s) ua ip [] (rotatedUntil t ttl s) (s_AbsoluteExpiresAt s) ?w =
    (Inr (RandomToken p (w_tokens ?w)), ?w\<lparr>w_tokens := Suc (w_tokens ?w), w_ids := Suc (w_ids ?w),
      w_db := (w_db ?w)\<lparr>t_sessions := t_sessions (w_db ?w) @
        [sessionRow p t (RandomID p (w_ids ?w)) (s_UserID s) (RandomToken p (w_tokens ?w)) ua ip []
          (rotatedUntil t ttl s) (s_AbsoluteExpiresAt s)]\<rparr>\<rparr>)"
    by (rule createSession_up) (use up new in simp_all)
  ultimately show ?thesis using up by (simp add: wrapA_def)
qed

text \<open>C23. Two refreshes with the same token fork the session: \<open>RotateSession\<close> reads the row before it revokes it,
  so when both calls read first, both succeed and leave the user two active sessions; the reuse is not noticed.\<close>

theorem concurrent_refreshes_fork_session:
  assumes up: "w_faults w = []" and s: "find (\<lambda>r. s_RefreshToken r = HashToken p tok) (t_sessions (w_db w)) = Some s"
    and ok: "rotatable m t s" "rotatable m t' s"
    and fresh: "inj (\<lambda>i. HashToken p (RandomToken p i))"
    and issued: "\<forall>r\<in>set (t_sessions (w_db w)). \<not> unissued p (w_tokens w) (s_RefreshToken r)"
    and newID: "RandomID p (w_ids w) \<noteq> s_ID s"
  shows "\<exists>tok1 tok2 w1 w2. rotateRead p tok w = (Inr s, w) \<and>
    rotateRow p m t tok ttl ua ip s w = (Inr tok1, w1) \<and>
    rotateRow p m t' tok ttl ua' ip' s w1 = (Inr tok2, w2) \<and> tok1 \<noteq> tok2 \<and>
    (\<forall>k\<in>{tok1, tok2}. \<exists>r\<in>set (t_sessions (w_db w2)).
       s_RefreshToken r = HashToken p k \<and> s_UserID r = s_UserID s \<and> s_RevokedAt r = None)"
proof -
  let ?n = "w_tokens w"
  let ?new = "\<lambda>i. HashToken p (RandomToken p i)"
  have unused: "\<forall>r\<in>set (t_sessions (w_db w)). s_RefreshToken r \<noteq> ?new i" if "i \<ge> ?n" for i
    using issued that unfolding unissued_def by metis
  obtain w1 where 1: "rotateRow p m t tok ttl ua ip s w = (Inr (RandomToken p ?n), w1)"
    "w_faults w1 = []" "w_tokens w1 = Suc ?n"
    "t_sessions (w_db w1) = updateWhere (\<lambda>r. s_ID r = s_ID s) (revoke t) (t_sessions (w_db w)) @
      [sessionRow p t (RandomID p (w_ids w)) (s_UserID s) (RandomToken p ?n) ua ip [] (rotatedUntil t ttl s) (s_AbsoluteExpiresAt s)]"
    using rotateRow_up [OF up ok(1) unused [OF order_refl], of tok ttl ua ip] by blast
  have "?new ?n \<noteq> ?new (Suc ?n)" using fresh by (auto dest: injD)
  then have "\<forall>r\<in>set (t_sessions (w_db w1)). s_RefreshToken r \<noteq> ?new (w_tokens w1)"
    using unused [of "Suc ?n"] by (simp add: 1 ball_Un)
  from rotateRow_up [OF 1(2) ok(2) this, of tok ttl ua' ip']
  obtain w2 where 2: "rotateRow p m t' tok ttl ua' ip' s w1 = (Inr (RandomToken p (Suc ?n)), w2)"
    "t_sessions (w_db w2) = updateWhere (\<lambda>r. s_ID r = s_ID s) (revoke t') (t_sessions (w_db w1)) @
      [sessionRow p t' (RandomID p (w_ids w1)) (s_UserID s) (RandomToken p (Suc ?n)) ua' ip' [] (rotatedUntil t' ttl s) (s_AbsoluteExpiresAt s)]"
    by (auto simp: 1)
  have "rotateRead p tok w = (Inr s, w)"
    using up s by (simp add: rotateRead_def bindA_def retA_def)
  moreover have "RandomToken p ?n \<noteq> RandomToken p (Suc ?n)"
    using \<open>?new ?n \<noteq> ?new (Suc ?n)\<close> by auto
  moreover have "\<exists>r\<in>set (t_sessions (w_db w2)). s_RefreshToken r = ?new ?n \<and> s_UserID r = s_UserID s \<and> s_RevokedAt r = None"
  proof (rule bexI)
    let ?r = "sessionRow p t (RandomID p (w_ids w)) (s_UserID s) (RandomToken p ?n) ua ip [] (rotatedUntil t ttl s) (s_AbsoluteExpiresAt s)"
    show "?r \<in> set (t_sessions (w_db w2))" using newID by (auto simp: 2 1 in_updateWhere sessionRow_def)
  qed simp
  moreover have "\<exists>r\<in>set (t_sessions (w_db w2)). s_RefreshToken r = ?new (Suc ?n) \<and> s_UserID r = s_UserID s \<and> s_RevokedAt r = None"
    by (simp add: 2 bex_Un)
  ultimately show ?thesis using 1(1) 2(1) by blast
qed

end
