(* ===== verification/Account_Access.thy ===== *)
theory Account_Access
  imports Account_Safety
begin

text \<open>
  Who gets in: the ways of signing in that check the state of the account and those that do not, and the
  lock after wrong passwords.
\<close>

section \<open>Who gets in\<close>

text \<open>What of the users table decides about access.\<close>

definition standing :: "User \<Rightarrow> string \<times> bool \<times> moment option \<times> moment option" where
  "standing u = (u_ID u, u_IsActive u, u_FrozenAt u, u_DeletedAt u)"

definition inGoodStanding :: "AuthDB \<Rightarrow> string \<Rightarrow> bool" where
  "inGoodStanding db i \<longleftrightarrow>
     (\<exists>u\<in>set (t_users db). u_ID u = i \<and> u_IsActive u \<and> u_FrozenAt u = None \<and> u_DeletedAt u = None)"

definition sameStanding :: "nat \<Rightarrow> AuthDB \<Rightarrow> AuthDB \<Rightarrow> bool" where
  "sameStanding n db db' \<longleftrightarrow> map standing (t_users db') = map standing (t_users db)"

interpretation standing: table_relation sameStanding
  by unfold_locales (simp_all add: sameStanding_def)

abbreviation keepsStanding :: "'a act \<Rightarrow> bool" where
  "keepsStanding \<equiv> obeys (overTables sameStanding)"

lemma keepsStanding_statement: "(\<And>db. t_users (snd (f db)) = t_users db) \<Longrightarrow> keepsStanding (statement f)"
  by (rule standing.obeys_statement) (simp add: sameStanding_def)

lemma keepsStanding_login: "keepsStanding (UpdateLastLogin t i)"
  unfolding UpdateLastLogin_def
  by (rule standing.obeys_statement) (simp add: sameStanding_def updateUsers_def updateWhere_def standing_def)

lemma keepsStanding_create: "keepsStanding (createSession p t u ua ip fp e a)"
proof -
  have "keepsStanding (insertSession r)" for r
    unfolding insertSession_def by (rule standing.obeys_guardedWrite, rule keepsStanding_statement) simp
  then show ?thesis unfolding createSession_def by (intro obeying)
qed

lemma keepsStanding_issue: "keepsStanding (issueSession sv t u ua ip)"
proof -
  have reads: "keepsStanding (accessToken sv u)" "keepsStanding (isPasswordExpired sv t i)" for i
    unfolding accessToken_def isPasswordExpired_def GetAccountState_def
    by (auto intro!: obeying split: option.split sum.split)
  have "keepsStanding (EnforceMaxSessions p t i k)" "keepsStanding (RecordKnownDevice t i fp)" for p i k fp
    unfolding EnforceMaxSessions_def RecordKnownDevice_def Let_def
    by (auto intro!: obeying keepsStanding_statement)
  then show ?thesis
    unfolding issueSession_def CreateSessionWithFingerprint_def Let_def
    by (auto intro!: obeying reads keepsStanding_login keepsStanding_create split: prod.split sum.split bool.split)
qed

lemma issueSession_InrE:
  assumes "issueSession sv t u ua ip w = (Inr resp, w')"
  obtains "tr_UserID resp = u_ID u" "\<not> tr_MFARequired resp"
  using assms unfolding issueSession_def Let_def
  by (auto simp: tokens_def emptyResponse_def elim!: bindA_InrE split: prod.splits)

lemma keepsStanding_good:
  assumes "keepsStanding m" "m w = (r, w')"
  shows "map standing (t_users (w_db w')) = map standing (t_users (w_db w))"
  using obeysD [OF assms] by (simp add: overTables_def sameStanding_def)

lemma goodStanding_same:
  assumes "map standing (t_users db') = map standing (t_users db)"
  shows "inGoodStanding db' i \<longleftrightarrow> inGoodStanding db i"
proof -
  have "inGoodStanding d i \<longleftrightarrow> (i, True, None, None) \<in> set (map standing (t_users d))" for d
    by (auto simp: inGoodStanding_def standing_def image_iff)
  then show ?thesis using assms by metis
qed

lemma IDs_same:
  assumes "map standing (t_users db') = map standing (t_users db)"
  shows "map u_ID (t_users db') = map u_ID (t_users db)"
proof -
  have "map u_ID us = map fst (map standing us)" for us by (simp add: standing_def comp_def)
  then show ?thesis using assms by metis
qed

text \<open>The checks of the account state followed by a session.\<close>

lemma checked_session:
  assumes u: "u \<in> set (t_users (w_db w))" "u_IsActive u"
    and checked: "validateLoginAccountState u w = (Inr x, w1)"
    and "keepsStanding m" "m w1 = (r, w2)" "issueSession sv t u ua ip w2 = (Inr resp, w')"
    and unique: "distinct (map u_ID (t_users (w_db w')))"
  shows "inGoodStanding (w_db w') (tr_UserID resp)"
proof -
  obtain v where v: "find (\<lambda>v. u_ID v = u_ID u) (t_users (w_db w)) = Some v" "u_FrozenAt v = None" "u_DeletedAt v = None"
    and w1: "w_db w1 = w_db w"
    using checked by (rule validateLoginAccountState_InrE) (auto simp: sameData_def)
  have same: "map standing (t_users (w_db w')) = map standing (t_users (w_db w))"
    using keepsStanding_good [OF assms(4,5)] keepsStanding_good [OF keepsStanding_issue assms(6)] w1 by simp
  then have "distinct (map u_ID (t_users (w_db w)))" using unique IDs_same by metis
  moreover have "v \<in> set (t_users (w_db w))" "u_ID v = u_ID u" using v(1) by (auto simp: find_Some_iff)
  ultimately have "v = u" using same_row u(1) by metis
  then have "inGoodStanding (w_db w) (u_ID u)" using u v by (auto simp: inGoodStanding_def)
  moreover have "tr_UserID resp = u_ID u" using assms(6) by (rule issueSession_InrE)
  ultimately show ?thesis using goodStanding_same [OF same] by simp
qed

lemma GetUserByEmail_member:
  assumes "GetUserByEmail e w = (Inr u, w')"
  shows "u \<in> set (t_users (w_db w'))"
  using assms unfolding GetUserByEmail_def
  by (auto simp: find_Some_iff elim!: bindA_InrE statement_InrE split: option.splits)

lemma CreateDirectoryUser_member:
  assumes "CreateDirectoryUser p e nm w = (Inr u, w')"
  shows "u \<in> set (t_users (w_db w'))"
  using assms unfolding CreateDirectoryUser_def bootstrapUserWorkspace_def insertUser_def Let_def
  by (auto elim!: inTx_InrE bindA_InrE statement_InrE split: if_splits)

lemma directoryUser_member:
  assumes "directoryUser sv entry email w = (Inr (Some u), w')"
  shows "u \<in> set (t_users (w_db w'))"
proof -
  obtain r w1 where r: "GetUserByEmail email w = (r, w1)"
    and k: "(case r of
       Inr u \<Rightarrow> retA (Some u)
     | Inl e \<Rightarrow>
         if e \<noteq> ErrUserNotFound then failA e
         else if \<not> sv_autoCreate sv then retA None
         else bindA (CreateDirectoryUser (sv_prims sv) email
                (case sv_SanitizeName sv (de_DisplayName entry) of
                   Some n \<Rightarrow> if TrimSpace n = [] then email else n | None \<Rightarrow> email))
              (\<lambda>u. retA (Some u))) w1 = (Inr (Some u), w')"
    using assms unfolding directoryUser_def by (auto simp: catchA_Inr elim: bindA_InrE)
  show ?thesis
  proof (cases r)
    case (Inl err)
    then have "\<exists>nm. CreateDirectoryUser (sv_prims sv) email nm w1 = (Inr u, w')"
      using k by (auto elim!: bindA_InrE split: if_splits)
    then show ?thesis using CreateDirectoryUser_member by blast
  next
    case (Inr v)
    then show ?thesis using k r GetUserByEmail_member by simp
  qed
qed

lemma authenticateLogin_member:
  assumes "authenticateLogin sv e pw email w = (Inr (Some u, True), w')"
  shows "u \<in> set (t_users (w_db w'))"
proof -
  obtain user w1 where user: "userOrNone email w = (Inr user, w1)"
    and k: "(if (case user of Some u \<Rightarrow> passwordMatches sv pw u | None \<Rightarrow> False) then retA (user, True)
       else bindA (catchA (tryLDAP sv e pw)) (\<lambda>l.
         case l of Inr (Some u) \<Rightarrow> retA (Some u, True) | _ \<Rightarrow> retA (user, False))) w1 = (Inr (Some u, True), w')"
    using assms unfolding authenticateLogin_def by (rule bindA_InrE)
  have "(user = Some u \<and> w' = w1) \<or> tryLDAP sv e pw w1 = (Inr (Some u), w')"
    using k by (auto simp: catchA_Inr elim!: bindA_InrE split: if_splits sum.splits option.splits)
  then show ?thesis
  proof
    assume "user = Some u \<and> w' = w1"
    then show ?thesis
      using user GetUserByEmail_member unfolding userOrNone_def
      by (auto simp: catchA_Inr elim!: bindA_InrE split: sum.splits if_splits)
  next
    assume "tryLDAP sv e pw w1 = (Inr (Some u), w')"
    then show ?thesis
      unfolding tryLDAP_def Let_def by (auto dest: directoryUser_member split: sum.splits option.splits)
  qed
qed

lemma Login_good:
  assumes run: "Login sv t e pw ua ip w = (Inr resp, w')" and unique: "distinct (map u_ID (t_users (w_db w')))"
  shows "tr_MFARequired resp \<or> inGoodStanding (w_db w') (tr_UserID resp)"
proof -
  let ?email = "normalizeLoginEmail sv e"
  obtain x1 w1 where "checkLoginLockout sv t ?email w = (Inr x1, w1)"
    and rest: "bindA (authenticateLogin sv e pw ?email) (\<lambda>(user, passwordOK).
       bindA (rejectInvalidLogin sv t user passwordOK ?email) (\<lambda>u.
       thenA (validateLoginAccountState u)
       (thenA (clearLoginFailures sv ?email)
       (bindA (loginMFAGate sv u) (\<lambda>mfaResp.
        case mfaResp of Some resp \<Rightarrow> retA resp | None \<Rightarrow> issueSession sv t u ua ip))))) w1 = (Inr resp, w')"
    using run unfolding Login_def Let_def by (rule bindA_InrE)
  obtain user ok w2 where auth: "authenticateLogin sv e pw ?email w1 = (Inr (user, ok), w2)"
    and rest: "bindA (rejectInvalidLogin sv t user ok ?email) (\<lambda>u.
       thenA (validateLoginAccountState u)
       (thenA (clearLoginFailures sv ?email)
       (bindA (loginMFAGate sv u) (\<lambda>mfaResp.
        case mfaResp of Some resp \<Rightarrow> retA resp | None \<Rightarrow> issueSession sv t u ua ip)))) w2 = (Inr resp, w')"
    using rest by (auto elim: bindA_InrE)
  obtain u w3 where reject: "rejectInvalidLogin sv t user ok ?email w2 = (Inr u, w3)"
    and rest: "thenA (validateLoginAccountState u)
       (thenA (clearLoginFailures sv ?email)
       (bindA (loginMFAGate sv u) (\<lambda>mfaResp.
        case mfaResp of Some resp \<Rightarrow> retA resp | None \<Rightarrow> issueSession sv t u ua ip))) w3 = (Inr resp, w')"
    using rest by (rule bindA_InrE)
  have u: "user = Some u" "ok" "u_IsActive u" "w3 = w2"
    using reject unfolding rejectInvalidLogin_def by (auto elim: bindA_InrE split: option.splits if_splits)
  obtain x w4 x5 w5 gate w6 where checked: "validateLoginAccountState u w3 = (Inr x, w4)"
    and clear: "clearLoginFailures sv ?email w4 = (Inr x5, w5)" and gate: "loginMFAGate sv u w5 = (Inr gate, w6)"
    and last_: "(case gate of Some resp \<Rightarrow> retA resp | None \<Rightarrow> issueSession sv t u ua ip) w6 = (Inr resp, w')"
    using rest by (elim bindA_InrE) blast
  show ?thesis
  proof (cases gate)
    case (Some r)
    then have "tr_MFARequired r"
      using gate unfolding loginMFAGate_def by (auto elim!: bindA_InrE split: if_splits)
    then show ?thesis using last_ Some by simp
  next
    case None
    have keeps: "keepsStanding (thenA (clearLoginFailures sv ?email) (loginMFAGate sv u))"
      unfolding clearLoginFailures_def loginMFAGate_def activeWorkspaceRequiresMFA_def MFA.IsEnabled_def mfaGet_def
      by (auto intro!: obeying split: option.split sum.split auth_error.split)
    have "thenA (clearLoginFailures sv ?email) (loginMFAGate sv u) w4 = (Inr gate, w6)"
      using clear gate by (simp add: bindA_def)
    moreover have "u \<in> set (t_users (w_db w3))" using auth u authenticateLogin_member by metis
    moreover have "issueSession sv t u ua ip w6 = (Inr resp, w')" using last_ None by simp
    ultimately show ?thesis using checked_session [OF _ u(3) checked keeps] unique by blast
  qed
qed

lemma ConsumeMagicLink_good:
  assumes run: "ConsumeMagicLink sv t plain ua ip w = (Inr resp, w')" and unique: "distinct (map u_ID (t_users (w_db w')))"
  shows "inGoodStanding (w_db w') (tr_UserID resp)"
proof -
  obtain userID w1 where "bindA (GetUserByID userID) (\<lambda>u.
        if \<not> u_IsActive u then failA ErrInactiveUser
        else thenA (validateLoginAccountState u) (issueSession sv t u ua ip)) w1 = (Inr resp, w')"
    using run unfolding ConsumeMagicLink_def by (auto elim: bindA_InrE split: if_splits)
  then obtain u w2 where u: "GetUserByID userID w1 = (Inr u, w2)" and rest: "(if \<not> u_IsActive u then failA ErrInactiveUser
        else thenA (validateLoginAccountState u) (issueSession sv t u ua ip)) w2 = (Inr resp, w')"
    by (rule bindA_InrE)
  have member: "u \<in> set (t_users (w_db w2))"
    using u by (rule GetUserByID_InrE) (auto simp: sameData_def find_Some_iff)
  from rest obtain x w3 where "u_IsActive u" "validateLoginAccountState u w2 = (Inr x, w3)"
    and last_: "issueSession sv t u ua ip w3 = (Inr resp, w')"
    by (auto elim: bindA_InrE split: if_splits)
  moreover have "keepsStanding (retA ())" "retA () w3 = (Inr (), w3)" by (auto intro: obeying)
  ultimately show ?thesis using checked_session [OF member] unique by blast
qed

lemma Refresh_good:
  assumes "Refresh sv t tok ua ip w = (Inr resp, w')"
  shows "inGoodStanding (w_db w') (tr_UserID resp)"
  using assms by (rule Refresh_InrE) (auto simp: inGoodStanding_def sameData_def find_Some_iff dest: nth_mem)

text \<open>C17. Signing in with a password, a magic link or a refresh token gives a session only to a user who is
  active, not frozen and not deleted, unless the answer is the challenge of the second factor.\<close>

theorem sessions_only_in_good_standing:
  assumes "Login sv t e pw ua ip w = (Inr resp, w') \<or> ConsumeMagicLink sv t plain ua ip w = (Inr resp, w') \<or>
      Refresh sv t tok ua ip w = (Inr resp, w')"
    and "distinct (map u_ID (t_users (w_db w')))"
  shows "tr_MFARequired resp \<or> inGoodStanding (w_db w') (tr_UserID resp)"
  using assms Login_good ConsumeMagicLink_good Refresh_good by metis

section \<open>Ways around\<close>

lemma find_updateWhere:
  assumes "\<And>r. k (f r) = k r"
  shows "find (\<lambda>r. k r = i) (updateWhere P f rows) = map_option (\<lambda>r. if P r then f r else r) (find (\<lambda>r. k r = i) rows)"
  using assms by (induction rows) (auto simp: updateWhere_def)

lemma FreezeAccount_InrE:
  assumes "FreezeAccount t i w = (Inr x, w')"
  obtains "t_users (w_db w') = updateWhere (\<lambda>u. u_ID u = i \<and> u_FrozenAt u = None \<and> u_DeletedAt u = None)
      (\<lambda>u. u\<lparr>u_FrozenAt := Some (dbNow t)\<rparr>) (t_users (w_db w))"
    "t_sessions (w_db w') = updateWhere (\<lambda>s. s_UserID s = i \<and> s_RevokedAt s = None) (revoke t) (t_sessions (w_db w))"
    "t_pats (w_db w') = t_pats (w_db w)" "w_tokens w' = w_tokens w"
proof -
  have "(if c then retA () else failA e) v = (Inr y, v') \<longleftrightarrow> c \<and> y = () \<and> v' = v" for c e v y v'
    by simp
  then show ?thesis
    using assms that unfolding FreezeAccount_def repoFreezeAccount_def updateUserCount_def RevokeAllUserSessions_def
    by (auto simp: updateUsers_def revokeWhere_def elim!: bindA_InrE statement_InrE)
qed

lemma user_frozen: "u_ID (u\<lparr>u_FrozenAt := m\<rparr>) = u_ID u"
  by simp

lemma tokens_fields: "tr_UserID (tokens a b u r) = u_ID u" "tr_RefreshToken (tokens a b u r) = b"
  by (simp_all add: tokens_def emptyResponse_def)

text \<open>C25. Freezing an account does not stop its passkeys and personal access tokens: as long as the tables and
  the other services answer, a passkey still opens a session for the frozen user and a token still
  identifies them.\<close>

theorem frozen_account_keeps_access:
  assumes frozen: "FreezeAccount t0 i w = (Inr (), w1)" and up: "w_faults w1 = []"
    and others: "sv_roles sv i = Some roles" "sv_workspace sv i = Some ws" "\<forall>v. sv_sign sv v roles ws \<noteq> None" "sv_pats sv"
    and u: "find (\<lambda>v. u_ID v = i) (t_users (w_db w)) = Some u" "u_IsActive u"
    and token: "find (\<lambda>r. pat_TokenHash r = HashToken (sv_prims sv) plain \<and> pat_RevokedAt r = None \<and>
         (case pat_ExpiresAt r of None \<Rightarrow> True | Some m \<Rightarrow> m > dbNow t)) (t_pats (w_db w)) = Some r" "pat_UserID r = i"
    and fresh: "\<forall>s\<in>set (t_sessions (w_db w)). s_RefreshToken s \<noteq> HashToken (sv_prims sv) (RandomToken (sv_prims sv) (w_tokens w))"
  shows "(\<exists>resp w2. passkeyLogin sv t i ua ip w1 = (Inr resp, w2) \<and> tr_UserID resp = i \<and>
        tr_RefreshToken resp = RandomToken (sv_prims sv) (w_tokens w)) \<and>
    (\<exists>ident w2. VerifyAccessToken sv t plain w1 = (Inr ident, w2) \<and> pi_UserID ident = i)"
proof -
  obtain v where v: "find (\<lambda>v. u_ID v = i) (t_users (w_db w1)) = Some v" "u_ID v = i" "u_IsActive v"
  proof -
    have "find (\<lambda>v. u_ID v = i) (t_users (w_db w1)) = map_option (\<lambda>v. if u_ID v = i \<and> u_FrozenAt v = None \<and> u_DeletedAt v = None
        then v\<lparr>u_FrozenAt := Some (dbNow t0)\<rparr> else v) (Some u)"
      using frozen by (rule FreezeAccount_InrE) (simp only: find_updateWhere user_frozen u(1))
    moreover have "u_ID u = i" using u(1) by (auto simp: find_Some_iff)
    ultimately show ?thesis using that u(2) by (auto split: if_splits)
  qed
  have w1: "t_pats (w_db w1) = t_pats (w_db w)" "w_tokens w1 = w_tokens w"
    "\<forall>s\<in>set (t_sessions (w_db w1)). s_RefreshToken s \<noteq> HashToken (sv_prims sv) (RandomToken (sv_prims sv) (w_tokens w1))"
    using frozen by (rule FreezeAccount_InrE; simp add: fresh)+
  have same: "w1\<lparr>w_db := w_db w1\<rparr> = w1" by simp
  obtain sig where sig: "sv_sign sv v roles ws = Some sig" using others(3) by blast
  let ?w = "w1\<lparr>w_db := updateUsers (\<lambda>u. u_ID u = i) (\<lambda>u. u\<lparr>u_LastLoginAt := Some (dbNow t)\<rparr>) (w_db w1)\<rparr>"
  obtain w2 where create: "CreateSession (sv_prims sv) (sv_sessions sv) t i ua ip (sv_RefreshTTL sv) ?w =
      (Inr (RandomToken (sv_prims sv) (w_tokens w)), w2)"
  proof -
    have free: "w_faults ?w = []"
      "\<forall>r\<in>set (t_sessions (w_db ?w)). s_RefreshToken r \<noteq> HashToken (sv_prims sv) (RandomToken (sv_prims sv) (w_tokens ?w))"
      using up w1(3) by (simp_all add: updateUsers_def)
    have "w_tokens ?w = w_tokens w" by (simp add: w1(2))
    then show ?thesis
      using that createSession_up [OF free] unfolding CreateSession_def CreateSessionWithFingerprint_def by metis
  qed
  have "passkeyLogin sv t i ua ip w1 = (Inr (tokens sig (RandomToken (sv_prims sv) (w_tokens w)) v roles), w2)"
    using up v others sig create
    by (simp add: passkeyLogin_def GetUserByID_def UpdateLastLogin_def CreateTokenResponseForUser_def accessToken_def
        bindA_def retA_def need_def fromOption_def wrapA_def same)
  then have 1: "\<exists>resp w2. passkeyLogin sv t i ua ip w1 = (Inr resp, w2) \<and> tr_UserID resp = i \<and>
      tr_RefreshToken resp = RandomToken (sv_prims sv) (w_tokens w)"
    using v(2) tokens_fields by metis
  have 2: "\<exists>ident w2. VerifyAccessToken sv t plain w1 = (Inr ident, w2) \<and> pi_UserID ident = i"
    using up v others token
    by (simp add: VerifyAccessToken_def FindActiveByHash_def GetUserByID_def bindA_def retA_def ignoreA_def need_def
        fromOption_def wrapA_def same w1)
  show ?thesis using 1 2 by blast
qed

section \<open>Guessing passwords\<close>

text \<open>Operations that leave Redis alone and do not break a working database.\<close>

definition calm :: "World \<Rightarrow> World \<Rightarrow> bool" where
  "calm w w' \<longleftrightarrow> (w_faults w = [] \<longrightarrow> w_faults w' = []) \<and> w_redis w' = w_redis w"

interpretation calm: world_relation calm
  by unfold_locales (simp_all add: calm_def)

lemma calm_statement [obeying]: "obeys calm (statement f)"
  by (auto simp: obeys_def calm_def statement_def outcomeA_def split: list.splits bool.splits)

lemma calm_draw [obeying]: "obeys calm (drawToken p)" "obeys calm (drawID p)"
  by (simp_all add: obeys_def calm_def drawToken_def drawID_def)

lemma calm_rollingBack: "obeys calm m \<Longrightarrow> obeys calm (rollingBack m)"
  by (auto simp: obeys_def calm_def rollingBack_def split: prod.splits sum.splits) (metis snd_conv)+

lemma calm_inTx [obeying]: "obeys calm m \<Longrightarrow> obeys calm (inTx m)"
  unfolding inTx_def by (intro calm_rollingBack obeying)

lemma calm_authenticate: "obeys calm (authenticateLogin sv e pw em)"
proof -
  have reads: "obeys calm (GetUserByEmail x)" for x
    unfolding GetUserByEmail_def by (auto intro!: obeying split: option.split)
  have "obeys calm (CreateDirectoryUser p x nm)" for p x nm
    unfolding CreateDirectoryUser_def firstUserGlobalRoleName_def emailTaken_def insertUser_def bootstrapUserWorkspace_def Let_def
    by (intro obeying)
  then have "obeys calm (tryLDAP sv e pw)"
    unfolding tryLDAP_def directoryUser_def Let_def by (auto intro!: obeying reads split: sum.split option.split)
  then show ?thesis
    unfolding authenticateLogin_def userOrNone_def by (auto intro!: obeying reads split: sum.split option.split)
qed

text \<open>Operations that do not say \<open>ErrInvalidCredentials\<close>.\<close>

definition avoids :: "auth_error \<Rightarrow> 'a act \<Rightarrow> bool" where
  "avoids e m \<longleftrightarrow> (\<forall>w w'. m w \<noteq> (Inl e, w'))"

named_theorems avoiding

abbreviation silent :: "'a act \<Rightarrow> bool" where
  "silent \<equiv> avoids ErrInvalidCredentials"

lemma silent_basic [avoiding]:
  "silent (retA a)" "e \<noteq> ErrInvalidCredentials \<Longrightarrow> silent (failA e)" "silent (statement f)" "silent (drawToken p)"
  "silent (drawID p)" "silent (ignoreA m)" "silent (catchA m)" "silent (wrapA l m)" "silent (need l x)"
  by (auto simp: avoids_def retA_def failA_def statement_def outcomeA_def drawToken_def drawID_def ignoreA_def catchA_def
      wrapA_def need_def fromOption_def split: prod.splits sum.splits list.splits bool.splits option.splits)

lemma silent_bindA [avoiding]: "silent m \<Longrightarrow> (\<And>a. silent (k a)) \<Longrightarrow> silent (bindA m k)"
  by (auto simp: avoids_def bindA_def split: prod.splits sum.splits)

lemma silent_reads [avoiding]: "silent (GetAccountState i)" "silent (accessToken sv u)"
  unfolding GetAccountState_def accessToken_def by (auto intro!: avoiding split: option.split)

lemma silent_login:
  "silent (authenticateLogin sv e pw em)" "silent (validateLoginAccountState u)" "silent (clearLoginFailures sv em)"
  "silent (loginMFAGate sv u)" "silent (issueSession sv t u ua ip)" "silent (checkLoginLockout sv t em)"
proof -
  have "silent (userOrNone em)"
    by (auto simp: avoids_def userOrNone_def GetUserByEmail_def bindA_def catchA_def retA_def failA_def statement_def
        outcomeA_def split: list.splits bool.splits option.splits)
  then show "silent (authenticateLogin sv e pw em)"
    unfolding authenticateLogin_def by (auto intro!: avoiding split: sum.split option.split)
  show "silent (validateLoginAccountState u)"
    unfolding validateLoginAccountState_def by (auto intro!: avoiding)
  show "silent (clearLoginFailures sv em)"
    unfolding clearLoginFailures_def by (auto intro!: avoiding)
  show "silent (loginMFAGate sv u)"
    unfolding loginMFAGate_def activeWorkspaceRequiresMFA_def by (auto intro!: avoiding split: option.split)
  show "silent (issueSession sv t u ua ip)"
    unfolding issueSession_def isPasswordExpired_def Let_def by (auto intro!: avoiding split: prod.split sum.split bool.split)
  show "silent (checkLoginLockout sv t em)"
    unfolding checkLoginLockout_def checkLockout_def by (auto intro!: avoiding split: sum.split option.split)
qed

lemma bindA_InlE:
  assumes "bindA m k w = (Inl e, w'')"
  obtains "m w = (Inl e, w'')" | a w' where "m w = (Inr a, w')" "k a w' = (Inl e, w'')"
  using assms by (auto simp: bindA_def split: prod.splits sum.splits)

lemma avoidsD: "avoids e m \<Longrightarrow> m w = (Inl e, w') \<Longrightarrow> False"
  by (simp add: avoids_def)

text \<open>A counter that lasts at least until \<open>m\<close>.\<close>

definition countedTo :: "string \<Rightarrow> int \<Rightarrow> moment \<Rightarrow> World \<Rightarrow> bool" where
  "countedTo key k m w \<longleftrightarrow> (\<exists>c x. w_redis w key = Some (c, Some x) \<and> c \<ge> k \<and> x \<ge> m)"

lemma redis_up [simp]: "w_faults w = [] \<Longrightarrow> outcomeA e m w = m w"
  by (cases w) (simp add: outcomeA_def)

lemma checkLoginLockout_up:
  assumes "sv_redis sv" "w_faults w = []"
  shows "checkLoginLockout sv t em w =
    (case redisValue t w (loginKey em) of Some val \<Rightarrow> if val \<ge> 5 then (Inl ErrAccountLocked, w) else (Inr (), w) | None \<Rightarrow> (Inr (), w))"
  using assms
  by (auto simp: checkLoginLockout_def checkLockout_def bindA_def catchA_def redisGet_def retA_def failA_def split: option.split)

lemma calm_unlock: "obeys calm (sendUnlock sv t u)"
proof -
  have "obeys calm (sendMail sv)"
    unfolding sendMail_def by (auto simp: obeys_def calm_def outcomeA_def retA_def split: list.splits bool.splits)
  then show ?thesis
    unfolding sendUnlock_def CreateUnlockToken_def by (auto intro!: obeying split: sum.split)
qed

lemma recordLoginFailure_counts:
  assumes "sv_redis sv" "w_faults w = []" and k: "k = 0 \<or> countedTo (loginKey em) k m w" and c: "\<forall>c x. w_redis w (loginKey em) = Some (c, x) \<longrightarrow> c \<ge> 0"
    and t: "now t < m" "m \<le> now t + 15 * minute"
  shows "countedTo (loginKey em) (k + 1) m (snd (recordLoginFailure sv t em user w))"
    and "w_faults (snd (recordLoginFailure sv t em user w)) = []"
proof -
  let ?key = "loginKey em"
  obtain count w1 where incr: "redisIncr t ?key w = (Inr count, w1)" "w_faults w1 = []" and
    w1: "\<exists>x. w_redis w1 ?key = Some (count, x) \<and> (case x of None \<Rightarrow> True | Some y \<Rightarrow> now t < y)" and count: "count \<ge> k + 1"
  proof -
    have "count \<ge> k + 1 \<and> (\<exists>x. w_redis w1 ?key = Some (count, x) \<and> (case x of None \<Rightarrow> True | Some y \<Rightarrow> now t < y)) \<and> w_faults w1 = []"
      if "redisIncr t ?key w = (Inr count, w1)" for count w1
      using that assms(2) k c t
      by (auto simp: redisIncr_def countedTo_def live_def split: option.splits if_splits)
    moreover have "\<exists>count w1. redisIncr t ?key w = (Inr count, w1)"
      using assms(2) by (auto simp: redisIncr_def split: option.splits)
    ultimately show ?thesis using that by blast
  qed
  let ?w2 = "w1\<lparr>w_redis := (w_redis w1)(?key \<mapsto> (count, Some (now t + 15 * minute)))\<rparr>"
  have expire: "ignoreA (redisExpire t ?key (15 * minute)) w1 = (Inr (), ?w2)"
    using incr(2) w1 by (auto simp: ignoreA_def redisExpire_def live_def split: option.splits)
  have counted: "countedTo ?key (k + 1) m ?w2" "w_faults ?w2 = []"
    using count t incr(2) by (auto simp: countedTo_def)
  let ?last = "case user of Some u \<Rightarrow> if count = 5 \<and> sv_mailer sv then sendUnlock sv t u else retA () | None \<Rightarrow> retA ()"
  have run: "recordLoginFailure sv t em user w = ?last ?w2"
    using assms(1) incr expire by (simp add: recordLoginFailure_def bindA_def catchA_def)
  have "obeys calm ?last" by (auto intro!: obeying calm_unlock split: option.split)
  then have "calm ?w2 (snd (?last ?w2))" by (simp add: obeys_def)
  then show "countedTo ?key (k + 1) m (snd (recordLoginFailure sv t em user w))"
    "w_faults (snd (recordLoginFailure sv t em user w)) = []"
    using counted by (auto simp: run calm_def countedTo_def)
qed

lemma failed_login_counts:
  assumes run: "Login sv t e pw ua ip w = (Inl ErrInvalidCredentials, w')" and em: "em = normalizeLoginEmail sv e"
    and up: "sv_redis sv" "w_faults w = []" and k: "k = 0 \<or> countedTo (loginKey em) k m w"
    and c: "\<forall>c x. w_redis w (loginKey em) = Some (c, x) \<longrightarrow> c \<ge> 0" and t: "now t < m" "m \<le> now t + 15 * minute"
  shows "countedTo (loginKey em) (k + 1) m w' \<and> w_faults w' = []"
proof -
  let ?rest = "\<lambda>u. thenA (validateLoginAccountState u)
       (thenA (clearLoginFailures sv em)
       (bindA (loginMFAGate sv u) (\<lambda>mfaResp.
        case mfaResp of Some resp \<Rightarrow> retA resp | None \<Rightarrow> issueSession sv t u ua ip)))"
  have rest: "silent (?rest u)" for u
    by (auto intro!: avoiding silent_login split: option.split)
  have login: "Login sv t e pw ua ip = thenA (checkLoginLockout sv t em)
      (bindA (authenticateLogin sv e pw em) (\<lambda>(user, ok). bindA (rejectInvalidLogin sv t user ok em) ?rest))"
    by (simp add: Login_def em Let_def)
  obtain w1 where "checkLoginLockout sv t em w = (Inr (), w1)"
    and r1: "bindA (authenticateLogin sv e pw em) (\<lambda>(user, ok). bindA (rejectInvalidLogin sv t user ok em) ?rest) w1 = (Inl ErrInvalidCredentials, w')"
    using run unfolding login by (rule bindA_InlE) (use silent_login(6) in \<open>auto dest: avoidsD\<close>)
  then have w1: "w1 = w" using up by (auto simp: checkLoginLockout_up split: option.splits if_splits)
  obtain user ok w2 where auth: "authenticateLogin sv e pw em w = (Inr (user, ok), w2)"
    and r2: "bindA (rejectInvalidLogin sv t user ok em) ?rest w2 = (Inl ErrInvalidCredentials, w')"
    using r1 w1 silent_login(1) [of sv e pw em] by (auto simp: avoids_def elim: bindA_InlE)
  have "calm w w2" using obeysD [OF calm_authenticate auth] .
  then have w2: "w_faults w2 = []" "w_redis w2 = w_redis w" using up by (simp_all add: calm_def)
  have "rejectInvalidLogin sv t user ok em w2 = (Inl ErrInvalidCredentials, w')"
    using r2 by (rule bindA_InlE) (use rest in \<open>auto dest: avoidsD\<close>)
  then obtain v where "w' = snd (recordLoginFailure sv t em v w2)"
    unfolding rejectInvalidLogin_def
    by (auto simp: failA_def retA_def bindA_def split: option.splits if_splits prod.splits sum.splits) (metis snd_conv)+
  moreover have "k = 0 \<or> countedTo (loginKey em) k m w2" "\<forall>c x. w_redis w2 (loginKey em) = Some (c, x) \<longrightarrow> c \<ge> 0"
    using k c by (simp_all add: countedTo_def w2)
  ultimately show ?thesis using recordLoginFailure_counts [OF up(1) w2(1)] t by simp
qed

text \<open>Attempts that were all answered with \<open>ErrInvalidCredentials\<close>.\<close>

fun guesses :: "Service \<Rightarrow> string \<Rightarrow> (Clock \<times> string) list \<Rightarrow> World \<Rightarrow> World option" where
  "guesses sv e [] w = Some w"
| "guesses sv e ((t, pw) # as) w =
     (case Login sv t e pw None None w of
        (Inl ErrInvalidCredentials, w') \<Rightarrow> guesses sv e as w'
      | _ \<Rightarrow> None)"

lemma guesses_count:
  assumes "guesses sv e as w = Some w'" "sv_redis sv" "w_faults w = []"
    and "k = 0 \<or> countedTo (loginKey (normalizeLoginEmail sv e)) k m w" "k \<ge> 0"
    and "\<forall>c x. w_redis w (loginKey (normalizeLoginEmail sv e)) = Some (c, x) \<longrightarrow> c \<ge> 0"
    and "\<forall>(t, pw)\<in>set as. now t < m \<and> m \<le> now t + 15 * minute"
  shows "w_faults w' = [] \<and> (as = [] \<or> countedTo (loginKey (normalizeLoginEmail sv e)) (k + int (length as)) m w')"
  using assms
proof (induction as arbitrary: w k)
  case (Cons a as)
  obtain t pw where a: "a = (t, pw)" by fastforce
  obtain w1 where run: "Login sv t e pw None None w = (Inl ErrInvalidCredentials, w1)" and rest: "guesses sv e as w1 = Some w'"
    using Cons.prems(1) by (auto simp: a split: prod.splits sum.splits auth_error.splits)
  have 1: "countedTo (loginKey (normalizeLoginEmail sv e)) (k + 1) m w1" "w_faults w1 = []"
    using failed_login_counts [OF run refl Cons.prems(2,3,4,6)] Cons.prems(7) by (auto simp: a)
  then have "\<forall>c x. w_redis w1 (loginKey (normalizeLoginEmail sv e)) = Some (c, x) \<longrightarrow> c \<ge> 0"
    using Cons.prems(5) by (auto simp: countedTo_def)
  from Cons.IH [OF rest Cons.prems(2) 1(2) _ _ this] 1(1) Cons.prems(5,7)
  have "w_faults w' = [] \<and> (as = [] \<or> countedTo (loginKey (normalizeLoginEmail sv e)) (k + 1 + int (length as)) m w')"
    by auto
  then show ?case using 1 rest by (auto simp: algebra_simps)
qed simp

text \<open>C18. Five wrong passwords lock the login: after five attempts on an address that were answered with
  "invalid credentials" within a quarter of an hour, with Redis and the database up, every further attempt in
  that time is refused, whatever the password, and nothing is read or written but the counter.\<close>

theorem five_wrong_passwords_lock:
  assumes "guesses sv e as w = Some w'" and "length as \<ge> 5" and up: "sv_redis sv" "w_faults w = []"
    and "\<forall>c x. w_redis w (loginKey (normalizeLoginEmail sv e)) = Some (c, x) \<longrightarrow> c \<ge> 0"
    and window: "\<forall>(t, pw)\<in>set as. now t < m \<and> m \<le> now t + 15 * minute" and t: "now t < m"
  shows "Login sv t e pw ua ip w' = (Inl ErrAccountLocked, w')"
proof -
  let ?key = "loginKey (normalizeLoginEmail sv e)"
  have "w_faults w' = []" and counted: "countedTo ?key (int (length as)) m w'"
    using guesses_count [of sv e as w w' 0 m] assms by auto
  moreover obtain c x where "w_redis w' ?key = Some (c, Some x)" "c \<ge> 5" "now t < x"
    using counted assms(2) t by (auto simp: countedTo_def)
  ultimately have "checkLoginLockout sv t (normalizeLoginEmail sv e) w' = (Inl ErrAccountLocked, w')"
    using up by (simp add: checkLoginLockout_up redisValue_def live_def)
  then show ?thesis by (simp add: Login_def Let_def bindA_def)
qed

end
