(* ===== verification/Second_Factor.thy ===== *)
theory Second_Factor
  imports Account_Access
begin

text \<open>
  The second factor of \<open>src/internal/auth/mfa\<close>: what enrolling does to a protected account, which codes
  \<open>VerifyTOTP\<close> accepts (the RFC 6238 window of the source), and that a code of a time step is spent once.
\<close>

section \<open>Second factors\<close>

lemma mfaRow_upsert:
  assumes "Upsert c i mth secret hs w = (Inr x, w')"
  obtains sealed r where "mf_encrypt c secret = Some sealed" "mfaRow i (w_db w') = Some r" "en_Secret r = sealed" "\<not> en_Enabled r"
proof -
  obtain sealed where sealed: "mf_encrypt c secret = Some sealed"
    and w': "w_db w' = (if mfaRow i (w_db w) = None then (w_db w)\<lparr>t_mfa := t_mfa (w_db w) @ [pendingRow i mth sealed hs]\<rparr>
       else updateMfa i (\<lambda>r. r\<lparr>en_Method := mth, en_Secret := sealed, en_RecoveryCodes := hs,
              en_BypassCodes := [], en_Enabled := False, en_VerifiedAt := None\<rparr>) (w_db w))"
    using assms unfolding Upsert_def by (auto elim!: bindA_InrE statement_InrE)
  have append: "find (\<lambda>r. en_UserID r = i) (rows @ [r]) = (case find (\<lambda>r. en_UserID r = i) rows of Some x \<Rightarrow> Some x
      | None \<Rightarrow> if en_UserID r = i then Some r else None)" for rows r
    by (induction rows) auto
  show ?thesis
  proof (cases "mfaRow i (w_db w)")
    case None
    then have "mfaRow i (w_db w') = Some (pendingRow i mth sealed hs)"
      by (simp add: w' mfaRow_def append pendingRow_def)
    then show ?thesis using that sealed by (simp add: pendingRow_def)
  next
    case (Some r)
    then have "en_UserID r = i" by (auto simp: mfaRow_def find_Some_iff)
    moreover have "mfaRow i (w_db w') = map_option (\<lambda>r. if en_UserID r = i then
        r\<lparr>en_Method := mth, en_Secret := sealed, en_RecoveryCodes := hs, en_BypassCodes := [], en_Enabled := False, en_VerifiedAt := None\<rparr>
        else r) (Some r)"
      using Some by (simp add: w' mfaRow_def updateMfa_def find_updateWhere)
    ultimately show ?thesis using that sealed by simp
  qed
qed

text \<open>C26. Enrolling needs no code and switches an active second factor off: after \<open>Enroll\<close> the next login of the
  user is not asked for a code (where the workspace does not require one), although switching it off through
  \<open>handleMFADisable\<close> demands one.\<close>

theorem Enroll_switches_second_factor_off:
  assumes enrol: "Enroll p c i w = (Inr result, w1)" and up: "w_faults w1 = []"
    and crypt: "\<forall>s sealed. mf_encrypt c s = Some sealed \<longrightarrow> mf_decrypt c sealed = Some s"
    and sv: "sv_mfa sv = Some c" "sv_mfaRequired sv = None" "u_ID u = i"
  shows "loginMFAGate sv u w1 = (Inr None, w1)"
proof -
  obtain secret hs v where "Upsert c i ''totp'' secret hs v = (Inr (), w1)"
    using enrol unfolding Enroll_def by (auto elim!: bindA_InrE)
  then obtain sealed r where r: "mf_encrypt c secret = Some sealed" "mfaRow i (w_db w1) = Some r" "en_Secret r = sealed" "\<not> en_Enabled r"
    by (rule mfaRow_upsert)
  then have "mf_decrypt c (en_Secret r) = Some secret" using crypt by simp
  then have "MFA.IsEnabled c i w1 = (Inr False, w1)"
    using r up by (simp add: MFA.IsEnabled_def mfaGet_def bindA_def catchA_def retA_def fromOption_def)
  then show ?thesis
    using sv by (simp add: loginMFAGate_def activeWorkspaceRequiresMFA_def bindA_def retA_def wrapA_def)
qed

lemma length_nat_digits: "n < 10 ^ Suc k \<Longrightarrow> length (nat_digits n) \<le> Suc k"
proof (induction k arbitrary: n)
  case (Suc k)
  then show ?case by (cases "n < 10") (simp_all add: nat_digits.simps [of n])
qed (simp add: nat_digits.simps)

lemma padded_digits:
  assumes "n < 10 ^ Suc k"
  shows "length (padded (Suc k) n) = Suc k" "list_all is_digit (padded (Suc k) n)"
proof -
  have zero: "is_digit CHR ''0''" by (simp add: is_digit_def)
  show "length (padded (Suc k) n) = Suc k" using length_nat_digits [OF assms] by (simp add: padded_def)
  show "list_all is_digit (padded (Suc k) n)"
    using nat_digits_is_digit zero by (auto simp: padded_def list_all_iff)
qed

lemma codeModulus_value: "codeModulus = 1000000"
  by (simp add: codeModulus_def totpDigits_def upt_rec)

lemma generateTOTPCode_digits:
  assumes "generateTOTPCode mac secret c = Some code"
  shows "length code = 6" "list_all is_digit code"
proof -
  obtain s where "code = padded 6 (unat (truncateMac s mod codeModulus))"
    using assms by (auto simp: generateTOTPCode_def totpDigits_def split: option.splits)
  moreover have "unat (truncateMac s mod codeModulus) < 10 ^ Suc 5"
  proof -
    have "unat (truncateMac s mod codeModulus) = unat (truncateMac s) mod 1000000"
      by (simp add: codeModulus_value unat_mod_distrib)
    then show ?thesis by simp
  qed
  ultimately show "length code = 6" "list_all is_digit code"
    using padded_digits [of _ 5] by simp_all
qed

text \<open>The windows of one period around a time that is far from the end of 64 bits.\<close>

definition stepAt :: "int \<Rightarrow> int \<Rightarrow> 64 word" where
  "stepAt unix k = word_of_int (unix div 30 + k)"

lemma totpCounter_value:
  assumes "0 \<le> unix" "unix < 2 ^ 63"
  shows "totpCounter unix = Some (word_of_int (unix div 30))"
proof -
  have "(word_of_int unix :: 64 word) div 30 = word_of_int (unix div 30)"
  proof (rule word_eq_iff_unsigned [THEN iffD2])
    have small: "unix div 30 < 2 ^ 64" "unix < 2 ^ 64" "0 \<le> unix div 30" using assms by simp_all
    show "uint ((word_of_int unix :: 64 word) div 30) = uint (word_of_int (unix div 30) :: 64 word)"
      using assms small by (simp add: uint_div_distrib uint_word_of_int)
  qed
  then show ?thesis using assms by (simp add: totpCounter_def totpPeriod_def)
qed

lemma totpCounterWithSkew_value:
  assumes "0 \<le> c" "c < 2 ^ 62" "k \<in> {-1, 0, 1}"
  shows "totpCounterWithSkew (word_of_int c) k = (if c + k < 0 then None else Some (word_of_int (c + k)))"
proof -
  have c: "uint (word_of_int c :: 64 word) = c" using assms by (simp add: uint_word_of_int)
  have "(word_of_int c :: 64 word) < 1 \<longleftrightarrow> c < 1"
    by (simp add: word_less_def c)
  then show ?thesis
    using assms(1,3) by (auto simp: totpCounterWithSkew_def Let_def)
qed

lemma trySkews_Some:
  "trySkews mac secret code c ks = Some s \<Longrightarrow>
   \<exists>k\<in>set ks. totpCounterWithSkew c k = Some s \<and> generateTOTPCode mac secret s = Some code"
  by (induction ks) (auto split: option.splits if_splits)

lemma trySkews_complete:
  assumes "\<And>s. generateTOTPCode mac secret s = Some (g s)" "k \<in> set ks" "totpCounterWithSkew c k = Some s"
    "generateTOTPCode mac secret s = Some code"
  shows "trySkews mac secret code c ks \<noteq> None"
  using assms by (induction ks) (auto split: option.splits)

lemma skews_value: "skews = [-1, 0, 1]"
  by (simp add: skews_def totpSkewSteps_def upt_rec)

text \<open>C20. A code is accepted exactly if it is the six-digit code of the current period of thirty seconds or of one
  of its two neighbours (for a secret that decodes, at any time between 1970 and the end of 63 bits).\<close>

theorem VerifyTOTP_accepts_iff:
  assumes unix: "0 \<le> unix" "unix < 2 ^ 63" and secret: "\<And>c. mac secret c \<noteq> None"
  shows "VerifyTOTP mac secret code unix \<longleftrightarrow>
    (\<exists>k\<in>{-1, 0, 1}. 0 \<le> unix div 30 + k \<and> generateTOTPCode mac secret (stepAt unix k) = Some (TrimSpace code))"
proof -
  let ?c = "unix div 30"
  have c: "0 \<le> ?c" "?c < 2 ^ 62" using unix by simp_all
  have total: "generateTOTPCode mac secret s = Some (the (generateTOTPCode mac secret s))" for s
    using secret [of s] by (auto simp: generateTOTPCode_def split: option.splits)
  have counter: "totpCounter unix = Some (word_of_int ?c)" using unix by (rule totpCounter_value)
  have try_: "trySkews mac secret (TrimSpace code) (word_of_int ?c) [-1, 0, 1] \<noteq> None \<longleftrightarrow>
      (\<exists>k\<in>{-1, 0, 1}. 0 \<le> ?c + k \<and> generateTOTPCode mac secret (stepAt unix k) = Some (TrimSpace code))"
  proof
    assume "trySkews mac secret (TrimSpace code) (word_of_int ?c) [-1, 0, 1] \<noteq> None"
    then obtain s where "trySkews mac secret (TrimSpace code) (word_of_int ?c) [-1, 0, 1] = Some s" by blast
    from trySkews_Some [OF this] obtain k where "k \<in> {-1, 0, 1}" "totpCounterWithSkew (word_of_int ?c) k = Some s"
      "generateTOTPCode mac secret s = Some (TrimSpace code)" by auto
    then show "\<exists>k\<in>{-1, 0, 1}. 0 \<le> ?c + k \<and> generateTOTPCode mac secret (stepAt unix k) = Some (TrimSpace code)"
      using totpCounterWithSkew_value [OF c] by (intro bexI [of _ k]) (auto simp: stepAt_def split: if_splits)
  next
    assume "\<exists>k\<in>{-1, 0, 1}. 0 \<le> ?c + k \<and> generateTOTPCode mac secret (stepAt unix k) = Some (TrimSpace code)"
    then obtain k where "k \<in> {-1, 0, 1}" "0 \<le> ?c + k" "generateTOTPCode mac secret (stepAt unix k) = Some (TrimSpace code)"
      by blast
    then show "trySkews mac secret (TrimSpace code) (word_of_int ?c) [-1, 0, 1] \<noteq> None"
      using totpCounterWithSkew_value [OF c] by (intro trySkews_complete [OF total]) (auto simp: stepAt_def)
  qed
  show ?thesis
  proof (cases "length (TrimSpace code) = 6")
    case True
    then show ?thesis using try_ by (simp add: VerifyTOTP_def VerifyTOTPStep_def Let_def totpDigits_def counter skews_value)
  next
    case False
    then have "generateTOTPCode mac secret s \<noteq> Some (TrimSpace code)" for s
      using generateTOTPCode_digits(1) by blast
    then show ?thesis using False by (simp add: VerifyTOTP_def VerifyTOTPStep_def Let_def totpDigits_def)
  qed
qed

text \<open>The step a row remembers.\<close>

definition stepsAtLeast :: "string \<Rightarrow> int \<Rightarrow> AuthDB \<Rightarrow> bool" where
  "stepsAtLeast i n db \<longleftrightarrow> (\<forall>r\<in>set (t_mfa db). en_UserID r = i \<longrightarrow> n \<le> en_LastTOTPStep r)"

lemma ball_updateWhere: "(\<forall>x\<in>set (updateWhere P f rows). Q x) \<longleftrightarrow> (\<forall>r\<in>set rows. if P r then Q (f r) else Q r)"
  by (auto simp: updateWhere_def)

lemma ConsumeTOTPStep_records:
  assumes "ConsumeTOTPStep t i step w = (Inr b, w')"
  shows "stepsAtLeast i (uint step) (w_db w')"
  using assms unfolding ConsumeTOTPStep_def consumeWhere_def Let_def
  by (elim statement_InrE) (auto simp: stepsAtLeast_def ball_updateWhere not_less)

lemma ConsumeTOTPStep_refuses:
  assumes "stepsAtLeast i n (w_db w)" "uint step \<le> n" "w_faults w = []"
  shows "ConsumeTOTPStep t i step w = (Inr False, w)"
proof -
  have "updateWhere (\<lambda>r. en_UserID r = i \<and> en_LastTOTPStep r < uint step) f (t_mfa (w_db w)) = t_mfa (w_db w)" for f
    using assms(1,2) by (auto simp: updateWhere_def stepsAtLeast_def intro!: map_idI)
  moreover have "\<not> (\<exists>r\<in>set (t_mfa (w_db w)). en_UserID r = i \<and> en_LastTOTPStep r < uint step)"
    using assms(1,2) by (auto simp: stepsAtLeast_def)
  ultimately show ?thesis
    using assms(3) by (simp add: ConsumeTOTPStep_def consumeWhere_def Let_def)
qed

text \<open>Logins with codes, activations and new recovery codes of any user.\<close>

definition stepsKept :: "string \<Rightarrow> nat \<Rightarrow> AuthDB \<Rightarrow> AuthDB \<Rightarrow> bool" where
  "stepsKept i k db db' \<longleftrightarrow> (\<forall>n. stepsAtLeast i n db \<longrightarrow> stepsAtLeast i n db')"

interpretation stepping: table_relation "stepsKept i" for i
  by unfold_locales (simp_all add: stepsKept_def)

lemma stepsKept_update:
  assumes "\<And>r. en_UserID (f r) = en_UserID r" "\<And>r. Q r \<Longrightarrow> en_LastTOTPStep r \<le> en_LastTOTPStep (f r)"
  shows "stepsKept i k db (db\<lparr>t_mfa := updateWhere (\<lambda>r. en_UserID r = j \<and> Q r) f (t_mfa db)\<rparr>)"
  using assms by (auto simp: stepsKept_def stepsAtLeast_def ball_updateWhere intro: order_trans)

lemma stepsKept_updateMfa:
  assumes "\<And>r. en_UserID (f r) = en_UserID r" "\<And>r. en_LastTOTPStep (f r) = en_LastTOTPStep r"
  shows "obeys (overTables (stepsKept i)) (exec (updateMfa j f))"
  using stepsKept_update [of f "\<lambda>_. True" i _ _ j] assms
  by (intro stepping.obeys_statement) (simp add: updateMfa_def)

lemma stepsKept_consume:
  assumes "\<And>r. en_UserID (f r) = en_UserID r" "\<And>r. Q r \<Longrightarrow> en_LastTOTPStep r \<le> en_LastTOTPStep (f r)"
  shows "obeys (overTables (stepsKept i)) (consumeWhere j Q f)"
  unfolding consumeWhere_def Let_def using stepsKept_update [OF assms] by (intro stepping.obeys_statement) simp

lemma stepsKept_service:
  "obeys (overTables (stepsKept i)) (VerifyCode p c t j code)" "obeys (overTables (stepsKept i)) (mfaVerify c t j code)"
  "obeys (overTables (stepsKept i)) (RegenerateRecoveryCodes p c j)" "obeys (overTables (stepsKept i)) (GenerateBypassCode p c j)"
proof -
  have leaves: "obeys (overTables (stepsKept i)) (ConsumeTOTPStep t j step)" "obeys (overTables (stepsKept i)) (ConsumeRecoveryCode j h)"
    "obeys (overTables (stepsKept i)) (ConsumeBypassCode j h)" "obeys (overTables (stepsKept i)) (MarkUsed t j)"
    "obeys (overTables (stepsKept i)) (Enable t j)" "obeys (overTables (stepsKept i)) (ReplaceRecoveryCodes j hs)"
    "obeys (overTables (stepsKept i)) (AddBypassCode j h)" for j step h hs
    unfolding ConsumeTOTPStep_def ConsumeRecoveryCode_def ConsumeBypassCode_def MarkUsed_def Enable_def ReplaceRecoveryCodes_def
      AddBypassCode_def
    by (rule stepsKept_consume stepsKept_updateMfa; simp)+
  have get: "obeys (overTables (stepsKept i)) (mfaGet c j)" for c j
    unfolding mfaGet_def by (auto intro!: obeying split: option.split)
  have codes: "obeys (overTables (stepsKept i)) (generateRecoveryCodes p n)" for n
    by (induction n) (auto intro!: obeying split: prod.split)
  show "obeys (overTables (stepsKept i)) (VerifyCode p c t j code)" "obeys (overTables (stepsKept i)) (mfaVerify c t j code)"
    "obeys (overTables (stepsKept i)) (RegenerateRecoveryCodes p c j)" "obeys (overTables (stepsKept i)) (GenerateBypassCode p c j)"
    unfolding VerifyCode_def mfaVerify_def RegenerateRecoveryCodes_def GenerateBypassCode_def
    by (auto intro!: obeying leaves get codes split: option.split prod.split)
qed

fun keepsEnrolment :: "call \<Rightarrow> bool" where
  "keepsEnrolment (CallVerifyCode _ _ _) = True"
| "keepsEnrolment (CallVerifyMFA _ _ _) = True"
| "keepsEnrolment (CallBypassCode _ _) = True"
| "keepsEnrolment (CallRegenerateCodes _ _) = True"
| "keepsEnrolment _ = False"

lemma stepsAtLeast_serve:
  assumes "list_all (\<lambda>(t, c). keepsEnrolment c) cs" "stepsAtLeast i n (w_db w)"
  shows "stepsAtLeast i n (w_db (serve sv cs w))"
  using assms
proof (induction cs arbitrary: w)
  case (Cons x cs)
  obtain t c where x: "x = (t, c)" by fastforce
  have "overTables (stepsKept i) w (perform sv t c w)"
    using Cons.prems(1) by (cases c) (auto simp: x stepsKept_service [unfolded obeys_def, rule_format])
  then have "stepsAtLeast i n (w_db (perform sv t c w))"
    using Cons.prems(2) by (simp add: overTables_def stepsKept_def)
  then show ?case using Cons by (simp add: x)
qed simp

text \<open>C19. A one-time code is good for one use: once \<open>VerifyCode\<close> has accepted the code of a step, no code of that
  step or an earlier one is accepted again, whatever codes are tried and issued in between.\<close>

theorem totp_step_used_once:
  assumes first: "VerifyCode p c t i code w = (Inr (), w1)"
    and row: "mfaRow i (w_db w) = Some r" "mf_decrypt c (en_Secret r) = Some secret"
      "VerifyTOTPStep (mf_mac c) secret code (unixTime (now t)) = Some step"
    and between: "list_all (\<lambda>(t, c). keepsEnrolment c) cs" and w2: "w2 = serve sv cs w1" "w_faults w2 = []"
    and row2: "mfaRow i (w_db w2) = Some r2" "en_Enabled r2" "mf_decrypt c (en_Secret r2) = Some secret"
      "VerifyTOTPStep (mf_mac c) secret code2 (unixTime (now t2)) = Some step2" "step2 \<le> step"
  shows "VerifyCode p c t2 i code2 w2 = (Inl ErrTOTPCodeAlreadyUsed, w2)"
proof -
  obtain enrol w' where "mfaGet c i w = (Inr enrol, w')"
    and rest: "(if \<not> en_Enabled enrol then failA ErrMFANotEnabled
     else (case VerifyTOTPStep (mf_mac c) (en_Secret enrol) code (unixTime (now t)) of
         Some step \<Rightarrow>
           bindA (ConsumeTOTPStep t i step) (\<lambda>consumed. unlessA consumed ErrTOTPCodeAlreadyUsed (retA ()))
       | None \<Rightarrow>
           bindA (tryCodes (VerifyPassword p (normalizeRecoveryCode code)) (ConsumeRecoveryCode i)
                    (en_RecoveryCodes enrol)) (\<lambda>recovered.
           if recovered then MarkUsed t i
           else
             bindA (tryCodes (VerifyPassword p (ToUpper (TrimSpace code))) (ConsumeBypassCode i)
                      (en_BypassCodes enrol)) (\<lambda>bypassed.
             if bypassed then MarkUsed t i else failA ErrMFACodeInvalid)))) w' = (Inr (), w1)"
    using first unfolding VerifyCode_def by (rule bindA_InrE)
  moreover from this(1) have "en_Secret enrol = secret"
    using row unfolding mfaGet_def by (auto elim!: bindA_InrE statement_InrE split: option.splits)
  ultimately have "\<exists>b. ConsumeTOTPStep t i step w' = (Inr b, w1)"
    using row by (auto elim!: bindA_InrE split: if_splits)
  then have "stepsAtLeast i (uint step) (w_db w2)"
    using ConsumeTOTPStep_records stepsAtLeast_serve [OF between] w2(1) by blast
  moreover have "uint step2 \<le> uint step" using row2(5) by (simp add: word_le_def)
  ultimately have "ConsumeTOTPStep t2 i step2 w2 = (Inr False, w2)"
    using ConsumeTOTPStep_refuses w2(2) by blast
  moreover have "mfaGet c i w2 = (Inr (r2\<lparr>en_Secret := secret\<rparr>), w2)"
    using row2 w2(2) by (simp add: mfaGet_def bindA_def fromOption_def retA_def)
  ultimately show ?thesis
    using row2 by (simp add: VerifyCode_def bindA_def failA_def)
qed

end
