(* ===== verification/Account_Links.thy ===== *)
theory Account_Links
  imports Second_Factor
begin

text \<open>
  Magic links and changes of address over any history of calls: a link signs in once, and a change of
  address is completed only after both addresses have answered and the waiting period has passed.
\<close>

section \<open>Magic links\<close>

lemma find_SomeD: "find P xs = Some x \<Longrightarrow> x \<in> set xs \<and> P x"
  by (induction xs) (auto split: if_splits)

text \<open>The link of this hash was issued and has been used.\<close>

definition spentLink :: "string \<Rightarrow> AuthDB \<Rightarrow> bool" where
  "spentLink h db \<longleftrightarrow> (\<exists>r\<in>set (t_magicLinks db). ml_TokenHash r = h) \<and>
     (\<forall>r\<in>set (t_magicLinks db). ml_TokenHash r = h \<longrightarrow> ml_ConsumedAt r \<noteq> None)"

lemma spentLink_marked:
  "spentLink h (db\<lparr>t_magicLinks := updateWhere M (\<lambda>r. r\<lparr>ml_ConsumedAt := Some m\<rparr>) (t_magicLinks db)\<rparr>) \<longleftrightarrow>
     (\<exists>r\<in>set (t_magicLinks db). ml_TokenHash r = h) \<and>
     (\<forall>r\<in>set (t_magicLinks db). ml_TokenHash r = h \<longrightarrow> M r \<or> ml_ConsumedAt r \<noteq> None)"
proof -
  have "(\<exists>r\<in>set (updateWhere M (\<lambda>r. r\<lparr>ml_ConsumedAt := Some m\<rparr>) rows). ml_TokenHash r = h) \<longleftrightarrow>
      (\<exists>r\<in>set rows. ml_TokenHash r = h)" for rows
    by (induction rows) (auto simp: updateWhere_def)
  then show ?thesis by (simp add: spentLink_def ball_updateWhere) (metis option.distinct(1))
qed

definition linksStaySpent :: "nat \<Rightarrow> AuthDB \<Rightarrow> AuthDB \<Rightarrow> bool" where
  "linksStaySpent n db db' \<longleftrightarrow> (\<forall>h. spentLink h db \<longrightarrow> spentLink h db')"

lemma linksStaySpent_issue: "obeys (overTables linksStaySpent) (Issue p plain email u addr e)"
proof -
  have "linksStaySpent n db (db\<lparr>t_magicLinks := t_magicLinks db @ [r]\<rparr>)"
    if "\<forall>x\<in>set (t_magicLinks db). ml_TokenHash x \<noteq> ml_TokenHash r" for n db r
    using that by (auto simp: linksStaySpent_def spentLink_def)
  then show ?thesis
    by (auto simp: obeys_def Issue_def failA_def statement_def outcomeA_def overTables_def linksStaySpent_def
        split: list.splits bool.splits)
qed

interpretation spending: link_relation linksStaySpent p for p
proof
  show "linksStaySpent n db db" for n db by (simp add: linksStaySpent_def)
  show "linksStaySpent n a c" if "linksStaySpent n a b" "linksStaySpent m b c" for n m a b c
    using that by (simp add: linksStaySpent_def)
  show "linksStaySpent n db db'" if "t_magicLinks db' = t_magicLinks db" for n db db'
    using that by (simp add: linksStaySpent_def spentLink_def)
  show "linksStaySpent n db (db\<lparr>t_magicLinks := updateWhere M (\<lambda>r. r\<lparr>ml_ConsumedAt := Some m\<rparr>) (t_magicLinks db)\<rparr>)" for n db M m
    by (simp add: linksStaySpent_def spentLink_marked) (simp add: spentLink_def)
qed (rule linksStaySpent_issue)

lemma Consume_spends:
  assumes "Consume p t plain w = (Inr u, w')"
  shows "spentLink (HashToken p plain) (w_db w')"
proof -
  let ?mine = "\<lambda>r. ml_TokenHash r = HashToken p plain"
  have "\<exists>r. find ?mine (t_magicLinks (w_db w)) = Some r \<and> t_magicLinks (w_db w') =
      updateWhere ?mine (\<lambda>r. r\<lparr>ml_ConsumedAt := Some (dbNow t)\<rparr>) (t_magicLinks (w_db w))"
    using assms unfolding Consume_def
    by (auto elim!: inTx_InrE bindA_InrE statement_InrE split: option.splits if_splits)
  then show ?thesis
    using spentLink_marked [where h = "HashToken p plain" and db = "w_db w" and M = ?mine] by (auto simp: spentLink_def dest!: find_SomeD)
qed

lemma spentLink_refused:
  assumes "spentLink (HashToken (sv_prims sv) plain) (w_db w)"
  shows "\<exists>e. fst (ConsumeMagicLink sv t plain ua ip w) = Inl e"
proof (rule isl_fst, rule notI)
  fix resp w' assume "ConsumeMagicLink sv t plain ua ip w = (Inr resp, w')"
  then obtain u w1 where "Consume (sv_prims sv) t plain w = (Inr u, w1)"
    unfolding ConsumeMagicLink_def by (auto elim!: bindA_InrE split: if_splits)
  then obtain r where "find (\<lambda>r. ml_TokenHash r = HashToken (sv_prims sv) plain) (t_magicLinks (w_db w)) = Some r"
    "ml_ConsumedAt r = None"
    unfolding Consume_def
    by (auto elim!: inTx_InrE bindA_InrE statement_InrE split: option.splits if_splits)
  then show False
    using assms by (auto simp: spentLink_def dest!: find_SomeD)
qed

text \<open>C21. A magic link signs in at most once: after it was consumed, consuming it is an error for ever,
  whatever the service serves in between and whichever calls fail.\<close>

theorem magic_link_used_once:
  assumes "ConsumeMagicLink sv t0 plain ua0 ip0 w = (Inr resp, w0)"
  shows "\<exists>e. fst (ConsumeMagicLink sv t plain ua ip (serve sv cs w0)) = Inl e"
proof (rule spentLink_refused)
  obtain u w1 where consumed: "Consume (sv_prims sv) t0 plain w = (Inr u, w1)"
    and rest: "bindA (GetUserByID u) (\<lambda>u. if \<not> u_IsActive u then failA ErrInactiveUser
        else thenA (validateLoginAccountState u) (issueSession sv t0 u ua0 ip0)) w1 = (Inr resp, w0)"
    using assms unfolding ConsumeMagicLink_def by (auto elim: bindA_InrE split: if_splits)
  have "obeys (overTables linksStaySpent) (bindA (GetUserByID u) (\<lambda>u. if \<not> u_IsActive u then failA ErrInactiveUser
        else thenA (validateLoginAccountState u) (issueSession sv t0 u ua0 ip0)))"
    by (intro obeying) auto
  then have "overTables linksStaySpent w1 w0" using rest by (rule obeysD)
  moreover have "overTables linksStaySpent w0 (serve sv cs w0)"
    by (rule spending.serve_obeys) auto
  ultimately show "spentLink (HashToken (sv_prims sv) plain) (w_db (serve sv cs w0))"
    using Consume_spends [OF consumed] by (simp add: overTables_def linksStaySpent_def)
qed

section \<open>Changes of address\<close>

text \<open>What a request may have on record when only the tokens of \<open>S\<close> have been presented.\<close>

definition honestRequest :: "string set \<Rightarrow> EmailChangeRequest \<Rightarrow> bool" where
  "honestRequest S r \<longleftrightarrow>
     (ec_OldEmailConfirmedAt r \<noteq> None \<longrightarrow> ec_OldEmailToken r \<in> S) \<and>
     (ec_NewEmailConfirmedAt r \<noteq> None \<longrightarrow> ec_NewEmailToken r \<in> S) \<and>
     (case ec_CompletedAt r of None \<Rightarrow> True
      | Some m \<Rightarrow> ec_OldEmailConfirmedAt r \<noteq> None \<and> ec_NewEmailConfirmedAt r \<noteq> None \<and> ec_NotBefore r \<le> m)"

definition honestRequests :: "string set \<Rightarrow> AuthDB \<Rightarrow> bool" where
  "honestRequests S db \<longleftrightarrow> distinct (map ec_ID (t_emailChanges db)) \<and> (\<forall>r\<in>set (t_emailChanges db). honestRequest S r)"

definition staysHonest :: "string set \<Rightarrow> nat \<Rightarrow> AuthDB \<Rightarrow> AuthDB \<Rightarrow> bool" where
  "staysHonest S n db db' \<longleftrightarrow> (honestRequests S db \<longrightarrow> honestRequests S db')"

interpretation honesty: table_relation "staysHonest S" for S
  by unfold_locales (simp_all add: staysHonest_def)

lemma map_updateWhere: "(\<And>r. k (f r) = k r) \<Longrightarrow> map k (updateWhere P f rows) = map k rows"
  by (simp add: updateWhere_def)

lemma distinct_deleteWhere: "distinct (map k rows) \<Longrightarrow> distinct (map k (deleteWhere P rows))"
  by (simp add: deleteWhere_def distinct_map_filter)

lemma honest_deleteWhere: "honestRequests S db \<Longrightarrow> honestRequests S (db\<lparr>t_emailChanges := deleteWhere E (t_emailChanges db)\<rparr>)"
  by (simp add: honestRequests_def distinct_deleteWhere)

text \<open>Replacing the row of an identifier.\<close>

lemma honest_update:
  assumes "honestRequests S db" "\<And>r. ec_ID (f r) = ec_ID r" "r \<in> set (t_emailChanges db)" "honestRequest S (f r)"
  shows "honestRequests S (db\<lparr>t_emailChanges := updateWhere (\<lambda>x. ec_ID x = ec_ID r) f (t_emailChanges db)\<rparr>)"
proof -
  have only: "x = r" if "x \<in> set (t_emailChanges db)" "ec_ID x = ec_ID r" for x
    using same_row [of ec_ID] that assms(1,3) unfolding honestRequests_def by blast
  show ?thesis
    using assms(1,4) only by (simp add: honestRequests_def map_updateWhere [where k = ec_ID and f = f, OF assms(2)] ball_updateWhere)
      blast
qed

lemma honest_create: "obeys (overTables (staysHonest S)) (CreateEmailChangeRequest p t u old new tok tok' b e)"
proof -
  have insert: "overTables (staysHonest S) w (snd (insertRequest r w))" if "honestRequest S r" for r w
    using that by (auto simp: insertRequest_def failA_def statement_def outcomeA_def overTables_def staysHonest_def
        honestRequests_def split: list.splits bool.splits)
  show ?thesis
    unfolding CreateEmailChangeRequest_def Let_def
    by (intro obeying honesty.obeys_statement)
      (auto simp: staysHonest_def honest_deleteWhere obeys_def honestRequest_def intro!: insert)
qed

lemma honest_confirm:
  assumes tok: "tok \<in> S"
  shows "obeys (overTables (staysHonest S)) (ConfirmEmailChangeToken tok m)"
proof -
  let ?body = "bindA (loadEmailChangeRequestForToken tok) (\<lambda>req.
      case validateEmailChangeRequest req m of
        Some e \<Rightarrow> failA e
      | None \<Rightarrow>
          bindA (recordEmailChangeTokenConfirmation tok req m) (\<lambda>req'.
          finalizeEmailChangeIfReady req' m))"
  have succeeded: "staysHonest S n (w_db w) (w_db w')" if run: "?body w = (Inr r, w')" for n w r w'
  proof -
    obtain req w1 req' w2 where load: "loadEmailChangeRequestForToken tok w = (Inr req, w1)"
      and rec: "recordEmailChangeTokenConfirmation tok req m w1 = (Inr req', w2)"
      and fin: "finalizeEmailChangeIfReady req' m w2 = (Inr r, w')" and fresh: "ec_CompletedAt req = None"
      using run by (auto elim!: bindA_InrE simp: validateEmailChangeRequest_def split: option.splits if_splits)
    have req: "req \<in> set (t_emailChanges (w_db w))" "w_db w1 = w_db w" "w_tokens w1 = w_tokens w"
      using load unfolding loadEmailChangeRequestForToken_def
      by (auto elim!: bindA_InrE statement_InrE split: option.splits dest!: find_SomeD)
    have id: "ec_ID (confirmOld m x) = ec_ID x" "ec_ID (confirmNew m x) = ec_ID x" for x
      by (simp_all add: confirmOld_def confirmNew_def)
    have rec': "\<exists>f. (f = confirmOld m \<and> tok = ec_OldEmailToken req \<or> f = confirmNew m \<and> tok = ec_NewEmailToken req) \<and> req' = f req \<and>
        w_db w2 = (w_db w)\<lparr>t_emailChanges := updateWhere (\<lambda>x. ec_ID x = ec_ID req) f (t_emailChanges (w_db w))\<rparr> \<and>
        w_tokens w2 = w_tokens w"
      using rec unfolding recordEmailChangeTokenConfirmation_def updateRequest_def
      by (auto elim!: bindA_InrE statement_InrE simp: req split: if_splits)
    then obtain f where f: "f = confirmOld m \<and> tok = ec_OldEmailToken req \<or> f = confirmNew m \<and> tok = ec_NewEmailToken req" "req' = f req"
      "w_db w2 = (w_db w)\<lparr>t_emailChanges := updateWhere (\<lambda>x. ec_ID x = ec_ID req) f (t_emailChanges (w_db w))\<rparr>" "w_tokens w2 = w_tokens w"
      by blast
    have first: "honestRequests S (w_db w2) \<and> req' \<in> set (t_emailChanges (w_db w2)) \<and> ec_CompletedAt req' = None"
      if honest: "honestRequests S (w_db w)"
    proof -
      have "honestRequest S req" using honest req(1) by (simp add: honestRequests_def)
      then have "honestRequest S (f req)" "ec_CompletedAt (f req) = None"
        using tok f(1) fresh by (auto simp: honestRequest_def confirmOld_def confirmNew_def)
      then show ?thesis
        using honest_update [OF honest _ req(1), of f] id f req(1) by (auto simp: in_updateWhere)
    qed
    have second: "w_db w' = w_db w2 \<and> w_tokens w' = w_tokens w2 \<or>
       (ec_OldEmailConfirmedAt req' \<noteq> None \<and> ec_NewEmailConfirmedAt req' \<noteq> None \<and> ec_NotBefore req' \<le> m \<and> w_tokens w' = w_tokens w2 \<and>
        t_emailChanges (w_db w') = updateWhere (\<lambda>x. ec_ID x = ec_ID req') (\<lambda>x. x\<lparr>ec_CompletedAt := Some m\<rparr>) (t_emailChanges (w_db w2)))"
      using fin unfolding finalizeEmailChangeIfReady_def setUserRow_def updateUsers_def updateRequest_def
      by (auto elim!: bindA_InrE statement_InrE split: if_splits)
    have "honestRequests S (w_db w')" if honest: "honestRequests S (w_db w)"
      using second
    proof
      assume ready: "ec_OldEmailConfirmedAt req' \<noteq> None \<and> ec_NewEmailConfirmedAt req' \<noteq> None \<and> ec_NotBefore req' \<le> m \<and> w_tokens w' = w_tokens w2 \<and>
        t_emailChanges (w_db w') = updateWhere (\<lambda>x. ec_ID x = ec_ID req') (\<lambda>x. x\<lparr>ec_CompletedAt := Some m\<rparr>) (t_emailChanges (w_db w2))"
      have "honestRequest S (req'\<lparr>ec_CompletedAt := Some m\<rparr>)"
        using first [OF honest] ready by (auto simp: honestRequests_def honestRequest_def)
      then show ?thesis
        using honest_update [of S "w_db w2" "\<lambda>x. x\<lparr>ec_CompletedAt := Some m\<rparr>" req'] first [OF honest] ready
        by (simp add: honestRequests_def)
    qed (use first [OF honest] in simp)
    then show ?thesis by (simp add: staysHonest_def)
  qed
  have "obeys (overTables linksStaySpent) (ConfirmEmailChangeToken tok m)"
    by (intro obeying) simp
  then have grow: "w_tokens w \<le> w_tokens (snd (ConfirmEmailChangeToken tok m w))" for w
    by (simp add: obeys_def overTables_def)
  have "staysHonest S n (w_db w) (w_db (snd (ConfirmEmailChangeToken tok m w)))" for n w
  proof (cases "fst (ConfirmEmailChangeToken tok m w)")
    case (Inl e)
    then show ?thesis
      by (auto simp: ConfirmEmailChangeToken_def inTx_def rollingBack_def staysHonest_def split: prod.splits sum.splits)
  next
    case (Inr r)
    then have "ConfirmEmailChangeToken tok m w = (Inr r, snd (ConfirmEmailChangeToken tok m w))" by (simp add: prod_eq_iff)
    then obtain w1 w2 where "?body w1 = (Inr r, w2)" "w_db w1 = w_db w" "w_db (snd (ConfirmEmailChangeToken tok m w)) = w_db w2"
      unfolding ConfirmEmailChangeToken_def by (elim inTx_InrE) blast
    then show ?thesis using succeeded [of w1 r w2 n] by simp
  qed
  then show ?thesis using grow by (simp add: obeys_def overTables_def)
qed

interpretation honest: change_relation "staysHonest S" p S for S p
proof
  show "staysHonest S n db db'" if "t_emailChanges db' = t_emailChanges db" for n db db'
    using that by (simp add: staysHonest_def honestRequests_def)
  show "staysHonest S n db (db\<lparr>t_emailChanges := deleteWhere E (t_emailChanges db)\<rparr>)" for n db E
    by (simp add: staysHonest_def honest_deleteWhere)
qed (rule honest_create honest_confirm, assumption?)+

text \<open>The tokens presented in a history.\<close>

definition presented :: "(Clock \<times> call) list \<Rightarrow> string set" where
  "presented cs = {tok. \<exists>t. (t, CallConfirmEmailChange tok) \<in> set cs}"

text \<open>C22. An address changes only with the consent of both mailboxes: starting without pending requests, a
  request is completed after any history only if both its tokens were presented in it, and not before its
  waiting period was over.\<close>

theorem email_change_needs_both_addresses:
  assumes "t_emailChanges (w_db w) = []"
    and "r \<in> set (t_emailChanges (w_db (serve sv cs w)))" "ec_CompletedAt r = Some m"
  shows "{ec_OldEmailToken r, ec_NewEmailToken r} \<subseteq> presented cs \<and> ec_NotBefore r \<le> m"
proof -
  have "overTables (staysHonest (presented cs)) w (serve sv cs w)"
    by (rule honest.serve_obeys) (auto simp: presented_def)
  then have "honestRequest (presented cs) r"
    using assms(1,2) by (simp add: overTables_def staysHonest_def honestRequests_def)
  then show ?thesis using assms(3) by (simp add: honestRequest_def)
qed

end
