(* ===== verification/Account_Scenarios.thy ===== *)
theory Account_Scenarios
  imports Account_Links
begin

text \<open>
  A concrete service with a user, two devices, a personal access token, a magic link and an enrolled second
  factor, on which the hypotheses of the account theorems hold.
\<close>

definition example_prims :: Primitives where
  "example_prims = \<lparr>HashToken = \<lambda>s. CHR ''#'' # s, RandomToken = \<lambda>i. replicate (Suc i) CHR ''t'',
     RandomID = \<lambda>i. replicate (Suc i) CHR ''i'', SplitHost = \<lambda>s. None, HashPassword = \<lambda>s. Some (CHR ''!'' # s),
     VerifyPassword = \<lambda>pw h. h = CHR ''!'' # pw, Tie = \<lambda>s. 0\<rparr>"

text \<open>A stand-in for HMAC-SHA1: twenty bytes.\<close>

definition example_mac :: totp_mac where
  "example_mac secret counter = Some (replicate 20 0)"

definition example_mfa :: MfaConfig where
  "example_mfa = \<lparr>mf_mac = example_mac, mf_encrypt = \<lambda>s. Some (CHR ''x'' # s), mf_decrypt = \<lambda>s. Some (tl s)\<rparr>"

definition example_service :: Service where
  "example_service = \<lparr>sv_prims = example_prims, sv_sessions = \<lparr>m_absoluteTTL = 0, m_idleTTL = 0\<rparr>,
     sv_mfa = Some example_mfa, sv_redis = True, sv_mailer = False, sv_magicLinks = True, sv_pats = True,
     sv_RefreshTTL = 100 * minute, sv_MaxActiveSessions = 0, sv_PasswordMaxAgeDays = 0, sv_GDPRPurgeAfterDays = 0,
     sv_roles = \<lambda>i. Some [''viewer''], sv_workspace = \<lambda>i. Some ''ws'', sv_mfaRequired = None,
     sv_sign = \<lambda>u roles ws. Some ''jwt'', sv_signChallenge = \<lambda>i. Some ''challenge'', sv_readChallenge = \<lambda>s. None,
     sv_directory = \<lambda>e pw. Inr None, sv_autoCreate = False, sv_NormalizeEmail = Some, sv_SanitizeName = Some,
     sv_Policy = \<lambda>pw ids. None, sv_SelfSignup = Some True\<rparr>"

definition example_user :: User where
  "example_user = \<lparr>u_ID = ''u'', u_Email = ''a@b'', u_Username = None, u_DisplayName = None, u_AvatarURL = None,
     u_PasswordHash = Some ''!pw'', u_IsActive = True, u_EmailVerified = True, u_LastLoginAt = None,
     u_FrozenAt = None, u_DeletedAt = None, u_PurgeAfter = None, u_PasswordChangedAt = None\<rparr>"

definition example_session :: "string \<Rightarrow> moment \<Rightarrow> Session" where
  "example_session i active = \<lparr>s_ID = i, s_UserID = ''u'', s_RefreshToken = CHR ''#'' # i, s_UserAgent = None,
     s_IPAddress = None, s_DeviceFingerprint = None, s_CreatedAt = 0, s_ExpiresAt = 1000, s_LastActiveAt = active,
     s_AbsoluteExpiresAt = 2000, s_RevokedAt = None\<rparr>"

definition example_db :: AuthDB where
  "example_db = \<lparr>t_users = [example_user], t_userRoles = [], t_sessions = [example_session ''a'' 1, example_session ''b'' 2],
     t_pats = [\<lparr>pat_ID = ''p'', pat_UserID = ''u'', pat_Name = ''ci'', pat_TokenHash = ''#bqpat_x'', pat_TokenPrefix = ''bqpat_x'',
       pat_CreatedAt = 0, pat_ExpiresAt = None, pat_LastUsedAt = None, pat_RevokedAt = None\<rparr>],
     t_magicLinks = [\<lparr>ml_TokenHash = ''#link'', ml_Email = ''a@b'', ml_UserID = Some ''u'', ml_IPAddress = None,
       ml_ExpiresAt = 500, ml_ConsumedAt = None\<rparr>],
     t_unlocks = [], t_resets = [], t_verifications = [], t_emailChanges = [], t_oauth = [], t_history = [], t_devices = [],
     t_mfa = []\<rparr>"

definition example_world :: World where
  "example_world = \<lparr>w_db = example_db, w_redis = Map.empty, w_faults = [], w_tokens = 0, w_ids = 0\<rparr>"

definition example_time :: "moment \<Rightarrow> Clock" where
  "example_time m = \<lparr>now = m, dbNow = m\<rparr>"

lemma example_prims_inj: "inj (\<lambda>i. HashToken example_prims (RandomToken example_prims i))"
  by (rule injI) (simp add: example_prims_def)

lemma example_unissued: "\<not> unissued example_prims n (CHR ''#'' # CHR ''a'' # s)"
  by (simp add: unissued_def example_prims_def)

lemmas example_defs = example_service_def example_prims_def example_world_def example_db_def example_user_def example_session_def
  example_time_def example_mfa_def

lemma succeeded: "\<not> isl (fst r) \<Longrightarrow> r = (Inr (projr (fst r)), snd r)"
  by (cases r) (simp add: isl_def split: sum.splits)

section \<open>Sessions\<close>

abbreviation example_logout :: "(auth_error + unit) \<times> World" where
  "example_logout \<equiv> Logout example_service (example_time 3) ''a'' example_world"

abbreviation example_refresh :: "(auth_error + TokenResponse) \<times> World" where
  "example_refresh \<equiv> Refresh example_service (example_time 3) ''a'' None None example_world"

lemma example_unique: "distinct (map s_RefreshToken (t_sessions (w_db example_world)))" "distinct (map s_ID (t_sessions (w_db example_world)))"
  by (simp_all add: example_defs)

theorem retired_token_stays_retired_witness:
  "\<exists>e. fst (Refresh example_service (example_time 9) ''a'' None None
      (serve example_service [(example_time 4, CallRefresh ''b'' None None)] (snd example_logout))) = Inl e"
proof (rule retired_token_stays_retired)
  have "fst example_logout = Inr ()" by code_simp
  then show "example_logout = (Inr (), snd example_logout) \<or>
      Refresh example_service (example_time 3) ''a'' None None example_world = (Inr undefined, snd example_logout)"
    by (simp add: prod_eq_iff)
qed (use example_unique example_unissued [of _ "[]"] in \<open>simp_all add: example_service_def example_prims_def\<close>)

theorem no_refresh_after_absolute_expiry_witness:
  "\<exists>e. fst (Refresh example_service (example_time 2001) ''t'' None None (snd example_refresh)) = Inl e"
proof (rule no_refresh_after_absolute_expiry [where a = 2000 and tok = "''a''" and w = example_world])
  have "\<not> isl (fst example_refresh)" "tr_RefreshToken (projr (fst example_refresh)) = ''t''" by code_simp+
  then show "descends example_service ''a'' example_world ''t'' (snd example_refresh)"
    using descends.exchange [OF descends.start succeeded] by metis
  show "until 2000 (HashToken (sv_prims example_service) ''a'') (w_db example_world)"
    by (simp add: rowsSatisfy_def example_defs)
qed (use example_prims_inj example_unissued [of _ "[]"] in \<open>simp_all add: example_service_def example_prims_def example_time_def\<close>)

abbreviation example_evict :: "(auth_error + string list) \<times> World" where
  "example_evict \<equiv> EnforceMaxSessions (sv_prims example_service) (example_time 5) ''u'' 1 example_world"

lemma example_evicted: "example_evict = (Inr [''a''], snd example_evict)" "w_faults (snd example_evict) = []"
proof -
  have "fst example_evict = Inr [''a'']" by code_simp
  then show "example_evict = (Inr [''a''], snd example_evict)" by (simp add: prod_eq_iff)
  show "w_faults (snd example_evict) = []" by code_simp
qed

theorem EnforceMaxSessions_limits_witness:
  "length (filter (isActiveSession (example_time 5) ''u'') (t_sessions (w_db (snd example_evict)))) \<le> nat 1"
  using EnforceMaxSessions_limits [OF example_evicted(1)] by simp

theorem evicted_device_signs_user_out_witness:
  "fst (Refresh example_service (example_time 6) ''a'' None None (snd example_evict)) = Inl ErrSessionRevoked"
proof -
  have "example_session ''a'' 1 \<in> set (t_sessions (w_db example_world))" "s_ID (example_session ''a'' 1) \<in> set [''a'']"
    "s_RefreshToken (example_session ''a'' 1) = HashToken (sv_prims example_service) ''a''"
    by (simp_all add: example_defs)
  then show ?thesis
    using evicted_device_signs_user_out [OF example_evicted(1) _ example_evicted(2), where s = "example_session ''a'' 1"] example_unique by simp
qed

theorem concurrent_refreshes_fork_session_witness:
  "\<exists>tok1 tok2 w1 w2. rotateRead example_prims ''a'' example_world = (Inr (example_session ''a'' 1), example_world) \<and>
    rotateRow example_prims NewSessionManager (example_time 3) ''a'' 50 None None (example_session ''a'' 1) example_world = (Inr tok1, w1) \<and>
    rotateRow example_prims NewSessionManager (example_time 4) ''a'' 50 None None (example_session ''a'' 1) w1 = (Inr tok2, w2) \<and> tok1 \<noteq> tok2 \<and>
    (\<forall>k\<in>{tok1, tok2}. \<exists>r\<in>set (t_sessions (w_db w2)).
       s_RefreshToken r = HashToken example_prims k \<and> s_UserID r = s_UserID (example_session ''a'' 1) \<and> s_RevokedAt r = None)"
proof (rule concurrent_refreshes_fork_session)
  show "\<forall>r\<in>set (t_sessions (w_db example_world)). \<not> unissued example_prims (w_tokens example_world) (s_RefreshToken r)"
    by (auto simp: unissued_def example_defs)
qed (use example_prims_inj in \<open>simp_all add: example_defs rotatable_def NewSessionManager_def\<close>)

section \<open>Access\<close>

abbreviation example_login :: "(auth_error + TokenResponse) \<times> World" where
  "example_login \<equiv> Login example_service (example_time 3) ''a@b'' ''pw'' None None example_world"

theorem sessions_only_in_good_standing_witness:
  "tr_UserID (projr (fst example_login)) = ''u'' \<and> inGoodStanding (w_db (snd example_login)) ''u''"
proof -
  have "\<not> isl (fst example_login)" "distinct (map u_ID (t_users (w_db (snd example_login))))"
    "\<not> tr_MFARequired (projr (fst example_login))" "tr_UserID (projr (fst example_login)) = ''u''"
    by code_simp+
  then show ?thesis
    using sessions_only_in_good_standing [OF disjI1 [OF succeeded [of example_login]]] by auto
qed

abbreviation example_freeze :: "(auth_error + unit) \<times> World" where
  "example_freeze \<equiv> FreezeAccount (example_time 3) ''u'' example_world"

lemma example_frozen: "example_freeze = (Inr (), snd example_freeze)" "w_faults (snd example_freeze) = []"
proof -
  have "fst example_freeze = Inr ()" by code_simp
  then show "example_freeze = (Inr (), snd example_freeze)" by (simp add: prod_eq_iff)
  show "w_faults (snd example_freeze) = []" by code_simp
qed

theorem frozen_account_keeps_access_witness:
  "(\<exists>resp w2. passkeyLogin example_service (example_time 4) ''u'' None None (snd example_freeze) = (Inr resp, w2) \<and>
      tr_UserID resp = ''u'' \<and> tr_RefreshToken resp = ''t'') \<and>
    (\<exists>ident w2. VerifyAccessToken example_service (example_time 4) ''bqpat_x'' (snd example_freeze) = (Inr ident, w2) \<and> pi_UserID ident = ''u'')"
proof -
  have "RandomToken (sv_prims example_service) (w_tokens example_world) = ''t''" by (simp add: example_defs)
  moreover have "find (\<lambda>v. u_ID v = ''u'') (t_users (w_db example_world)) = Some example_user" "u_IsActive example_user"
    by (simp_all add: example_defs)
  ultimately show ?thesis
    using frozen_account_keeps_access [OF example_frozen, where sv = example_service and roles = "[''viewer'']" and ws = "''ws''"
        and t = "example_time 4" and plain = "''bqpat_x''" and u = example_user and ua = None and ip = None]
    by (simp add: example_defs)
qed

abbreviation example_guesses :: "World option" where
  "example_guesses \<equiv> guesses example_service ''a@b'' (replicate 5 (example_time 3, ''no'')) example_world"

theorem five_wrong_passwords_lock_witness:
  "fst (Login example_service (example_time 4) ''a@b'' ''pw'' None None (the example_guesses)) = Inl ErrAccountLocked"
proof -
  have "\<not> Option.is_none example_guesses" by code_simp
  then have "example_guesses = Some (the example_guesses)" by (cases example_guesses) auto
  then have "Login example_service (example_time 4) ''a@b'' ''pw'' None None (the example_guesses) = (Inl ErrAccountLocked, the example_guesses)"
    by (rule five_wrong_passwords_lock [where m = 5]) (simp_all add: example_defs minute_def second_def)
  then show ?thesis by simp
qed

section \<open>The second factor\<close>

definition example_enrolled :: World where
  "example_enrolled = example_world\<lparr>w_db := example_db\<lparr>t_mfa := [\<lparr>en_UserID = ''u'', en_Method = ''totp'', en_Secret = ''xs'',
     en_RecoveryCodes = [], en_BypassCodes = [], en_Enabled = True, en_VerifiedAt = None, en_LastUsedAt = None,
     en_LastTOTPStep = 0\<rparr>]\<rparr>\<rparr>"

abbreviation example_enroll :: "(auth_error + string \<times> string list) \<times> World" where
  "example_enroll \<equiv> Enroll example_prims example_mfa ''u'' example_enrolled"

lemma generateRecoveryCodes_up:
  assumes "\<And>s. HashPassword p s \<noteq> None"
  shows "\<exists>r n. generateRecoveryCodes p k w = (Inr r, w\<lparr>w_tokens := n\<rparr>)"
proof (induction k arbitrary: w)
  case 0
  show ?case by (rule exI, rule exI [where x = "w_tokens w"]) (simp add: retA_def)
next
  case (Suc k)
  let ?w = "w\<lparr>w_tokens := Suc (w_tokens w)\<rparr>"
  obtain h where h: "HashPassword p (normalizeRecoveryCode (formatRecoveryCode (RandomToken p (w_tokens w)))) = Some h"
    using assms by blast
  obtain plain hashes n where "generateRecoveryCodes p k ?w = (Inr (plain, hashes), ?w\<lparr>w_tokens := n\<rparr>)"
    using Suc.IH [of ?w] by auto
  then have "generateRecoveryCodes p (Suc k) w =
      (Inr (formatRecoveryCode (RandomToken p (w_tokens w)) # plain, h # hashes), w\<lparr>w_tokens := n\<rparr>)"
    using h by (simp add: bindA_def drawToken_def fromOption_def retA_def)
  then show ?case by blast
qed

lemma example_enrolls: "\<exists>r. fst example_enroll = Inr r" "w_faults (snd example_enroll) = []"
proof -
  obtain plain hashes n where codes: "generateRecoveryCodes example_prims recoveryCodeCount (example_enrolled\<lparr>w_tokens := 1\<rparr>) =
      (Inr (plain, hashes), example_enrolled\<lparr>w_tokens := n\<rparr>)"
    using generateRecoveryCodes_up [of example_prims recoveryCodeCount "example_enrolled\<lparr>w_tokens := 1\<rparr>"]
    by (auto simp: example_prims_def)
  have first: "drawToken example_prims example_enrolled = (Inr ''t'', example_enrolled\<lparr>w_tokens := 1\<rparr>)"
    by (simp add: drawToken_def example_enrolled_def example_defs)
  have "\<exists>w'. Upsert example_mfa ''u'' ''totp'' ''t'' hashes (example_enrolled\<lparr>w_tokens := n\<rparr>) = (Inr (), w') \<and> w_faults w' = []"
    by (simp add: Upsert_def bindA_def fromOption_def retA_def statement_def outcomeA_def example_enrolled_def example_defs)
  then obtain w' where stored: "Upsert example_mfa ''u'' ''totp'' ''t'' hashes (example_enrolled\<lparr>w_tokens := n\<rparr>) = (Inr (), w')" "w_faults w' = []"
    by blast
  show "\<exists>r. fst example_enroll = Inr r" "w_faults (snd example_enroll) = []"
    by (simp_all add: Enroll_def bindA_def first codes [simplified] stored [simplified] retA_def)
qed

theorem Enroll_switches_second_factor_off_witness:
  "fst (loginMFAGate example_service example_user example_enrolled) \<noteq> Inr None \<and>
   fst (loginMFAGate example_service example_user (snd example_enroll)) = Inr None"
proof
  have "\<not> isl (fst example_enroll)" "w_faults (snd example_enroll) = []" using example_enrolls by auto
  then have "loginMFAGate example_service example_user (snd example_enroll) = (Inr None, snd example_enroll)"
    by (intro Enroll_switches_second_factor_off [OF succeeded]) (simp_all add: example_defs)
  then show "fst (loginMFAGate example_service example_user (snd example_enroll)) = Inr None" by simp
  show "fst (loginMFAGate example_service example_user example_enrolled) \<noteq> Inr None" by code_simp
qed

lemma example_codes: "generateTOTPCode example_mac s c = Some ''000000''"
proof -
  have "truncateMac (replicate 20 0) = 0" by (simp add: truncateMac_def)
  then have "generateTOTPCode example_mac s c = Some (padded totpDigits 0)" by (simp add: generateTOTPCode_def example_mac_def)
  also have "padded totpDigits 0 = ''000000''" by code_simp
  finally show ?thesis .
qed

theorem VerifyTOTP_accepts_iff_witness:
  "VerifyTOTP example_mac ''s'' '' 000000 '' 75 \<longleftrightarrow>
    (\<exists>k\<in>{-1, 0, 1}. 0 \<le> (75::int) div 30 + k \<and> generateTOTPCode example_mac ''s'' (stepAt 75 k) = Some (TrimSpace '' 000000 ''))"
  by (rule VerifyTOTP_accepts_iff) (simp_all add: example_mac_def)

abbreviation example_verify :: "(auth_error + unit) \<times> World" where
  "example_verify \<equiv> VerifyCode example_prims example_mfa (example_time 60000000000) ''u'' ''000000'' example_enrolled"

abbreviation example_between :: World where
  "example_between \<equiv> serve example_service [(example_time 60000000000, CallBypassCode example_mfa ''u'')] (snd example_verify)"

lemma example_step: "VerifyTOTPStep example_mac ''s'' ''000000'' 60 = Some 1"
proof -
  have "TrimSpace ''000000'' = ''000000''" by code_simp
  then show ?thesis
    using totpCounter_value [of 60] by (simp add: VerifyTOTPStep_def totpDigits_def totpCounterWithSkew_def skews_value example_codes)
qed

lemma example_unix: "unixTime (now (example_time 60000000000)) = 60"
  by (simp add: unixTime_def example_time_def)

definition example_used :: Enrollment where
  "example_used = \<lparr>en_UserID = ''u'', en_Method = ''totp'', en_Secret = ''xs'', en_RecoveryCodes = [], en_BypassCodes = [],
     en_Enabled = True, en_VerifiedAt = None, en_LastUsedAt = Some 60000000000, en_LastTOTPStep = 1\<rparr>"

lemma example_verified: "example_verify = (Inr (), example_enrolled\<lparr>w_db := example_db\<lparr>t_mfa := [example_used]\<rparr>\<rparr>)"
proof -
  have "mfaGet example_mfa ''u'' example_enrolled =
      (Inr (hd (t_mfa (w_db example_enrolled))\<lparr>en_Secret := ''s''\<rparr>), example_enrolled)"
    by (simp add: mfaGet_def bindA_def mfaRow_def statement_def outcomeA_def fromOption_def retA_def example_enrolled_def example_defs)
  moreover have "ConsumeTOTPStep (example_time 60000000000) ''u'' 1 example_enrolled =
      (Inr True, example_enrolled\<lparr>w_db := example_db\<lparr>t_mfa := [example_used]\<rparr>\<rparr>)"
    by (simp add: ConsumeTOTPStep_def consumeWhere_def updateWhere_def statement_def outcomeA_def example_used_def
        example_enrolled_def example_defs)
  ultimately show ?thesis
    by (simp add: VerifyCode_def bindA_def retA_def example_unix example_step example_mfa_def example_enrolled_def)
qed

lemma example_bypassed: "w_faults example_between = []"
  "mfaRow ''u'' (w_db example_between) = Some (example_used\<lparr>en_BypassCodes := [''!BYPASS-t'']\<rparr>)"
proof -
  let ?w = "example_enrolled\<lparr>w_db := example_db\<lparr>t_mfa := [example_used]\<rparr>\<rparr>"
  have get: "mfaGet example_mfa ''u'' ?w = (Inr (example_used\<lparr>en_Secret := ''s''\<rparr>), ?w)"
    by (simp add: mfaGet_def bindA_def mfaRow_def statement_def outcomeA_def fromOption_def retA_def example_used_def
        example_enrolled_def example_defs)
  have draw: "drawToken example_prims ?w = (Inr ''t'', ?w\<lparr>w_tokens := 1\<rparr>)"
    by (simp add: drawToken_def example_enrolled_def example_world_def example_prims_def)
  have add: "AddBypassCode ''u'' ''!BYPASS-t'' (?w\<lparr>w_tokens := 1\<rparr>) =
      (Inr (), ?w\<lparr>w_tokens := 1, w_db := example_db\<lparr>t_mfa := [example_used\<lparr>en_BypassCodes := [''!BYPASS-t'']\<rparr>]\<rparr>\<rparr>)"
    by (simp add: AddBypassCode_def updateMfa_def updateWhere_def statement_def outcomeA_def example_used_def
        example_enrolled_def example_world_def)
  have enabled: "en_Enabled example_used" by (simp add: example_used_def)
  have prims: "sv_prims example_service = example_prims" "HashPassword example_prims ''BYPASS-t'' = Some ''!BYPASS-t''"
    by (simp_all add: example_service_def example_prims_def)
  have "GenerateBypassCode example_prims example_mfa ''u'' ?w =
      (Inr ''BYPASS-t'', ?w\<lparr>w_tokens := 1, w_db := example_db\<lparr>t_mfa := [example_used\<lparr>en_BypassCodes := [''!BYPASS-t'']\<rparr>]\<rparr>\<rparr>)"
    using prims enabled by (simp add: GenerateBypassCode_def bindA_def get draw [simplified] add [simplified] fromOption_def retA_def)
  then have "example_between = ?w\<lparr>w_tokens := 1, w_db := example_db\<lparr>t_mfa := [example_used\<lparr>en_BypassCodes := [''!BYPASS-t'']\<rparr>]\<rparr>\<rparr>"
    using prims by (simp add: example_verified)
  then show "w_faults example_between = []"
    "mfaRow ''u'' (w_db example_between) = Some (example_used\<lparr>en_BypassCodes := [''!BYPASS-t'']\<rparr>)"
    by (simp_all add: mfaRow_def example_enrolled_def example_world_def example_used_def)
qed

theorem totp_step_used_once_witness:
  "fst (VerifyCode example_prims example_mfa (example_time 60000000000) ''u'' ''000000'' example_between) = Inl ErrTOTPCodeAlreadyUsed"
proof -
  have row: "mfaRow ''u'' (w_db example_enrolled) = Some (hd (t_mfa (w_db example_enrolled)))"
    by (simp add: mfaRow_def example_enrolled_def)
  have facts: "mf_decrypt example_mfa (en_Secret (hd (t_mfa (w_db example_enrolled)))) = Some ''s''"
    "mf_decrypt example_mfa (en_Secret (example_used\<lparr>en_BypassCodes := bs\<rparr>)) = Some ''s''"
    "en_Enabled (example_used\<lparr>en_BypassCodes := bs\<rparr>)" "mf_mac example_mfa = example_mac" for bs
    by (simp_all add: example_mfa_def example_enrolled_def example_used_def)
  have "snd example_verify = example_enrolled\<lparr>w_db := example_db\<lparr>t_mfa := [example_used]\<rparr>\<rparr>"
    by (simp add: example_verified)
  then have "VerifyCode example_prims example_mfa (example_time 60000000000) ''u'' ''000000'' example_between
      = (Inl ErrTOTPCodeAlreadyUsed, example_between)"
    by (intro totp_step_used_once [OF example_verified row facts(1) _ _ _ example_bypassed facts(3) facts(2), where ?step = 1 and ?step2.0 = 1
          and ?cs = "[(example_time 60000000000, CallBypassCode example_mfa ''u'')]" and ?sv = example_service])
      (simp_all add: facts(4) example_unix example_step)
  then show ?thesis by simp
qed

section \<open>Links and addresses\<close>

abbreviation example_follow :: "(auth_error + TokenResponse) \<times> World" where
  "example_follow \<equiv> ConsumeMagicLink example_service (example_time 3) ''link'' None None example_world"

theorem magic_link_used_once_witness:
  "\<exists>e. fst (ConsumeMagicLink example_service (example_time 5) ''link'' None None
      (serve example_service [(example_time 4, CallRequestMagicLink ''a@b'' [])] (snd example_follow))) = Inl e"
proof -
  have "\<not> isl (fst example_follow)" by code_simp
  then show ?thesis by (intro magic_link_used_once [OF succeeded])
qed

definition example_history :: "(Clock \<times> call) list" where
  "example_history = [(example_time 1, CallRequestEmailChange ''u'' ''c@d''),
     (example_time (25 * hour), CallConfirmEmailChange ''t''), (example_time (26 * hour), CallConfirmEmailChange ''tt'')]"

abbreviation example_changed :: "EmailChangeRequest list" where
  "example_changed \<equiv> t_emailChanges (w_db (serve example_service example_history example_world))"

theorem email_change_needs_both_addresses_witness:
  "ec_CompletedAt (hd example_changed) = Some (26 * hour) \<and> {ec_OldEmailToken (hd example_changed), ec_NewEmailToken (hd example_changed)} \<subseteq> presented example_history"
proof -
  have "example_changed \<noteq> []" "ec_CompletedAt (hd example_changed) = Some (26 * hour)" by code_simp+
  moreover have "t_emailChanges (w_db example_world) = []" by (simp add: example_defs)
  ultimately show ?thesis
    using email_change_needs_both_addresses [of example_world "hd example_changed" example_service example_history] by simp
qed

end
