(* ===== verification/Spec2Isabelle.thy ===== *)
theory Spec2Isabelle
  imports Read_Only_Spec PII Compiler_Termination Agent_Runtime Account_Scenarios
begin

text \<open>
  biqly answers analytical questions: a question (or a program) yields a logical query over a semantic
  model, which is validated, planned, compiled to the SQL of the datasource's dialect under the user's
  access policy, checked to be read-only and executed; an agent runtime lets a planner do this in several
  policy-checked steps. An authentication service decides who may do this. This development models the
  parts of it that decide who is let in, what may be asked, what is asked and what the database may be
  told, and proves what those parts promise.

  \<^bold>\<open>Theories and sources\<close> (all below \<open>src/\<close>).

  \<^item> \<open>Go_Prelude\<close>: Go strings (byte lists), \<open>strings\<close> functions, dynamic values, error selection; the
    lemma collections the other theories use.
  \<^item> \<open>Expr_AST\<close>: \<open>pkg/semantic/expr.go\<close>, \<open>expr_validation.go\<close>, \<open>expr_lineage.go\<close>. Validation accepts exactly
    the trees whose every node is allowed; lineage is exact.
  \<^item> \<open>Semantic_Model\<close>: \<open>pkg/semantic/types.go\<close> and \<open>composite.go\<close>, the records of models.
  \<^item> \<open>Logical_Query\<close>: \<open>pkg/logicalquery/types.go\<close>. The GROUP BY normalisation is correct and idempotent.
  \<^item> \<open>Read_Only\<close>, \<open>Read_Only_Spec\<close>: \<open>internal/security/readonly.go\<close> and \<open>function_blocklist.go\<close>; the second
    theory is the lexical specification the scanners refine, and what an accepted text cannot contain.
  \<^item> \<open>Dialects\<close>: \<open>internal/dialect\<close>. Identifiers and string literals read back as what was quoted (locale
    \<open>segment_quoter\<close>); numbered placeholders are distinct (locale \<open>numbered_placeholders\<close>).
  \<^item> \<open>Permissions\<close>: \<open>internal/security\<close> policies, row filters, composite merging.
  \<^item> \<open>PII\<close>: \<open>internal/security/pii\<close>: checksums, matchers, role policy, masking.
  \<^item> \<open>Metric_Graph\<close>: \<open>internal/semantic/metric_graph.go\<close>: the references of an expression and the
    depth-first cycle search. The recursion depth of \<open>visit\<close> is bounded by the number of nodes and
    edges; the theorems say that this is enough for every graph, so the bound is never reached.
  \<^item> \<open>Query_Planning\<close>: \<open>internal/query\<close> physical references, join types, suggestions, planner.
  \<^item> \<open>Calendar_Grain\<close>, \<open>Query_Validator\<close>: \<open>internal/query/validator.go\<close>, the decisions of
    \<open>calendar_grain_filter.go\<close>, the metric registry. An accepted query names only what the model has;
    what the validator does not look at is stated as well.
  \<^item> \<open>Expr_Parser\<close>: \<open>internal/query/expression_parse.go\<close>, lexer and recursive descent over a token list.
  \<^item> \<open>Expr_Compiler\<close>: \<open>internal/query/expr_compiler.go\<close>: an expression tree to SQL, with the column policy,
    in a state monad over the columns and flags the compiler collects.
  \<^item> \<open>Join_Paths\<close>: the tables a query refers to and the joins of \<open>internal/query/compiler.go\<close>. The breadth
    first search finds every table that can be reached; each join adds one new table to a connected set.
  \<^item> \<open>Query_Compiler\<close>: \<open>compiler.go\<close>, \<open>compiler_nested.go\<close>, \<open>compiler_filter.go\<close>, \<open>compiler_case.go\<close>: the
    clauses, nested statements, row filters and policy decisions, composed as \<open>compileStatement\<close> composes
    them, in a monad over the compiler object's fields.
  \<^item> \<open>Compiler_State\<close>: what every step of the compiler does to its state (locale \<open>evolution\<close>: a reflexive
    and transitive relation kept by each step), \<open>Compiler_Safety\<close>: what every compiled statement contains,
    \<open>Compiler_Termination\<close>: when compilation ends.
  \<^item> \<open>Agent_Policy\<close>: \<open>internal/agent/contracts.go\<close>, \<open>policy.go\<close>, \<open>planner.go\<close> (locale \<open>envelope\<close> for the four
    message contracts).
  \<^item> \<open>Agent_Runtime\<close>: \<open>internal/agent/runtime.go\<close>, \<open>tools.go\<close>. The run loop is a total function over an
    environment of planner, tools, store, clock and cancellation; it refines the step relation \<open>outcome\<close>
    and its closure \<open>runs\<close>, on which the invariants are proved by rule induction (locale
    \<open>state_invariant\<close>). The loop ends because each continuing iteration adds a step and \<open>MaxSteps\<close> bounds
    them.
  \<^item> \<open>Account_Store\<close>: the account tables and the statements of \<open>internal/auth\<close> on them (\<open>session.go\<close>,
    \<open>account_state.go\<close>, \<open>magiclink.go\<close>, \<open>pat.go\<close>, \<open>repository.go\<close>), in a monad over a state that holds the
    tables, Redis and the outcomes of the coming calls; \<open>MFA\<close>: \<open>internal/auth/mfa\<close>, one-time codes on machine
    words; \<open>Account_Service\<close>: \<open>service.go\<close> and the \<open>service_*.go\<close> files, every way to a session.
  \<^item> \<open>Account_State\<close>: the calls of the service as data, their histories (\<open>serve\<close>), and the locales for a
    relation every call obeys (\<open>world_relation\<close>, \<open>table_relation\<close>, \<open>session_relation\<close>, \<open>link_relation\<close>,
    \<open>change_relation\<close>). \<open>Account_Safety\<close>, \<open>Account_Access\<close>, \<open>Second_Factor\<close>, \<open>Account_Links\<close>: refresh tokens
    and sessions, who is let in, codes, links and changes of address, over any history of calls and any
    failures of the database and Redis; \<open>Account_Scenarios\<close>: a concrete service for the witnesses.

  \<^bold>\<open>Conventions.\<close> Strings are byte lists. A Go map is a partial function, or an association list where its
  order is observed; where the code ranges over a map, the order is a parameter and the theorems hold
  for every order. Errors are values of a sum or option type with one constructor per error the code
  returns. Integers are unbounded where the code's are sizes, counts or limits that stay far below the
  machine range.

  \<^bold>\<open>Depths.\<close> The compiler recurses between metrics (\<open>metricAggregateN\<close>) and into nested statements
  (\<open>compileStatement\<close>) with no bound of its own. Both take a depth, and reaching zero is an outcome of its
  own, different from every error of the code. \<open>CompileWithPermissions_answers\<close> says which depths are
  enough (more than the rank of every metric, more than the nesting of the query), and
  \<open>self_reference_never_compiles\<close> that for some models none is.

  \<^bold>\<open>Parameters.\<close> The JSON codec, the language model planner, the tools, the state store, the clock, the
  column type lookup, \<open>fmt.Sprint\<close> of a filter value and the decimal text of a float are arguments of the
  definitions that use them. So are, for the authentication service, the token hash, the random tokens, the
  password hash, HMAC-SHA1, encryption at rest, the token signer, the directory, roles and workspaces of a
  user, and the normalisation of addresses.

  \<^bold>\<open>Not modelled.\<close> HTTP handlers, the AI generation service, mail, queues, SQL repositories,
  configuration and the front end: see the component list of the manifest.
\<close>

section \<open>Row-level security and identifier quoting together\<close>

lemma length_filtersSQL [simp]: "length (filtersSQL d dm fs phs) = length fs"
  by (induction fs arbitrary: phs) auto

lemma filtersSQL_nth:
  "i < length fs \<Longrightarrow>
   \<exists>ps. filtersSQL d dm fs phs ! i = filterSQL (QuoteIdent d (the (dm (rf_Field (fs ! i))))) (fs ! i) ps"
proof (induction fs arbitrary: phs i)
  case (Cons f fs)
  then show ?case by (cases i) auto
qed simp

lemma filterSQL_shape: "\<exists>tail. filterSQL q rf ps = q @ '' '' @ tail"
  by (auto simp: filterSQL_def split: option.splits)

lemma space_ends_identifier: "\<not> starts ('' '' @ tail) (rightQuote k)" "\<not> starts ('' '' @ tail) CHR ''.''"
  by (cases k; simp add: rightQuote_def dialect_instances)+

text \<open>C31. Every row-level security predicate constrains the column the model configured for its field,
  and nothing can break out of the identifier: in every dialect the predicate of the i-th applicable
  filter, read by the dialect's own identifier rules, starts with exactly the dotted parts of the
  configured column and goes on with the operator.\<close>

theorem row_filters_constrain_configured_columns:
  assumes "BuildRowFilterPredicates (globalInstance k) dimMap filters n omit = Inr (preds, args)"
    and "i < length preds"
  shows "\<exists>col tail. i < length (knownFilters dimMap filters) \<and>
    dimMap (rf_Field (knownFilters dimMap filters ! i)) = Some col \<and>
    readQualified (length col + 1) (leftQuote k) (rightQuote k) (preds ! i) =
      Some (Split col CHR ''.'', '' '' @ tail)"
proof -
  let ?fs = "knownFilters dimMap filters"
  have preds: "preds = filtersSQL (globalInstance k) dimMap ?fs (numbered (globalInstance k) n (length args))"
    using assms(1) buildLoop_ok [of filters dimMap omit "globalInstance k" n "[]" "[]"]
      buildLoop_bad [of dimMap omit _ filters "globalInstance k" n "[]" "[]"]
    by (fastforce simp: BuildRowFilterPredicates_def)
  then have i: "i < length ?fs" using assms(2) by simp
  then have "?fs ! i \<in> set ?fs" by (rule nth_mem)
  then obtain col where col: "dimMap (rf_Field (?fs ! i)) = Some col" by (auto simp: knownFilters_def)
  obtain ps where "preds ! i = filterSQL (QuoteIdent (globalInstance k) col) (?fs ! i) ps"
    using filtersSQL_nth [OF i] preds col by (metis option.sel)
  then obtain tail where "preds ! i = QuoteIdent (globalInstance k) col @ '' '' @ tail"
    using filterSQL_shape by metis
  then have "readQualified (length col + 1) (leftQuote k) (rightQuote k) (preds ! i) = Some (Split col CHR ''.'', '' '' @ tail)"
    using dq.read_qualified [OF space_ends_identifier(1) [of tail k] space_ends_identifier(2) [of tail], of col]
    by (simp add: QuoteIdent_def del: readQualified.simps)
  then show ?thesis using i col by blast
qed

theorem row_filters_constrain_configured_columns_witness:
  "\<exists>tail. readQualified 14 (leftQuote PostgresDialect) (rightQuote PostgresDialect)
      ''\"orders\".\"region\" IN ($3, $4)'' = Some (Split ''orders.region'' CHR ''.'', '' '' @ tail)"
proof -
  have run: "BuildRowFilterPredicates (globalInstance PostgresDialect) example_dimMap example_filters 2 False =
     Inr ([''\"orders\".\"region\" IN ($3, $4)'', ''\"orders\".\"tenant_id\" <> $5''],
          [AStr ''eu'', AStr ''us'', AInt 7])"
    using example_filters_run by simp
  have first: "knownFilters example_dimMap example_filters ! 0 = example_filters ! 0"
    "example_dimMap (rf_Field (example_filters ! 0)) = Some ''orders.region''"
    by (simp_all add: knownFilters_def example_filters_def example_dimMap_def)
  obtain col tail where *: "example_dimMap (rf_Field (knownFilters example_dimMap example_filters ! 0)) = Some col"
    "readQualified (length col + 1) (leftQuote PostgresDialect) (rightQuote PostgresDialect)
      ([''\"orders\".\"region\" IN ($3, $4)'', ''\"orders\".\"tenant_id\" <> $5''] ! 0) =
      Some (Split col CHR ''.'', '' '' @ tail)"
    using row_filters_constrain_configured_columns [OF run, of 0] by fastforce
  have "col = ''orders.region''" using *(1) first by (simp only: option.inject)
  moreover have "length ''orders.region'' + 1 = 14" by simp
  ultimately show ?thesis using *(2) by (metis nth_Cons_0)
qed

end
